(* ===== verification/Prelude.thy ===== *)
theory Prelude imports Main "HOL-Library.AList" begin

text \<open>
  Shared vocabulary of the development: results that may be Python exceptions, Python
  dictionaries as association lists that keep insertion order, and the string operations
  (\<open>startswith\<close>, \<open>split\<close>, \<open>join\<close>, \<open>lower\<close>, decimal numerals) the modelled code uses.
  Lemmas that drive the component proofs are declared \<open>[simp]\<close> or collected in
  \<open>dict_simps\<close> and \<open>res_simps\<close>.
\<close>

named_theorems dict_simps
named_theorems res_simps

section \<open>Results\<close>

text \<open>A computation either raises (\<open>Inl\<close>) or returns (\<open>Inr\<close>).\<close>

fun bindr :: "'e + 'a \<Rightarrow> ('a \<Rightarrow> 'e + 'b) \<Rightarrow> 'e + 'b" where
  "bindr (Inl e) f = Inl e"
| "bindr (Inr x) f = f x"

lemma bindr_Inr_iff [res_simps]: "bindr m f = Inr y \<longleftrightarrow> (\<exists>x. m = Inr x \<and> f x = Inr y)"
  by (cases m) auto

lemma bindr_Inl_iff [res_simps]:
  "bindr m f = Inl e \<longleftrightarrow> m = Inl e \<or> (\<exists>x. m = Inr x \<and> f x = Inl e)"
  by (cases m) auto

lemma bindr_cong [fundef_cong]:
  "m = m' \<Longrightarrow> (\<And>x. m' = Inr x \<Longrightarrow> f x = g x) \<Longrightarrow> bindr m f = bindr m' g"
  by (cases m') auto

text \<open>Evaluating a comprehension left to right stops at the first exception.\<close>

fun mapr :: "('a \<Rightarrow> 'e + 'b) \<Rightarrow> 'a list \<Rightarrow> 'e + 'b list" where
  "mapr f [] = Inr []"
| "mapr f (x # xs) = bindr (f x) (\<lambda>y. bindr (mapr f xs) (\<lambda>ys. Inr (y # ys)))"

lemma mapr_cong [fundef_cong]:
  "xs = ys \<Longrightarrow> (\<And>x. x \<in> set ys \<Longrightarrow> f x = g x) \<Longrightarrow> mapr f xs = mapr g ys"
proof (induction ys arbitrary: xs)
  case (Cons a ys)
  then have "mapr f ys = mapr g ys" by simp
  with Cons.prems show ?case by simp
qed simp

lemma mapr_Inr_iff: "mapr f xs = Inr ys \<longleftrightarrow> list_all2 (\<lambda>x y. f x = Inr y) xs ys"
  by (induction xs arbitrary: ys) (auto simp: res_simps list_all2_Cons1)

lemma mapr_Inr_length: "mapr f xs = Inr ys \<Longrightarrow> length ys = length xs"
  by (auto simp: mapr_Inr_iff list_all2_lengthD)

lemma mapr_source: "mapr f xs = Inr ys \<Longrightarrow> y \<in> set ys \<Longrightarrow> \<exists>x \<in> set xs. f x = Inr y"
  by (force simp: mapr_Inr_iff list_all2_conv_all_nth in_set_conv_nth)

lemma mapr_image: "mapr f xs = Inr ys \<Longrightarrow> x \<in> set xs \<Longrightarrow> \<exists>y \<in> set ys. f x = Inr y"
  by (force simp: mapr_Inr_iff list_all2_conv_all_nth in_set_conv_nth)

lemma mapr_Inr_map: "(\<And>x. x \<in> set xs \<Longrightarrow> f x = Inr (g x)) \<Longrightarrow> mapr f xs = Inr (map g xs)"
  by (induction xs) auto

lemma mapr_Inl_split:
  "mapr f xs = Inl e \<Longrightarrow>
    \<exists>us x vs. xs = us @ x # vs \<and> f x = Inl e \<and> (\<forall>u\<in>set us. \<exists>y. f u = Inr y)"
proof (induction xs)
  case (Cons a xs)
  show ?case
  proof (cases "f a")
    case (Inl e')
    with Cons.prems have "f a = Inl e" by simp
    then have "a # xs = [] @ a # xs \<and> f a = Inl e \<and> (\<forall>u\<in>set []. \<exists>y. f u = Inr y)" by simp
    then show ?thesis by blast
  next
    case (Inr y)
    with Cons.prems have "mapr f xs = Inl e" by (simp add: res_simps)
    with Cons.IH obtain us x vs where
      "xs = us @ x # vs" "f x = Inl e" "\<forall>u\<in>set us. \<exists>y. f u = Inr y" by blast
    with Inr have "a # xs = (a # us) @ x # vs \<and> f x = Inl e \<and> (\<forall>u\<in>set (a # us). \<exists>y. f u = Inr y)"
      by simp
    then show ?thesis by blast
  qed
qed simp

text \<open>A \<open>for\<close> loop that threads a state and may raise.\<close>

fun foldr_res :: "('a \<Rightarrow> 's \<Rightarrow> 'e + 's) \<Rightarrow> 'a list \<Rightarrow> 's \<Rightarrow> 'e + 's" where
  "foldr_res f [] s = Inr s"
| "foldr_res f (x # xs) s = bindr (f x s) (foldr_res f xs)"

lemma foldr_res_append:
  "foldr_res f (xs @ ys) s = bindr (foldr_res f xs s) (foldr_res f ys)"
proof (induction xs arbitrary: s)
  case (Cons x xs)
  then show ?case by (cases "f x s") simp_all
qed simp

lemma foldr_res_invariant:
  assumes "foldr_res f xs s = Inr t" and "P s"
    and "\<And>x s s'. x \<in> set xs \<Longrightarrow> P s \<Longrightarrow> f x s = Inr s' \<Longrightarrow> P s'"
  shows "P t"
  using assms by (induction xs arbitrary: s) (auto simp: res_simps)

section \<open>Dictionaries\<close>

text \<open>
  A Python dictionary is an association list with distinct keys in insertion order.
  \<open>d[k] = v\<close> is \<open>AList.update\<close> (an existing key keeps its place, a new one goes last),
  \<open>del d[k]\<close> and \<open>d.pop(k, None)\<close> are \<open>AList.delete\<close>, \<open>d.get(k)\<close> is \<open>map_of\<close>.
\<close>

type_synonym ('k, 'v) dict = "('k \<times> 'v) list"

abbreviation dict_keys :: "('k, 'v) dict \<Rightarrow> 'k list" where
  "dict_keys d \<equiv> map fst d"

abbreviation dict_values :: "('k, 'v) dict \<Rightarrow> 'v list" where
  "dict_values d \<equiv> map snd d"

definition dict_has :: "'k \<Rightarrow> ('k, 'v) dict \<Rightarrow> bool" where
  "dict_has k d = (map_of d k \<noteq> None)"

definition dict_get :: "('k, 'v) dict \<Rightarrow> 'k \<Rightarrow> 'v \<Rightarrow> 'v" where
  "dict_get d k dflt = (case map_of d k of None \<Rightarrow> dflt | Some v \<Rightarrow> v)"

definition dict_updates :: "('k, 'v) dict \<Rightarrow> ('k, 'v) dict \<Rightarrow> ('k, 'v) dict" where
  "dict_updates d d' = fold (\<lambda>(k, v). AList.update k v) d' d"

text \<open>A dictionary comprehension or literal: later entries for a key overwrite earlier ones.\<close>

definition dict_of :: "('k \<times> 'v) list \<Rightarrow> ('k, 'v) dict" where
  "dict_of kvs = dict_updates [] kvs"

lemma dict_has_iff [dict_simps]: "dict_has k d \<longleftrightarrow> k \<in> set (dict_keys d)"
  by (auto simp: dict_has_def map_of_eq_None_iff)

lemma map_of_AList_update [simp]: "map_of (AList.update k v d) = (map_of d)(k \<mapsto> v)"
  by (rule update_conv')

lemma map_of_AList_delete [simp]: "map_of (AList.delete k d) = (map_of d)(k := None)"
  by (rule delete_conv')

lemma set_keys_update [dict_simps]: "fst ` set (AList.update k v d) = insert k (fst ` set d)"
  by (induction d) auto

lemma update_new_key: "k \<notin> fst ` set d \<Longrightarrow> AList.update k v d = d @ [(k, v)]"
  by (induction d) auto

lemma keys_update_existing: "k \<in> fst ` set d \<Longrightarrow> map fst (AList.update k v d) = map fst d"
  by (induction d) auto

lemma distinct_keys_update: "distinct (map fst d) \<Longrightarrow> distinct (map fst (AList.update k v d))"
  by (rule distinct_update)

lemma map_of_dict_updates: "map_of (dict_updates d d') = map_of d ++ map_of (rev d')"
proof (induction d' arbitrary: d)
  case Nil
  then show ?case by (simp add: dict_updates_def)
next
  case (Cons kv d')
  obtain k v where [simp]: "kv = (k, v)" by force
  have "map_of (dict_updates d (kv # d')) = map_of (dict_updates (AList.update k v d) d')"
    by (simp add: dict_updates_def)
  also have "\<dots> = (map_of d)(k \<mapsto> v) ++ map_of (rev d')" by (simp only: Cons.IH map_of_AList_update)
  also have "\<dots> = map_of d ++ map_of (rev (kv # d'))" by (auto simp: map_add_def fun_eq_iff split: option.splits)
  finally show ?case .
qed

lemma distinct_dict_updates:
  "distinct (map fst d) \<Longrightarrow> distinct (map fst (dict_updates d d'))"
  by (induction d' arbitrary: d) (auto simp: dict_updates_def distinct_update)

lemma set_keys_dict_updates [dict_simps]:
  "fst ` set (dict_updates d d') = fst ` set d' \<union> fst ` set d"
  by (induction d' arbitrary: d) (simp_all add: dict_updates_def dict_simps split_beta)

lemma distinct_dict_of [simp]: "distinct (map fst (dict_of kvs))"
  by (simp add: dict_of_def distinct_dict_updates)

lemma map_of_dict_of: "map_of (dict_of kvs) = map_of (rev kvs)"
  by (simp add: dict_of_def map_of_dict_updates)

lemma map_of_rev_distinct: "distinct (map fst kvs) \<Longrightarrow> map_of (rev kvs) = map_of kvs"
  by (rule map_of_eqI) (auto simp: rev_map [symmetric])

lemma dict_updates_append_new:
  "distinct (map fst kvs) \<Longrightarrow> fst ` set d \<inter> fst ` set kvs = {} \<Longrightarrow> dict_updates d kvs = d @ kvs"
proof (induction kvs arbitrary: d)
  case (Cons kv kvs)
  obtain k v where [simp]: "kv = (k, v)" by force
  from Cons.prems have "AList.update k v d = d @ [(k, v)]" by (intro update_new_key) auto
  with Cons show ?case by (auto simp: dict_updates_def)
qed (simp add: dict_updates_def)

lemma dict_of_distinct: "distinct (map fst kvs) \<Longrightarrow> dict_of kvs = kvs"
  by (simp add: dict_of_def dict_updates_append_new)

lemma map_of_map_snd: "map_of (map (\<lambda>(k, v). (k, f v)) d) k = map_option f (map_of d k)"
  by (induction d) auto

lemma map_of_filter_key: "map_of (filter (\<lambda>(k, v). P k) d) k = (if P k then map_of d k else None)"
  by (induction d) auto

section \<open>Strings\<close>

lemma takeWhile_all_then: "list_all P xs \<Longrightarrow> rest = [] \<or> \<not> P (hd rest) \<Longrightarrow>
    takeWhile P (xs @ rest) = xs \<and> dropWhile P (xs @ rest) = rest"
  by (induction xs) (auto simp: takeWhile_eq_Nil_iff dropWhile_eq_self_iff)

abbreviation startswith :: "string \<Rightarrow> string \<Rightarrow> bool" where
  "startswith s p \<equiv> take (length p) s = p"

text \<open>\<open>s.split(c, 1)\<close> when \<open>c\<close> occurs: the parts before and after its first occurrence.\<close>

definition split_once :: "char \<Rightarrow> string \<Rightarrow> string \<times> string" where
  "split_once c s = (takeWhile (\<lambda>x. x \<noteq> c) s, drop 1 (dropWhile (\<lambda>x. x \<noteq> c) s))"

lemma split_once_append: "c \<notin> set a \<Longrightarrow> split_once c (a @ c # b) = (a, b)"
  by (induction a) (auto simp: split_once_def)

text \<open>\<open>s.split(c)\<close>: one more part than there are occurrences of \<open>c\<close>.\<close>

fun split_on :: "char \<Rightarrow> string \<Rightarrow> string list" where
  "split_on c [] = [[]]"
| "split_on c (x # xs) =
    (if x = c then [] # split_on c xs
     else (case split_on c xs of [] \<Rightarrow> [[x]] | p # ps \<Rightarrow> (x # p) # ps))"

lemma split_on_nonempty [simp]: "split_on c s \<noteq> []"
  by (cases s) (auto split: list.splits)

fun join :: "string \<Rightarrow> string list \<Rightarrow> string" where
  "join sep [] = []"
| "join sep [x] = x"
| "join sep (x # y # ys) = x @ sep @ join sep (y # ys)"

lemma join_split_on: "join [c] (split_on c s) = s"
proof (induction s)
  case (Cons x s)
  obtain p ps where sp: "split_on c s = p # ps" by (cases "split_on c s") auto
  with Cons show ?case by (cases ps) auto
qed simp

definition lower_char :: "char \<Rightarrow> char" where
  "lower_char c = (let n = (of_char c :: nat) in if 65 \<le> n \<and> n \<le> 90 then char_of (n + 32) else c)"

definition lower :: "string \<Rightarrow> string" where
  "lower s = map lower_char s"

definition is_digit :: "char \<Rightarrow> bool" where
  "is_digit c = (let n = (of_char c :: nat) in 48 \<le> n \<and> n \<le> 57)"

definition digit_val :: "char \<Rightarrow> nat" where
  "digit_val c = of_char c - 48"

definition digit_char :: "nat \<Rightarrow> char" where
  "digit_char d = char_of (48 + d)"

lemma digit_char_inverse:
  "d < 10 \<Longrightarrow> is_digit (digit_char d) \<and> digit_val (digit_char d) = d"
  by (simp add: is_digit_def digit_char_def digit_val_def Let_def)

fun nat_str :: "nat \<Rightarrow> string" where
  "nat_str n = (if n < 10 then [digit_char n] else nat_str (n div 10) @ [digit_char (n mod 10)])"

declare nat_str.simps [simp del]

definition int_str :: "int \<Rightarrow> string" where
  "int_str i = (if i < 0 then CHR ''-'' # nat_str (nat (- i)) else nat_str (nat i))"

definition str_nat :: "string \<Rightarrow> nat option" where
  "str_nat s = (if s \<noteq> [] \<and> list_all is_digit s
                then Some (fold (\<lambda>c n. 10 * n + digit_val c) s 0) else None)"

lemma nat_str_digits: "nat_str n \<noteq> [] \<and> list_all is_digit (nat_str n)"
proof (induction n rule: nat_str.induct)
  case (1 n)
  then show ?case
    by (simp add: nat_str.simps [of n] digit_char_inverse)
qed

lemma nat_str_value: "fold (\<lambda>c m. 10 * m + digit_val c) (nat_str n) 0 = n"
proof (induction n rule: nat_str.induct)
  case (1 n)
  show ?case
  proof (cases "n < 10")
    case True
    then show ?thesis by (subst nat_str.simps) (simp add: digit_char_inverse)
  next
    case False
    with 1 have "fold (\<lambda>c m. 10 * m + digit_val c) (nat_str (n div 10)) 0 = n div 10" by simp
    with False show ?thesis by (subst nat_str.simps) (simp add: digit_char_inverse)
  qed
qed

lemma str_nat_nat_str [simp]: "str_nat (nat_str n) = Some n"
  using nat_str_digits [of n] by (simp add: str_nat_def nat_str_value)

lemma nat_str_inject: "nat_str m = nat_str n \<longleftrightarrow> m = n"
  by (metis nat_str_value)

lemma nat_str_head: "\<exists>c cs. nat_str n = c # cs \<and> is_digit c"
  using nat_str_digits [of n] by (cases "nat_str n") auto

lemma minus_not_digit [simp]: "\<not> is_digit (CHR ''-'')"
  by (simp add: is_digit_def)

lemma int_str_inject: "int_str i = int_str j \<longleftrightarrow> i = j"
proof
  assume eq: "int_str i = int_str j"
  obtain c cs d ds where h: "nat_str (nat i) = c # cs" "is_digit c" "nat_str (nat j) = d # ds" "is_digit d"
    using nat_str_head by metis
  show "i = j"
  proof (cases "i < 0"; cases "j < 0")
    assume "i < 0" "j < 0"
    then show ?thesis using eq by (simp add: int_str_def nat_str_inject)
  next
    assume "i < 0" "\<not> j < 0"
    then show ?thesis using eq h by (auto simp: int_str_def)
  next
    assume "\<not> i < 0" "j < 0"
    then show ?thesis using eq h by (auto simp: int_str_def)
  next
    assume "\<not> i < 0" "\<not> j < 0"
    then show ?thesis using eq by (simp add: int_str_def nat_str_inject)
  qed
qed simp

lemma distinct_names_card:
  "distinct (map fst d) \<Longrightarrow> length d = card (fst ` set d)"
  by (metis distinct_card length_map list.set_map)

section \<open>Tables with keys\<close>

text \<open>Rows that are replaced where their key is taken and appended where it is not.\<close>

lemma find_put_row:
  assumes "\<And>r. f (g r) = f q"
  shows "find (\<lambda>r. f r = k) (if list_ex (\<lambda>r. f r = f q) rows then map (\<lambda>r. if f r = f q then g r else r) rows else rows @ [q]) =
    (if k = f q then Some (case find (\<lambda>r. f r = f q) rows of Some r \<Rightarrow> g r | None \<Rightarrow> q) else find (\<lambda>r. f r = k) rows)"
proof -
  have other: "find (\<lambda>r. f r = k) (map (\<lambda>r. if f r = f q then g r else r) rs) = find (\<lambda>r. f r = k) rs" if "k \<noteq> f q" for rs
    using that assms by (induction rs) auto
  have same: "find (\<lambda>r. f r = f q) (map (\<lambda>r. if f r = f q then g r else r) rs) = map_option g (find (\<lambda>r. f r = f q) rs)" for rs
    using assms by (induction rs) auto
  have appended: "find P (rs @ [q]) = (case find P rs of Some r \<Rightarrow> Some r | None \<Rightarrow> if P q then Some q else None)" for P rs
    by (induction rs) auto
  have found: "list_ex (\<lambda>r. f r = f q) rows \<longleftrightarrow> find (\<lambda>r. f r = f q) rows \<noteq> None"
    by (auto simp: find_None_iff list_ex_iff)
  show ?thesis
    by (cases "find (\<lambda>r. f r = f q) rows"; cases "k = f q") (auto simp: found other same appended split: option.splits)
qed

text \<open>What a store of rows promises: a row that is put is found under its key, merged with the row it replaces, and no other
  key is touched.\<close>

locale keyed_table =
  fixes row_key :: "'r \<Rightarrow> 'k" and lookup :: "'k \<Rightarrow> 's \<Rightarrow> 'r option" and put :: "'r \<Rightarrow> 's \<Rightarrow> 's"
    and merged :: "'r option \<Rightarrow> 'r \<Rightarrow> 'r"
  assumes lookup_put: "lookup k (put r s) = (if k = row_key r then Some (merged (lookup k s) r) else lookup k s)"
begin

lemma lookup_puts_other: "k \<notin> row_key ` set rs \<Longrightarrow> lookup k (fold put rs s) = lookup k s"
  by (induction rs arbitrary: s) (auto simp: lookup_put)

lemma puts_swap: "row_key r \<noteq> row_key q \<Longrightarrow> lookup k (put r (put q s)) = lookup k (put q (put r s))"
  by (auto simp: lookup_put)

lemma lookup_puts_last:
  assumes "row_key r = k" "k \<notin> row_key ` set rs"
  shows "lookup k (fold put rs (put r s)) = Some (merged (lookup k s) r)"
  using assms by (auto simp: lookup_puts_other lookup_put)

end

end
