(* ===== verification/PyValue.thy ===== *)
theory PyValue imports Prelude begin

text \<open>
  The Python values the flow engine moves around: JSON-like data, floats, the \<open>str\<close>
  subclasses of \<^verbatim>\<open>promptflow/contracts/types.py\<close>, instances of classes (connections,
  dataclasses: a class name and attributes) and generators not consumed yet (the values they
  will yield). A float is kept as the decimal numeral of its \<open>repr\<close>, mantissa and exponent
  of ten, which identifies a double; the rounding of longer numerals is not modelled.
  How an instance of a class prints is the class's own choice, a parameter \<open>obj_repr\<close>.
\<close>

datatype pyfloat = Fin int int | Inf bool | NaN

datatype pyval =
    PNone
  | PBool bool
  | PInt int
  | PFloat pyfloat
  | PStr string
  | PSecret string
  | PPrompt string
  | PList "pyval list"
  | PTuple "pyval list"
  | PDict "(string \<times> pyval) list"
  | PObj string "(string \<times> pyval) list"
  | PGen "pyval list"

text \<open>\<open>isinstance(v, str)\<close> and the text of a string or of an instance of a subclass.\<close>

fun as_str :: "pyval \<Rightarrow> string option" where
  "as_str (PStr s) = Some s"
| "as_str (PSecret s) = Some s"
| "as_str (PPrompt s) = Some s"
| "as_str _ = None"

fun as_dict :: "pyval \<Rightarrow> (string \<times> pyval) list option" where
  "as_dict (PDict d) = Some d"
| "as_dict _ = None"

section \<open>Truth\<close>

fun truthy :: "pyval \<Rightarrow> bool" where
  "truthy PNone = False"
| "truthy (PBool b) = b"
| "truthy (PInt i) = (i \<noteq> 0)"
| "truthy (PFloat f) = (case f of Fin m e \<Rightarrow> m \<noteq> 0 | _ \<Rightarrow> True)"
| "truthy (PStr s) = (s \<noteq> [])"
| "truthy (PSecret s) = (s \<noteq> [])"
| "truthy (PPrompt s) = (s \<noteq> [])"
| "truthy (PList vs) = (vs \<noteq> [])"
| "truthy (PTuple vs) = (vs \<noteq> [])"
| "truthy (PDict d) = (d \<noteq> [])"
| "truthy (PObj _ _) = True"
| "truthy (PGen _) = True"

section \<open>Equality\<close>

text \<open>
  \<open>==\<close> compares numbers of different types by value (\<open>True == 1 == 1.0\<close>), strings and
  their subclasses by text, dictionaries regardless of the order of their keys.
\<close>

fun num_of :: "pyval \<Rightarrow> (int \<times> int) option" where
  "num_of (PBool b) = Some (if b then 1 else 0, 0)"
| "num_of (PInt i) = Some (i, 0)"
| "num_of (PFloat (Fin m e)) = Some (m, e)"
| "num_of _ = None"

definition num_eq :: "int \<times> int \<Rightarrow> int \<times> int \<Rightarrow> bool" where
  "num_eq a b = (let e = min (snd a) (snd b)
     in fst a * 10 ^ nat (snd a - e) = fst b * 10 ^ nat (snd b - e))"

lemma num_eq_refl [simp]: "num_eq a a"
  by (simp add: num_eq_def Let_def)

lemma size_dict_entry: "(k, v) \<in> set d \<Longrightarrow> size v < Suc (size_list (size_prod (\<lambda>_. 0) size) d)"
  by (induction d) auto

function py_eq :: "pyval \<Rightarrow> pyval \<Rightarrow> bool" where
  "py_eq a b =
    (case (num_of a, num_of b) of
       (Some x, Some y) \<Rightarrow> num_eq x y
     | _ \<Rightarrow>
    (case (as_str a, as_str b) of
       (Some s, Some t) \<Rightarrow> s = t
     | _ \<Rightarrow>
    (case (a, b) of
       (PNone, PNone) \<Rightarrow> True
     | (PFloat (Inf x), PFloat (Inf y)) \<Rightarrow> x = y
     | (PList xs, PList ys) \<Rightarrow> list_all2 py_eq xs ys
     | (PTuple xs, PTuple ys) \<Rightarrow> list_all2 py_eq xs ys
     | (PDict d, PDict d') \<Rightarrow>
         length d = length d' \<and>
         (\<forall>kv \<in> set d. case map_of d' (fst kv) of None \<Rightarrow> False | Some w \<Rightarrow> py_eq (snd kv) w)
     | (PObj c d, PObj c' d') \<Rightarrow>
         c = c' \<and> length d = length d' \<and>
         (\<forall>kv \<in> set d. case map_of d' (fst kv) of None \<Rightarrow> False | Some w \<Rightarrow> py_eq (snd kv) w)
     | (PGen xs, PGen ys) \<Rightarrow> list_all2 py_eq xs ys
     | _ \<Rightarrow> False)))"
  by pat_completeness auto
termination
  by (relation "measure (\<lambda>(a, b). size a)")
     (auto simp: less_Suc_eq_le size_dict_entry [simplified less_Suc_eq_le] dest: size_list_estimation' [OF _ order.refl])

declare py_eq.simps [simp del]

lemma py_eq_str [simp]: "py_eq (PStr s) (PStr t) \<longleftrightarrow> s = t"
  by (simp add: py_eq.simps [of "PStr s"])

lemma py_eq_none [simp]: "py_eq PNone v \<longleftrightarrow> v = PNone"
  by (cases v) (simp_all add: py_eq.simps [of PNone])

lemma py_eq_bool [simp]: "py_eq (PBool a) (PBool b) \<longleftrightarrow> a = b"
  by (simp add: py_eq.simps [of "PBool a"] num_eq_def)

lemma py_eq_int [simp]: "py_eq (PInt a) (PInt b) \<longleftrightarrow> a = b"
  by (simp add: py_eq.simps [of "PInt a"] num_eq_def)

section \<open>str and repr\<close>

definition repr_char :: "char \<Rightarrow> char \<Rightarrow> string" where
  "repr_char q c = (let n = (of_char c :: nat) in
     if c = q \<or> n = 92 then [CHR 0x5C, c]
     else if n = 10 then [CHR 0x5C, CHR ''n'']
     else if n = 13 then [CHR 0x5C, CHR ''r'']
     else if n = 9 then [CHR 0x5C, CHR ''t'']
     else if n < 32 \<or> n = 127 then
       (let hex = (\<lambda>d. if d < 10 then digit_char d else char_of (87 + d))
        in [CHR 0x5C, CHR ''x'', hex (n div 16), hex (n mod 16)])
     else [c])"

definition repr_str :: "string \<Rightarrow> string" where
  "repr_str s = (let q = (if CHR 0x27 \<in> set s \<and> CHR 0x22 \<notin> set s then CHR 0x22 else CHR 0x27)
     in [q] @ concat (map (repr_char q) s) @ [q])"

definition zeros :: "nat \<Rightarrow> string" where
  "zeros n = replicate n (CHR ''0'')"

fun repr_float :: "pyfloat \<Rightarrow> string" where
  "repr_float (Inf neg) = (if neg then ''-inf'' else ''inf'')"
| "repr_float NaN = ''nan''"
| "repr_float (Fin m e) =
    (let ds = nat_str (nat \<bar>m\<bar>); n = int (length ds); p = n + e;
         sign = (if m < 0 then ''-'' else []);
         body = (if m = 0 then ''0.0''
           else if p - 1 < - 4 \<or> 16 \<le> p - 1 then
             (let x = nat \<bar>p - 1\<bar>; xs = (if x < 10 then ''0'' @ nat_str x else nat_str x)
              in [hd ds] @ (if tl ds = [] then [] else ''.'' @ tl ds) @ ''e'' @
                 (if p - 1 < 0 then ''-'' else ''+'') @ xs)
           else if p \<le> 0 then ''0.'' @ zeros (nat (- p)) @ ds
           else if n \<le> p then ds @ zeros (nat (p - n)) @ ''.0''
           else take (nat p) ds @ ''.'' @ drop (nat p) ds)
     in sign @ body)"

fun py_repr :: "(string \<Rightarrow> (string \<times> pyval) list \<Rightarrow> string) \<Rightarrow> pyval \<Rightarrow> string" where
  "py_repr obj_repr PNone = ''None''"
| "py_repr obj_repr (PBool b) = (if b then ''True'' else ''False'')"
| "py_repr obj_repr (PInt i) = int_str i"
| "py_repr obj_repr (PFloat f) = repr_float f"
| "py_repr obj_repr (PStr s) = repr_str s"
| "py_repr obj_repr (PSecret s) = repr_str s"
| "py_repr obj_repr (PPrompt s) = repr_str s"
| "py_repr obj_repr (PList vs) = ''['' @ join '', '' (map (py_repr obj_repr) vs) @ '']''"
| "py_repr obj_repr (PTuple vs) =
    ''('' @ join '', '' (map (py_repr obj_repr) vs) @ (if length vs = 1 then '',)'' else '')'')"
| "py_repr obj_repr (PDict d) =
    ''{'' @ join '', '' (map (\<lambda>kv. repr_str (fst kv) @ '': '' @ py_repr obj_repr (snd kv)) d) @ ''}''"
| "py_repr obj_repr (PObj c d) = obj_repr c d"
| "py_repr obj_repr (PGen vs) = obj_repr ''generator'' []"

definition py_str :: "(string \<Rightarrow> (string \<times> pyval) list \<Rightarrow> string) \<Rightarrow> pyval \<Rightarrow> string" where
  "py_str obj_repr v = (case as_str v of Some s \<Rightarrow> s | None \<Rightarrow> py_repr obj_repr v)"

lemma py_str_PStr [simp]: "py_str r (PStr s) = s"
  by (simp add: py_str_def)

section \<open>Attributes and items\<close>

text \<open>
  \<open>getattr(v, a)\<close> finds an attribute of an instance (\<open>None\<close> is the \<open>AttributeError\<close>);
  methods of the built-in types are not values of the model.
\<close>

fun get_attr :: "pyval \<Rightarrow> string \<Rightarrow> pyval option" where
  "get_attr (PObj c d) a = map_of d a"
| "get_attr _ a = None"

fun set_attr :: "pyval \<Rightarrow> string \<Rightarrow> pyval \<Rightarrow> pyval" where
  "set_attr (PObj c d) a v = PObj c (AList.update a v d)"
| "set_attr w a v = w"

text \<open>Strict JSON data: what \<open>json.dumps\<close> writes without an encoder of its own.\<close>

fun json_ok :: "pyval \<Rightarrow> bool" where
  "json_ok (PList vs) = list_all json_ok vs"
| "json_ok (PTuple vs) = list_all json_ok vs"
| "json_ok (PDict d) = list_all (\<lambda>kv. json_ok (snd kv)) d"
| "json_ok (PObj _ _) = False"
| "json_ok (PGen _) = False"
| "json_ok _ = True"

end
