(* ===== verification/Exceptions.thy ===== *)
theory Exceptions imports PyValue begin

text \<open>
  The exceptions of the engine (\<^verbatim>\<open>promptflow/exceptions.py\<close>, \<^verbatim>\<open>executor/_errors.py\<close>,
  \<^verbatim>\<open>_core/_errors.py\<close>): a class name in a class hierarchy, the arguments of the constructor,
  the traceback and the chained exceptions. A message is kept as the values an f-string
  concatenates; it becomes text when it is printed (\<open>render\<close>).
\<close>

text \<open>A constructor takes any string for a target; \<open>OtherTarget\<close> is one that is no member of the enumeration.\<close>

datatype error_target =
  EXECUTOR | FLOW_EXECUTOR | NODE_EXECUTOR | TOOL | AZURE_RUN_STORAGE | RUNTIME | UNKNOWN
  | RUN_TRACKER | RUN_STORAGE | CONTROL_PLANE_SDK | SERVING_APP | OtherTarget string

fun target_value :: "error_target \<Rightarrow> string" where
  "target_value EXECUTOR = ''Executor''"
| "target_value FLOW_EXECUTOR = ''FlowExecutor''"
| "target_value NODE_EXECUTOR = ''NodeExecutor''"
| "target_value TOOL = ''Tool''"
| "target_value AZURE_RUN_STORAGE = ''AzureRunStorage''"
| "target_value RUNTIME = ''Runtime''"
| "target_value UNKNOWN = ''Unknown''"
| "target_value RUN_TRACKER = ''RunTracker''"
| "target_value RUN_STORAGE = ''RunStorage''"
| "target_value CONTROL_PLANE_SDK = ''ControlPlaneSDK''"
| "target_value SERVING_APP = ''ServingApp''"
| "target_value (OtherTarget s) = s"

type_synonym msg = "pyval list"

record frame =
  fr_filename :: string
  fr_lineno :: int
  fr_name :: string

section \<open>The class hierarchy\<close>

text \<open>One enumeration per module that declares exception classes, in its order.\<close>

datatype pf_class =
  PromptflowException | UserErrorException | SystemErrorException | ValidationException

datatype executor_class =
  InvalidCustomLLMTool | FlowExecutionError | ValueTypeUnresolved | ToolValidationError
   | InvalidRequest | ConnectionNotFound | InvalidBulkTestRequest | InvalidFlowRequest
   | InvalidSource | NodeInputValidationError | DuplicateNodeName | EmptyOutputError
   | OutputReferenceNotFound | InputReferenceNotFound | InputNotFound
   | InputNotFoundFromAncestorNodeOutput | InputTypeError | InvalidConnectionType
   | NodeReferenceNotFound | NodeCircularDependency | NodeConcurrencyNotFound
   | NodeReferenceError | UnsupportedReference | InvalidReferenceProperty
   | LineExecutionTimeoutError

datatype core_class =
  PackageToolNotFoundError | LoadToolError | MissingRequiredInputs | ToolExecutionError
   | GenerateMetaUserError | MetaFileNotFound | MetaFileReadError

datatype mapping_class =
  InputMappingError | LineNumberNotAlign | MappingSourceNotFound | EmptyInputListError
   | EmptyInputAfterMapping | NoneInputsMappingIsNotSupported | NodeResultCountNotMatch

datatype other_class =
  FailedToImportModule | RunRecordNotFound | InvalidUserData | CustomToolSourceLoadError
   | CustomToolError | JsonSerializedPromptflowException | EmptyCodeInCustomTool | CustomPythonToolLoadError
   | MissingTargetFunction | APINotFound | NodeSourcePathEmpty | DuplicatedPrimaryKeyException
   | NotFoundException

text \<open>The classes of \<^verbatim>\<open>_core/tool_meta_generator.py\<close>, whose base has the name of a class of the executor.\<close>

datatype meta_class =
  MetaToolValidationError | JinjaParsingError | ReservedVariableCannotBeUsed | PythonParsingError
   | PythonLoaderNotFound | NoToolDefined | MultipleToolsDefined | BadFunctionInterface | PythonLoadError

datatype builtin_class =
  Exception | ArithmeticError | AttributeError | ImportError | LookupError | NameError | OSError
   | RuntimeError | TypeError | ValueError | FileNotFoundError | FileExistsError | IndexError
   | KeyError | JSONDecodeError | ModuleNotFoundError | NotImplementedError | OverflowError
   | UnboundLocalError | ZeroDivisionError

text \<open>
  A class of the engine, of the interpreter, or one a tool declares over a base of its own.
  \<open>OutsideModel\<close> marks the branches the model does not follow (input data whose fields do not
  have the types the engine's annotations give them).
\<close>

datatype exc_class =
  Pf pf_class | Ex executor_class | Co core_class | Fe mapping_class | Ot other_class
  | Me meta_class | Py builtin_class | UserClass string exc_class | OutsideModel

primrec pf_base :: "pf_class \<Rightarrow> exc_class" where
  "pf_base PromptflowException = Py Exception"
| "pf_base UserErrorException = Pf PromptflowException"
| "pf_base SystemErrorException = Pf PromptflowException"
| "pf_base ValidationException = Pf UserErrorException"

primrec pf_name :: "pf_class \<Rightarrow> string" where
  "pf_name PromptflowException = ''PromptflowException''"
| "pf_name UserErrorException = ''UserErrorException''"
| "pf_name SystemErrorException = ''SystemErrorException''"
| "pf_name ValidationException = ''ValidationException''"

primrec executor_base :: "executor_class \<Rightarrow> exc_class" where
  "executor_base InvalidCustomLLMTool = Pf ValidationException"
| "executor_base FlowExecutionError = Pf SystemErrorException"
| "executor_base ValueTypeUnresolved = Pf ValidationException"
| "executor_base ToolValidationError = Pf ValidationException"
| "executor_base InvalidRequest = Pf ValidationException"
| "executor_base ConnectionNotFound = Ex InvalidRequest"
| "executor_base InvalidBulkTestRequest = Pf ValidationException"
| "executor_base InvalidFlowRequest = Pf ValidationException"
| "executor_base InvalidSource = Pf ValidationException"
| "executor_base NodeInputValidationError = Ex InvalidFlowRequest"
| "executor_base DuplicateNodeName = Ex InvalidFlowRequest"
| "executor_base EmptyOutputError = Ex InvalidFlowRequest"
| "executor_base OutputReferenceNotFound = Ex InvalidFlowRequest"
| "executor_base InputReferenceNotFound = Ex InvalidFlowRequest"
| "executor_base InputNotFound = Ex InvalidFlowRequest"
| "executor_base InputNotFoundFromAncestorNodeOutput = Ex FlowExecutionError"
| "executor_base InputTypeError = Ex InvalidFlowRequest"
| "executor_base InvalidConnectionType = Ex InvalidFlowRequest"
| "executor_base NodeReferenceNotFound = Ex InvalidFlowRequest"
| "executor_base NodeCircularDependency = Ex InvalidFlowRequest"
| "executor_base NodeConcurrencyNotFound = Pf SystemErrorException"
| "executor_base NodeReferenceError = Pf UserErrorException"
| "executor_base UnsupportedReference = Ex NodeReferenceError"
| "executor_base InvalidReferenceProperty = Ex NodeReferenceError"
| "executor_base LineExecutionTimeoutError = Pf UserErrorException"

primrec executor_name :: "executor_class \<Rightarrow> string" where
  "executor_name InvalidCustomLLMTool = ''InvalidCustomLLMTool''"
| "executor_name FlowExecutionError = ''FlowExecutionError''"
| "executor_name ValueTypeUnresolved = ''ValueTypeUnresolved''"
| "executor_name ToolValidationError = ''ToolValidationError''"
| "executor_name InvalidRequest = ''InvalidRequest''"
| "executor_name ConnectionNotFound = ''ConnectionNotFound''"
| "executor_name InvalidBulkTestRequest = ''InvalidBulkTestRequest''"
| "executor_name InvalidFlowRequest = ''InvalidFlowRequest''"
| "executor_name InvalidSource = ''InvalidSource''"
| "executor_name NodeInputValidationError = ''NodeInputValidationError''"
| "executor_name DuplicateNodeName = ''DuplicateNodeName''"
| "executor_name EmptyOutputError = ''EmptyOutputError''"
| "executor_name OutputReferenceNotFound = ''OutputReferenceNotFound''"
| "executor_name InputReferenceNotFound = ''InputReferenceNotFound''"
| "executor_name InputNotFound = ''InputNotFound''"
| "executor_name InputNotFoundFromAncestorNodeOutput = ''InputNotFoundFromAncestorNodeOutput''"
| "executor_name InputTypeError = ''InputTypeError''"
| "executor_name InvalidConnectionType = ''InvalidConnectionType''"
| "executor_name NodeReferenceNotFound = ''NodeReferenceNotFound''"
| "executor_name NodeCircularDependency = ''NodeCircularDependency''"
| "executor_name NodeConcurrencyNotFound = ''NodeConcurrencyNotFound''"
| "executor_name NodeReferenceError = ''NodeReferenceError''"
| "executor_name UnsupportedReference = ''UnsupportedReference''"
| "executor_name InvalidReferenceProperty = ''InvalidReferenceProperty''"
| "executor_name LineExecutionTimeoutError = ''LineExecutionTimeoutError''"

primrec core_base :: "core_class \<Rightarrow> exc_class" where
  "core_base PackageToolNotFoundError = Pf ValidationException"
| "core_base LoadToolError = Pf ValidationException"
| "core_base MissingRequiredInputs = Co LoadToolError"
| "core_base ToolExecutionError = Pf UserErrorException"
| "core_base GenerateMetaUserError = Pf UserErrorException"
| "core_base MetaFileNotFound = Co GenerateMetaUserError"
| "core_base MetaFileReadError = Co GenerateMetaUserError"

primrec core_name :: "core_class \<Rightarrow> string" where
  "core_name PackageToolNotFoundError = ''PackageToolNotFoundError''"
| "core_name LoadToolError = ''LoadToolError''"
| "core_name MissingRequiredInputs = ''MissingRequiredInputs''"
| "core_name ToolExecutionError = ''ToolExecutionError''"
| "core_name GenerateMetaUserError = ''GenerateMetaUserError''"
| "core_name MetaFileNotFound = ''MetaFileNotFound''"
| "core_name MetaFileReadError = ''MetaFileReadError''"

primrec mapping_base :: "mapping_class \<Rightarrow> exc_class" where
  "mapping_base InputMappingError = Pf ValidationException"
| "mapping_base LineNumberNotAlign = Fe InputMappingError"
| "mapping_base MappingSourceNotFound = Fe InputMappingError"
| "mapping_base EmptyInputListError = Fe InputMappingError"
| "mapping_base EmptyInputAfterMapping = Fe InputMappingError"
| "mapping_base NoneInputsMappingIsNotSupported = Pf SystemErrorException"
| "mapping_base NodeResultCountNotMatch = Pf SystemErrorException"

primrec mapping_name :: "mapping_class \<Rightarrow> string" where
  "mapping_name InputMappingError = ''InputMappingError''"
| "mapping_name LineNumberNotAlign = ''LineNumberNotAlign''"
| "mapping_name MappingSourceNotFound = ''MappingSourceNotFound''"
| "mapping_name EmptyInputListError = ''EmptyInputListError''"
| "mapping_name EmptyInputAfterMapping = ''EmptyInputAfterMapping''"
| "mapping_name NoneInputsMappingIsNotSupported = ''NoneInputsMappingIsNotSupported''"
| "mapping_name NodeResultCountNotMatch = ''NodeResultCountNotMatch''"

primrec other_base :: "other_class \<Rightarrow> exc_class" where
  "other_base FailedToImportModule = Pf UserErrorException"
| "other_base RunRecordNotFound = Pf ValidationException"
| "other_base InvalidUserData = Pf UserErrorException"
| "other_base CustomToolSourceLoadError = Pf SystemErrorException"
| "other_base CustomToolError = Pf UserErrorException"
| "other_base JsonSerializedPromptflowException = Py Exception"
| "other_base EmptyCodeInCustomTool = Ot CustomToolError"
| "other_base CustomPythonToolLoadError = Ot CustomToolError"
| "other_base MissingTargetFunction = Ot CustomToolError"
| "other_base APINotFound = Pf ValidationException"
| "other_base NodeSourcePathEmpty = Pf ValidationException"
| "other_base DuplicatedPrimaryKeyException = Py Exception"
| "other_base NotFoundException = Py Exception"

primrec other_name :: "other_class \<Rightarrow> string" where
  "other_name FailedToImportModule = ''FailedToImportModule''"
| "other_name RunRecordNotFound = ''RunRecordNotFound''"
| "other_name InvalidUserData = ''InvalidUserData''"
| "other_name CustomToolSourceLoadError = ''CustomToolSourceLoadError''"
| "other_name CustomToolError = ''CustomToolError''"
| "other_name JsonSerializedPromptflowException = ''JsonSerializedPromptflowException''"
| "other_name EmptyCodeInCustomTool = ''EmptyCodeInCustomTool''"
| "other_name CustomPythonToolLoadError = ''CustomPythonToolLoadError''"
| "other_name MissingTargetFunction = ''MissingTargetFunction''"
| "other_name APINotFound = ''APINotFound''"
| "other_name NodeSourcePathEmpty = ''NodeSourcePathEmpty''"
| "other_name DuplicatedPrimaryKeyException = ''DuplicatedPrimaryKeyException''"
| "other_name NotFoundException = ''NotFoundException''"

primrec meta_base :: "meta_class \<Rightarrow> exc_class" where
  "meta_base MetaToolValidationError = Pf UserErrorException"
| "meta_base JinjaParsingError = Me MetaToolValidationError"
| "meta_base ReservedVariableCannotBeUsed = Me JinjaParsingError"
| "meta_base PythonParsingError = Me MetaToolValidationError"
| "meta_base PythonLoaderNotFound = Me MetaToolValidationError"
| "meta_base NoToolDefined = Me PythonParsingError"
| "meta_base MultipleToolsDefined = Me PythonParsingError"
| "meta_base BadFunctionInterface = Me PythonParsingError"
| "meta_base PythonLoadError = Me PythonParsingError"

primrec meta_name :: "meta_class \<Rightarrow> string" where
  "meta_name MetaToolValidationError = ''ToolValidationError''"
| "meta_name JinjaParsingError = ''JinjaParsingError''"
| "meta_name ReservedVariableCannotBeUsed = ''ReservedVariableCannotBeUsed''"
| "meta_name PythonParsingError = ''PythonParsingError''"
| "meta_name PythonLoaderNotFound = ''PythonLoaderNotFound''"
| "meta_name NoToolDefined = ''NoToolDefined''"
| "meta_name MultipleToolsDefined = ''MultipleToolsDefined''"
| "meta_name BadFunctionInterface = ''BadFunctionInterface''"
| "meta_name PythonLoadError = ''PythonLoadError''"

primrec builtin_base :: "builtin_class \<Rightarrow> exc_class option" where
  "builtin_base Exception = None"
| "builtin_base ArithmeticError = Some (Py Exception)"
| "builtin_base AttributeError = Some (Py Exception)"
| "builtin_base ImportError = Some (Py Exception)"
| "builtin_base LookupError = Some (Py Exception)"
| "builtin_base NameError = Some (Py Exception)"
| "builtin_base OSError = Some (Py Exception)"
| "builtin_base RuntimeError = Some (Py Exception)"
| "builtin_base TypeError = Some (Py Exception)"
| "builtin_base ValueError = Some (Py Exception)"
| "builtin_base FileNotFoundError = Some (Py OSError)"
| "builtin_base FileExistsError = Some (Py OSError)"
| "builtin_base IndexError = Some (Py LookupError)"
| "builtin_base KeyError = Some (Py LookupError)"
| "builtin_base JSONDecodeError = Some (Py ValueError)"
| "builtin_base ModuleNotFoundError = Some (Py ImportError)"
| "builtin_base NotImplementedError = Some (Py RuntimeError)"
| "builtin_base OverflowError = Some (Py ArithmeticError)"
| "builtin_base UnboundLocalError = Some (Py NameError)"
| "builtin_base ZeroDivisionError = Some (Py ArithmeticError)"

primrec builtin_name :: "builtin_class \<Rightarrow> string" where
  "builtin_name Exception = ''Exception''"
| "builtin_name ArithmeticError = ''ArithmeticError''"
| "builtin_name AttributeError = ''AttributeError''"
| "builtin_name ImportError = ''ImportError''"
| "builtin_name LookupError = ''LookupError''"
| "builtin_name NameError = ''NameError''"
| "builtin_name OSError = ''OSError''"
| "builtin_name RuntimeError = ''RuntimeError''"
| "builtin_name TypeError = ''TypeError''"
| "builtin_name ValueError = ''ValueError''"
| "builtin_name FileNotFoundError = ''FileNotFoundError''"
| "builtin_name FileExistsError = ''FileExistsError''"
| "builtin_name IndexError = ''IndexError''"
| "builtin_name KeyError = ''KeyError''"
| "builtin_name JSONDecodeError = ''JSONDecodeError''"
| "builtin_name ModuleNotFoundError = ''ModuleNotFoundError''"
| "builtin_name NotImplementedError = ''NotImplementedError''"
| "builtin_name OverflowError = ''OverflowError''"
| "builtin_name UnboundLocalError = ''UnboundLocalError''"
| "builtin_name ZeroDivisionError = ''ZeroDivisionError''"

fun base_class :: "exc_class \<Rightarrow> exc_class option" where
  "base_class (Pf c) = Some (pf_base c)"
| "base_class (Ex c) = Some (executor_base c)"
| "base_class (Co c) = Some (core_base c)"
| "base_class (Fe c) = Some (mapping_base c)"
| "base_class (Ot c) = Some (other_base c)"
| "base_class (Me c) = Some (meta_base c)"
| "base_class (Py c) = builtin_base c"
| "base_class (UserClass n b) = Some b"
| "base_class OutsideModel = Some (Py Exception)"

text \<open>\<open>__name__\<close>\<close>

fun class_name :: "exc_class \<Rightarrow> string" where
  "class_name (Pf c) = pf_name c"
| "class_name (Ex c) = executor_name c"
| "class_name (Co c) = core_name c"
| "class_name (Fe c) = mapping_name c"
| "class_name (Ot c) = other_name c"
| "class_name (Me c) = meta_name c"
| "class_name (Py c) = builtin_name c"
| "class_name (UserClass n b) = n"
| "class_name OutsideModel = ''OutsideModel''"

text \<open>
  \<open>__mro__\<close> follows the base classes, at most five steps for the declared classes
  (\<open>mro_complete\<close>) and one more for each class a tool derives.
\<close>

fun mro_from :: "nat \<Rightarrow> exc_class \<Rightarrow> exc_class list" where
  "mro_from 0 c = [c]"
| "mro_from (Suc n) c = c # (case base_class c of None \<Rightarrow> [] | Some b \<Rightarrow> mro_from n b)"

fun user_depth :: "exc_class \<Rightarrow> nat" where
  "user_depth (UserClass n b) = Suc (user_depth b)"
| "user_depth c = 0"

definition mro :: "exc_class \<Rightarrow> exc_class list" where
  "mro c = mro_from (5 + user_depth c) c"

lemma mro_UserClass [simp]: "mro (UserClass n b) = UserClass n b # mro b"
  by (simp add: mro_def numeral_eq_Suc)

section \<open>Exceptions\<close>

text \<open>
  \<open>ex_node_name\<close> is the attribute \<open>_node_name\<close> of \<open>ToolExecutionError\<close>. The keyword argument
  \<open>error\<close> of the constructor is an exception and is kept apart from the other keywords.
\<close>

record ex_data =
  ex_class :: exc_class
  ex_message :: msg
  ex_format :: string
  ex_target :: error_target
  ex_module :: "string option"
  ex_kwargs :: "(string, pyval) dict"
  ex_node_name :: "string option"
  ex_tb :: "frame list"

datatype exn = Exn (ex: ex_data) (ex_error: "exn option") (ex_cause: "exn option") (ex_context: "exn option")

type_synonym 'a res = "exn + 'a"

text \<open>What the interpreter prints: instances of classes and tracebacks.\<close>

record pyenv =
  obj_repr :: "string \<Rightarrow> (string \<times> pyval) list \<Rightarrow> string"
  format_tb :: "frame list \<Rightarrow> string"
  format_exc :: "exn \<Rightarrow> frame list \<Rightarrow> string"

text \<open>An interpreter for the witnesses.\<close>

definition demo_env :: pyenv where
  "demo_env = \<lparr>obj_repr = (\<lambda>c d. c), format_tb = (\<lambda>fs. []), format_exc = (\<lambda>e fs. [])\<rparr>"

definition isinstance :: "exn \<Rightarrow> exc_class \<Rightarrow> bool" where
  "isinstance e c = (c \<in> set (mro (ex_class (ex e))))"

abbreviation is_promptflow :: "exn \<Rightarrow> bool" where
  "is_promptflow e \<equiv> isinstance e (Pf PromptflowException)"

section \<open>Raising\<close>

definition py_exn :: "builtin_class \<Rightarrow> msg \<Rightarrow> exn" where
  "py_exn c m = Exn \<lparr>ex_class = Py c, ex_message = m, ex_format = [], ex_target = UNKNOWN,
     ex_module = None, ex_kwargs = [], ex_node_name = None, ex_tb = []\<rparr> None None None"

definition pf_exception ::
  "exc_class \<Rightarrow> msg \<Rightarrow> string \<Rightarrow> error_target \<Rightarrow> string option \<Rightarrow> (string, pyval) dict \<Rightarrow> exn option \<Rightarrow> exn" where
  "pf_exception c message fmt tgt module kwargs err =
     Exn \<lparr>ex_class = c, ex_message = message, ex_format = fmt, ex_target = tgt,
       ex_module = module, ex_kwargs = kwargs, ex_node_name = None, ex_tb = []\<rparr> err None None"

abbreviation pf_exn :: "exc_class \<Rightarrow> msg \<Rightarrow> error_target \<Rightarrow> exn" where
  "pf_exn c m t \<equiv> pf_exception c m [] t None [] None"

definition outside_model :: exn where
  "outside_model = pf_exn OutsideModel [] UNKNOWN"

text \<open>\<open>raise e from c\<close> sets the cause.\<close>

definition raise_from :: "exn \<Rightarrow> exn \<Rightarrow> exn" where
  "raise_from e c = Exn (ex e) (ex_error e) (Some c) (ex_context e)"

definition invalid_flow_request :: "executor_class \<Rightarrow> msg \<Rightarrow> exn" where
  "invalid_flow_request c message = pf_exn (Ex c) message EXECUTOR"

definition node_reference_error :: "executor_class \<Rightarrow> msg \<Rightarrow> exn" where
  "node_reference_error c message = pf_exn (Ex c) (PStr ''Invalid node reference: '' # message) FLOW_EXECUTOR"

definition line_timeout_error :: "pyval \<Rightarrow> int \<Rightarrow> exn" where
  "line_timeout_error line_number timeout = pf_exn (Ex LineExecutionTimeoutError)
     [PStr ''Line '', line_number, PStr '' execution timeout for exceeding '', PInt timeout, PStr '' seconds'']
     EXECUTOR"

definition tool_execution_error :: "string \<Rightarrow> string option \<Rightarrow> exn" where
  "tool_execution_error node_name module =
     Exn \<lparr>ex_class = Co ToolExecutionError, ex_message = [], ex_format = [], ex_target = TOOL,
       ex_module = module, ex_kwargs = [], ex_node_name = Some node_name, ex_tb = []\<rparr> None None None"

lemma ex_class_simps [simp]:
  "ex_class (ex (py_exn bc m)) = Py bc"
  "ex_class (ex (pf_exception c m f t md k e)) = c"
  "ex_class (ex (raise_from a b)) = ex_class (ex a)"
  "ex_class (ex (invalid_flow_request x m)) = Ex x"
  "ex_class (ex (node_reference_error x m)) = Ex x"
  "ex_class (ex (tool_execution_error n md)) = Co ToolExecutionError"
  by (simp_all add: py_exn_def pf_exception_def raise_from_def invalid_flow_request_def
      node_reference_error_def tool_execution_error_def)

lemma ex_cause_simps [simp]:
  "ex_cause (raise_from a b) = Some b"
  "ex_cause (pf_exception c m f t md k e) = None"
  "ex_cause (py_exn bc m) = None"
  by (simp_all add: py_exn_def pf_exception_def raise_from_def)

section \<open>Messages\<close>

definition render :: "pyenv \<Rightarrow> msg \<Rightarrow> string" where
  "render env m = concat (map (py_str (obj_repr env)) m)"

text \<open>
  \<open>string.Formatter().parse\<close> on the formats the code uses: literal text, doubled braces and
  plain replacement fields. A lone brace is the \<open>ValueError\<close> of the parser (\<open>None\<close>).
\<close>

datatype fmt_part = Lit char | Field string

function fmt_parse :: "string \<Rightarrow> fmt_part list option" where
  "fmt_parse [] = Some []"
| "fmt_parse (c # cs) =
    (if c = CHR 0x7B then
       (case cs of
          [] \<Rightarrow> None
        | d # ds \<Rightarrow>
            if d = CHR 0x7B then map_option ((#) (Lit c)) (fmt_parse ds)
            else if CHR 0x7D \<in> set cs
              then map_option ((#) (Field (takeWhile (\<lambda>x. x \<noteq> CHR 0x7D) cs)))
                     (fmt_parse (drop 1 (dropWhile (\<lambda>x. x \<noteq> CHR 0x7D) cs)))
            else None)
     else if c = CHR 0x7D then
       (case cs of d # ds \<Rightarrow> if d = CHR 0x7D then map_option ((#) (Lit c)) (fmt_parse ds) else None
        | [] \<Rightarrow> None)
     else map_option ((#) (Lit c)) (fmt_parse cs))"
  by pat_completeness auto
termination
  by (relation "measure length") (auto simp: less_Suc_eq_le intro!: order.trans [OF diff_le_self] le_SucI length_dropWhile_le)

fun fmt_fields :: "fmt_part list \<Rightarrow> string list" where
  "fmt_fields [] = []"
| "fmt_fields (Field f # ps) = f # fmt_fields ps"
| "fmt_fields (Lit c # ps) = fmt_fields ps"

fun fmt_fill :: "pyenv \<Rightarrow> fmt_part list \<Rightarrow> (string, pyval) dict \<Rightarrow> string res" where
  "fmt_fill env [] ps = Inr []"
| "fmt_fill env (Lit c # fs) ps = bindr (fmt_fill env fs ps) (\<lambda>s. Inr (c # s))"
| "fmt_fill env (Field f # fs) ps =
    (case map_of ps f of
       None \<Rightarrow> Inl (py_exn KeyError [PStr (repr_str f)])
     | Some v \<Rightarrow> bindr (fmt_fill env fs ps) (\<lambda>s. Inr (py_str (obj_repr env) v @ s)))"

definition py_format :: "pyenv \<Rightarrow> string \<Rightarrow> (string, pyval) dict \<Rightarrow> string res" where
  "py_format env fmt ps =
    (case fmt_parse fmt of
       None \<Rightarrow> Inl (py_exn ValueError [PStr ''Single brace encountered in format string''])
     | Some fs \<Rightarrow> fmt_fill env fs ps)"

definition get_arguments_from_message_format :: "string \<Rightarrow> string list res" where
  "get_arguments_from_message_format fmt =
    (if fmt = [] then Inr []
     else (case fmt_parse fmt of
       None \<Rightarrow> Inl (py_exn ValueError [PStr ''Single brace encountered in format string''])
     | Some fs \<Rightarrow> Inr (remdups (fmt_fields fs))))"

definition inner_exception :: "exn \<Rightarrow> exn option" where
  "inner_exception e = (case ex_error e of Some i \<Rightarrow> Some i | None \<Rightarrow> ex_cause e)"

text \<open>\<open>ToolExecutionError\<close> overrides the two properties below.\<close>

definition message_format :: "exn \<Rightarrow> string" where
  "message_format e =
    (if isinstance e (Co ToolExecutionError) then
       (case inner_exception e of
          Some _ \<Rightarrow> ''Execution failure in '' @ [CHR 0x27] @ ''{node_name}'' @ [CHR 0x27] @ '': {error_type_and_message}''
        | None \<Rightarrow> ''Execution failure in '' @ [CHR 0x27] @ ''{node_name}'' @ [CHR 0x27] @ ''.'')
     else ex_format (ex e))"

definition base_message_parameters :: "exn \<Rightarrow> (string, pyval) dict res" where
  "base_message_parameters e =
    (if ex_kwargs (ex e) = [] \<and> ex_error e = None then Inr []
     else bindr (get_arguments_from_message_format (message_format e))
            (\<lambda>args. Inr (filter (\<lambda>(k, v). k \<in> set args) (ex_kwargs (ex e)))))"

text \<open>
  \<open>str(e)\<close> is the message of the exception, and the message of a \<open>ToolExecutionError\<close> quotes
  \<open>str\<close> of its inner exception.
\<close>

function message :: "pyenv \<Rightarrow> exn \<Rightarrow> string res" where
  "message env (Exn d err cause ctx) =
    (let e = Exn d err cause ctx;
         self_message = render env (ex_message d);
         params =
           (if isinstance e (Co ToolExecutionError) then
              bindr (case err of
                  Some i \<Rightarrow> bindr (message env i) (\<lambda>s. Inr (PStr (''('' @ class_name (ex_class (ex i)) @ '') '' @ s)))
                | None \<Rightarrow> (case cause of
                    Some i \<Rightarrow> bindr (message env i) (\<lambda>s. Inr (PStr (''('' @ class_name (ex_class (ex i)) @ '') '' @ s)))
                  | None \<Rightarrow> Inr PNone))
                (\<lambda>emsg. Inr [(''node_name'', case ex_node_name d of Some n \<Rightarrow> PStr n | None \<Rightarrow> PNone),
                             (''error_type_and_message'', emsg)])
            else base_message_parameters e)
     in if \<not> is_promptflow e then Inr self_message
        else if self_message \<noteq> [] then Inr self_message
        else if message_format e \<noteq> [] then bindr params (\<lambda>ps. py_format env (message_format e) ps)
        else Inr (class_name (ex_class d)))"
  by pat_completeness auto
termination
  by (relation "measure (\<lambda>(env, e). size e)") auto

declare message.simps [simp del]

section \<open>Every hierarchy ends in Exception\<close>

lemmas base_simps = pf_base.simps executor_base.simps core_base.simps mapping_base.simps
  other_base.simps meta_base.simps builtin_base.simps

lemma mro_complete: "last (mro c) = Py Exception"
proof (induction c)
  case (Pf c)
  show ?case by (cases c) (simp_all add: mro_def numeral_eq_Suc)
next
  case (Ex c)
  show ?case by (cases c) (simp_all add: mro_def numeral_eq_Suc)
next
  case (Co c)
  show ?case by (cases c) (simp_all add: mro_def numeral_eq_Suc)
next
  case (Fe c)
  show ?case by (cases c) (simp_all add: mro_def numeral_eq_Suc)
next
  case (Ot c)
  show ?case by (cases c) (simp_all add: mro_def numeral_eq_Suc)
next
  case (Me c)
  show ?case by (cases c) (simp_all add: mro_def numeral_eq_Suc)
next
  case (Py c)
  show ?case by (cases c) (simp_all add: mro_def numeral_eq_Suc)
next
  case (UserClass n b)
  have "mro b \<noteq> []" by (simp add: mro_def numeral_eq_Suc)
  with UserClass show ?case by simp
next
  case OutsideModel
  show ?case by (simp add: mro_def numeral_eq_Suc)
qed

end
