(* ===== verification/PyConv.thy ===== *)
theory PyConv imports Exceptions begin

text \<open>
  The conversions of the standard library the engine calls on user data: \<open>int(v)\<close>,
  \<open>float(v)\<close> and \<open>json.loads(s)\<close>. Characters are bytes; the digits and spaces of other
  alphabets are not recognised, and \<open>\u\<close> escapes beyond one byte are refused.
\<close>

section \<open>int and float\<close>

definition is_space :: "char \<Rightarrow> bool" where
  "is_space c = (let n = (of_char c :: nat) in n = 32 \<or> (9 \<le> n \<and> n \<le> 13))"

definition strip :: "string \<Rightarrow> string" where
  "strip s = rev (dropWhile is_space (rev (dropWhile is_space s)))"

text \<open>An underscore may stand between two digits.\<close>

fun drop_underscores :: "string \<Rightarrow> string option" where
  "drop_underscores (a # u # b # s) =
     (if u = CHR ''_'' \<and> is_digit a \<and> is_digit b
      then map_option ((#) a) (drop_underscores (b # s))
      else if a = CHR ''_'' then None
      else map_option ((#) a) (drop_underscores (u # b # s)))"
| "drop_underscores (a # s) = (if a = CHR ''_'' then None else map_option ((#) a) (drop_underscores s))"
| "drop_underscores [] = Some []"

fun signed :: "string \<Rightarrow> int \<times> string" where
  "signed (c # s) = (if c = CHR ''-'' then (- 1, s) else if c = CHR ''+'' then (1, s) else (1, c # s))"
| "signed [] = (1, [])"

definition int_of_str :: "string \<Rightarrow> int option" where
  "int_of_str s =
    (case drop_underscores (strip s) of
       None \<Rightarrow> None
     | Some t \<Rightarrow> (let (sg, ds) = signed t in map_option (\<lambda>n. sg * int n) (str_nat ds)))"

text \<open>The canonical decimal of a float: no trailing zeros in the mantissa, 0 as \<open>0e0\<close>.\<close>

function norm_dec :: "int \<Rightarrow> int \<Rightarrow> int \<times> int" where
  "norm_dec m e = (if m = 0 then (0, 0) else if m mod 10 = 0 then norm_dec (m div 10) (e + 1) else (m, e))"
  by pat_completeness auto
termination
  by (relation "measure (\<lambda>(m, e). nat \<bar>m\<bar>)") (auto simp: nat_less_iff)

declare norm_dec.simps [simp del]

definition float_fin :: "int \<Rightarrow> int \<Rightarrow> pyfloat" where
  "float_fin m e = (let (m', e') = norm_dec m e in Fin m' e')"

definition float_of_str :: "string \<Rightarrow> pyfloat option" where
  "float_of_str s =
    (case drop_underscores (strip s) of
       None \<Rightarrow> None
     | Some t \<Rightarrow>
        (let (sg, body) = signed t; low = lower body in
         if low = ''inf'' \<or> low = ''infinity'' then Some (Inf (sg < 0))
         else if low = ''nan'' then Some NaN
         else
          (let ip = takeWhile is_digit body; r1 = dropWhile is_digit body;
               (fp, r2) = (case r1 of
                   c # r \<Rightarrow> if c = CHR ''.'' then (takeWhile is_digit r, dropWhile is_digit r) else ([], r1)
                 | [] \<Rightarrow> ([], []));
               ex10 = (case r2 of
                   [] \<Rightarrow> Some 0
                 | c # r \<Rightarrow> if c = CHR ''e'' \<or> c = CHR ''E''
                            then (let (es, ds) = signed r in map_option (\<lambda>n. es * int n) (str_nat ds))
                            else None)
           in case (str_nat (ip @ fp), ex10) of
                (Some m, Some x) \<Rightarrow> Some (float_fin (sg * int m) (x - int (length fp)))
              | _ \<Rightarrow> None)))"

definition to_int :: "pyval \<Rightarrow> int res" where
  "to_int v =
    (case as_str v of
       Some s \<Rightarrow> (case int_of_str s of
           Some i \<Rightarrow> Inr i
         | None \<Rightarrow> Inl (py_exn ValueError
             [PStr ''invalid literal for int() with base 10: '', PStr (repr_str s)]))
     | None \<Rightarrow>
    (case v of
       PInt i \<Rightarrow> Inr i
     | PBool b \<Rightarrow> Inr (if b then 1 else 0)
     | PFloat (Fin m e) \<Rightarrow>
         Inr (if 0 \<le> e then m * 10 ^ nat e else sgn m * (\<bar>m\<bar> div 10 ^ nat (- e)))
     | PFloat (Inf n) \<Rightarrow> Inl (py_exn OverflowError [PStr ''cannot convert float infinity to integer''])
     | PFloat NaN \<Rightarrow> Inl (py_exn ValueError [PStr ''cannot convert float NaN to integer''])
     | _ \<Rightarrow> Inl (py_exn TypeError [PStr ''int() argument must be a string or a real number''])))"

definition to_float :: "pyval \<Rightarrow> pyfloat res" where
  "to_float v =
    (case as_str v of
       Some s \<Rightarrow> (case float_of_str s of
           Some f \<Rightarrow> Inr f
         | None \<Rightarrow> Inl (py_exn ValueError
             [PStr ''could not convert string to float: '', PStr (repr_str s)]))
     | None \<Rightarrow>
    (case v of
       PFloat f \<Rightarrow> Inr f
     | PInt i \<Rightarrow> Inr (float_fin i 0)
     | PBool b \<Rightarrow> Inr (float_fin (if b then 1 else 0) 0)
     | _ \<Rightarrow> Inl (py_exn TypeError [PStr ''float() argument must be a string or a real number''])))"

section \<open>json.loads\<close>

definition skip_ws :: "string \<Rightarrow> string" where
  "skip_ws s = dropWhile (\<lambda>c. let n = (of_char c :: nat) in n = 32 \<or> n = 9 \<or> n = 10 \<or> n = 13) s"

definition hex_val :: "char \<Rightarrow> nat option" where
  "hex_val c = (let n = (of_char c :: nat) in
     if is_digit c then Some (n - 48)
     else if 97 \<le> n \<and> n \<le> 102 then Some (n - 87)
     else if 65 \<le> n \<and> n \<le> 70 then Some (n - 55) else None)"

text \<open>The rest of a string literal after its opening quote, with its remaining input.\<close>

fun json_string :: "string \<Rightarrow> (string \<times> string) option" where
  "json_string [] = None"
| "json_string (c # s) =
    (if c = CHR 0x22 then Some ([], s)
     else if c = CHR 0x5C then
       (case s of
          CHR ''u'' # a # b # x # y # r \<Rightarrow>
            (case (hex_val a, hex_val b, hex_val x, hex_val y) of
               (Some a', Some b', Some x', Some y') \<Rightarrow>
                 if a' = 0 \<and> b' = 0
                 then map_option (\<lambda>(t, r'). (char_of (16 * x' + y') # t, r')) (json_string r) else None
             | _ \<Rightarrow> None)
        | e # r \<Rightarrow>
            (case map_of [(CHR 0x22, CHR 0x22), (CHR 0x5C, CHR 0x5C), (CHR ''/'', CHR ''/''),
                (CHR ''b'', CHR 0x08), (CHR ''f'', CHR 0x0C), (CHR ''n'', CHR 0x0A),
                (CHR ''r'', CHR 0x0D), (CHR ''t'', CHR 0x09)] e of
               Some d \<Rightarrow> map_option (\<lambda>(t, r'). (d # t, r')) (json_string r)
             | None \<Rightarrow> None)
        | [] \<Rightarrow> None)
     else if (of_char c :: nat) < 32 then None
     else map_option (\<lambda>(t, r'). (c # t, r')) (json_string s))"

definition json_number :: "string \<Rightarrow> (pyval \<times> string) option" where
  "json_number s =
    (let (sg, body) = (case s of c # r \<Rightarrow> if c = CHR ''-'' then (- 1, r) else (1, s) | [] \<Rightarrow> (1 :: int, s));
         ip = takeWhile is_digit body; r1 = dropWhile is_digit body;
         (fp, r2) = (case r1 of
             c # d # r \<Rightarrow> if c = CHR ''.'' \<and> is_digit d
                            then (takeWhile is_digit (d # r), dropWhile is_digit (d # r)) else ([], r1)
           | _ \<Rightarrow> ([], r1));
         (ex10, r3) = (case r2 of
             c # r \<Rightarrow> if c = CHR ''e'' \<or> c = CHR ''E''
                then (let (es, ds) = signed r; xs = takeWhile is_digit ds
                      in case str_nat xs of Some n \<Rightarrow> (Some (es * int n), dropWhile is_digit ds)
                                        | None \<Rightarrow> (None, r2))
                else (None, r2)
           | [] \<Rightarrow> (None, r2))
     in if ip = [] \<or> (hd ip = CHR ''0'' \<and> tl ip \<noteq> []) then None
        else (case str_nat (ip @ fp) of
           None \<Rightarrow> None
         | Some m \<Rightarrow>
            if fp = [] \<and> ex10 = None then Some (PInt (sg * int m), r3)
            else Some (PFloat (float_fin (sg * int m)
                   ((case ex10 of Some x \<Rightarrow> x | None \<Rightarrow> 0) - int (length fp))), r3)))"

text \<open>
  Recursive descent; each call works on a proper suffix of the input, so the length of the
  input is enough fuel. Duplicate keys: the last one wins.
\<close>

fun json_value :: "nat \<Rightarrow> string \<Rightarrow> (pyval \<times> string) option"
  and json_items :: "nat \<Rightarrow> string \<Rightarrow> (pyval list \<times> string) option"
  and json_members :: "nat \<Rightarrow> string \<Rightarrow> ((string \<times> pyval) list \<times> string) option" where
  "json_value 0 s = None"
| "json_value (Suc n) s =
    (case s of
       [] \<Rightarrow> None
     | c # r \<Rightarrow>
        if c = CHR 0x22 then map_option (\<lambda>(t, r'). (PStr t, r')) (json_string r)
        else if c = CHR ''['' then
          (let r1 = skip_ws r in
           if r1 \<noteq> [] \<and> hd r1 = CHR '']'' then Some (PList [], tl r1)
           else map_option (\<lambda>(vs, r'). (PList vs, r')) (json_items n r1))
        else if c = CHR 0x7B then
          (let r1 = skip_ws r in
           if r1 \<noteq> [] \<and> hd r1 = CHR 0x7D then Some (PDict [], tl r1)
           else map_option (\<lambda>(kvs, r'). (PDict (dict_of kvs), r')) (json_members n r1))
        else if startswith s ''null'' then Some (PNone, drop 4 s)
        else if startswith s ''true'' then Some (PBool True, drop 4 s)
        else if startswith s ''false'' then Some (PBool False, drop 5 s)
        else if startswith s ''NaN'' then Some (PFloat NaN, drop 3 s)
        else if startswith s ''Infinity'' then Some (PFloat (Inf False), drop 8 s)
        else if startswith s ''-Infinity'' then Some (PFloat (Inf True), drop 9 s)
        else json_number s)"
| "json_items 0 s = None"
| "json_items (Suc n) s =
    (case json_value n s of
       None \<Rightarrow> None
     | Some (v, r) \<Rightarrow>
       (case skip_ws r of
          [] \<Rightarrow> None
        | c # r' \<Rightarrow>
           if c = CHR '']'' then Some ([v], r')
           else if c = CHR '','' then map_option (\<lambda>(vs, r''). (v # vs, r'')) (json_items n (skip_ws r'))
           else None))"
| "json_members 0 s = None"
| "json_members (Suc n) s =
    (case s of
       [] \<Rightarrow> None
     | q # r0 \<Rightarrow>
       if q \<noteq> CHR 0x22 then None
       else (case json_string r0 of
          None \<Rightarrow> None
        | Some (k, r1) \<Rightarrow>
          (case skip_ws r1 of
             [] \<Rightarrow> None
           | c # r2 \<Rightarrow>
             if c \<noteq> CHR '':'' then None
             else (case json_value n (skip_ws r2) of
                None \<Rightarrow> None
              | Some (v, r3) \<Rightarrow>
                (case skip_ws r3 of
                   [] \<Rightarrow> None
                 | d # r4 \<Rightarrow>
                   if d = CHR 0x7D then Some ([(k, v)], r4)
                   else if d = CHR '','' then
                     map_option (\<lambda>(kvs, r'). ((k, v) # kvs, r')) (json_members n (skip_ws r4))
                   else None)))))"

definition json_loads :: "string \<Rightarrow> pyval res" where
  "json_loads s =
    (case json_value (2 * length s + 2) (skip_ws s) of
       Some (v, r) \<Rightarrow> if skip_ws r = [] then Inr v else Inl (py_exn JSONDecodeError [PStr ''Extra data''])
     | None \<Rightarrow> Inl (py_exn JSONDecodeError [PStr ''Expecting value'']))"

section \<open>Lemmas\<close>

lemma drop_underscores_plain: "CHR ''_'' \<notin> set s \<Longrightarrow> drop_underscores s = Some s"
  by (induction s rule: drop_underscores.induct) auto

lemma digit_not_space: "is_digit c \<Longrightarrow> \<not> is_space c"
  by (auto simp: is_digit_def is_space_def Let_def)

lemma minus_not_space: "\<not> is_space (CHR ''-'')"
  by (simp add: is_space_def)

lemma digits_no_underscore: "list_all is_digit s \<Longrightarrow> CHR ''_'' \<notin> set s"
  by (auto simp: list_all_iff is_digit_def)

lemma strip_id: "(\<And>c. c \<in> set s \<Longrightarrow> \<not> is_space c) \<Longrightarrow> strip s = s"
  by (simp add: strip_def dropWhile_eq_self_iff)
     (metis hd_in_set dropWhile_eq_self_iff rev_rev_ident set_rev)

lemma signed_digits: "s \<noteq> [] \<Longrightarrow> list_all is_digit s \<Longrightarrow> signed s = (1, s)"
  by (cases s) (auto simp: is_digit_def)

text \<open>\<open>int(str(i)) == i\<close>.\<close>

lemma int_of_str_int_str [simp]: "int_of_str (int_str i) = Some i"
proof -
  have digits: "list_all is_digit (nat_str n)" "nat_str n \<noteq> []" for n
    using nat_str_digits [of n] by auto
  have plain: "strip (nat_str n) = nat_str n" "drop_underscores (nat_str n) = Some (nat_str n)" for n
    using digits (1) [of n]
    by (auto simp: list_all_iff digit_not_space intro!: strip_id drop_underscores_plain digits_no_underscore)
  have minus: "strip (CHR ''-'' # nat_str n) = CHR ''-'' # nat_str n"
    "drop_underscores (CHR ''-'' # nat_str n) = Some (CHR ''-'' # nat_str n)" for n
    using digits (1) [of n] digits_no_underscore [of "nat_str n"]
    by (auto simp: list_all_iff digit_not_space minus_not_space intro!: strip_id drop_underscores_plain)
  show ?thesis
  proof (cases "i < 0")
    case True
    then show ?thesis by (simp add: int_of_str_def int_str_def minus)
  next
    case False
    then show ?thesis by (simp add: int_of_str_def int_str_def plain signed_digits digits)
  qed
qed

end
