(* ===== verification/ErrorPresenter.thy ===== *)
theory ErrorPresenter imports PyConv "HOL-Library.Sublist" begin

text \<open>
  \<^verbatim>\<open>promptflow/_utils/exception_utils.py\<close>: exceptions as error dictionaries (code, nested
  inner codes, message, optional debug information) and the readers of such dictionaries
  (\<open>ErrorResponse\<close>). The traceback text comes from the interpreter (\<open>pyenv\<close>).
\<close>

section \<open>Messages of a tool failure\<close>

definition serializable_message_parameters :: "pyenv \<Rightarrow> exn \<Rightarrow> (string, pyval) dict res" where
  "serializable_message_parameters env e =
     bindr (if isinstance e (Co ToolExecutionError) then
              bindr (case inner_exception e of
                  Some i \<Rightarrow> bindr (message env i) (\<lambda>s. Inr (PStr (''('' @ class_name (ex_class (ex i)) @ '') '' @ s)))
                | None \<Rightarrow> Inr PNone)
                (\<lambda>emsg. Inr [(''node_name'', case ex_node_name (ex e) of Some n \<Rightarrow> PStr n | None \<Rightarrow> PNone),
                             (''error_type_and_message'', emsg)])
            else base_message_parameters e)
       (\<lambda>ps. Inr (map (\<lambda>(k, v). (k, PStr (py_str (obj_repr env) v))) ps))"

definition reference_code :: "exn \<Rightarrow> string" where
  "reference_code e =
    (case ex_module (ex e) of
       Some m \<Rightarrow> if m \<noteq> [] then target_value (ex_target (ex e)) @ ''/'' @ m
                 else target_value (ex_target (ex e))
     | None \<Rightarrow> target_value (ex_target (ex e)))"

fun replace_all :: "string \<Rightarrow> string \<Rightarrow> string \<Rightarrow> string" where
  "replace_all old new [] = []"
| "replace_all old new (c # s) =
    (if old \<noteq> [] \<and> startswith (c # s) old
     then new @ replace_all old new (drop (length old - 1) s)
     else c # replace_all old new s)"

text \<open>The first frame is the engine's own; \<open>File "<string>"\<close> is shown as the node.\<close>

definition tool_traceback :: "pyenv \<Rightarrow> exn \<Rightarrow> pyval" where
  "tool_traceback env e =
    (case inner_exception e of
       None \<Rightarrow> PNone
     | Some i \<Rightarrow>
        (case ex_tb (ex i) of
           f # tb \<Rightarrow>
             if tb = [] then PNone
             else (let t = format_exc env i tb in
               (case ex_node_name (ex e) of
                  Some n \<Rightarrow> PStr (if n \<noteq> []
                    then replace_all (''File '' @ [CHR 0x22] @ ''<string>'' @ [CHR 0x22])
                           (''In '' @ [CHR 0x22] @ n @ [CHR 0x22]) t
                    else t)
                | None \<Rightarrow> PStr t))
         | [] \<Rightarrow> PNone))"

text \<open>\<open>tb.tb_next\<close> is the tail of the list of frames.\<close>

fun get_tb_next :: "frame list \<Rightarrow> nat \<Rightarrow> frame list" where
  "get_tb_next (f # g # tb) (Suc n) = get_tb_next (g # tb) n"
| "get_tb_next tb n = tb"

definition last_frame_info :: "exn option \<Rightarrow> (string, pyval) dict" where
  "last_frame_info eo =
    (case eo of
       None \<Rightarrow> []
     | Some e \<Rightarrow>
        (if ex_tb (ex e) = [] then []
         else (let f = last (ex_tb (ex e)) in
           [(''filename'', PStr (fr_filename f)), (''lineno'', PInt (fr_lineno f)),
            (''name'', PStr (fr_name f))])))"

text \<open>The frames of a \<open>PythonLoadError\<close> before those of the user's file are the engine's and the import machinery's.\<close>

definition python_load_traceback :: "pyenv \<Rightarrow> exn \<Rightarrow> pyval" where
  "python_load_traceback env e =
    (case inner_exception e of
       None \<Rightarrow> PNone
     | Some i \<Rightarrow> if ex_tb (ex i) = [] then PNone else PStr (format_exc env i (get_tb_next (ex_tb (ex i)) 3)))"

definition failure_info :: "pyenv \<Rightarrow> string \<Rightarrow> pyval \<Rightarrow> exn \<Rightarrow> (string, pyval) dict option res" where
  "failure_info env key tb e =
    (case inner_exception e of
       None \<Rightarrow> Inr None
     | Some i \<Rightarrow> bindr (message env i) (\<lambda>s.
         Inr (Some [(key, PDict (dict_updates
           [(''type'', PStr (class_name (ex_class (ex i)))), (''message'', PStr s), (''traceback'', tb)]
           (last_frame_info (Some i))))])))"

text \<open>\<open>additional_info\<close> of a \<open>ToolExecutionError\<close> and of a \<open>PythonLoadError\<close>; \<open>None\<close> for every other class.\<close>

definition additional_info :: "pyenv \<Rightarrow> exn \<Rightarrow> (string, pyval) dict option res" where
  "additional_info env e =
    (if isinstance e (Co ToolExecutionError) then failure_info env ''ToolExecutionErrorDetails'' (tool_traceback env e) e
     else if isinstance e (Me PythonLoadError) then failure_info env ''UserCodeStackTrace'' (python_load_traceback env e) e
     else Inr None)"

section \<open>Error codes\<close>

definition infer_error_code_from_class :: "exc_class \<Rightarrow> string" where
  "infer_error_code_from_class c =
    (if c = Pf SystemErrorException then ''SystemError''
     else if c = Pf UserErrorException then ''UserError''
     else if c = Pf ValidationException then ''ValidationError''
     else class_name c)"

definition exn_error_codes :: "exn \<Rightarrow> string list" where
  "exn_error_codes e = rev (map infer_error_code_from_class
     (takeWhile (\<lambda>c. c \<noteq> Pf PromptflowException) (mro (ex_class (ex e)))))"

definition nest_codes :: "string list \<Rightarrow> pyval" where
  "nest_codes codes = foldl (\<lambda>current code. PDict [(''code'', PStr code), (''innerError'', current)])
     PNone codes"

definition error_code_recursed :: "exn \<Rightarrow> pyval" where
  "error_code_recursed e = nest_codes (rev (exn_error_codes e))"

section \<open>Debug information\<close>

definition cause_message :: string where
  "cause_message = [CHR 0x0A] @ ''The above exception was the direct cause of the following exception:''
     @ [CHR 0x0A, CHR 0x0A]"

definition context_message :: string where
  "context_message = [CHR 0x0A] @ ''During handling of the above exception, another exception occurred:''
     @ [CHR 0x0A, CHR 0x0A]"

definition traceback_message :: string where
  "traceback_message = ''Traceback (most recent call last):'' @ [CHR 0x0A]"

fun build_debug_info :: "pyenv \<Rightarrow> exn \<Rightarrow> pyval res" where
  "build_debug_info env (Exn d err cause ctx) =
    (let stack_trace = traceback_message @ format_tb env (ex_tb d) in
     bindr (case cause of
              Some c \<Rightarrow> bindr (build_debug_info env c) (\<lambda>i. Inr (i, cause_message @ stack_trace))
            | None \<Rightarrow> (case ctx of
                Some c \<Rightarrow> bindr (build_debug_info env c) (\<lambda>i. Inr (i, context_message @ stack_trace))
              | None \<Rightarrow> Inr (PNone, stack_trace)))
       (\<lambda>(inner, st). bindr (message env (Exn d err cause ctx)) (\<lambda>s.
          Inr (PDict [(''type'', PStr (class_name (ex_class d))), (''message'', PStr s),
                      (''stackTrace'', PStr st), (''innerException'', inner)]))))"

section \<open>Error dictionaries\<close>

definition with_debug :: "pyenv \<Rightarrow> bool \<Rightarrow> exn \<Rightarrow> (string, pyval) dict \<Rightarrow> pyval res" where
  "with_debug env include e result =
    (if include
     then bindr (build_debug_info env e) (\<lambda>di. Inr (PDict (AList.update ''debugInfo'' di result)))
     else Inr (PDict result))"

text \<open>
  \<open>JsonSerializedPromptflowException.to_dict\<close>: the message is a JSON text. The membership test
  of the source works on dictionaries, lists and strings only.
\<close>

definition json_exception_to_dict :: "string \<Rightarrow> bool \<Rightarrow> pyval res" where
  "json_exception_to_dict text include =
    bindr (json_loads text) (\<lambda>v.
      if include then Inr v
      else (case v of
          PDict d \<Rightarrow> Inr (PDict (AList.delete ''debugInfo'' d))
        | PList vs \<Rightarrow> if PStr ''debugInfo'' \<in> set vs
            then Inl (py_exn TypeError [PStr ''pop''])
            else Inr v
        | PStr s \<Rightarrow> if sublist ''debugInfo'' s
            then Inl (py_exn AttributeError [PStr ''pop''])
            else Inr v
        | _ \<Rightarrow> Inl (py_exn TypeError [PStr ''argument is not iterable''])))"

definition general_to_dict :: "pyenv \<Rightarrow> bool \<Rightarrow> exn \<Rightarrow> pyval res" where
  "general_to_dict env include e =
    bindr (message env e) (\<lambda>s.
      if isinstance e (Ot JsonSerializedPromptflowException) then json_exception_to_dict s include
      else with_debug env include e
        [(''code'', PStr (infer_error_code_from_class (Pf SystemErrorException))),
         (''message'', PStr s), (''messageFormat'', PStr []), (''messageParameters'', PDict []),
         (''innerError'', PDict [(''code'', PStr (class_name (ex_class (ex e)))), (''innerError'', PNone)])])"

text \<open>A class may override \<open>additional_info\<close>: what it gives is \<open>extra\<close>.\<close>

definition promptflow_dict :: "pyenv \<Rightarrow> bool \<Rightarrow> (string, pyval) dict option res \<Rightarrow> exn \<Rightarrow> pyval res" where
  "promptflow_dict env include extra e =
    bindr (message env e) (\<lambda>s.
    bindr (serializable_message_parameters env e) (\<lambda>params.
    bindr extra (\<lambda>info.
      let base = [(''message'', PStr s), (''messageFormat'', PStr (message_format e)),
                  (''messageParameters'', PDict params), (''referenceCode'', PStr (reference_code e))];
          coded = (case error_code_recursed e of
              PDict d \<Rightarrow> dict_updates base d
            | _ \<Rightarrow> base @ [(''code'', PStr (infer_error_code_from_class (Pf SystemErrorException))),
                 (''innerError'', case inner_exception e of
                     Some i \<Rightarrow> PDict [(''code'', PStr (infer_error_code_from_class (ex_class (ex i)))),
                                      (''innerError'', PNone)]
                   | None \<Rightarrow> PNone)]);
          full = (case info of
              Some kvs \<Rightarrow> if kvs \<noteq> []
                then AList.update ''additionalInfo''
                  (PList (map (\<lambda>(k, v). PDict [(''type'', PStr k), (''info'', v)]) kvs)) coded
                else coded
            | None \<Rightarrow> coded)
      in with_debug env include e full)))"

definition promptflow_to_dict :: "pyenv \<Rightarrow> bool \<Rightarrow> exn \<Rightarrow> pyval res" where
  "promptflow_to_dict env include e = promptflow_dict env include (additional_info env e) e"

text \<open>\<open>ExceptionPresenter.create(ex).to_dict(include_debug_info=...)\<close>\<close>

definition error_to_dict :: "pyenv \<Rightarrow> bool \<Rightarrow> exn \<Rightarrow> pyval res" where
  "error_to_dict env include e =
    (if is_promptflow e then promptflow_to_dict env include e else general_to_dict env include e)"

section \<open>ErrorResponse\<close>

datatype response_code = SUCCESS | ACCEPTED | REDIRECTION | CLIENT_ERROR | SERVICE_ERROR | UNKNOWN_CODE

fun response_code_value :: "response_code \<Rightarrow> string" where
  "response_code_value SUCCESS = ''200''"
| "response_code_value ACCEPTED = ''202''"
| "response_code_value REDIRECTION = ''300''"
| "response_code_value CLIENT_ERROR = ''400''"
| "response_code_value SERVICE_ERROR = ''500''"
| "response_code_value UNKNOWN_CODE = ''0''"

definition response_code :: "(string, pyval) dict \<Rightarrow> response_code" where
  "response_code error_dict =
    (if map_of error_dict ''code'' = Some (PStr ''UserError'') then CLIENT_ERROR else SERVICE_ERROR)"

definition response_message :: "(string, pyval) dict \<Rightarrow> pyval" where
  "response_message error_dict = dict_get error_dict ''message'' (PStr [])"

text \<open>Items that are not dictionaries with a name and an info are skipped.\<close>

definition response_additional_info :: "(string, pyval) dict \<Rightarrow> (pyval \<times> pyval) list" where
  "response_additional_info error_dict =
    (case map_of error_dict ''additionalInfo'' of
       Some (PList items) \<Rightarrow>
         fold (\<lambda>item result.
           case item of
             PDict d \<Rightarrow>
               (let name = dict_get d ''type'' PNone; info = dict_get d ''info'' PNone in
                if \<not> truthy name \<or> \<not> truthy info then result else AList.update name info result)
           | _ \<Rightarrow> result) items []
     | _ \<Rightarrow> [])"

definition get_additional_info :: "(string, pyval) dict \<Rightarrow> string \<Rightarrow> pyval" where
  "get_additional_info error_dict name =
     dict_get (response_additional_info error_dict) (PStr name) PNone"

definition get_user_execution_error_info :: "(string, pyval) dict \<Rightarrow> (string, pyval) dict" where
  "get_user_execution_error_info error_dict =
    (case get_additional_info error_dict ''ToolExecutionErrorDetails'' of
       PDict d \<Rightarrow> d | _ \<Rightarrow> [])"

definition to_simplified_dict :: "(string, pyval) dict \<Rightarrow> pyval" where
  "to_simplified_dict error_dict =
     PDict [(''error'', PDict [(''code'', dict_get error_dict ''code'' PNone),
                               (''message'', dict_get error_dict ''message'' PNone)])]"

text \<open>The codes of the nested errors, outermost first; a non-dictionary has no \<open>get\<close>.\<close>

lemma size_map_of_dict: "map_of d k = Some v \<Longrightarrow> size v < Suc (size_list (size_prod (\<lambda>_. 0) size) d)"
  by (rule size_dict_entry [of k]) (rule map_of_SomeD)

function response_error_codes :: "pyval \<Rightarrow> pyval list res" where
  "response_error_codes (PDict d) =
    (case map_of d ''code'' of
       None \<Rightarrow> Inr []
     | Some code \<Rightarrow>
        if code = PNone then Inr []
        else (case map_of d ''innerError'' of
            None \<Rightarrow> Inr [code]
          | Some inner \<Rightarrow> bindr (response_error_codes inner) (\<lambda>cs. Inr (code # cs))))"
| "response_error_codes PNone = Inr []"
| "response_error_codes (PBool v) = Inl (py_exn AttributeError [PStr ''get''])"
| "response_error_codes (PInt v) = Inl (py_exn AttributeError [PStr ''get''])"
| "response_error_codes (PFloat v) = Inl (py_exn AttributeError [PStr ''get''])"
| "response_error_codes (PStr v) = Inl (py_exn AttributeError [PStr ''get''])"
| "response_error_codes (PSecret v) = Inl (py_exn AttributeError [PStr ''get''])"
| "response_error_codes (PPrompt v) = Inl (py_exn AttributeError [PStr ''get''])"
| "response_error_codes (PList v) = Inl (py_exn AttributeError [PStr ''get''])"
| "response_error_codes (PTuple v) = Inl (py_exn AttributeError [PStr ''get''])"
| "response_error_codes (PObj c v) = Inl (py_exn AttributeError [PStr ''get''])"
| "response_error_codes (PGen v) = Inl (py_exn AttributeError [PStr ''get''])"
  by pat_completeness auto
termination
  by (relation "measure size") (auto dest: size_map_of_dict)

definition innermost_error_code :: "(string, pyval) dict \<Rightarrow> pyval res" where
  "innermost_error_code error_dict =
     bindr (response_error_codes (PDict error_dict)) (\<lambda>cs. Inr (if cs = [] then PNone else last cs))"

definition error_code_hierarchy :: "(string, pyval) dict \<Rightarrow> string res" where
  "error_code_hierarchy error_dict =
     bindr (response_error_codes (PDict error_dict)) (\<lambda>cs.
       if list_all (\<lambda>c. as_str c \<noteq> None) cs then Inr (join ''/'' (map (\<lambda>c. the (as_str c)) cs))
       else Inl (py_exn TypeError [PStr ''sequence item: expected str instance'']))"

section \<open>Codes survive the dictionary\<close>

lemma nest_codes_rev: "nest_codes (rev (c # cs)) = PDict [(''code'', PStr c), (''innerError'', nest_codes (rev cs))]"
  by (simp add: nest_codes_def)

lemma response_error_codes_nest: "response_error_codes (nest_codes (rev cs)) = Inr (map PStr cs)"
proof (induction cs)
  case Nil
  then show ?case by (simp add: nest_codes_def)
next
  case (Cons c cs)
  then show ?case by (simp only: nest_codes_rev) simp
qed

text \<open>The classes of an exception below \<open>UserErrorException\<close> (or \<open>SystemErrorException\<close>).\<close>

lemma mro_root:
  assumes "r = Pf UserErrorException \<or> r = Pf SystemErrorException" "r \<in> set (mro c)"
  shows "\<exists>cs. takeWhile (\<lambda>x. x \<noteq> Pf PromptflowException) (mro c) = cs @ [r]"
  using assms(2)
proof (induction c)
  case (UserClass n b)
  with assms(1) have "r \<in> set (mro b)" by auto
  with UserClass.IH obtain cs where "takeWhile (\<lambda>x. x \<noteq> Pf PromptflowException) (mro b) = cs @ [r]" by blast
  then have "takeWhile (\<lambda>x. x \<noteq> Pf PromptflowException) (mro (UserClass n b)) = (UserClass n b # cs) @ [r]" by simp
  then show ?case by blast
next
  case (Pf c)
  then show ?case using assms(1) by (cases c) (auto simp: mro_def numeral_eq_Suc)
next
  case (Ex c)
  then show ?case using assms(1) by (cases c) (auto simp: mro_def numeral_eq_Suc)
next
  case (Co c)
  then show ?case using assms(1) by (cases c) (auto simp: mro_def numeral_eq_Suc)
next
  case (Fe c)
  then show ?case using assms(1) by (cases c) (auto simp: mro_def numeral_eq_Suc)
next
  case (Ot c)
  then show ?case using assms(1) by (cases c) (auto simp: mro_def numeral_eq_Suc)
next
  case (Me c)
  then show ?case using assms(1) by (cases c) (auto simp: mro_def numeral_eq_Suc)
next
  case (Py c)
  then show ?case using assms(1) by (cases c) (auto simp: mro_def numeral_eq_Suc)
next
  case OutsideModel
  then show ?case using assms(1) by (auto simp: mro_def numeral_eq_Suc)
qed

lemma error_codes_root:
  assumes "r = Pf UserErrorException \<or> r = Pf SystemErrorException" "isinstance e r"
  shows "\<exists>cs. exn_error_codes e = infer_error_code_from_class r # cs"
proof -
  from mro_root [OF assms(1)] assms(2) obtain cs where
    "takeWhile (\<lambda>x. x \<noteq> Pf PromptflowException) (mro (ex_class (ex e))) = cs @ [r]"
    by (auto simp: isinstance_def)
  then have "exn_error_codes e = infer_error_code_from_class r # rev (map infer_error_code_from_class cs)"
    by (simp add: exn_error_codes_def)
  then show ?thesis by blast
qed

lemma mro_promptflow_root:
  "r = Pf UserErrorException \<or> r = Pf SystemErrorException \<Longrightarrow> r \<in> set (mro c) \<Longrightarrow>
    Pf PromptflowException \<in> set (mro c)"
proof (induction c)
  case (Pf c)
  then show ?case by (cases c) (auto simp: mro_def numeral_eq_Suc)
next
  case (Ex c)
  then show ?case by (cases c) (auto simp: mro_def numeral_eq_Suc)
next
  case (Co c)
  then show ?case by (cases c) (auto simp: mro_def numeral_eq_Suc)
next
  case (Fe c)
  then show ?case by (cases c) (auto simp: mro_def numeral_eq_Suc)
next
  case (Ot c)
  then show ?case by (cases c) (auto simp: mro_def numeral_eq_Suc)
next
  case (Me c)
  then show ?case by (cases c) (auto simp: mro_def numeral_eq_Suc)
next
  case (Py c)
  then show ?case by (cases c) (auto simp: mro_def numeral_eq_Suc)
next
  case (UserClass n b)
  then show ?case by auto
next
  case OutsideModel
  then show ?case by (auto simp: mro_def numeral_eq_Suc)
qed

lemma with_debug_codes:
  assumes "with_debug env include e d = Inr v"
  obtains d' where "v = PDict d'" "\<And>k. k \<noteq> ''debugInfo'' \<Longrightarrow> map_of d' k = map_of d k"
  using assms by (auto simp: with_debug_def res_simps split: if_splits)

lemma promptflow_to_dict_codes:
  assumes "promptflow_to_dict env include e = Inr v" "exn_error_codes e = c # cs"
  obtains d where "v = PDict d" "map_of d ''code'' = Some (PStr c)"
    "map_of d ''innerError'' = Some (nest_codes (rev cs))"
proof -
  have rec: "error_code_recursed e = PDict [(''code'', PStr c), (''innerError'', nest_codes (rev cs))]"
    by (simp only: error_code_recursed_def assms(2) nest_codes_rev)
  let ?coded = "\<lambda>s params. dict_updates
    [(''message'', PStr s), (''messageFormat'', PStr (message_format e)),
     (''messageParameters'', PDict params), (''referenceCode'', PStr (reference_code e))]
    [(''code'', PStr c), (''innerError'', nest_codes (rev cs))]"
  have coded: "map_of (?coded s params) ''code'' = Some (PStr c)"
    "map_of (?coded s params) ''innerError'' = Some (nest_codes (rev cs))" for s params
    by (simp_all add: map_of_dict_updates)
  from assms(1) obtain s params extra where
    "with_debug env include e (?coded s params) = Inr v \<or>
     with_debug env include e (AList.update ''additionalInfo'' extra (?coded s params)) = Inr v"
    by (auto simp: promptflow_to_dict_def promptflow_dict_def res_simps rec Let_def split: option.splits if_splits)
  then show thesis
    by (elim disjE with_debug_codes) (rule that, assumption, simp add: coded, simp add: coded)+
qed

section \<open>Properties\<close>

text \<open>Reading the error dictionary of an engine exception back with \<open>ErrorResponse.error_codes\<close>
  gives the codes of its class hierarchy, outermost first, whatever the message, the additional
  information and the debug information are.\<close>

theorem error_response_codes_roundtrip:
  assumes "is_promptflow e" "exn_error_codes e \<noteq> []" "error_to_dict env include e = Inr v"
  shows "response_error_codes v = Inr (map PStr (exn_error_codes e))"
proof -
  obtain c cs where codes: "exn_error_codes e = c # cs" using assms(2) by (cases "exn_error_codes e") auto
  from assms(1,3) have "promptflow_to_dict env include e = Inr v" by (simp add: error_to_dict_def)
  from promptflow_to_dict_codes [OF this codes] obtain d where "v = PDict d"
    "map_of d ''code'' = Some (PStr c)" "map_of d ''innerError'' = Some (nest_codes (rev cs))" .
  then show ?thesis by (simp add: codes response_error_codes_nest)
qed

definition demo_error :: exn where
  "demo_error = invalid_flow_request InputNotFound [PStr ''no input'']"

lemma demo_error_dict:
  "error_to_dict demo_env False demo_error = Inr (PDict [(''message'', PStr ''no input''),
     (''messageFormat'', PStr []), (''messageParameters'', PDict []), (''referenceCode'', PStr ''Executor''),
     (''code'', PStr ''UserError''), (''innerError'', PDict [(''code'', PStr ''ValidationError''),
       (''innerError'', PDict [(''code'', PStr ''InvalidFlowRequest''),
         (''innerError'', PDict [(''code'', PStr ''InputNotFound''), (''innerError'', PNone)])])])])"
  by code_simp

theorem error_response_codes_roundtrip_witness:
  "\<exists>v. error_to_dict demo_env False demo_error = Inr v \<and>
     response_error_codes v = Inr (map PStr (exn_error_codes demo_error))"
proof -
  have "is_promptflow demo_error" "exn_error_codes demo_error \<noteq> []" by code_simp+
  from error_response_codes_roundtrip [OF this demo_error_dict] show ?thesis
    using demo_error_dict by blast
qed

text \<open>The HTTP status class of the error dictionary follows the class of the exception: an
  exception below \<open>UserErrorException\<close> is a client error, one below \<open>SystemErrorException\<close> and any
  exception that is not the engine's is a service error.\<close>

theorem error_response_http_code:
  assumes "error_to_dict env include e = Inr (PDict d)"
  shows "(isinstance e (Pf UserErrorException) \<longrightarrow> response_code d = CLIENT_ERROR) \<and>
    (isinstance e (Pf SystemErrorException) \<longrightarrow> response_code d = SERVICE_ERROR) \<and>
    (\<not> is_promptflow e \<and> \<not> isinstance e (Ot JsonSerializedPromptflowException)
       \<longrightarrow> response_code d = SERVICE_ERROR)"
proof (intro conjI impI)
  have code: "map_of d ''code'' = Some (PStr (infer_error_code_from_class r))"
    if r: "r = Pf UserErrorException \<or> r = Pf SystemErrorException" "isinstance e r" for r
  proof -
    from error_codes_root [OF r] obtain cs where codes: "exn_error_codes e = infer_error_code_from_class r # cs" ..
    have "is_promptflow e" using mro_promptflow_root [OF r(1)] r(2) by (simp add: isinstance_def)
    with assms have "promptflow_to_dict env include e = Inr (PDict d)" by (simp add: error_to_dict_def)
    from promptflow_to_dict_codes [OF this codes] show ?thesis by auto
  qed
  show "response_code d = CLIENT_ERROR" if "isinstance e (Pf UserErrorException)"
    using code [OF _ that] by (simp add: response_code_def infer_error_code_from_class_def)
  show "response_code d = SERVICE_ERROR" if "isinstance e (Pf SystemErrorException)"
    using code [OF _ that] by (simp add: response_code_def infer_error_code_from_class_def)
  show "response_code d = SERVICE_ERROR"
    if "\<not> is_promptflow e \<and> \<not> isinstance e (Ot JsonSerializedPromptflowException)"
    using that assms
    by (auto simp: error_to_dict_def general_to_dict_def res_simps with_debug_def response_code_def
        infer_error_code_from_class_def split: if_splits)
qed

theorem error_response_http_code_witness:
  "\<exists>d. error_to_dict demo_env False demo_error = Inr (PDict d) \<and> response_code d = CLIENT_ERROR"
proof -
  have "isinstance demo_error (Pf UserErrorException)" by code_simp
  with error_response_http_code [OF demo_error_dict] show ?thesis using demo_error_dict by blast
qed

end
