(* ===== verification/ToolContract.thy ===== *)
theory ToolContract imports PyConv begin

text \<open>
  \<^verbatim>\<open>promptflow/contracts/tool.py\<close> and \<^verbatim>\<open>types.py\<close>: value types and their parsing of user
  data, connection types, tools and their input and output definitions with their dictionary
  forms. The registry of connection classes (\<open>promptflow._core.tools_manager.connections\<close>) is
  filled while packages are imported; it is the parameter \<open>conns\<close>, the registered class names.
\<close>

section \<open>Reading data\<close>

definition get_item :: "(string, pyval) dict \<Rightarrow> string \<Rightarrow> pyval res" where
  "get_item d k = (case map_of d k of Some v \<Rightarrow> Inr v | None \<Rightarrow> Inl (py_exn KeyError [PStr (repr_str k)]))"

definition expect_dict :: "pyval \<Rightarrow> (string, pyval) dict res" where
  "expect_dict v = (case v of PDict d \<Rightarrow> Inr d | _ \<Rightarrow> Inl (py_exn AttributeError [PStr ''get'']))"

text \<open>A field annotated \<open>Optional[str]\<close> or \<open>str\<close>: other types are outside the model.\<close>

definition opt_string :: "pyval \<Rightarrow> string option res" where
  "opt_string v = (case v of PNone \<Rightarrow> Inr None | PStr s \<Rightarrow> Inr (Some s) | _ \<Rightarrow> Inl outside_model)"

definition req_string :: "pyval \<Rightarrow> string res" where
  "req_string v = (case v of PStr s \<Rightarrow> Inr s | _ \<Rightarrow> Inl outside_model)"

definition req_bool :: "pyval \<Rightarrow> bool res" where
  "req_bool v = (case v of PBool b \<Rightarrow> Inr b | PNone \<Rightarrow> Inr False | _ \<Rightarrow> Inl outside_model)"

definition none_or_str :: "string option \<Rightarrow> pyval" where
  "none_or_str so = (case so of None \<Rightarrow> PNone | Some s \<Rightarrow> PStr s)"

lemma opt_string_none_or_str [simp]: "opt_string (none_or_str so) = Inr so"
  by (cases so) (simp_all add: none_or_str_def opt_string_def)

section \<open>ValueType\<close>

datatype value_type = INT' | DOUBLE | BOOL | STRING | SECRET | PROMPT_TEMPLATE | LIST | OBJECT

fun value_type_value :: "value_type \<Rightarrow> string" where
  "value_type_value INT' = ''int''"
| "value_type_value DOUBLE = ''double''"
| "value_type_value BOOL = ''bool''"
| "value_type_value STRING = ''string''"
| "value_type_value SECRET = ''secret''"
| "value_type_value PROMPT_TEMPLATE = ''prompt_template''"
| "value_type_value LIST = ''list''"
| "value_type_value OBJECT = ''object''"

definition value_types :: "value_type list" where
  "value_types = [INT', DOUBLE, BOOL, STRING, SECRET, PROMPT_TEMPLATE, LIST, OBJECT]"

text \<open>\<open>ValueType(v)\<close>: the member with that value, or \<open>ValueError\<close>.\<close>

definition value_type_call :: "pyval \<Rightarrow> value_type res" where
  "value_type_call v =
    (case as_str v of
       Some s \<Rightarrow> (case find (\<lambda>t. value_type_value t = s) value_types of
           Some t \<Rightarrow> Inr t
         | None \<Rightarrow> Inl (py_exn ValueError [v, PStr '' is not a valid ValueType'']))
     | None \<Rightarrow> Inl (py_exn ValueError [v, PStr '' is not a valid ValueType'']))"

text \<open>\<open>isinstance\<close> tests in the order of the source: a \<open>bool\<close> is an \<open>int\<close>, a secret a \<open>str\<close>.\<close>

fun from_value :: "pyval \<Rightarrow> value_type" where
  "from_value (PSecret s) = SECRET"
| "from_value (PPrompt s) = PROMPT_TEMPLATE"
| "from_value (PBool b) = BOOL"
| "from_value (PInt i) = INT'"
| "from_value (PFloat f) = DOUBLE"
| "from_value (PStr s) = STRING"
| "from_value (PList vs) = LIST"
| "from_value _ = OBJECT"

datatype pytype = TyInt | TyFloat | TyBool | TyStr | TyList | TySecret | TyPromptTemplate | TyClass string

fun from_type :: "pytype \<Rightarrow> value_type" where
  "from_type TyInt = INT'"
| "from_type TyFloat = DOUBLE"
| "from_type TyBool = BOOL"
| "from_type TyStr = STRING"
| "from_type TyList = LIST"
| "from_type TySecret = SECRET"
| "from_type TyPromptTemplate = PROMPT_TEMPLATE"
| "from_type (TyClass c) = OBJECT"

fun type_of :: "pyval \<Rightarrow> pytype" where
  "type_of (PSecret s) = TySecret"
| "type_of (PPrompt s) = TyPromptTemplate"
| "type_of (PBool b) = TyBool"
| "type_of (PInt i) = TyInt"
| "type_of (PFloat f) = TyFloat"
| "type_of (PStr s) = TyStr"
| "type_of (PList vs) = TyList"
| "type_of (PTuple vs) = TyClass ''tuple''"
| "type_of PNone = TyClass ''NoneType''"
| "type_of (PDict d) = TyClass ''dict''"
| "type_of (PObj c d) = TyClass c"
| "type_of (PGen vs) = TyClass ''generator''"

fun parse :: "pyenv \<Rightarrow> value_type \<Rightarrow> pyval \<Rightarrow> pyval res" where
  "parse env INT' v = bindr (to_int v) (\<lambda>i. Inr (PInt i))"
| "parse env DOUBLE v = bindr (to_float v) (\<lambda>f. Inr (PFloat f))"
| "parse env BOOL v =
    (case v of
       PBool b \<Rightarrow> Inr v
     | _ \<Rightarrow>
       (case as_str v of
          Some s \<Rightarrow> if lower s = ''true'' \<or> lower s = ''false'' then Inr (PBool (lower s = ''true''))
            else Inl (py_exn ValueError [PStr ''Invalid boolean value '', PStr (py_repr (obj_repr env) v)])
        | None \<Rightarrow> Inl (py_exn ValueError [PStr ''Invalid boolean value '', PStr (py_repr (obj_repr env) v)])))"
| "parse env STRING v = Inr (PStr (py_str (obj_repr env) v))"
| "parse env LIST v =
    bindr (case as_str v of Some s \<Rightarrow> json_loads s | None \<Rightarrow> Inr v)
      (\<lambda>w. case w of
         PList vs \<Rightarrow> Inr w
       | _ \<Rightarrow> Inl (py_exn ValueError [PStr ''Invalid list value '', PStr (py_repr (obj_repr env) w)]))"
| "parse env OBJECT v =
    (case as_str v of
       Some s \<Rightarrow> (case json_loads s of Inr w \<Rightarrow> Inr w | Inl e \<Rightarrow> Inr v)
     | None \<Rightarrow> Inr v)"
| "parse env SECRET v = Inr v"
| "parse env PROMPT_TEMPLATE v = Inr v"

section \<open>Connections\<close>

definition connection_name_property :: string where
  "connection_name_property = ''__connection_name''"

definition is_connection_class_name :: "string list \<Rightarrow> string \<Rightarrow> bool" where
  "is_connection_class_name conns type_name = (type_name \<in> set conns)"

definition is_connection_value :: "string list \<Rightarrow> pyval \<Rightarrow> bool" where
  "is_connection_value conns v = (case v of PObj c d \<Rightarrow> c \<in> set conns | _ \<Rightarrow> False)"

definition serialize_conn :: "string list \<Rightarrow> pyval \<Rightarrow> pyval res" where
  "serialize_conn conns connection =
    (if \<not> is_connection_value conns connection
     then Inl (py_exn ValueError [PStr ''Invalid connection value ''])
     else (case connection of
         PObj c d \<Rightarrow> Inr (dict_get d connection_name_property (PStr c))
       | _ \<Rightarrow> Inl (py_exn ValueError [PStr ''Invalid connection value ''])))"

section \<open>Tool types\<close>

datatype tool_type = LLM | PYTHON | PROMPT | ACTION | CUSTOM_LLM

fun tool_type_value :: "tool_type \<Rightarrow> string" where
  "tool_type_value LLM = ''llm''"
| "tool_type_value PYTHON = ''python''"
| "tool_type_value PROMPT = ''prompt''"
| "tool_type_value ACTION = ''action''"
| "tool_type_value CUSTOM_LLM = ''custom_llm''"

definition tool_types :: "tool_type list" where
  "tool_types = [LLM, PYTHON, PROMPT, ACTION, CUSTOM_LLM]"

definition tool_type_call :: "pyval \<Rightarrow> tool_type res" where
  "tool_type_call v =
    (case as_str v of
       Some s \<Rightarrow> (case find (\<lambda>t. tool_type_value t = s) tool_types of
           Some t \<Rightarrow> Inr t
         | None \<Rightarrow> Inl (py_exn ValueError [v, PStr '' is not a valid ToolType'']))
     | None \<Rightarrow> Inl (py_exn ValueError [v, PStr '' is not a valid ToolType'']))"

text \<open>
  \<open>deserialize_enum\<close> ignores case and keeps an unknown value as it is (the name of a connection
  class, say): \<open>Inl\<close> of the member, or the value itself.
\<close>

definition deserialize_enum :: "('a \<Rightarrow> string) \<Rightarrow> 'a list \<Rightarrow> pyval \<Rightarrow> ('a + string) res" where
  "deserialize_enum value_of members v =
    (case as_str v of
       None \<Rightarrow> Inl (py_exn AttributeError [PStr ''lower''])
     | Some s \<Rightarrow> (case find (\<lambda>i. lower s = lower (value_of i)) members of
         Some t \<Rightarrow> Inr (Inl t) | None \<Rightarrow> Inr (Inr s)))"

section \<open>Input and output definitions\<close>

type_synonym input_type = "value_type + string"

text \<open>Descriptions, defaults and enumerations are carried unchanged, so they stay values.\<close>

record input_definition =
  in_type :: "input_type list"
  in_default :: pyval
  in_description :: pyval
  in_enum :: pyval

text \<open>\<open>t.value\<close> of a type kept as a string has no such attribute.\<close>

fun type_item_value :: "input_type \<Rightarrow> pyval res" where
  "type_item_value (Inl t) = Inr (PStr (value_type_value t))"
| "type_item_value (Inr s) = Inl (py_exn AttributeError [PStr ''value''])"

text \<open>The trailing comma of the source makes a tuple around the list of types.\<close>

definition input_definition_serialize :: "pyenv \<Rightarrow> input_definition \<Rightarrow> pyval res" where
  "input_definition_serialize env i =
    bindr (mapr type_item_value (in_type i)) (\<lambda>ts.
      let d0 = [(''type'', PTuple [PList ts])];
          d1 = (if length (in_type i) = 1 then AList.update ''type'' (hd ts) d0 else d0);
          d2 = (if truthy (in_default i)
                then AList.update ''default'' (PStr (py_str (obj_repr env) (in_default i))) d1 else d1);
          d3 = (if truthy (in_description i) then AList.update ''description'' (in_description i) d2 else d2);
          d4 = (if truthy (in_enum i) then AList.update ''enum'' (in_enum i) d3 else d3)
      in Inr (PDict d4))"

definition deserialize_input_types :: "pyval \<Rightarrow> input_type list res" where
  "deserialize_input_types v =
    mapr (deserialize_enum value_type_value value_types) (case v of PList vs \<Rightarrow> vs | _ \<Rightarrow> [v])"

definition input_definition_deserialize :: "pyval \<Rightarrow> input_definition res" where
  "input_definition_deserialize data =
    bindr (expect_dict data) (\<lambda>d.
    bindr (get_item d ''type'') (\<lambda>t.
    bindr (deserialize_input_types t) (\<lambda>ts.
      Inr \<lparr>in_type = ts, in_default = dict_get d ''default'' (PStr []),
           in_description = dict_get d ''description'' (PStr []), in_enum = dict_get d ''enum'' (PList [])\<rparr>)))"

record output_definition =
  out_type :: "value_type list"
  out_description :: pyval
  out_is_property :: pyval

definition output_definition_serialize :: "output_definition \<Rightarrow> pyval" where
  "output_definition_serialize od =
    (let ts = map (\<lambda>t. PStr (value_type_value t)) (out_type od);
         d0 = [(''type'', if length ts = 1 then hd ts else PList ts), (''is_property'', out_is_property od)]
     in PDict (if truthy (out_description od)
               then AList.update ''description'' (out_description od) d0 else d0))"

definition output_definition_deserialize :: "pyval \<Rightarrow> output_definition res" where
  "output_definition_deserialize data =
    bindr (expect_dict data) (\<lambda>d.
    bindr (get_item d ''type'') (\<lambda>t.
    bindr (case t of PList vs \<Rightarrow> mapr value_type_call vs
             | _ \<Rightarrow> bindr (value_type_call t) (\<lambda>x. Inr [x])) (\<lambda>ts.
      Inr \<lparr>out_type = ts, out_description = dict_get d ''description'' (PStr []),
           out_is_property = dict_get d ''is_property'' (PBool False)\<rparr>)))"

section \<open>Tools\<close>

record tool_def =
  tool_name :: pyval
  tool_type_of :: "tool_type + string"
  tool_inputs :: "(string, input_definition) dict"
  tool_outputs :: "(string, output_definition) dict"
  tool_description :: pyval
  tool_module :: pyval
  tool_class_name :: pyval
  tool_source :: pyval
  tool_code :: pyval
  tool_function :: pyval
  tool_connection_type :: pyval
  tool_is_builtin :: pyval
  tool_stage :: pyval

definition map_dict :: "(pyval \<Rightarrow> 'b res) \<Rightarrow> (string, pyval) dict \<Rightarrow> (string, 'b) dict res" where
  "map_dict f d = mapr (\<lambda>(k, v). bindr (f v) (\<lambda>w. Inr (k, w))) d"

definition tool_deserialize :: "pyval \<Rightarrow> tool_def res" where
  "tool_deserialize data =
    bindr (expect_dict data) (\<lambda>d.
    bindr (get_item d ''name'') (\<lambda>name.
    bindr (get_item d ''type'') (\<lambda>t.
    bindr (deserialize_enum tool_type_value tool_types t) (\<lambda>typ.
    bindr (expect_dict (dict_get d ''inputs'' (PDict []))) (\<lambda>ins.
    bindr (map_dict input_definition_deserialize ins) (\<lambda>inputs.
    bindr (expect_dict (dict_get d ''outputs'' (PDict []))) (\<lambda>outs.
    bindr (map_dict output_definition_deserialize outs) (\<lambda>outputs.
      Inr \<lparr>tool_name = name, tool_type_of = typ, tool_inputs = inputs, tool_outputs = outputs,
           tool_description = dict_get d ''description'' (PStr []),
           tool_module = dict_get d ''module'' PNone, tool_class_name = dict_get d ''class_name'' PNone,
           tool_source = dict_get d ''source'' PNone, tool_code = dict_get d ''code'' PNone,
           tool_function = dict_get d ''function'' PNone,
           tool_connection_type = dict_get d ''connection_type'' PNone,
           tool_is_builtin = dict_get d ''is_builtin'' PNone, tool_stage = dict_get d ''stage'' PNone\<rparr>))))))))"

definition drop_none :: "(string, pyval) dict \<Rightarrow> (string, pyval) dict" where
  "drop_none d = filter (\<lambda>(k, v). v \<noteq> PNone \<and> k \<noteq> ''outputs'') d"

definition input_type_pyval :: "input_type \<Rightarrow> pyval" where
  "input_type_pyval t = (case t of Inl vt \<Rightarrow> PStr (value_type_value vt) | Inr s \<Rightarrow> PStr s)"

text \<open>
  \<open>asdict\<close> with the source's \<open>dict_factory\<close>: nested definitions lose their \<open>None\<close> fields too, and
  the members of the string enumerations are written as their values.
\<close>

definition input_definition_asdict :: "input_definition \<Rightarrow> pyval" where
  "input_definition_asdict i = PDict (drop_none
     [(''type'', PList (map input_type_pyval (in_type i))), (''default'', in_default i),
      (''description'', in_description i), (''enum'', in_enum i)])"

definition tool_asdict :: "tool_def \<Rightarrow> (string, pyval) dict" where
  "tool_asdict t = drop_none
    [(''name'', tool_name t),
     (''type'', PStr (case tool_type_of t of Inl ty \<Rightarrow> tool_type_value ty | Inr s \<Rightarrow> s)),
     (''inputs'', PDict (map (\<lambda>(k, i). (k, input_definition_asdict i)) (tool_inputs t))),
     (''description'', tool_description t), (''module'', tool_module t),
     (''class_name'', tool_class_name t), (''source'', tool_source t), (''code'', tool_code t),
     (''function'', tool_function t), (''connection_type'', tool_connection_type t),
     (''is_builtin'', tool_is_builtin t), (''stage'', tool_stage t)]"

definition tool_serialize :: "tool_def \<Rightarrow> (string, pyval) dict" where
  "tool_serialize t =
    (if tool_type_of t \<noteq> Inl ACTION then tool_asdict t
     else filter (\<lambda>(k, v). k \<notin> set [''type'', ''inputs'', ''outputs'']) (tool_asdict t))"

definition require_connection :: "tool_def \<Rightarrow> bool" where
  "require_connection t = (tool_type_of t = Inl LLM \<or>
     (case tool_connection_type t of PList vs \<Rightarrow> length vs > 0 | _ \<Rightarrow> False))"

section \<open>Lemmas\<close>

lemma plist_case_Inr:
  "(case w of PList vs \<Rightarrow> Inr w | _ \<Rightarrow> Inl e) = Inr u \<longleftrightarrow> (\<exists>vs. w = PList vs \<and> u = PList vs)"
  by (cases w) auto

lemma enum_value_type [simp]:
  "deserialize_enum value_type_value value_types (PStr (value_type_value vt)) = Inr (Inl vt)"
  by (induct vt) code_simp+

lemma enum_tool_type [simp]:
  "deserialize_enum tool_type_value tool_types (PStr (tool_type_value ty)) = Inr (Inl ty)"
  by (induct ty) code_simp+

lemma enum_unknown:
  "lower s \<notin> set (map (\<lambda>i. lower (value_of i)) members) \<Longrightarrow>
     deserialize_enum value_of members (PStr s) = Inr (Inr s)"
  by (auto simp: deserialize_enum_def find_None_iff split: option.split)

text \<open>A type list whose unknown names are not spellings of a value type.\<close>

definition canonical_types :: "input_type list \<Rightarrow> bool" where
  "canonical_types ts = list_all (\<lambda>t. case t of Inl vt \<Rightarrow> True
     | Inr s \<Rightarrow> lower s \<notin> set (map (\<lambda>i. lower (value_type_value i)) value_types)) ts"

lemma deserialize_canonical_types:
  "canonical_types ts \<Longrightarrow> deserialize_input_types (PList (map input_type_pyval ts)) = Inr ts"
  unfolding deserialize_input_types_def canonical_types_def
  by (induction ts) (auto simp: input_type_pyval_def enum_unknown split: sum.splits)

lemma map_dict_Inr:
  "(\<And>k v. (k, v) \<in> set d \<Longrightarrow> f (h v) = Inr (g v)) \<Longrightarrow>
     map_dict f (map (\<lambda>(k, v). (k, h v)) d) = Inr (map (\<lambda>(k, v). (k, g v)) d)"
proof (induction d)
  case (Cons kv d)
  obtain k v where [simp]: "kv = (k, v)" by force
  from Cons have "f (h v) = Inr (g v)" "map_dict f (map (\<lambda>(k, v). (k, h v)) d) = Inr (map (\<lambda>(k, v). (k, g v)) d)"
    by auto
  then show ?case by (simp add: map_dict_def)
qed (simp add: map_dict_def)

lemma map_of_drop_none:
  "distinct (map fst d) \<Longrightarrow> k \<noteq> ''outputs'' \<Longrightarrow>
     map_of (drop_none d) k = (case map_of d k of Some v \<Rightarrow> if v = PNone then None else Some v | None \<Rightarrow> None)"
proof (induction d)
  case (Cons kv d)
  have "map_of (drop_none d) j = None" if "j \<notin> set (map fst d)" for j
    using that by (auto simp: map_of_eq_None_iff drop_none_def)
  with Cons show ?case by (cases kv) (auto simp: drop_none_def split: option.splits)
qed (simp add: drop_none_def)

lemma map_of_drop_none_outputs: "map_of (drop_none d) ''outputs'' = None"
  by (auto simp: map_of_eq_None_iff drop_none_def)

lemma dict_get_drop_none:
  "distinct (map fst d) \<Longrightarrow> k \<noteq> ''outputs'' \<Longrightarrow> dict_get (drop_none d) k PNone = dict_get d k PNone"
  by (simp add: dict_get_def map_of_drop_none split: option.split)

lemma parsed_value_type:
  "t \<in> {INT', DOUBLE, BOOL, STRING, LIST} \<Longrightarrow> parse env t v = Inr w \<Longrightarrow> from_value w = t"
  by (auto simp: res_simps plist_case_Inr split: pyval.splits option.splits if_splits)

text \<open>Parsing user data by a declared type is type sound and stable: a returned value has the
  declared type, and parsing it again returns it unchanged.\<close>

theorem parse_typed_idempotent:
  assumes "t \<in> {INT', DOUBLE, BOOL, STRING, LIST}" "parse env t v = Inr w"
  shows "from_value w = t \<and> parse env t w = Inr w"
proof -
  have "from_value w = t" by (rule parsed_value_type [OF assms])
  moreover have "parse env t w = Inr w"
    using assms
    by (auto simp: res_simps plist_case_Inr to_int_def to_float_def split: pyval.splits option.splits if_splits)
  ultimately show ?thesis ..
qed

theorem parse_typed_idempotent_witness:
  "parse (demo_env) LIST (PStr ''[1, true]'') = Inr (PList [PInt 1, PBool True]) \<and>
   parse demo_env LIST (PList [PInt 1, PBool True]) = Inr (PList [PInt 1, PBool True])"
proof -
  have p: "parse demo_env LIST (PStr ''[1, true]'') = Inr (PList [PInt 1, PBool True])" by code_simp
  from parse_typed_idempotent [OF _ p] p show ?thesis by simp
qed

text \<open>What a definition must satisfy to survive its dictionary: \<open>None\<close> fields are dropped when it is
  written and come back as the defaults of the reader.\<close>

definition input_codec_ok :: "input_definition \<Rightarrow> bool" where
  "input_codec_ok i \<longleftrightarrow> canonical_types (in_type i) \<and> in_default i \<noteq> PNone \<and> in_description i \<noteq> PNone
     \<and> in_enum i \<noteq> PNone"

lemma input_asdict_roundtrip:
  "input_codec_ok i \<Longrightarrow> input_definition_deserialize (input_definition_asdict i) = Inr i"
  by (simp add: input_definition_deserialize_def input_definition_asdict_def expect_dict_def get_item_def
      drop_none_def dict_get_def input_codec_ok_def deserialize_canonical_types)

definition tool_codec_ok :: "tool_def \<Rightarrow> bool" where
  "tool_codec_ok t \<longleftrightarrow> tool_name t \<noteq> PNone \<and> tool_description t \<noteq> PNone \<and>
     (case tool_type_of t of Inl ty \<Rightarrow> ty \<noteq> ACTION
       | Inr s \<Rightarrow> lower s \<notin> set (map (\<lambda>i. lower (tool_type_value i)) tool_types)) \<and>
     list_all (\<lambda>(k, i). input_codec_ok i) (tool_inputs t)"

lemma tool_asdict_fields:
  assumes "tool_codec_ok t"
  shows "map_of (tool_asdict t) ''name'' = Some (tool_name t)"
    "map_of (tool_asdict t) ''type'' = Some (PStr (case tool_type_of t of Inl ty \<Rightarrow> tool_type_value ty | Inr s \<Rightarrow> s))"
    "map_of (tool_asdict t) ''inputs'' = Some (PDict (map (\<lambda>(k, i). (k, input_definition_asdict i)) (tool_inputs t)))"
    "map_of (tool_asdict t) ''outputs'' = None"
    "map_of (tool_asdict t) ''description'' = Some (tool_description t)"
  using assms by (simp_all add: tool_asdict_def tool_codec_ok_def map_of_drop_none map_of_drop_none_outputs)

lemma tool_asdict_optional:
  "dict_get (tool_asdict t) ''module'' PNone = tool_module t"
  "dict_get (tool_asdict t) ''class_name'' PNone = tool_class_name t"
  "dict_get (tool_asdict t) ''source'' PNone = tool_source t"
  "dict_get (tool_asdict t) ''code'' PNone = tool_code t"
  "dict_get (tool_asdict t) ''function'' PNone = tool_function t"
  "dict_get (tool_asdict t) ''connection_type'' PNone = tool_connection_type t"
  "dict_get (tool_asdict t) ''is_builtin'' PNone = tool_is_builtin t"
  "dict_get (tool_asdict t) ''stage'' PNone = tool_stage t"
  by (simp_all add: tool_asdict_def dict_get_drop_none) (simp_all add: dict_get_def)

text \<open>Writing a tool as a dictionary and reading it back gives the same tool, without its outputs,
  which the writer drops.\<close>

theorem tool_roundtrip:
  assumes "tool_codec_ok t"
  shows "tool_deserialize (PDict (tool_serialize t)) = Inr (t\<lparr>tool_outputs := []\<rparr>)"
proof -
  have ser: "tool_serialize t = tool_asdict t"
    using assms by (auto simp: tool_serialize_def tool_codec_ok_def)
  have ins: "map_dict input_definition_deserialize
      (map (\<lambda>(k, i). (k, input_definition_asdict i)) (tool_inputs t)) = Inr (tool_inputs t)"
  proof -
    have "input_codec_ok i" if "(k, i) \<in> set (tool_inputs t)" for k i
      using assms that by (auto simp: tool_codec_ok_def list_all_iff)
    then show ?thesis
      using map_dict_Inr [of "tool_inputs t" input_definition_deserialize input_definition_asdict "\<lambda>i. i"]
      by (simp add: input_asdict_roundtrip)
  qed
  have tytag: "deserialize_enum tool_type_value tool_types
      (PStr (case tool_type_of t of Inl ty \<Rightarrow> tool_type_value ty | Inr s \<Rightarrow> s)) = Inr (tool_type_of t)"
    using assms by (auto simp: tool_codec_ok_def enum_unknown split: sum.splits)
  have get: "dict_get (tool_asdict t) ''inputs'' (PDict []) = PDict (map (\<lambda>(k, i). (k, input_definition_asdict i)) (tool_inputs t))"
    "dict_get (tool_asdict t) ''outputs'' (PDict []) = PDict []"
    "dict_get (tool_asdict t) ''description'' (PStr []) = tool_description t"
    using tool_asdict_fields [OF assms] by (simp_all add: dict_get_def)
  show ?thesis
    unfolding tool_deserialize_def expect_dict_def get_item_def ser
    by (simp add: tool_asdict_fields [OF assms] get tytag ins tool_asdict_optional) (simp add: map_dict_def)
qed

definition demo_tool :: tool_def where
  "demo_tool = \<lparr>tool_name = PStr ''t'', tool_type_of = Inl PYTHON,
     tool_inputs = [(''x'', \<lparr>in_type = [Inl STRING, Inr ''AzureOpenAIConnection''], in_default = PStr [],
       in_description = PStr [], in_enum = PList []\<rparr>)],
     tool_outputs = [], tool_description = PStr ''d'', tool_module = PStr ''m'', tool_class_name = PNone,
     tool_source = PNone, tool_code = PNone, tool_function = PStr ''f'', tool_connection_type = PNone,
     tool_is_builtin = PBool True, tool_stage = PNone\<rparr>"

theorem tool_roundtrip_witness:
  "tool_deserialize (PDict (tool_serialize demo_tool)) = Inr demo_tool"
proof -
  have "tool_codec_ok demo_tool" by code_simp
  from tool_roundtrip [OF this] show ?thesis by (simp add: demo_tool_def)
qed

text \<open>The dictionary of an input definition with several types (or none) cannot be read back: the
  writer wraps the list of types in a tuple, on which the reader calls a string method.\<close>

theorem input_definition_multi_type_broken:
  assumes "length (in_type i) \<noteq> 1" "input_definition_serialize env i = Inr d"
  shows "input_definition_deserialize d = Inl (py_exn AttributeError [PStr ''lower''])"
proof -
  from assms obtain ts rest where "d = PDict rest" "map_of rest ''type'' = Some (PTuple [PList ts])"
    by (auto simp: input_definition_serialize_def res_simps Let_def split: if_splits)
  then show ?thesis
    by (simp add: input_definition_deserialize_def expect_dict_def get_item_def deserialize_input_types_def
        deserialize_enum_def)
qed

theorem input_definition_multi_type_broken_witness:
  "\<exists>d. input_definition_serialize demo_env \<lparr>in_type = [Inl STRING, Inl LIST], in_default = PNone,
       in_description = PNone, in_enum = PNone\<rparr> = Inr d \<and>
     input_definition_deserialize d = Inl (py_exn AttributeError [PStr ''lower''])"
proof -
  let ?i = "\<lparr>in_type = [Inl STRING, Inl LIST], in_default = PNone, in_description = PNone, in_enum = PNone\<rparr>"
  have "input_definition_serialize demo_env ?i =
      Inr (PDict [(''type'', PTuple [PList [PStr ''string'', PStr ''list'']])])"
    by (simp add: input_definition_serialize_def)
  moreover from this have "input_definition_deserialize (PDict [(''type'', PTuple [PList [PStr ''string'', PStr ''list'']])])
      = Inl (py_exn AttributeError [PStr ''lower''])"
    by (intro input_definition_multi_type_broken [where i = ?i]) simp_all
  ultimately show ?thesis by blast
qed

end
