(* ===== verification/FlowContract.thy ===== *)
theory FlowContract imports ToolContract begin

text \<open>
  \<^verbatim>\<open>promptflow/contracts/flow.py\<close>: input assignments (literals, references to flow inputs
  and to node outputs) with their textual form, nodes, flow inputs and outputs, variants and
  flows, with the queries the engine asks of a flow.
\<close>

section \<open>Input assignments\<close>

datatype input_value_type = LITERAL | FLOW_INPUT | NODE_REFERENCE

fun input_value_type_value :: "input_value_type \<Rightarrow> string" where
  "input_value_type_value LITERAL = ''Literal''"
| "input_value_type_value FLOW_INPUT = ''FlowInput''"
| "input_value_type_value NODE_REFERENCE = ''NodeReference''"

definition flow_input_prefix :: string where
  "flow_input_prefix = ''flow.''"

definition flow_input_prefixes :: "string list" where
  "flow_input_prefixes = [flow_input_prefix, ''inputs.'']"

text \<open>\<open>ia_prefix\<close> is the extra field of the subclass \<open>FlowInputAssignment\<close>.\<close>

record input_assignment =
  ia_value :: pyval
  ia_value_type :: input_value_type
  ia_section :: string
  ia_property :: string
  ia_prefix :: "string option"

definition literal :: "pyval \<Rightarrow> input_assignment" where
  "literal v = \<lparr>ia_value = v, ia_value_type = LITERAL, ia_section = [], ia_property = [], ia_prefix = None\<rparr>"

definition node_reference :: "string \<Rightarrow> string \<Rightarrow> string \<Rightarrow> input_assignment" where
  "node_reference n section_name prop = \<lparr>ia_value = PStr n, ia_value_type = NODE_REFERENCE,
     ia_section = section_name, ia_property = prop, ia_prefix = None\<rparr>"

definition flow_input :: "string \<Rightarrow> string \<Rightarrow> input_assignment" where
  "flow_input name prefix = \<lparr>ia_value = PStr name, ia_value_type = FLOW_INPUT, ia_section = [],
     ia_property = [], ia_prefix = Some prefix\<rparr>"

definition braced :: "string \<Rightarrow> string" where
  "braced s = ''$'' @ [CHR 0x7B] @ s @ [CHR 0x7D]"

definition ia_serialize :: "pyenv \<Rightarrow> string list \<Rightarrow> input_assignment \<Rightarrow> pyval res" where
  "ia_serialize env conns i =
    (let v = py_str (obj_repr env) (ia_value i) in
     case ia_value_type i of
       FLOW_INPUT \<Rightarrow> Inr (PStr (braced (flow_input_prefix @ v)))
     | NODE_REFERENCE \<Rightarrow>
         if ia_property i \<noteq> []
         then Inr (PStr (braced (v @ ''.'' @ ia_section i @ ''.'' @ ia_property i)))
         else Inr (PStr (braced (v @ ''.'' @ ia_section i)))
     | LITERAL \<Rightarrow>
         if is_connection_value conns (ia_value i) then serialize_conn conns (ia_value i)
         else Inr (ia_value i))"

definition is_flow_input :: "string \<Rightarrow> bool" where
  "is_flow_input s = list_ex (\<lambda>p. startswith s p) flow_input_prefixes"

definition flow_input_deserialize :: "string \<Rightarrow> input_assignment res" where
  "flow_input_deserialize s =
    (case find (\<lambda>p. startswith s p) flow_input_prefixes of
       Some p \<Rightarrow> Inr (flow_input (drop (length p) s) p)
     | None \<Rightarrow> Inl (py_exn ValueError [PStr ''Unexpected flow input value '', PStr s]))"

definition deserialize_node_reference :: "string \<Rightarrow> input_assignment" where
  "deserialize_node_reference data =
    (if CHR ''.'' \<notin> set data then node_reference data ''output'' []
     else (let (node_name, port_name) = split_once (CHR ''.'') data in
       if CHR ''.'' \<notin> set port_name then node_reference node_name port_name []
       else (let (section_name, prop) = split_once (CHR ''.'') port_name
             in node_reference node_name section_name prop)))"

definition deserialize_reference :: "string \<Rightarrow> input_assignment res" where
  "deserialize_reference s =
    (if is_flow_input s then flow_input_deserialize s else Inr (deserialize_node_reference s))"

definition ia_deserialize :: "pyval \<Rightarrow> input_assignment res" where
  "ia_deserialize v =
    (case as_str v of
       Some s \<Rightarrow>
         if startswith s ''$'' \<and> length s > 2 then
           (let t = tl s in
            if hd t \<noteq> CHR 0x7B \<or> last t \<noteq> CHR 0x7D then Inr (literal v)
            else deserialize_reference (butlast (tl t)))
         else Inr (literal v)
     | None \<Rightarrow> Inr (literal v))"

section \<open>Nodes\<close>

datatype tool_source_type = Code | Package | PackageWithPrompt

fun tool_source_type_value :: "tool_source_type \<Rightarrow> string" where
  "tool_source_type_value Code = ''code''"
| "tool_source_type_value Package = ''package''"
| "tool_source_type_value PackageWithPrompt = ''package_with_prompt''"

text \<open>The type of a source stays the string of the data; it is compared with the enumeration.\<close>

record tool_source =
  ts_type :: string
  ts_tool :: "string option"
  ts_path :: "string option"

definition tool_source_deserialize :: "pyval \<Rightarrow> tool_source res" where
  "tool_source_deserialize data =
    bindr (expect_dict data) (\<lambda>d.
    bindr (req_string (dict_get d ''type'' (PStr (tool_source_type_value Code)))) (\<lambda>ty.
    bindr (opt_string (dict_get d ''tool'' PNone)) (\<lambda>tool.
    bindr (opt_string (dict_get d ''path'' PNone)) (\<lambda>path.
      Inr \<lparr>ts_type = ty, ts_tool = tool, ts_path = path\<rparr>))))"

record skip_condition =
  sk_condition :: input_assignment
  sk_condition_value :: pyval
  sk_return_value :: input_assignment

definition skip_condition_deserialize :: "pyval \<Rightarrow> skip_condition res" where
  "skip_condition_deserialize data =
    bindr (expect_dict data) (\<lambda>d.
    bindr (get_item d ''when'') (\<lambda>w.
    bindr (ia_deserialize w) (\<lambda>cond.
    bindr (get_item d ''is'') (\<lambda>is_value.
    bindr (get_item d ''return'') (\<lambda>r.
    bindr (ia_deserialize r) (\<lambda>ret.
      Inr \<lparr>sk_condition = cond, sk_condition_value = is_value, sk_return_value = ret\<rparr>))))))"

record node =
  node_name :: string
  node_tool :: "string option"
  node_inputs :: "(string, input_assignment) dict"
  node_comment :: pyval
  node_api :: "string option"
  node_provider :: "string option"
  node_module :: "string option"
  node_connection :: pyval
  node_aggregation :: bool
  node_enable_cache :: bool
  node_use_variants :: bool
  node_source :: "tool_source option"
  node_type :: "tool_type option"
  node_skip :: "skip_condition option"

text \<open>\<open>x or y\<close>\<close>

definition py_or :: "pyval \<Rightarrow> pyval \<Rightarrow> pyval" where
  "py_or a b = (if truthy a then a else b)"

definition node_deserialize :: "pyval \<Rightarrow> node res" where
  "node_deserialize data =
    bindr (expect_dict data) (\<lambda>d.
    bindr (req_string (dict_get d ''name'' PNone)) (\<lambda>name.
    bindr (opt_string (dict_get d ''tool'' PNone)) (\<lambda>tool.
    bindr (expect_dict (py_or (dict_get d ''inputs'' PNone) (PDict []))) (\<lambda>ins.
    bindr (map_dict ia_deserialize ins) (\<lambda>inputs.
    bindr (opt_string (dict_get d ''api'' PNone)) (\<lambda>api.
    bindr (opt_string (dict_get d ''provider'' PNone)) (\<lambda>provider.
    bindr (opt_string (dict_get d ''module'' PNone)) (\<lambda>module.
    bindr (req_bool (py_or (dict_get d ''aggregation'' (PBool False)) (dict_get d ''reduce'' (PBool False)))) (\<lambda>aggr.
    bindr (req_bool (dict_get d ''enable_cache'' (PBool False))) (\<lambda>cache.
    bindr (req_bool (dict_get d ''use_variants'' (PBool False))) (\<lambda>variants.
    bindr (case map_of d ''source'' of None \<Rightarrow> Inr None
             | Some v \<Rightarrow> bindr (tool_source_deserialize v) (\<lambda>s. Inr (Some s))) (\<lambda>source.
    bindr (case map_of d ''type'' of None \<Rightarrow> Inr None
             | Some v \<Rightarrow> bindr (tool_type_call v) (\<lambda>t. Inr (Some t))) (\<lambda>ty.
    bindr (case map_of d ''skip'' of None \<Rightarrow> Inr None
             | Some v \<Rightarrow> bindr (skip_condition_deserialize v) (\<lambda>s. Inr (Some s))) (\<lambda>skip.
      Inr \<lparr>node_name = name, node_tool = tool, node_inputs = inputs,
           node_comment = dict_get d ''comment'' (PStr []), node_api = api, node_provider = provider,
           node_module = module, node_connection = dict_get d ''connection'' PNone,
           node_aggregation = aggr, node_enable_cache = cache, node_use_variants = variants,
           node_source = source, node_type = ty, node_skip = skip\<rparr>))))))))))))))"

text \<open>
  \<open>asdict\<close> keeps the truthy fields of the node and of the dataclasses inside it; a member of
  the plain enumeration \<open>InputValueType\<close> stays an object.
\<close>

definition keep_truthy :: "(string, pyval) dict \<Rightarrow> (string, pyval) dict" where
  "keep_truthy d = filter (\<lambda>(k, v). truthy v) d"

definition ia_asdict :: "input_assignment \<Rightarrow> pyval" where
  "ia_asdict i = PDict (keep_truthy
    ([(''value'', ia_value i),
      (''value_type'', PObj ''InputValueType'' [(''value'', PStr (input_value_type_value (ia_value_type i)))]),
      (''section'', PStr (ia_section i)), (''property'', PStr (ia_property i))]
     @ (case ia_prefix i of None \<Rightarrow> [] | Some p \<Rightarrow> [(''prefix'', PStr p)])))"

definition node_fields :: "node \<Rightarrow> (string, pyval) dict" where
  "node_fields n =
    [(''name'', PStr (node_name n)), (''tool'', none_or_str (node_tool n)),
     (''inputs'', PDict (map (\<lambda>(k, i). (k, ia_asdict i)) (node_inputs n))),
     (''comment'', node_comment n), (''api'', none_or_str (node_api n)),
     (''provider'', none_or_str (node_provider n)), (''module'', none_or_str (node_module n)),
     (''connection'', node_connection n), (''aggregation'', PBool (node_aggregation n)),
     (''enable_cache'', PBool (node_enable_cache n)), (''use_variants'', PBool (node_use_variants n)),
     (''source'', case node_source n of None \<Rightarrow> PNone
        | Some s \<Rightarrow> PDict (keep_truthy [(''type'', PStr (ts_type s)), (''tool'', none_or_str (ts_tool s)),
                                    (''path'', none_or_str (ts_path s))])),
     (''type'', case node_type n of None \<Rightarrow> PNone | Some t \<Rightarrow> PStr (tool_type_value t)),
     (''skip'', case node_skip n of None \<Rightarrow> PNone
        | Some s \<Rightarrow> PDict (keep_truthy [(''condition'', ia_asdict (sk_condition s)),
             (''condition_value'', sk_condition_value s), (''return_value'', ia_asdict (sk_return_value s))]))]"

definition node_asdict :: "node \<Rightarrow> (string, pyval) dict" where
  "node_asdict n = keep_truthy (node_fields n)"

definition node_serialize :: "pyenv \<Rightarrow> string list \<Rightarrow> node \<Rightarrow> (string, pyval) dict res" where
  "node_serialize env conns n =
    bindr (mapr (\<lambda>(k, i). bindr (ia_serialize env conns i) (\<lambda>v. Inr (k, v))) (node_inputs n)) (\<lambda>ins.
      let d = AList.update ''inputs'' (PDict ins) (node_asdict n)
      in Inr (if node_aggregation n
              then AList.update ''reduce'' (PBool True) (AList.update ''aggregation'' (PBool True) d)
              else d))"

section \<open>Flow inputs and outputs\<close>

record flow_input_definition =
  fi_type :: value_type
  fi_default :: pyval
  fi_description :: pyval
  fi_enum :: pyval
  fi_is_chat_input :: bool

definition flow_input_definition_serialize :: "pyenv \<Rightarrow> flow_input_definition \<Rightarrow> (string, pyval) dict" where
  "flow_input_definition_serialize env i =
    [(''type'', PStr (value_type_value (fi_type i)))]
    @ (if truthy (fi_default i) then [(''default'', PStr (py_str (obj_repr env) (fi_default i)))] else [])
    @ (if truthy (fi_description i) then [(''description'', fi_description i)] else [])
    @ (if truthy (fi_enum i) then [(''enum'', fi_enum i)] else [])
    @ (if fi_is_chat_input i then [(''is_chat_input'', PBool True)] else [])"

definition flow_input_definition_deserialize :: "pyval \<Rightarrow> flow_input_definition res" where
  "flow_input_definition_deserialize data =
    bindr (expect_dict data) (\<lambda>d.
    bindr (get_item d ''type'') (\<lambda>t.
    bindr (value_type_call t) (\<lambda>ty.
    bindr (req_bool (dict_get d ''is_chat_input'' (PBool False))) (\<lambda>chat.
      Inr \<lparr>fi_type = ty, fi_default = dict_get d ''default'' PNone,
           fi_description = dict_get d ''description'' (PStr []), fi_enum = dict_get d ''enum'' (PList []),
           fi_is_chat_input = chat\<rparr>))))"

record flow_output_definition =
  fo_type :: value_type
  fo_reference :: input_assignment
  fo_description :: pyval
  fo_evaluation_only :: bool
  fo_is_chat_output :: bool

definition flow_output_definition_serialize ::
  "pyenv \<Rightarrow> string list \<Rightarrow> flow_output_definition \<Rightarrow> (string, pyval) dict res" where
  "flow_output_definition_serialize env conns od =
    bindr (ia_serialize env conns (fo_reference od)) (\<lambda>ref. Inr
      ([(''type'', PStr (value_type_value (fo_type od))), (''reference'', ref)]
       @ (if truthy (fo_description od) then [(''description'', fo_description od)] else [])
       @ (if fo_evaluation_only od then [(''evaluation_only'', PBool True)] else [])
       @ (if fo_is_chat_output od then [(''is_chat_output'', PBool True)] else [])))"

definition flow_output_definition_deserialize :: "pyval \<Rightarrow> flow_output_definition res" where
  "flow_output_definition_deserialize data =
    bindr (expect_dict data) (\<lambda>d.
    bindr (get_item d ''type'') (\<lambda>t.
    bindr (value_type_call t) (\<lambda>ty.
    bindr (ia_deserialize (dict_get d ''reference'' (PStr []))) (\<lambda>ref.
    bindr (req_bool (dict_get d ''evaluation_only'' (PBool False))) (\<lambda>ev.
    bindr (req_bool (dict_get d ''is_chat_output'' (PBool False))) (\<lambda>chat.
      Inr \<lparr>fo_type = ty, fo_reference = ref, fo_description = dict_get d ''description'' (PStr []),
           fo_evaluation_only = ev, fo_is_chat_output = chat\<rparr>))))))"

section \<open>Variants\<close>

record node_variant =
  nv_node :: node
  nv_description :: pyval

definition node_variant_deserialize :: "pyval \<Rightarrow> node_variant res" where
  "node_variant_deserialize data =
    bindr (expect_dict data) (\<lambda>d.
    bindr (get_item d ''node'') (\<lambda>nd.
    bindr (node_deserialize nd) (\<lambda>n.
      Inr \<lparr>nv_node = n, nv_description = dict_get d ''description'' (PStr [])\<rparr>)))"

record node_variants =
  nvs_default_variant_id :: string
  nvs_variants :: "(string, node_variant) dict"

definition node_variants_deserialize :: "pyval \<Rightarrow> node_variants res" where
  "node_variants_deserialize data =
    bindr (expect_dict data) (\<lambda>d.
    bindr (get_item d ''variants'') (\<lambda>vs.
    bindr (expect_dict vs) (\<lambda>vd.
    bindr (map_dict node_variant_deserialize vd) (\<lambda>variants.
    bindr (req_string (dict_get d ''default_variant_id'' (PStr []))) (\<lambda>dflt.
      Inr \<lparr>nvs_default_variant_id = dflt, nvs_variants = variants\<rparr>)))))"

section \<open>Flows\<close>

record flow =
  flow_id :: pyval
  flow_name :: pyval
  flow_nodes :: "node list"
  flow_inputs :: "(string, flow_input_definition) dict"
  flow_outputs :: "(string, flow_output_definition) dict"
  flow_tools :: "tool_def list"
  flow_node_variants :: "(string, node_variants) dict"

text \<open>\<open>importable\<close> says which modules the interpreter can import.\<close>

definition import_requisites :: "(pyval \<Rightarrow> bool) \<Rightarrow> tool_def list \<Rightarrow> node list \<Rightarrow> unit res" where
  "import_requisites importable tools nodes =
    (if list_all (\<lambda>t. truthy (tool_module t) \<longrightarrow> importable (tool_module t)) tools \<and>
        list_all (\<lambda>n. truthy (none_or_str (node_module n)) \<longrightarrow> importable (none_or_str (node_module n))) nodes
     then Inr ()
     else Inl (pf_exn (Ot FailedToImportModule) [PStr ''Failed to import modules with error.''] RUNTIME))"

definition expect_list :: "pyval \<Rightarrow> pyval list res" where
  "expect_list v = (case v of PList vs \<Rightarrow> Inr vs | _ \<Rightarrow> Inl outside_model)"

definition flow_deserialize :: "(pyval \<Rightarrow> bool) \<Rightarrow> pyval \<Rightarrow> flow res" where
  "flow_deserialize importable data =
    bindr (expect_dict data) (\<lambda>d.
    bindr (expect_list (py_or (dict_get d ''tools'' PNone) (PList []))) (\<lambda>ts.
    bindr (mapr tool_deserialize ts) (\<lambda>tools.
    bindr (expect_list (py_or (dict_get d ''nodes'' PNone) (PList []))) (\<lambda>ns.
    bindr (mapr node_deserialize ns) (\<lambda>nodes.
    bindr (import_requisites importable tools nodes) (\<lambda>_.
    bindr (expect_dict (py_or (dict_get d ''inputs'' PNone) (PDict []))) (\<lambda>ins.
    bindr (expect_dict (py_or (dict_get d ''outputs'' PNone) (PDict []))) (\<lambda>outs.
    bindr (map_dict flow_input_definition_deserialize ins) (\<lambda>inputs.
    bindr (map_dict flow_output_definition_deserialize outs) (\<lambda>outputs.
    bindr (expect_dict (py_or (dict_get d ''node_variants'' PNone) (PDict []))) (\<lambda>vs.
    bindr (map_dict node_variants_deserialize vs) (\<lambda>variants.
      Inr \<lparr>flow_id = dict_get d ''id'' (dict_get d ''name'' (PStr ''default_flow_id'')),
           flow_name = dict_get d ''name'' (PStr ''default_flow''), flow_nodes = nodes,
           flow_inputs = inputs, flow_outputs = outputs, flow_tools = tools,
           flow_node_variants = variants\<rparr>))))))))))))"

text \<open>
  The chosen node of a variant takes the name of the node it replaces; it is the same object as
  the node in the table of variants, which therefore changes with it.
\<close>

definition apply_default_node_variant ::
  "node \<Rightarrow> (string, node_variants) dict \<Rightarrow> node \<times> (string, node_variants) dict" where
  "apply_default_node_variant n variants =
    (case map_of variants (node_name n) of
       None \<Rightarrow> (n, variants)
     | Some nvs \<Rightarrow>
        (case map_of (nvs_variants nvs) (nvs_default_variant_id nvs) of
           None \<Rightarrow> (n, variants)
         | Some v \<Rightarrow>
            (let v' = v\<lparr>nv_node := (nv_node v)\<lparr>node_name := node_name n\<rparr>\<rparr>
             in (nv_node v', AList.update (node_name n)
                  (nvs\<lparr>nvs_variants := AList.update (nvs_default_variant_id nvs) v' (nvs_variants nvs)\<rparr>)
                  variants))))"

fun apply_variants :: "node list \<Rightarrow> (string, node_variants) dict \<Rightarrow> node list \<times> (string, node_variants) dict" where
  "apply_variants [] vs = ([], vs)"
| "apply_variants (n # ns) vs =
    (let (n', vs') = (if node_use_variants n then apply_default_node_variant n vs else (n, vs));
         (ns', vs'') = apply_variants ns vs'
     in (n' # ns', vs''))"

definition apply_default_node_variants :: "flow \<Rightarrow> flow" where
  "apply_default_node_variants f =
    (let (ns, vs) = apply_variants (flow_nodes f) (flow_node_variants f)
     in f\<lparr>flow_nodes := ns, flow_node_variants := vs\<rparr>)"

definition get_node :: "flow \<Rightarrow> string \<Rightarrow> node option" where
  "get_node f name = find (\<lambda>n. node_name n = name) (flow_nodes f)"

definition get_tool :: "flow \<Rightarrow> pyval \<Rightarrow> tool_def option" where
  "get_tool f name = find (\<lambda>t. tool_name t = name) (flow_tools f)"

text \<open>The overrides change the first node of that name in place.\<close>

fun update_first :: "('a \<Rightarrow> bool) \<Rightarrow> ('a \<Rightarrow> 'a) \<Rightarrow> 'a list \<Rightarrow> 'a list" where
  "update_first p g [] = []"
| "update_first p g (x # xs) = (if p x then g x # xs else x # update_first p g xs)"

definition override_node :: "string \<Rightarrow> pyval \<Rightarrow> node \<Rightarrow> node" where
  "override_node input_name value n =
    (if truthy (node_connection n) \<and> input_name = ''connection''
     then n\<lparr>node_connection := value\<rparr>
     else n\<lparr>node_inputs := AList.update input_name (literal value) (node_inputs n)\<rparr>)"

fun apply_node_overrides :: "(string, pyval) dict \<Rightarrow> flow \<Rightarrow> flow res" where
  "apply_node_overrides [] f = Inr f"
| "apply_node_overrides ((key, value) # rest) f =
    (case split_on (CHR ''.'') key of
       [name, input_name] \<Rightarrow>
         (case get_node f name of
            None \<Rightarrow> Inl (py_exn ValueError [PStr ''Cannot find node '', PStr name, PStr '' in flow '', flow_name f])
          | Some n \<Rightarrow> apply_node_overrides rest
              (f\<lparr>flow_nodes := update_first (\<lambda>m. node_name m = name) (override_node input_name value) (flow_nodes f)\<rparr>))
     | _ \<Rightarrow> Inl (py_exn ValueError [PStr ''wrong number of values to unpack'']))"

definition flow_has_aggregation_node :: "flow \<Rightarrow> bool" where
  "flow_has_aggregation_node f = list_ex node_aggregation (flow_nodes f)"

definition is_reduce_node :: "flow \<Rightarrow> string \<Rightarrow> bool" where
  "is_reduce_node f name = (case get_node f name of None \<Rightarrow> False | Some n \<Rightarrow> node_aggregation n)"

definition is_normal_node :: "flow \<Rightarrow> string \<Rightarrow> bool" where
  "is_normal_node f name = (case get_node f name of None \<Rightarrow> False | Some n \<Rightarrow> \<not> node_aggregation n)"

definition is_llm_node :: "node \<Rightarrow> bool" where
  "is_llm_node n = (node_type n = Some LLM)"

definition refers_to :: "input_assignment \<Rightarrow> string \<Rightarrow> bool" where
  "refers_to i name = (ia_value_type i = NODE_REFERENCE \<and> ia_value i = PStr name)"

definition is_referenced_by_flow_output :: "flow \<Rightarrow> node \<Rightarrow> bool" where
  "is_referenced_by_flow_output f n =
     list_ex (\<lambda>od. refers_to (fo_reference od) (node_name n)) (dict_values (flow_outputs f))"

definition is_node_referenced_by :: "node \<Rightarrow> node \<Rightarrow> bool" where
  "is_node_referenced_by n other = list_ex (\<lambda>i. refers_to i (node_name n)) (dict_values (node_inputs other))"

definition is_referenced_by_other_node :: "flow \<Rightarrow> node \<Rightarrow> bool" where
  "is_referenced_by_other_node f n = list_ex (is_node_referenced_by n) (flow_nodes f)"

definition get_chat_input_name :: "flow \<Rightarrow> string option" where
  "get_chat_input_name f = map_option fst (find (\<lambda>(k, i). fi_is_chat_input i) (flow_inputs f))"

definition get_chat_output_name :: "flow \<Rightarrow> string option" where
  "get_chat_output_name f = map_option fst (find (\<lambda>(k, od). fo_is_chat_output od) (flow_outputs f))"

definition is_chat_flow :: "flow \<Rightarrow> bool" where
  "is_chat_flow f = (get_chat_input_name f \<noteq> None)"

section \<open>Connections of a flow\<close>

definition all_value_types :: "input_definition \<Rightarrow> bool" where
  "all_value_types i = list_all (\<lambda>t. lower (case t of Inl vt \<Rightarrow> value_type_value vt | Inr s \<Rightarrow> s)
     \<in> set (map value_type_value value_types)) (in_type i)"

definition get_connection_input_names_for_node :: "flow \<Rightarrow> string \<Rightarrow> string list res" where
  "get_connection_input_names_for_node f name =
    (case get_node f name of
       None \<Rightarrow> Inr []
     | Some n \<Rightarrow>
        (case get_tool f (none_or_str (node_tool n)) of
           None \<Rightarrow> Inl (py_exn AttributeError [PStr ''inputs''])
         | Some t \<Rightarrow> Inr (map fst (filter (\<lambda>(k, i). \<not> all_value_types i \<and>
             (case map_of (node_inputs n) k of None \<Rightarrow> False | Some a \<Rightarrow> ia_value_type a = LITERAL))
             (tool_inputs t)))))"

fun hashable :: "pyval \<Rightarrow> bool" where
  "hashable (PList vs) = False"
| "hashable (PDict d) = False"
| "hashable (PTuple vs) = list_all hashable vs"
| "hashable _ = True"

text \<open>The names a node contributes, or the error it raises.\<close>

definition node_connection_names :: "flow \<Rightarrow> node \<Rightarrow> pyval list res" where
  "node_connection_names f n =
    (if truthy (node_connection n) then
       (if hashable (node_connection n) then Inr [node_connection n]
        else Inl (py_exn TypeError [PStr ''unhashable type'']))
     else (case find (\<lambda>t. tool_name t = none_or_str (node_tool n)) (rev (flow_tools f)) of
         None \<Rightarrow> Inl (py_exn Exception [PStr ''Node '', PStr (repr_str (node_name n)), PStr '' references tool '',
            none_or_str (node_tool n), PStr '' which is not in the flow '', flow_name f])
       | Some t \<Rightarrow> bindr (mapr (\<lambda>(k, i).
            if all_value_types i then Inr []
            else (case map_of (node_inputs n) k of
                Some a \<Rightarrow> if ia_value_type a = LITERAL
                  then (if hashable (ia_value a) then Inr [ia_value a]
                        else Inl (py_exn TypeError [PStr ''unhashable type'']))
                  else Inr []
              | None \<Rightarrow> Inr [])) (tool_inputs t)) (\<lambda>vss. Inr (concat vss))))"

definition get_connection_names :: "flow \<Rightarrow> pyval set res" where
  "get_connection_names f =
    bindr (mapr (node_connection_names f) (flow_nodes f))
      (\<lambda>vss. Inr {v \<in> set (concat vss). truthy v})"

definition replace_with_variant :: "node \<Rightarrow> tool_def list \<Rightarrow> flow \<Rightarrow> flow" where
  "replace_with_variant variant_node variant_tools f =
     f\<lparr>flow_nodes := update_first (\<lambda>n. node_name n = node_name variant_node) (\<lambda>n. variant_node) (flow_nodes f),
       flow_tools := flow_tools f @ variant_tools\<rparr>"

section \<open>References survive their text\<close>

lemma ia_deserialize_braced:
  "ia_deserialize (PStr (braced s)) = deserialize_reference s"
  by (simp add: ia_deserialize_def braced_def)

lemma find_flow_prefix:
  "find (\<lambda>p. startswith (flow_input_prefix @ s) p) flow_input_prefixes = Some flow_input_prefix"
  by (simp add: flow_input_prefixes_def flow_input_prefix_def)

lemma deserialize_flow_input:
  "deserialize_reference (flow_input_prefix @ s) = Inr (flow_input s flow_input_prefix)"
  by (simp add: deserialize_reference_def flow_input_deserialize_def find_flow_prefix is_flow_input_def)
     (simp add: flow_input_prefixes_def flow_input_prefix_def)

text \<open>A node name that does not read as the prefix of a flow input.\<close>

definition plain_name :: "string \<Rightarrow> bool" where
  "plain_name n \<longleftrightarrow> CHR ''.'' \<notin> set n \<and> n \<noteq> ''flow'' \<and> n \<noteq> ''inputs''"

lemma startswith_dot:
  assumes "CHR ''.'' \<notin> set n" "CHR ''.'' \<notin> set p"
  shows "startswith (n @ CHR ''.'' # s) (p @ ''.'') \<longleftrightarrow> n = p"
proof
  assume sw: "startswith (n @ CHR ''.'' # s) (p @ ''.'')"
  have "n @ CHR ''.'' # s = p @ CHR ''.'' # drop (length (p @ ''.'')) (n @ CHR ''.'' # s)"
    using append_take_drop_id [of "length (p @ ''.'')" "n @ CHR ''.'' # s"] unfolding sw by simp
  then have "split_once (CHR ''.'') (n @ CHR ''.'' # s)
      = split_once (CHR ''.'') (p @ CHR ''.'' # drop (length (p @ ''.'')) (n @ CHR ''.'' # s))" by (rule arg_cong)
  with assms show "n = p" by (simp add: split_once_append)
qed simp

lemma plain_not_flow_input:
  "plain_name n \<Longrightarrow> \<not> is_flow_input (n @ CHR ''.'' # s)"
  using startswith_dot [of n "''flow''" s] startswith_dot [of n "''inputs''" s]
  by (auto simp: is_flow_input_def flow_input_prefixes_def flow_input_prefix_def plain_name_def)

lemma deserialize_node_ref:
  assumes "plain_name n" "CHR ''.'' \<notin> set sec"
  shows "deserialize_reference (n @ CHR ''.'' # sec) = Inr (node_reference n sec [])"
    "deserialize_reference (n @ CHR ''.'' # sec @ CHR ''.'' # pr) = Inr (node_reference n sec pr)"
  using assms
  by (simp_all add: deserialize_reference_def plain_not_flow_input deserialize_node_reference_def
      split_once_append plain_name_def)


lemma split_once_parts:
  assumes "CHR ''.'' \<in> set s" "split_once (CHR ''.'') s = (a, b)"
  shows "s = a @ CHR ''.'' # b" "CHR ''.'' \<notin> set a"
proof -
  from split_list_first [OF assms(1)] obtain x y where s: "s = x @ CHR ''.'' # y" "CHR ''.'' \<notin> set x" by blast
  with assms(2) have "a = x" "b = y" by (simp_all add: split_once_append)
  with s show "s = a @ CHR ''.'' # b" "CHR ''.'' \<notin> set a" by simp_all
qed

text \<open>Every deserialised node reference has this shape.\<close>

lemma deserialize_node_reference_shape:
  assumes "\<not> is_flow_input s" "s \<noteq> ''flow''" "s \<noteq> ''inputs''"
  obtains n sec pr where "deserialize_node_reference s = node_reference n sec pr"
    "plain_name n" "CHR ''.'' \<notin> set sec"
proof (cases "CHR ''.'' \<in> set s")
  case False
  with assms show thesis
    by (intro that [of s "''output''" "[]"]) (auto simp: deserialize_node_reference_def plain_name_def)
next
  case True
  obtain n port where sp: "split_once (CHR ''.'') s = (n, port)" by force
  from split_once_parts [OF True sp] have s: "s = n @ CHR ''.'' # port" "CHR ''.'' \<notin> set n" by auto
  have n: "plain_name n"
    using assms(1) s unfolding plain_name_def
    by (auto simp: is_flow_input_def flow_input_prefixes_def flow_input_prefix_def)
  show thesis
  proof (cases "CHR ''.'' \<in> set port")
    case False
    with n True sp show thesis
      by (intro that [of n port "[]"]) (auto simp: deserialize_node_reference_def)
  next
    case dot: True
    obtain sec pr where sp2: "split_once (CHR ''.'') port = (sec, pr)" by force
    from split_once_parts [OF dot sp2] have "CHR ''.'' \<notin> set sec" by auto
    with n True sp dot sp2 show thesis
      by (intro that [of n sec pr]) (auto simp: deserialize_node_reference_def)
  qed
qed

text \<open>The serialised form always uses the prefix \<open>flow.\<close>.\<close>

definition canonical_prefix :: "input_assignment \<Rightarrow> input_assignment" where
  "canonical_prefix i = (if ia_value_type i = FLOW_INPUT then i\<lparr>ia_prefix := Some flow_input_prefix\<rparr> else i)"

lemma reference_roundtrip:
  assumes "deserialize_reference s = Inr i" "s \<noteq> ''flow''" "s \<noteq> ''inputs''"
  shows "\<exists>t. ia_serialize env conns i = Inr (PStr (braced t)) \<and> deserialize_reference t = Inr (canonical_prefix i)"
proof (cases "is_flow_input s")
  case True
  with assms(1) obtain p where p: "i = flow_input (drop (length p) s) p"
    by (auto simp: deserialize_reference_def flow_input_deserialize_def split: option.splits)
  show ?thesis
    by (rule exI [of _ "flow_input_prefix @ drop (length p) s"])
       (simp add: p deserialize_flow_input ia_serialize_def flow_input_def canonical_prefix_def)
next
  case False
  with assms obtain n sec pr where shape: "i = node_reference n sec pr" "plain_name n" "CHR ''.'' \<notin> set sec"
    by (metis deserialize_node_reference_shape deserialize_reference_def sum.inject(2))
  have "deserialize_reference (n @ CHR ''.'' # sec @ (if pr = [] then [] else CHR ''.'' # pr)) = Inr i"
    using shape by (simp add: deserialize_node_ref)
  with shape(1) show ?thesis
    by (intro exI [of _ "n @ CHR ''.'' # sec @ (if pr = [] then [] else CHR ''.'' # pr)"])
       (simp add: ia_serialize_def node_reference_def canonical_prefix_def)
qed

text \<open>C24. Reading an input assignment, writing it and reading the text again gives the same assignment
  (with the prefix of flow inputs in its current spelling), for every datum but a connection and
  the two texts \<open>${flow}\<close> and \<open>${inputs}\<close>.\<close>

theorem input_assignment_roundtrip:
  assumes "ia_deserialize v = Inr i" "\<not> is_connection_value conns v"
    and "as_str v \<noteq> Some (braced ''flow'')" "as_str v \<noteq> Some (braced ''inputs'')"
  shows "\<exists>w. ia_serialize env conns i = Inr w \<and> ia_deserialize w = Inr (canonical_prefix i)"
proof (cases "i = literal v")
  case True
  with assms(1,2) show ?thesis by (auto simp: ia_serialize_def literal_def canonical_prefix_def)
next
  case False
  with assms(1) obtain s where s: "as_str v = Some s" "startswith s ''$''" "length s > 2"
      "hd (tl s) = CHR 0x7B" "last (tl s) = CHR 0x7D" "deserialize_reference (butlast (tl (tl s))) = Inr i"
    by (auto simp: ia_deserialize_def Let_def split: option.splits if_splits)
  then have form: "s = braced (butlast (tl (tl s)))"
    by (cases s; cases "tl s") (auto simp: braced_def split: if_splits, metis append_butlast_last_id)
  with assms(3,4) s(1) have "butlast (tl (tl s)) \<noteq> ''flow''" "butlast (tl (tl s)) \<noteq> ''inputs''" by auto
  from reference_roundtrip [OF s(6) this] show ?thesis by (metis ia_deserialize_braced)
qed


theorem input_assignment_roundtrip_witness:
  "\<exists>w. ia_serialize demo_env [] (node_reference ''a'' ''output'' ''x.y'') = Inr w \<and>
     ia_deserialize w = Inr (node_reference ''a'' ''output'' ''x.y'')"
proof -
  have h: "ia_deserialize (PStr ''${a.output.x.y}'') = Inr (node_reference ''a'' ''output'' ''x.y'')"
    "\<not> is_connection_value [] (PStr ''${a.output.x.y}'')"
    "as_str (PStr ''${a.output.x.y}'') \<noteq> Some (braced ''flow'')"
    "as_str (PStr ''${a.output.x.y}'') \<noteq> Some (braced ''inputs'')" by code_simp+
  from input_assignment_roundtrip [OF h, of demo_env] show ?thesis
    by (simp add: canonical_prefix_def node_reference_def)
qed

section \<open>Nodes survive their dictionary, unless they have a skip condition\<close>

lemma map_of_keep_truthy:
  "distinct (map fst d) \<Longrightarrow>
     map_of (keep_truthy d) k = (case map_of d k of Some v \<Rightarrow> if truthy v then Some v else None | None \<Rightarrow> None)"
proof (induction d)
  case (Cons kv d)
  have "map_of (keep_truthy d) j = None" if "j \<notin> set (map fst d)" for j
    using that by (auto simp: map_of_eq_None_iff keep_truthy_def)
  with Cons show ?case by (cases kv) (auto simp: keep_truthy_def split: option.splits)
qed (simp add: keep_truthy_def)

text \<open>Empty strings are dropped by the writer and come back as \<open>None\<close>.\<close>

definition source_codec_ok :: "tool_source \<Rightarrow> bool" where
  "source_codec_ok s \<longleftrightarrow> ts_type s \<noteq> [] \<and> ts_tool s \<noteq> Some [] \<and> ts_path s \<noteq> Some []"

definition node_codec_ok :: "pyenv \<Rightarrow> string list \<Rightarrow> node \<Rightarrow> bool" where
  "node_codec_ok env conns n \<longleftrightarrow>
     node_name n \<noteq> [] \<and> node_tool n \<noteq> Some [] \<and> node_api n \<noteq> Some [] \<and> node_provider n \<noteq> Some [] \<and>
     node_module n \<noteq> Some [] \<and> (truthy (node_connection n) \<or> node_connection n = PNone) \<and>
     (truthy (node_comment n) \<or> node_comment n = PStr []) \<and>
     list_all (\<lambda>(k, i). bindr (ia_serialize env conns i) ia_deserialize = Inr i) (node_inputs n) \<and>
     (case node_source n of None \<Rightarrow> True | Some s \<Rightarrow> source_codec_ok s)"

lemma serialize_inputs:
  "list_all (\<lambda>(k, i). bindr (ia_serialize env conns i) ia_deserialize = Inr i) ins \<Longrightarrow>
    \<exists>vs. mapr (\<lambda>(k, i). bindr (ia_serialize env conns i) (\<lambda>v. Inr (k, v))) ins = Inr vs \<and>
      map_dict ia_deserialize vs = Inr ins \<and> (vs = [] \<longleftrightarrow> ins = [])"
proof (induction ins)
  case (Cons ki ins)
  obtain k i where [simp]: "ki = (k, i)" by force
  from Cons obtain w vs where "ia_serialize env conns i = Inr w" "ia_deserialize w = Inr i"
    "mapr (\<lambda>(k, i). bindr (ia_serialize env conns i) (\<lambda>v. Inr (k, v))) ins = Inr vs"
    "map_dict ia_deserialize vs = Inr ins" by (auto simp: res_simps)
  then show ?case by (auto simp: map_dict_def)
qed (simp add: map_dict_def)

lemma truthy_none_or_str [simp]: "truthy (none_or_str so) \<longleftrightarrow> so \<noteq> None \<and> so \<noteq> Some []"
  by (cases so) (simp_all add: none_or_str_def)

lemma source_roundtrip:
  "source_codec_ok s \<Longrightarrow> tool_source_deserialize (PDict (keep_truthy [(''type'', PStr (ts_type s)),
     (''tool'', none_or_str (ts_tool s)), (''path'', none_or_str (ts_path s))])) = Inr s"
  by (cases "ts_tool s"; cases "ts_path s")
    (simp_all add: tool_source_deserialize_def expect_dict_def source_codec_ok_def dict_get_def
      map_of_keep_truthy req_string_def opt_string_def none_or_str_def)

lemma map_of_node_asdict:
  "map_of (node_asdict n) k = (case map_of (node_fields n) k of Some v \<Rightarrow> if truthy v then Some v else None | None \<Rightarrow> None)"
  unfolding node_asdict_def by (rule map_of_keep_truthy) (simp add: node_fields_def)

lemma node_field_values:
  "map_of (node_fields n) ''name'' = Some (PStr (node_name n))"
  "map_of (node_fields n) ''tool'' = Some (none_or_str (node_tool n))"
  "map_of (node_fields n) ''comment'' = Some (node_comment n)"
  "map_of (node_fields n) ''api'' = Some (none_or_str (node_api n))"
  "map_of (node_fields n) ''provider'' = Some (none_or_str (node_provider n))"
  "map_of (node_fields n) ''module'' = Some (none_or_str (node_module n))"
  "map_of (node_fields n) ''connection'' = Some (node_connection n)"
  "map_of (node_fields n) ''aggregation'' = Some (PBool (node_aggregation n))"
  "map_of (node_fields n) ''enable_cache'' = Some (PBool (node_enable_cache n))"
  "map_of (node_fields n) ''use_variants'' = Some (PBool (node_use_variants n))"
  "map_of (node_fields n) ''reduce'' = None"
  "map_of (node_fields n) ''type'' = Some (case node_type n of None \<Rightarrow> PNone | Some t \<Rightarrow> PStr (tool_type_value t))"
  "map_of (node_fields n) ''source'' = Some (case node_source n of None \<Rightarrow> PNone
        | Some s \<Rightarrow> PDict (keep_truthy [(''type'', PStr (ts_type s)), (''tool'', none_or_str (ts_tool s)),
                                    (''path'', none_or_str (ts_path s))]))"
  "map_of (node_fields n) ''skip'' = Some (case node_skip n of None \<Rightarrow> PNone
        | Some s \<Rightarrow> PDict (keep_truthy [(''condition'', ia_asdict (sk_condition s)),
             (''condition_value'', sk_condition_value s), (''return_value'', ia_asdict (sk_return_value s))]))"
  by (simp_all add: node_fields_def)

lemma node_serialize_lookup:
  assumes "node_serialize env conns n = Inr d" "k \<noteq> ''inputs''"
  shows "map_of d k = (if node_aggregation n \<and> (k = ''aggregation'' \<or> k = ''reduce'') then Some (PBool True)
    else map_of (node_asdict n) k)"
proof -
  from assms(1) obtain ins where "d = (if node_aggregation n
      then AList.update ''reduce'' (PBool True) (AList.update ''aggregation'' (PBool True)
        (AList.update ''inputs'' (PDict ins) (node_asdict n)))
      else AList.update ''inputs'' (PDict ins) (node_asdict n))"
    by (auto simp: node_serialize_def res_simps Let_def)
  with assms(2) show ?thesis by simp
qed

lemma tool_type_call_value [simp]: "tool_type_call (PStr (tool_type_value t)) = Inr t"
  by (induct t) code_simp+

lemma tool_type_value_nonempty [simp]: "tool_type_value t \<noteq> []"
  by (cases t) simp_all

lemma node_serialize_fields:
  assumes "node_serialize env conns n = Inr d" "node_codec_ok env conns n"
  shows "dict_get d ''name'' PNone = PStr (node_name n)"
    "dict_get d ''tool'' PNone = none_or_str (node_tool n)"
    "dict_get d ''api'' PNone = none_or_str (node_api n)"
    "dict_get d ''provider'' PNone = none_or_str (node_provider n)"
    "dict_get d ''module'' PNone = none_or_str (node_module n)"
    "dict_get d ''connection'' PNone = node_connection n"
    "dict_get d ''comment'' (PStr []) = node_comment n"
    "py_or (dict_get d ''aggregation'' (PBool False)) (dict_get d ''reduce'' (PBool False)) = PBool (node_aggregation n)"
    "dict_get d ''enable_cache'' (PBool False) = PBool (node_enable_cache n)"
    "dict_get d ''use_variants'' (PBool False) = PBool (node_use_variants n)"
    "map_of d ''type'' = map_option (\<lambda>t. PStr (tool_type_value t)) (node_type n)"
  using assms(2)
  by (simp_all add: dict_get_def node_serialize_lookup [OF assms(1)] map_of_node_asdict node_field_values
      node_codec_ok_def py_or_def)
    (auto simp: none_or_str_def split: option.splits)

lemma node_serialize_source:
  assumes "node_serialize env conns n = Inr d" "node_codec_ok env conns n"
  shows "(case map_of d ''source'' of None \<Rightarrow> Inr None
           | Some v \<Rightarrow> bindr (tool_source_deserialize v) (\<lambda>s. Inr (Some s))) = Inr (node_source n)"
proof (cases "node_source n")
  case None
  then show ?thesis by (simp add: node_serialize_lookup [OF assms(1)] map_of_node_asdict node_field_values)
next
  case (Some s)
  with assms(2) have ok: "source_codec_ok s" by (simp add: node_codec_ok_def)
  then have "keep_truthy [(''type'', PStr (ts_type s)), (''tool'', none_or_str (ts_tool s)),
      (''path'', none_or_str (ts_path s))] \<noteq> []" by (simp add: keep_truthy_def source_codec_ok_def)
  with Some source_roundtrip [OF ok] show ?thesis
    by (simp add: node_serialize_lookup [OF assms(1)] map_of_node_asdict node_field_values)
qed

lemma node_serialize_inputs:
  assumes "node_codec_ok env conns n"
  shows "\<exists>d. node_serialize env conns n = Inr d \<and>
    bindr (expect_dict (py_or (dict_get d ''inputs'' PNone) (PDict []))) (map_dict ia_deserialize) = Inr (node_inputs n)"
proof -
  from assms have "list_all (\<lambda>(k, i). bindr (ia_serialize env conns i) ia_deserialize = Inr i) (node_inputs n)"
    by (simp add: node_codec_ok_def)
  from serialize_inputs [OF this] obtain vs where
    "mapr (\<lambda>(k, i). bindr (ia_serialize env conns i) (\<lambda>v. Inr (k, v))) (node_inputs n) = Inr vs"
    "map_dict ia_deserialize vs = Inr (node_inputs n)" by blast
  then show ?thesis by (cases vs) (simp_all add: node_serialize_def dict_get_def py_or_def expect_dict_def Let_def)
qed

text \<open>A node without a skip condition survives being written and read back; the dictionary of a
  node with one cannot be read, because the writer does not use the keys of the reader.\<close>

theorem node_roundtrip:
  assumes "node_codec_ok env conns n"
  shows "bindr (node_serialize env conns n) (\<lambda>d. node_deserialize (PDict d)) =
    (if node_skip n = None then Inr n
     else Inl (py_exn KeyError [PStr (repr_str ''when'')]))"
proof -
  from node_serialize_inputs [OF assms] obtain d ins where
    ser: "node_serialize env conns n = Inr d"
    and ins: "expect_dict (py_or (dict_get d ''inputs'' PNone) (PDict [])) = Inr ins"
      "map_dict ia_deserialize ins = Inr (node_inputs n)"
    by (auto simp: res_simps)
  note fields = node_serialize_fields [OF ser assms] node_serialize_source [OF ser assms]
  have ty: "(case map_of d ''type'' of None \<Rightarrow> Inr None
      | Some v \<Rightarrow> bindr (tool_type_call v) (\<lambda>t. Inr (Some t))) = Inr (node_type n)"
    by (simp add: fields split: option.split)
  have skip: "(case map_of d ''skip'' of None \<Rightarrow> Inr None
      | Some v \<Rightarrow> bindr (skip_condition_deserialize v) (\<lambda>s. Inr (Some s)))
    = (if node_skip n = None then Inr None else Inl (py_exn KeyError [PStr (repr_str ''when'')]))"
  proof (cases "node_skip n")
    case None
    then show ?thesis by (simp add: node_serialize_lookup [OF ser] map_of_node_asdict node_field_values)
  next
    case (Some s)
    let ?d = "keep_truthy [(''condition'', ia_asdict (sk_condition s)),
      (''condition_value'', sk_condition_value s), (''return_value'', ia_asdict (sk_return_value s))]"
    have "?d \<noteq> []" "map_of ?d ''when'' = None" by (simp_all add: keep_truthy_def ia_asdict_def)
    with Some show ?thesis
      by (simp add: node_serialize_lookup [OF ser] map_of_node_asdict node_field_values
          skip_condition_deserialize_def expect_dict_def get_item_def)
  qed
  show ?thesis
    by (cases "node_type n"; cases "node_skip n")
      (simp_all add: ser node_deserialize_def expect_dict_def [of "PDict d"] fields ins ty skip
        req_string_def req_bool_def)
qed


definition demo_node :: "string \<Rightarrow> (string, input_assignment) dict \<Rightarrow> node" where
  "demo_node name ins = \<lparr>node_name = name, node_tool = Some ''t'', node_inputs = ins, node_comment = PStr [],
     node_api = None, node_provider = None, node_module = None, node_connection = PNone,
     node_aggregation = False, node_enable_cache = False, node_use_variants = False,
     node_source = Some \<lparr>ts_type = ''code'', ts_tool = None, ts_path = Some ''t.py''\<rparr>,
     node_type = Some PYTHON, node_skip = None\<rparr>"

theorem node_roundtrip_witness:
  "bindr (node_serialize demo_env [] (demo_node ''n'' [(''x'', flow_input ''q'' ''flow.''), (''y'', literal (PInt 1))]))
     (\<lambda>d. node_deserialize (PDict d)) = Inr (demo_node ''n'' [(''x'', flow_input ''q'' ''flow.''), (''y'', literal (PInt 1))])"
proof -
  have "node_codec_ok demo_env [] (demo_node ''n'' [(''x'', flow_input ''q'' ''flow.''), (''y'', literal (PInt 1))])"
    by code_simp
  from node_roundtrip [OF this] show ?thesis by (simp add: demo_node_def)
qed

section \<open>Variants and overrides keep the topology\<close>

lemma apply_default_node_variant_name:
  "node_name (fst (apply_default_node_variant n vs)) = node_name n"
  by (simp add: apply_default_node_variant_def Let_def split: option.split)

lemma apply_variants_names: "map node_name (fst (apply_variants ns vs)) = map node_name ns"
  by (induction ns arbitrary: vs)
    (auto simp: Let_def split_beta apply_default_node_variant_name)

lemma override_node_name [simp]: "node_name (override_node k v n) = node_name n"
  by (simp add: override_node_def)

lemma update_first_names:
  "(\<And>x. node_name (g x) = node_name x) \<Longrightarrow> map node_name (update_first p g ns) = map node_name ns"
  by (induction ns) auto

lemma apply_node_overrides_names:
  "apply_node_overrides ov f = Inr g \<Longrightarrow> map node_name (flow_nodes g) = map node_name (flow_nodes f)"
  by (induction ov f rule: apply_node_overrides.induct)
    (auto simp: update_first_names split: list.splits option.splits)

text \<open>Resolving a flow before execution (node overrides, then default variants, as
  \<open>FlowExecutor.create\<close> does) keeps the names of the nodes and their order.\<close>

theorem resolved_flow_names:
  assumes "apply_node_overrides ov f = Inr g"
  shows "map node_name (flow_nodes (apply_default_node_variants g)) = map node_name (flow_nodes f)"
  using apply_node_overrides_names [OF assms]
  by (simp add: apply_default_node_variants_def split_beta apply_variants_names)

definition demo_flow :: "node list \<Rightarrow> flow" where
  "demo_flow ns = \<lparr>flow_id = PStr ''id'', flow_name = PStr ''f'', flow_nodes = ns, flow_inputs = [],
     flow_outputs = [], flow_tools = [], flow_node_variants = []\<rparr>"

theorem resolved_flow_names_witness:
  "\<exists>g. apply_node_overrides [(''n.x'', PInt 2)] (demo_flow [demo_node ''m'' [], demo_node ''n'' []]) = Inr g \<and>
     map node_name (flow_nodes (apply_default_node_variants g)) = [''m'', ''n'']"
proof -
  let ?g = "demo_flow [demo_node ''m'' [], demo_node ''n'' [(''x'', literal (PInt 2))]]"
  have h: "apply_node_overrides [(''n.x'', PInt 2)] (demo_flow [demo_node ''m'' [], demo_node ''n'' []]) = Inr ?g"
    by (simp add: get_node_def demo_flow_def demo_node_def override_node_def)
  from resolved_flow_names [OF h] h show ?thesis by (simp add: demo_flow_def demo_node_def)
qed

end
