(* ===== verification/InputParser.thy ===== *)
theory InputParser imports FlowContract begin

text \<open>
  \<^verbatim>\<open>executor/_input_assignment_parser.py\<close>: the value an input assignment stands for, given the
  outputs of the nodes and the inputs of the flow, and the walk along the property of a node
  reference. Letters and digits of the regular expression are the ASCII ones. A subscript on an
  instance of a class is a \<open>TypeError\<close> (no such class of the engine defines one), and the methods
  of the built-in types are not attributes of the model's values.
\<close>

section \<open>Splitting a property\<close>

definition is_word :: "char \<Rightarrow> bool" where
  "is_word c = (let n = (of_char c :: nat) in
     is_digit c \<or> (65 \<le> n \<and> n \<le> 90) \<or> n = 95 \<or> (97 \<le> n \<and> n \<le> 122))"

text \<open>The lazy \<open>.*?\<close> up to the first quote and closing bracket, on one line.\<close>

fun until_close :: "string \<Rightarrow> (string \<times> string) option" where
  "until_close (a # b # s) =
    (if a = CHR 0x27 \<and> b = CHR '']'' then Some ([], s)
     else if a = CHR 0x0A then None
     else map_option (\<lambda>(k, r). (a # k, r)) (until_close (b # s)))"
| "until_close _ = None"

definition quoted_token :: "string \<Rightarrow> (string \<times> string) option" where
  "quoted_token s =
    (if startswith s [CHR ''['', CHR 0x27]
     then map_option (\<lambda>(k, r). ([CHR ''['', CHR 0x27] @ k @ [CHR 0x27, CHR '']''], r)) (until_close (drop 2 s))
     else None)"

definition index_token :: "string \<Rightarrow> (string \<times> string) option" where
  "index_token s =
    (if startswith s ''['' then
       (let ds = takeWhile is_digit (tl s); r = dropWhile is_digit (tl s)
        in if ds \<noteq> [] \<and> startswith r '']'' then Some (''['' @ ds @ '']'', tl r) else None)
     else None)"

definition bracket_token :: "string \<Rightarrow> (string \<times> string) option" where
  "bracket_token s = (case quoted_token s of Some t \<Rightarrow> Some t | None \<Rightarrow> index_token s)"

lemma until_close_shorter: "until_close s = Some (k, r) \<Longrightarrow> length r < length s"
  by (induction s arbitrary: k rule: until_close.induct) (auto split: if_splits)

lemma bracket_token_shorter:
  assumes "bracket_token s = Some (t, r)"
  shows "length r < length s"
proof -
  have q: "length r < length s" if "quoted_token s = Some (t, r)"
    using that until_close_shorter [of "drop 2 s"]
    by (force simp: quoted_token_def split: if_splits)
  have i: "length r < length s" if "index_token s = Some (t, r)"
  proof -
    from that have r: "r = tl (dropWhile is_digit (tl s))" "s \<noteq> []"
      by (auto simp: index_token_def Let_def split: if_splits)
    have "length (dropWhile is_digit (tl s)) \<le> length (tl s)" by (rule length_dropWhile_le)
    with r show ?thesis by (cases s) simp_all
  qed
  show ?thesis
    using assms q i unfolding bracket_token_def by (auto split: option.splits)
qed

text \<open>\<open>re.findall(property_pattern, property)\<close>, the one group that matched of each hit.\<close>

function property_parts :: "string \<Rightarrow> string list" where
  "property_parts [] = []"
| "property_parts (c # cs) =
    (if is_word c then takeWhile is_word (c # cs) # property_parts (dropWhile is_word (c # cs))
     else (case bracket_token (c # cs) of
         Some (t, r) \<Rightarrow> t # property_parts r
       | None \<Rightarrow> property_parts cs))"
  by pat_completeness auto
termination
  by (relation "measure length")
    (auto simp: less_Suc_eq_le length_dropWhile_le dest: bracket_token_shorter)

section \<open>Walking\<close>

text \<open>\<open>val[index]\<close>; a text is subscripted by position, giving a text of one character.\<close>

definition subscript_int :: "nat \<Rightarrow> pyval \<Rightarrow> pyval res" where
  "subscript_int n v =
    (case as_str v of
       Some s \<Rightarrow> if n < length s then Inr (PStr [s ! n])
         else Inl (py_exn IndexError [PStr ''string index out of range''])
     | None \<Rightarrow>
    (case v of
       PList vs \<Rightarrow> if n < length vs then Inr (vs ! n)
         else Inl (py_exn IndexError [PStr ''list index out of range''])
     | PTuple vs \<Rightarrow> if n < length vs then Inr (vs ! n)
         else Inl (py_exn IndexError [PStr ''tuple index out of range''])
     | PDict d \<Rightarrow> Inl (py_exn KeyError [PInt (int n)])
     | _ \<Rightarrow> Inl (py_exn TypeError [PStr ''object is not subscriptable''])))"

definition subscript_str :: "string \<Rightarrow> pyval \<Rightarrow> pyval res" where
  "subscript_str k v = (case v of PDict d \<Rightarrow> get_item d k
     | _ \<Rightarrow> Inl (py_exn TypeError [PStr ''indices must be integers or slices, not str'']))"

definition quoted_by :: "char \<Rightarrow> string \<Rightarrow> bool" where
  "quoted_by q s = (s \<noteq> [] \<and> hd s = q \<and> last s = q)"

definition access_part :: "string \<Rightarrow> string \<Rightarrow> pyval \<Rightarrow> pyval res" where
  "access_part prop part v =
    (if part \<noteq> [] \<and> hd part = CHR ''['' \<and> last part = CHR '']'' then
       (let index = butlast (tl part) in
        if quoted_by (CHR 0x27) index \<or> quoted_by (CHR 0x22) index
        then subscript_str (butlast (tl index)) v
        else (case str_nat index of
            Some n \<Rightarrow> subscript_int n v
          | None \<Rightarrow> Inl (node_reference_error InvalidReferenceProperty
              [PStr ''Invalid index '', PStr index, PStr '' when accessing property '', PStr prop])))
     else (case v of
         PDict d \<Rightarrow> get_item d part
       | _ \<Rightarrow> (case get_attr v part of
           Some w \<Rightarrow> Inr w
         | None \<Rightarrow> Inl (py_exn AttributeError [PStr ''object has no attribute '', PStr (repr_str part)]))))"

text \<open>The \<open>except (KeyError, IndexError, AttributeError)\<close> clause.\<close>

definition invalid_property :: "string \<Rightarrow> string \<Rightarrow> exn" where
  "invalid_property nname prop = node_reference_error InvalidReferenceProperty
     [PStr ''Invalid property '', PStr prop, PStr '' for the node '', PStr nname]"

definition access_failure :: "exn \<Rightarrow> bool" where
  "access_failure e = (isinstance e (Py KeyError) \<or> isinstance e (Py IndexError) \<or> isinstance e (Py AttributeError))"

definition parse_node_property :: "string \<Rightarrow> pyval \<Rightarrow> string \<Rightarrow> pyval res" where
  "parse_node_property nname node_val prop =
    (case foldr_res (access_part prop) (property_parts prop) node_val of
       Inr v \<Rightarrow> Inr v
     | Inl e \<Rightarrow> if access_failure e then Inl (raise_from (invalid_property nname prop) e) else Inl e)"

section \<open>Values of assignments\<close>

definition reference_text :: "input_assignment \<Rightarrow> msg" where
  "reference_text i = [PStr ''$'', PStr [CHR 0x7B], ia_value i, PStr ''.'', PStr (ia_section i)]
     @ (if ia_property i \<noteq> [] then [PStr ''.'', PStr (ia_property i)] else []) @ [PStr [CHR 0x7D]]"

lemma reference_text_serialize:
  "ia_value_type i = NODE_REFERENCE \<Longrightarrow>
     ia_serialize env conns i = Inr (PStr (render env (reference_text i)))"
  by (simp add: ia_serialize_def reference_text_def render_def braced_def)

definition keys_text :: "(string, 'a) dict \<Rightarrow> string" where
  "keys_text d = join '', '' (dict_keys d)"

definition squote :: "string \<Rightarrow> string" where
  "squote s = [CHR 0x27] @ s @ [CHR 0x27]"

text \<open>The value of a reference is the name it refers to.\<close>

definition lookup_name :: "(string, 'a) dict \<Rightarrow> pyval \<Rightarrow> (string \<times> 'a) option" where
  "lookup_name d v = (case as_str v of Some s \<Rightarrow> map_option (Pair s) (map_of d s) | None \<Rightarrow> None)"

definition parse_value ::
  "input_assignment \<Rightarrow> (string, pyval) dict \<Rightarrow> (string, pyval) dict \<Rightarrow> pyval res" where
  "parse_value i nodes_outputs fins =
    (case ia_value_type i of
       LITERAL \<Rightarrow> Inr (ia_value i)
     | FLOW_INPUT \<Rightarrow>
        (case lookup_name fins (ia_value i) of
           None \<Rightarrow> Inl (invalid_flow_request InputNotFound
             [ia_value i, PStr '' is not found from flow inputs '', PStr (squote (keys_text fins))])
         | Some (k, v) \<Rightarrow> Inr v)
     | NODE_REFERENCE \<Rightarrow>
        (if ia_section i \<noteq> ''output'' then
           Inl (node_reference_error UnsupportedReference (PStr ''Unsupported reference '' # reference_text i))
         else (case lookup_name nodes_outputs (ia_value i) of
             None \<Rightarrow> Inl (pf_exn (Ex InputNotFoundFromAncestorNodeOutput)
               [ia_value i, PStr '' is not found from ancestor node output '', PStr (squote (keys_text nodes_outputs))] UNKNOWN)
           | Some (k, v) \<Rightarrow> parse_node_property k v (ia_property i))))"

section \<open>A property that spells a path reaches the value at that path\<close>

text \<open>
  Paths are written \<open>a.b\<close> for words, \<open>['k']\<close> for other keys of dictionaries, \<open>[n]\<close> for
  positions in lists.
\<close>

datatype path_step = Name string | Key string | Index nat

fun step_ok :: "path_step \<Rightarrow> bool" where
  "step_ok (Name w) = (w \<noteq> [] \<and> list_all is_word w)"
| "step_ok (Key k) = (CHR 0x27 \<notin> set k \<and> CHR 0x0A \<notin> set k)"
| "step_ok (Index n) = True"

fun step_text :: "path_step \<Rightarrow> string" where
  "step_text (Name w) = ''.'' @ w"
| "step_text (Key k) = [CHR ''['', CHR 0x27] @ k @ [CHR 0x27, CHR '']'']"
| "step_text (Index n) = ''['' @ nat_str n @ '']''"

fun step_part :: "path_step \<Rightarrow> string" where
  "step_part (Name w) = w"
| "step_part (Key k) = [CHR ''['', CHR 0x27] @ k @ [CHR 0x27, CHR '']'']"
| "step_part (Index n) = ''['' @ nat_str n @ '']''"

definition path_text :: "path_step list \<Rightarrow> string" where
  "path_text ps = concat (map step_text ps)"

fun follow_step :: "path_step \<Rightarrow> pyval \<Rightarrow> pyval res" where
  "follow_step (Name w) v = (case v of PDict d \<Rightarrow> get_item d w
     | _ \<Rightarrow> (case get_attr v w of Some u \<Rightarrow> Inr u
         | None \<Rightarrow> Inl (py_exn AttributeError [PStr ''object has no attribute '', PStr (repr_str w)])))"
| "follow_step (Key k) v = subscript_str k v"
| "follow_step (Index n) v = subscript_int n v"

lemma digit_facts [simp]:
  "is_digit (CHR '']'') = False" "is_word (CHR ''['') = False" "is_word (CHR ''.'') = False"
  "is_digit (CHR 0x27) = False"
  by code_simp+

lemma digit_str_head:
  "nat_str n \<noteq> [] \<and> list_all is_digit (nat_str n)"
  by (rule nat_str_digits)

lemma until_close_append:
  "CHR 0x27 \<notin> set k \<Longrightarrow> CHR 0x0A \<notin> set k \<Longrightarrow>
     until_close (k @ CHR 0x27 # CHR '']'' # r) = Some (k, r)"
proof (induction k)
  case (Cons a k)
  then show ?case by (cases k) auto
qed simp

lemma quoted_token_key:
  "step_ok (Key k) \<Longrightarrow> bracket_token (step_text (Key k) @ r) = Some (step_part (Key k), r)"
  by (simp add: bracket_token_def quoted_token_def until_close_append)

lemma index_token_index: "bracket_token (step_text (Index n) @ r) = Some (step_part (Index n), r)"
proof -
  obtain c cs where n: "nat_str n = c # cs" "is_digit c" using nat_str_head by blast
  then have "c \<noteq> CHR 0x27" by auto
  with n have "quoted_token (step_text (Index n) @ r) = None" by (simp add: quoted_token_def)
  moreover have "takeWhile is_digit (nat_str n @ CHR '']'' # r) = nat_str n \<and>
      dropWhile is_digit (nat_str n @ CHR '']'' # r) = CHR '']'' # r"
    using nat_str_digits [of n] by (intro takeWhile_all_then) auto
  ultimately show ?thesis using nat_str_digits [of n]
    by (simp add: bracket_token_def index_token_def)
qed

lemma property_parts_word:
  assumes "w \<noteq> []" "list_all is_word w" "rest = [] \<or> \<not> is_word (hd rest)"
  shows "property_parts (w @ rest) = w # property_parts rest"
proof -
  obtain c cs where w: "w = c # cs" using assms(1) by (cases w) auto
  from takeWhile_all_then [OF assms(2,3)] assms(2) show ?thesis by (simp add: w)
qed

lemma property_parts_step:
  assumes "step_ok p" "rest = [] \<or> \<not> is_word (hd rest)"
  shows "property_parts (step_text p @ rest) = step_part p # property_parts rest"
proof (cases p)
  case (Name w)
  have "bracket_token (CHR ''.'' # w @ rest) = None"
    by (simp add: bracket_token_def quoted_token_def index_token_def)
  then have "property_parts (step_text p @ rest) = property_parts (w @ rest)" by (simp add: Name)
  also have "\<dots> = w # property_parts rest" using assms by (simp add: Name property_parts_word)
  finally show ?thesis by (simp add: Name)
next
  case (Key k)
  with quoted_token_key [of k rest] assms(1) show ?thesis by simp
next
  case (Index n)
  with index_token_index [of n rest] show ?thesis by simp
qed

lemma path_text_head: "path_text ps = [] \<or> \<not> is_word (hd (path_text ps))"
  by (cases ps rule: list.exhaust; cases "hd ps") (auto simp: path_text_def)

lemma property_parts_path: "list_all step_ok ps \<Longrightarrow> property_parts (path_text ps) = map step_part ps"
proof (induction ps)
  case (Cons p ps)
  then show ?case using property_parts_step [of p "path_text ps"] path_text_head [of ps]
    by (simp add: path_text_def)
qed (simp add: path_text_def)

lemma access_part_step: "step_ok p \<Longrightarrow> access_part prop (step_part p) v = follow_step p v"
proof (cases p)
  case (Name w)
  assume "step_ok p"
  with Name have "hd w \<noteq> CHR ''[''" by (cases w) auto
  with Name show ?thesis by (simp add: access_part_def)
next
  case (Key k)
  then show ?thesis by (simp add: access_part_def quoted_by_def butlast_append)
next
  case (Index n)
  obtain c cs where n: "nat_str n = c # cs" "is_digit c" using nat_str_head by blast
  then have "c \<noteq> CHR 0x27" "c \<noteq> CHR 0x22" by (auto simp: is_digit_def)
  with n have "\<not> quoted_by (CHR 0x27) (nat_str n) \<and> \<not> quoted_by (CHR 0x22) (nat_str n)"
    by (simp add: quoted_by_def)
  then show ?thesis by (simp add: Index access_part_def)
qed

lemma foldr_res_steps:
  "list_all step_ok ps \<Longrightarrow>
     foldr_res (access_part prop) (map step_part ps) v = foldr_res follow_step ps v"
proof (induction ps arbitrary: v)
  case (Cons p ps)
  then show ?case by (cases "follow_step p v") (simp_all add: access_part_step)
qed simp

text \<open>A property as a reference spells it: without the dot in front of a name at its start.\<close>

fun property_text :: "path_step list \<Rightarrow> string" where
  "property_text (Name w # ps) = w @ path_text ps"
| "property_text ps = path_text ps"

lemma property_parts_text:
  assumes "list_all step_ok ps"
  shows "property_parts (property_text ps) = map step_part ps"
proof (cases ps rule: property_text.cases)
  case (1 w qs)
  with assms have "property_parts (w @ path_text qs) = w # property_parts (path_text qs)"
    using path_text_head [of qs] by (intro property_parts_word) auto
  with 1 assms property_parts_path [of qs] show ?thesis by simp
qed (use property_parts_path [OF assms] in auto)

lemma property_text_nonempty: "list_all step_ok ps \<Longrightarrow> ps \<noteq> [] \<Longrightarrow> property_text ps \<noteq> []"
  by (cases ps rule: property_text.cases) (auto simp: path_text_def)

text \<open>The errors of a step: what it looks up is missing, or the value has no subscripts.\<close>

lemma lookup_errors [simp]:
  "access_failure (py_exn KeyError m)" "access_failure (py_exn IndexError m)" "access_failure (py_exn AttributeError m)"
  "\<not> access_failure (py_exn TypeError m)" "isinstance (py_exn TypeError m) (Py TypeError)"
  "\<not> isinstance (py_exn KeyError m) (Py TypeError)" "\<not> isinstance (py_exn IndexError m) (Py TypeError)"
  "\<not> isinstance (py_exn AttributeError m) (Py TypeError)"
  by (simp_all add: access_failure_def isinstance_def py_exn_def mro_def numeral_eq_Suc)

lemma follow_step_error:
  "follow_step p v = Inl e \<Longrightarrow> access_failure e \<longleftrightarrow> \<not> isinstance e (Py TypeError)"
  by (cases p) (auto simp: subscript_str_def subscript_int_def get_item_def split: pyval.splits option.splits if_splits)

lemma follow_error:
  "foldr_res follow_step ps v = Inl e \<Longrightarrow> access_failure e \<longleftrightarrow> \<not> isinstance e (Py TypeError)"
proof (induction ps arbitrary: v)
  case (Cons p ps)
  then show ?case using follow_step_error [of p v e] by (cases "follow_step p v") auto
qed simp

text \<open>C19. A reference to the output of a node whose property spells a path of names, keys and positions reads exactly the
  value at that path of the output of that node. Where a key, a position or an attribute is missing on the way, it raises the
  engine's error for an invalid reference property, with the lookup error as its cause; where the path subscripts a value that
  has no such subscripts it raises the bare \<open>TypeError\<close>. Names of a value that is no dictionary are the attributes of the
  objects of the model.\<close>

theorem parse_node_property_path:
  assumes "list_all step_ok ps" "ps \<noteq> []" "plain_name n" "map_of nodes_outputs n = Some v"
  shows "bindr (ia_deserialize (PStr (braced (n @ ''.output.'' @ property_text ps)))) (\<lambda>i. parse_value i nodes_outputs fins) =
    (case foldr_res follow_step ps v of
       Inr w \<Rightarrow> Inr w
     | Inl e \<Rightarrow> if isinstance e (Py TypeError) then Inl e else Inl (raise_from (invalid_property n (property_text ps)) e))"
proof -
  have "ia_deserialize (PStr (braced (n @ ''.output.'' @ property_text ps))) = Inr (node_reference n ''output'' (property_text ps))"
    using deserialize_node_ref(2) [OF assms(3), of "''output''" "property_text ps"] by (simp add: ia_deserialize_braced)
  moreover have "parse_value (node_reference n ''output'' (property_text ps)) nodes_outputs fins = parse_node_property n v (property_text ps)"
    by (simp add: parse_value_def node_reference_def lookup_name_def assms(4))
  ultimately show ?thesis
    using follow_error [of ps v]
    by (auto simp: parse_node_property_def property_parts_text [OF assms(1)] foldr_res_steps [OF assms(1)] split: sum.split)
qed

theorem parse_node_property_path_witness:
  "bindr (ia_deserialize (PStr (''${n.output.a[1]['' @ [CHR 0x27] @ ''k y'' @ [CHR 0x27] @ '']}'')))
     (\<lambda>i. parse_value i [(''n'', PDict [(''a'', PList [PInt 5, PDict [(''k y'', PStr ''v'')]])])] []) = Inr (PStr ''v'')"
proof -
  have ok: "list_all step_ok [Name ''a'', Index 1, Key ''k y'']" by code_simp
  have val: "foldr_res follow_step [Name ''a'', Index 1, Key ''k y'']
    (PDict [(''a'', PList [PInt 5, PDict [(''k y'', PStr ''v'')]])]) = Inr (PStr ''v'')" by code_simp
  have spelt: "braced (''n'' @ ''.output.'' @ property_text [Name ''a'', Index 1, Key ''k y'']) =
     ''${n.output.a[1]['' @ [CHR 0x27] @ ''k y'' @ [CHR 0x27] @ '']}''" by code_simp
  have n: "plain_name ''n''" by code_simp
  from parse_node_property_path [OF ok _ n, of "[(''n'', PDict [(''a'', PList [PInt 5, PDict [(''k y'', PStr ''v'')]])])]"] val
  show ?thesis unfolding spelt [symmetric] by simp
qed

end
