(* ===== verification/DagManager.thy ===== *)
theory DagManager imports InputParser begin

text \<open>
  \<^verbatim>\<open>executor/_dag_manager.py\<close>: the nodes of one run that wait for others, and the outputs of
  those that are done. Python mutates the manager; the model returns it updated.
\<close>

record dag_manager =
  dm_nodes :: "node list"
  dm_pending :: "(string, node) dict"
  dm_completed :: "(string, pyval) dict"

definition dag_init :: "node list \<Rightarrow> dag_manager" where
  "dag_init nodes = \<lparr>dm_nodes = nodes, dm_pending = dict_of (map (\<lambda>n. (node_name n, n)) nodes),
     dm_completed = []\<rparr>"

text \<open>The assignments a node waits for: its inputs and both references of its skip condition.\<close>

definition node_dependencies :: "node \<Rightarrow> input_assignment list" where
  "node_dependencies n = dict_values (node_inputs n) @
     (case node_skip n of None \<Rightarrow> [] | Some s \<Rightarrow> [sk_condition s, sk_return_value s])"

definition is_node_ready :: "(string, 'a) dict \<Rightarrow> node \<Rightarrow> bool" where
  "is_node_ready completed_outputs n = list_all (\<lambda>i. ia_value_type i = NODE_REFERENCE \<longrightarrow>
     lookup_name completed_outputs (ia_value i) \<noteq> None) (node_dependencies n)"

definition pop_ready_nodes :: "dag_manager \<Rightarrow> node list \<times> dag_manager" where
  "pop_ready_nodes m =
    (let ready = filter (is_node_ready (dm_completed m)) (dict_values (dm_pending m))
     in (ready, m\<lparr>dm_pending := fold (\<lambda>n. AList.delete (node_name n)) ready (dm_pending m)\<rparr>))"

definition complete_nodes :: "(string, pyval) dict \<Rightarrow> dag_manager \<Rightarrow> dag_manager" where
  "complete_nodes nodes_outputs m = m\<lparr>dm_completed := dict_updates (dm_completed m) nodes_outputs\<rparr>"

definition completed :: "dag_manager \<Rightarrow> bool" where
  "completed m = (length (dm_completed m) = length (dm_nodes m))"

section \<open>Names of the references\<close>

fun option_list :: "'a option \<Rightarrow> 'a list" where
  "option_list None = []"
| "option_list (Some x) = [x]"

lemma set_option_list [simp]: "x \<in> set (option_list v) \<longleftrightarrow> v = Some x"
  by (cases v) auto

definition assignment_ref :: "input_assignment \<Rightarrow> string list" where
  "assignment_ref i = (if ia_value_type i = NODE_REFERENCE then option_list (as_str (ia_value i)) else [])"

lemma in_assignment_ref:
  "s \<in> set (assignment_ref i) \<longleftrightarrow> ia_value_type i = NODE_REFERENCE \<and> as_str (ia_value i) = Some s"
  by (cases "ia_value_type i = NODE_REFERENCE") (simp_all add: assignment_ref_def)

definition dep_names :: "node \<Rightarrow> string list" where
  "dep_names n = concat (map assignment_ref (node_dependencies n))"

text \<open>References name their node by a text, as the readers of flows build them.\<close>

definition refs_named :: "node \<Rightarrow> bool" where
  "refs_named n = list_all (\<lambda>i. ia_value_type i = NODE_REFERENCE \<longrightarrow> as_str (ia_value i) \<noteq> None)
     (node_dependencies n)"

lemma lookup_name_some_iff:
  "lookup_name d v \<noteq> None \<longleftrightarrow> (\<exists>s. as_str v = Some s \<and> s \<in> fst ` set d)"
proof (cases "as_str v")
  case (Some s)
  have "s \<in> fst ` set d \<longleftrightarrow> map_of d s \<noteq> None" by (simp add: map_of_eq_None_iff)
  with Some show ?thesis by (simp add: lookup_name_def)
qed (simp add: lookup_name_def)

lemma in_dep_names:
  "s \<in> set (dep_names n) \<longleftrightarrow>
     (\<exists>i\<in>set (node_dependencies n). ia_value_type i = NODE_REFERENCE \<and> as_str (ia_value i) = Some s)"
  by (simp add: dep_names_def in_assignment_ref)

lemma ready_iff: "is_node_ready d n \<longleftrightarrow> refs_named n \<and> set (dep_names n) \<subseteq> fst ` set d"
proof -
  have "is_node_ready d n \<longleftrightarrow> (\<forall>i\<in>set (node_dependencies n). ia_value_type i = NODE_REFERENCE \<longrightarrow>
      (\<exists>s. as_str (ia_value i) = Some s \<and> s \<in> fst ` set d))"
    by (simp only: is_node_ready_def list_all_iff lookup_name_some_iff)
  also have "\<dots> \<longleftrightarrow> refs_named n \<and> set (dep_names n) \<subseteq> fst ` set d"
    unfolding refs_named_def list_all_iff subset_iff in_dep_names by (rule iffI) (force, fastforce)
  finally show ?thesis .
qed

lemma ready_no_deps: "is_node_ready ([]::(string, pyval) dict) n \<longleftrightarrow> refs_named n \<and> dep_names n = []"
  by (simp add: ready_iff)

section \<open>The pending nodes are keyed by their names\<close>

definition keyed :: "(string, node) dict \<Rightarrow> bool" where
  "keyed d \<longleftrightarrow> distinct (map fst d) \<and> (\<forall>(k, n) \<in> set d. k = node_name n)"

lemma set_AList_update: "set (AList.update k v d) \<subseteq> insert (k, v) (set d)"
  by (induction d) auto

lemma keyed_update: "keyed d \<Longrightarrow> keyed (AList.update (node_name n) n d)"
  using set_AList_update [of "node_name n" n d] by (fastforce simp: keyed_def distinct_update)

lemma keyed_dict_updates: "keyed d \<Longrightarrow> keyed (dict_updates d (map (\<lambda>n. (node_name n, n)) ns))"
  by (induction ns arbitrary: d) (simp_all add: dict_updates_def keyed_update)

lemma keyed_init: "keyed (dm_pending (dag_init nodes))"
  unfolding dag_init_def dict_of_def dag_manager.simps
  by (rule keyed_dict_updates) (simp add: keyed_def)

lemma fold_delete_filter:
  "fold (\<lambda>n. AList.delete (node_name n)) ns d = filter (\<lambda>(k, m). k \<notin> node_name ` set ns) d"
proof (induction ns arbitrary: d)
  case (Cons n ns)
  then show ?case by (simp add: AList.delete_eq filter_filter) (rule filter_cong, auto)
qed simp

lemma filter_pair_cong:
  "(\<And>k n. (k, n) \<in> set d \<Longrightarrow> P k n = Q k n) \<Longrightarrow> filter (\<lambda>(k, n). P k n) d = filter (\<lambda>(k, n). Q k n) d"
  by (induction d) auto

lemma pending_after_pop:
  assumes "keyed (dm_pending m)"
  shows "dm_pending (snd (pop_ready_nodes m)) =
    filter (\<lambda>(k, n). \<not> is_node_ready (dm_completed m) n) (dm_pending m)"
proof -
  let ?r = "filter (is_node_ready (dm_completed m)) (dict_values (dm_pending m))"
  have "k \<notin> node_name ` set ?r \<longleftrightarrow> \<not> is_node_ready (dm_completed m) n"
    if kn: "(k, n) \<in> set (dm_pending m)" for k n
  proof
    assume no: "k \<notin> node_name ` set ?r"
    show "\<not> is_node_ready (dm_completed m) n"
    proof
      assume "is_node_ready (dm_completed m) n"
      moreover have "n \<in> set (dict_values (dm_pending m))" using kn by force
      ultimately have "n \<in> set ?r" by simp
      moreover have "k = node_name n" using kn assms by (auto simp: keyed_def)
      ultimately show False using no by blast
    qed
  next
    assume nr: "\<not> is_node_ready (dm_completed m) n"
    show "k \<notin> node_name ` set ?r"
    proof
      assume "k \<in> node_name ` set ?r"
      then obtain j x where "(j, x) \<in> set (dm_pending m)" "is_node_ready (dm_completed m) x" "k = node_name x" by auto
      with assms have "(k, x) \<in> set (dm_pending m)" by (auto simp: keyed_def)
      moreover have "distinct (map fst (dm_pending m))" using assms by (simp add: keyed_def)
      ultimately have "x = n" using kn by (blast dest: eq_key_imp_eq_value)
      with nr \<open>is_node_ready (dm_completed m) x\<close> show False by simp
    qed
  qed
  then have "filter (\<lambda>(k, n). k \<notin> node_name ` set ?r) (dm_pending m) =
      filter (\<lambda>(k, n). \<not> is_node_ready (dm_completed m) n) (dm_pending m)"
    by (rule filter_pair_cong)
  then show ?thesis by (simp only: pop_ready_nodes_def Let_def snd_conv fold_delete_filter) simp
qed

lemma keyed_filter: "keyed d \<Longrightarrow> keyed (filter P d)"
  by (auto simp: keyed_def distinct_map_filter)

lemma pop_ready_simps [simp]:
  "fst (pop_ready_nodes m) = filter (is_node_ready (dm_completed m)) (map snd (dm_pending m))"
  "dm_nodes (snd (pop_ready_nodes m)) = dm_nodes m"
  "dm_completed (snd (pop_ready_nodes m)) = dm_completed m"
  by (simp_all add: pop_ready_nodes_def Let_def)

lemma complete_nodes_simps [simp]:
  "dm_nodes (complete_nodes os m) = dm_nodes m"
  "dm_pending (complete_nodes os m) = dm_pending m"
  "dm_completed (complete_nodes os m) = dict_updates (dm_completed m) os"
  by (simp_all add: complete_nodes_def)

lemma pending_init_distinct:
  "distinct (map node_name ns) \<Longrightarrow> dm_pending (dag_init ns) = map (\<lambda>n. (node_name n, n)) ns"
  by (simp add: dag_init_def dict_of_distinct comp_def)

end
