(* ===== verification/Scheduler.thy ===== *)
theory Scheduler imports DagManager begin

text \<open>
  \<^verbatim>\<open>executor/_flow_nodes_scheduler.py\<close>: the nodes of a line run on a pool of threads. The main
  thread waits for finished futures, stores their outputs and submits the nodes that became
  ready; the workers run the tasks in the order of submission. A step of the relation is one
  atomic action of a worker or one turn of the main loop, and every interleaving is a run.
  \<open>run node outputs\<close> is what a task computes; a task submitted in the first batch is given an
  empty dictionary, every later one the dictionary of completed outputs itself, read when the
  task runs. A worker's reads are atomic in the model; in the program they may be spread over
  the turns of the main loop, which only add entries.
\<close>

section \<open>One task\<close>

text \<open>
  The tools are the callables the tools manager holds. A node runs at most once
  (the invariant of the scheduler says so), so that a function of its arguments stands for any tool.
\<close>

type_synonym tools = "string \<Rightarrow> ((string, pyval) dict \<Rightarrow> pyval res) option"

definition parse_inputs ::
  "(string, input_assignment) dict \<Rightarrow> (string, pyval) dict \<Rightarrow> (string, pyval) dict \<Rightarrow> (string, pyval) dict res" where
  "parse_inputs ins nodes_outputs fins =
     mapr (\<lambda>(k, i). bindr (parse_value i nodes_outputs fins) (\<lambda>v. Inr (k, v))) ins"

definition exec_single_node ::
  "tools \<Rightarrow> (string, pyval) dict \<Rightarrow> node \<Rightarrow> (string, pyval) dict \<Rightarrow> pyval res" where
  "exec_single_node tools fins n nodes_outputs =
    bindr (case node_skip n of
        None \<Rightarrow> Inr None
      | Some s \<Rightarrow>
          bindr (parse_value (sk_condition s) nodes_outputs fins) (\<lambda>c.
            if py_eq c (sk_condition_value s)
            then bindr (parse_value (sk_return_value s) nodes_outputs fins) (\<lambda>v. Inr (Some v))
            else Inr None)) (\<lambda>skipped.
    case skipped of
      Some v \<Rightarrow> Inr v
    | None \<Rightarrow>
        bindr (parse_inputs (node_inputs n) nodes_outputs fins) (\<lambda>kwargs.
          case tools (node_name n) of
            None \<Rightarrow> Inl (py_exn ValueError [PStr ''Tool for '', PStr (node_name n), PStr '' is not loaded''])
          | Some f \<Rightarrow> f kwargs))"

section \<open>The pool and the main loop\<close>

datatype future_state = Waiting | Working | Finished "pyval res"

record future =
  fut_node :: node
  fut_live :: bool
  fut_state :: future_state

text \<open>The futures are keyed by the name of their node, in the order of submission.\<close>

record scheduler =
  sc_dag :: dag_manager
  sc_futures :: "(string, future) dict"

datatype execution = Executing scheduler | Returned "(string, pyval) dict" | Raised exn

definition default_concurrency_flow :: int where
  "default_concurrency_flow = 16"

definition submit_nodes :: "bool \<Rightarrow> node list \<Rightarrow> (string, future) dict \<Rightarrow> (string, future) dict" where
  "submit_nodes live nodes futs =
     fold (\<lambda>n. AList.update (node_name n) \<lparr>fut_node = n, fut_live = live, fut_state = Waiting\<rparr>) nodes futs"

definition execute_start :: "int \<Rightarrow> node list \<Rightarrow> execution" where
  "execute_start node_concurrency nodes =
    (if min node_concurrency default_concurrency_flow \<le> 0
     then Raised (py_exn ValueError [PStr ''max_workers must be greater than 0''])
     else (let (ready, m) = pop_ready_nodes (dag_init nodes)
           in Executing \<lparr>sc_dag = m, sc_futures = submit_nodes False ready []\<rparr>))"

text \<open>What the task of a future reads as \<open>nodes_outputs\<close>.\<close>

definition task_view :: "dag_manager \<Rightarrow> future \<Rightarrow> (string, pyval) dict" where
  "task_view m f = (if fut_live f then dm_completed m else [])"

definition working :: "(string, future) dict \<Rightarrow> nat" where
  "working futs = length (filter (\<lambda>(k, f). fut_state f = Working) futs)"

definition next_waiting :: "(string, future) dict \<Rightarrow> (string \<times> future) option" where
  "next_waiting futs = find (\<lambda>(k, f). fut_state f = Waiting) futs"

definition is_finished :: "(string, future) dict \<Rightarrow> string \<Rightarrow> bool" where
  "is_finished futs k = (case map_of futs k of
     Some f \<Rightarrow> (case fut_state f of Finished r \<Rightarrow> True | _ \<Rightarrow> False) | None \<Rightarrow> False)"

text \<open>
  \<open>futures.wait(fs, return_when=FIRST_COMPLETED)\<close> returns some of the finished futures, at least
  one, in any order; on an empty collection it returns at once.
\<close>

definition wait_result :: "(string, future) dict \<Rightarrow> string list \<Rightarrow> bool" where
  "wait_result futs ks \<longleftrightarrow> distinct ks \<and> list_all (is_finished futs) ks \<and> (ks = [] \<longrightarrow> futs = [])"

definition future_result :: "future \<Rightarrow> pyval res" where
  "future_result f = (case fut_state f of Finished r \<Rightarrow> r | _ \<Rightarrow> Inl outside_model)"

definition collect_outputs :: "(string, future) dict \<Rightarrow> string list \<Rightarrow> (string, pyval) dict res" where
  "collect_outputs futs ks = foldr_res (\<lambda>k acc. case map_of futs k of
       None \<Rightarrow> Inl (py_exn KeyError [PStr k])
     | Some f \<Rightarrow> bindr (future_result f) (\<lambda>v. Inr (AList.update (node_name (fut_node f)) v acc))) ks []"

definition collect_turn :: "string list \<Rightarrow> scheduler \<Rightarrow> execution" where
  "collect_turn ks s =
    (case collect_outputs (sc_futures s) ks of
       Inl e \<Rightarrow> Raised e
     | Inr outs \<Rightarrow>
        (let (ready, m) = pop_ready_nodes (complete_nodes outs (sc_dag s))
         in Executing \<lparr>sc_dag = m, sc_futures = submit_nodes True ready (fold AList.delete ks (sc_futures s))\<rparr>))"

inductive sched_step ::
  "(node \<Rightarrow> (string, pyval) dict \<Rightarrow> pyval res) \<Rightarrow> int \<Rightarrow> execution \<Rightarrow> execution \<Rightarrow> bool"
  for run :: "node \<Rightarrow> (string, pyval) dict \<Rightarrow> pyval res" and node_concurrency :: int where
  begin_task: "next_waiting (sc_futures s) = Some (k, f) \<Longrightarrow>
     int (working (sc_futures s)) < min node_concurrency default_concurrency_flow \<Longrightarrow>
     sched_step run node_concurrency (Executing s)
       (Executing (s\<lparr>sc_futures := AList.update k (f\<lparr>fut_state := Working\<rparr>) (sc_futures s)\<rparr>))"
| end_task: "map_of (sc_futures s) k = Some f \<Longrightarrow> fut_state f = Working \<Longrightarrow>
     sched_step run node_concurrency (Executing s)
       (Executing (s\<lparr>sc_futures := AList.update k
          (f\<lparr>fut_state := Finished (run (fut_node f) (task_view (sc_dag s) f))\<rparr>) (sc_futures s)\<rparr>))"
| main_turn: "\<not> completed (sc_dag s) \<Longrightarrow> wait_result (sc_futures s) ks \<Longrightarrow>
     sched_step run node_concurrency (Executing s) (collect_turn ks s)"
| main_exit: "completed (sc_dag s) \<Longrightarrow>
     sched_step run node_concurrency (Executing s) (Returned (dm_completed (sc_dag s)))"

inductive_cases sched_step_cases: "sched_step run c (Executing s) t"
inductive_cases sched_step_final: "sched_step run c (Returned outs) t" "sched_step run c (Raised e) t"

abbreviation sched_reach ::
  "(node \<Rightarrow> (string, pyval) dict \<Rightarrow> pyval res) \<Rightarrow> int \<Rightarrow> node list \<Rightarrow> execution \<Rightarrow> bool" where
  "sched_reach run c nodes \<equiv> (sched_step run c)\<^sup>*\<^sup>* (execute_start c nodes)"

section \<open>The sequential reference\<close>

text \<open>Nodes with distinct names, in an order in which none refers to itself or to a later one.\<close>

fun topo_ordered :: "node list \<Rightarrow> bool" where
  "topo_ordered [] = True"
| "topo_ordered (n # ns) = (node_name n \<notin> node_name ` set ns \<and>
     list_all (\<lambda>k. k \<notin> node_name ` set (n # ns)) (dep_names n) \<and> topo_ordered ns)"

text \<open>Every reference is to one of the nodes.\<close>

definition refs_closed :: "node list \<Rightarrow> bool" where
  "refs_closed ns = list_all (\<lambda>n. refs_named n \<and> list_all (\<lambda>k. k \<in> node_name ` set ns) (dep_names n)) ns"

definition run_in_order ::
  "(node \<Rightarrow> (string, pyval) dict \<Rightarrow> pyval res) \<Rightarrow> node list \<Rightarrow> (string, pyval) dict \<Rightarrow> (string, pyval) dict res" where
  "run_in_order run ns d =
     foldr_res (\<lambda>n d. bindr (run n d) (\<lambda>v. Inr (d @ [(node_name n, v)]))) ns d"

text \<open>The outputs of the nodes that can run: those whose references all have outputs.\<close>

fun available_outputs ::
  "(node \<Rightarrow> (string, pyval) dict \<Rightarrow> pyval res) \<Rightarrow> node list \<Rightarrow> (string, pyval) dict \<Rightarrow> (string, pyval) dict" where
  "available_outputs run [] d = d"
| "available_outputs run (n # ns) d =
    (if is_node_ready d n
     then (case run n d of Inr v \<Rightarrow> available_outputs run ns (d @ [(node_name n, v)]) | Inl e \<Rightarrow> available_outputs run ns d)
     else available_outputs run ns d)"

section \<open>Available outputs\<close>

locale node_runner =
  fixes run :: "node \<Rightarrow> (string, pyval) dict \<Rightarrow> pyval res"
  assumes run_deps: "is_node_ready d n \<Longrightarrow> (\<And>k. k \<in> set (dep_names n) \<Longrightarrow> map_of d k = map_of d' k) \<Longrightarrow>
    run n d = run n d'"
begin

abbreviation avail :: "node list \<Rightarrow> (string, pyval) dict \<Rightarrow> (string, pyval) dict" where
  "avail \<equiv> available_outputs run"

lemma avail_extends: "\<exists>e. avail ns d = d @ e \<and> fst ` set e \<subseteq> node_name ` set ns"
proof (induction ns arbitrary: d)
  case (Cons n ns)
  show ?case
  proof (cases "is_node_ready d n \<and> (\<exists>v. run n d = Inr v)")
    case True
    then obtain v where v: "is_node_ready d n" "run n d = Inr v" by blast
    from Cons.IH [of "d @ [(node_name n, v)]"] obtain e where
      "avail ns (d @ [(node_name n, v)]) = (d @ [(node_name n, v)]) @ e" "fst ` set e \<subseteq> node_name ` set ns" by blast
    with v show ?thesis by (intro exI [of _ "(node_name n, v) # e"]) auto
  next
    case False
    then have "avail (n # ns) d = avail ns d" by (auto split: sum.split)
    with Cons.IH [of d] show ?thesis by auto
  qed
qed simp

lemma avail_old: "k \<in> fst ` set d \<Longrightarrow> map_of (avail ns d) k = map_of d k"
proof -
  assume "k \<in> fst ` set d"
  then obtain v where "map_of d k = Some v" by (auto simp: map_of_eq_None_iff dest: weak_map_of_SomeI)
  moreover obtain e where "avail ns d = d @ e" using avail_extends by blast
  ultimately show ?thesis by (simp add: map_add_Some_iff)
qed

lemma avail_outside:
  assumes "k \<notin> node_name ` set ns"
  shows "map_of (avail ns d) k = map_of d k"
proof -
  obtain e where e: "avail ns d = d @ e" "fst ` set e \<subseteq> node_name ` set ns" using avail_extends by blast
  with assms have "map_of e k = None" by (auto simp: map_of_eq_None_iff)
  with e show ?thesis by (simp add: map_add_def split: option.split)
qed

lemma ready_cong:
  assumes "\<And>k. k \<in> set (dep_names n) \<Longrightarrow> map_of d k = map_of d' k"
  shows "is_node_ready d n = is_node_ready d' n"
proof -
  have "k \<in> fst ` set d \<longleftrightarrow> k \<in> fst ` set d'" if "k \<in> set (dep_names n)" for k
    using assms [OF that] by (metis map_of_eq_None_iff)
  then show ?thesis unfolding ready_iff by blast
qed

text \<open>The fate of each node, judged by the final outputs.\<close>

lemma avail_fate:
  assumes "topo_ordered ns" "fst ` set d \<inter> node_name ` set ns = {}" "n \<in> set ns"
  shows "map_of (avail ns d) (node_name n) =
    (if is_node_ready (avail ns d) n then (case run n (avail ns d) of Inr v \<Rightarrow> Some v | Inl e \<Rightarrow> None) else None)"
  using assms
proof (induction ns arbitrary: d)
  case (Cons a ns)
  from Cons.prems have topo: "topo_ordered ns" "node_name a \<notin> node_name ` set ns"
    "node_name a \<notin> fst ` set d" by auto
  have deps: "map_of (avail (a # ns) d) k = map_of d k" if "k \<in> set (dep_names a)" for k
    using that Cons.prems(1) by (intro avail_outside) (auto simp: list_all_iff)
  have new: "map_of d (node_name a) = None" using topo(3) by (auto simp: map_of_eq_None_iff)
  show ?case
  proof (cases "n = a")
    case True
    have ready: "is_node_ready (avail (a # ns) d) a = is_node_ready d a" by (rule ready_cong) (rule deps)
    have same: "run a (avail (a # ns) d) = run a d" if "is_node_ready d a"
      using run_deps [OF that] deps by metis
    have "map_of (avail ns d') (node_name a) = map_of d' (node_name a)" for d'
      by (rule avail_outside [OF topo(2)])
    with True ready same new show ?thesis by (auto simp: map_add_def split: sum.split)
  next
    case False
    with Cons.prems have n: "n \<in> set ns" by simp
    have sub: "fst ` set d \<inter> node_name ` set ns = {}"
      "fst ` set (d @ [(node_name a, v)]) \<inter> node_name ` set ns = {}" for v
      using Cons.prems(2) topo(2) by auto
    note ih = Cons.IH [OF topo(1) sub(1) n] Cons.IH [OF topo(1) sub(2) n]
    show ?thesis
      by (cases "is_node_ready d a"; cases "run a d") (simp_all only: available_outputs.simps if_True if_False sum.case ih)
  qed
qed simp

lemma run_in_order_cases:
  assumes "topo_ordered ns" "fst ` set d \<inter> node_name ` set ns = {}"
    "\<forall>n\<in>set ns. refs_named n \<and> set (dep_names n) \<subseteq> fst ` set d \<union> node_name ` set ns"
  shows "case run_in_order run ns d of
      Inr outs \<Rightarrow> avail ns d = outs \<and> fst ` set outs = fst ` set d \<union> node_name ` set ns
    | Inl e \<Rightarrow> \<exists>n\<in>set ns. is_node_ready (avail ns d) n \<and> run n (avail ns d) = Inl e"
  using assms
proof (induction ns arbitrary: d)
  case (Cons a ns)
  from Cons.prems have "refs_named a \<and> set (dep_names a) \<subseteq> fst ` set d" by (auto simp: list_all_iff)
  then have ready: "is_node_ready d a" by (simp add: ready_iff)
  show ?case
  proof (cases "run a d")
    case (Inl e)
    have dep: "map_of (avail (a # ns) d) k = map_of d k" if "k \<in> set (dep_names a)" for k
      using that Cons.prems(1) by (intro avail_outside) (auto simp: list_all_iff)
    then have "is_node_ready (avail (a # ns) d) a" using ready_cong [of a d "avail (a # ns) d"] ready by metis
    moreover have "run a (avail (a # ns) d) = Inl e" using run_deps [OF ready, of "avail (a # ns) d"] dep Inl by metis
    ultimately show ?thesis using Inl by (auto simp: run_in_order_def)
  next
    case (Inr v)
    have prems: "topo_ordered ns" "fst ` set (d @ [(node_name a, v)]) \<inter> node_name ` set ns = {}"
      "\<forall>n\<in>set ns. refs_named n \<and> set (dep_names n) \<subseteq> fst ` set (d @ [(node_name a, v)]) \<union> node_name ` set ns"
      using Cons.prems by auto
    from Cons.IH [OF prems] show ?thesis
      using Inr ready by (simp add: run_in_order_def split: sum.splits)
  qed
qed (simp add: run_in_order_def)

end

section \<open>The state of a run\<close>

text \<open>
  The names of the nodes are shared out between the pending nodes, the futures and the completed
  outputs. The completed outputs are part of \<open>D\<close>, the available outputs; a finished task computed
  what it computes from \<open>D\<close>; no pending node is ready.
\<close>

definition future_ok :: "(node \<Rightarrow> (string, pyval) dict \<Rightarrow> pyval res) \<Rightarrow> node list \<Rightarrow> (string, pyval) dict \<Rightarrow>
    dag_manager \<Rightarrow> string \<Rightarrow> future \<Rightarrow> bool" where
  "future_ok run ns D m k f \<longleftrightarrow> k = node_name (fut_node f) \<and> fut_node f \<in> set ns \<and>
     is_node_ready (task_view m f) (fut_node f) \<and>
     (case fut_state f of Finished r \<Rightarrow> r = run (fut_node f) D | _ \<Rightarrow> True)"

definition shared_out :: "node list \<Rightarrow> string set \<Rightarrow> string set \<Rightarrow> string set \<Rightarrow> bool" where
  "shared_out ns P F C \<longleftrightarrow> P \<union> F \<union> C = node_name ` set ns \<and> P \<inter> F = {} \<and> P \<inter> C = {} \<and> F \<inter> C = {}"

definition sched_inv :: "(node \<Rightarrow> (string, pyval) dict \<Rightarrow> pyval res) \<Rightarrow> node list \<Rightarrow> (string, pyval) dict \<Rightarrow>
    scheduler \<Rightarrow> bool" where
  "sched_inv run ns D s \<longleftrightarrow>
     dm_nodes (sc_dag s) = ns \<and> keyed (dm_pending (sc_dag s)) \<and>
     snd ` set (dm_pending (sc_dag s)) \<subseteq> set ns \<and>
     (\<forall>n\<in>snd ` set (dm_pending (sc_dag s)). \<not> is_node_ready (dm_completed (sc_dag s)) n) \<and>
     distinct (map fst (sc_futures s)) \<and>
     (\<forall>(k, f)\<in>set (sc_futures s). future_ok run ns D (sc_dag s) k f) \<and>
     distinct (map fst (dm_completed (sc_dag s))) \<and>
     map_of (dm_completed (sc_dag s)) \<subseteq>\<^sub>m map_of D \<and>
     shared_out ns (fst ` set (dm_pending (sc_dag s))) (fst ` set (sc_futures s)) (fst ` set (dm_completed (sc_dag s)))"

lemma keys_submit [simp]: "fst ` set (submit_nodes live ns futs) = node_name ` set ns \<union> fst ` set futs"
  by (induction ns arbitrary: futs) (auto simp: submit_nodes_def dict_simps)

lemma distinct_submit [simp]: "distinct (map fst futs) \<Longrightarrow> distinct (map fst (submit_nodes live ns futs))"
  by (induction ns arbitrary: futs) (simp_all add: submit_nodes_def distinct_update)

lemma set_submit:
  "(k, f) \<in> set (submit_nodes live ns futs) \<Longrightarrow>
     (k, f) \<in> set futs \<or> (\<exists>n\<in>set ns. k = node_name n \<and> f = \<lparr>fut_node = n, fut_live = live, fut_state = Waiting\<rparr>)"
proof (induction ns arbitrary: futs)
  case (Cons n ns)
  from Cons.prems have "(k, f) \<in> set (submit_nodes live ns
      (AList.update (node_name n) \<lparr>fut_node = n, fut_live = live, fut_state = Waiting\<rparr> futs))"
    by (simp add: submit_nodes_def)
  from Cons.IH [OF this] show ?case
    using set_AList_update [of "node_name n" "\<lparr>fut_node = n, fut_live = live, fut_state = Waiting\<rparr>" futs] by auto
qed (simp add: submit_nodes_def)

lemma fold_delete_keys: "fold AList.delete ks d = filter (\<lambda>(k, v). k \<notin> set ks) d"
proof (induction ks arbitrary: d)
  case (Cons n ns)
  then show ?case by (simp add: AList.delete_eq filter_filter) (rule filter_cong, auto)
qed simp

lemma keys_filter_key: "fst ` set (filter (\<lambda>(k, v). P k) d) = {k \<in> fst ` set d. P k}"
  by force

definition collect_from :: "(string, future) dict \<Rightarrow> string list \<Rightarrow> (string, pyval) dict \<Rightarrow> (string, pyval) dict res" where
  "collect_from futs ks acc = foldr_res (\<lambda>k acc. case map_of futs k of
       None \<Rightarrow> Inl (py_exn KeyError [PStr k])
     | Some f \<Rightarrow> bindr (future_result f) (\<lambda>v. Inr (AList.update (node_name (fut_node f)) v acc))) ks acc"

lemma collect_from_cases:
  assumes "\<And>k. k \<in> set ks \<Longrightarrow> \<exists>f. map_of futs k = Some f \<and> node_name (fut_node f) = k"
    and "distinct (map fst acc)"
  shows "case collect_from futs ks acc of
      Inl e \<Rightarrow> \<exists>k\<in>set ks. \<exists>f. map_of futs k = Some f \<and> future_result f = Inl e
    | Inr outs \<Rightarrow> fst ` set outs = set ks \<union> fst ` set acc \<and> distinct (map fst outs) \<and>
        (\<forall>k v. map_of outs k = Some v \<longrightarrow> map_of acc k = Some v \<or>
          (k \<in> set ks \<and> (\<exists>f. map_of futs k = Some f \<and> future_result f = Inr v)))"
  using assms
proof (induction ks arbitrary: acc)
  case (Cons a ks)
  then obtain f where f: "map_of futs a = Some f" "node_name (fut_node f) = a" by force
  show ?case
  proof (cases "future_result f")
    case (Inl e)
    with f show ?thesis by (auto simp: collect_from_def)
  next
    case (Inr v)
    have step: "collect_from futs (a # ks) acc = collect_from futs ks (AList.update a v acc)"
      using f Inr by (simp add: collect_from_def)
    have "case collect_from futs ks (AList.update a v acc) of
      Inl e \<Rightarrow> \<exists>k\<in>set ks. \<exists>f. map_of futs k = Some f \<and> future_result f = Inl e
    | Inr outs \<Rightarrow> fst ` set outs = set ks \<union> fst ` set (AList.update a v acc) \<and> distinct (map fst outs) \<and>
        (\<forall>k w. map_of outs k = Some w \<longrightarrow> map_of (AList.update a v acc) k = Some w \<or>
          (k \<in> set ks \<and> (\<exists>f. map_of futs k = Some f \<and> future_result f = Inr w)))"
      using Cons.prems by (intro Cons.IH distinct_update) auto
    note ih = this
    show ?thesis
    proof (cases "collect_from futs ks (AList.update a v acc)")
      case (Inl e)
      with ih show ?thesis unfolding step by auto
    next
      case out: (Inr outs)
      have "map_of acc k = Some w \<or> (k \<in> set (a # ks) \<and> (\<exists>f. map_of futs k = Some f \<and> future_result f = Inr w))"
        if "map_of outs k = Some w" for k w
        using ih that f Inr unfolding out by (cases "k = a") (fastforce simp del: map_of_eq_Some_iff)+
      with ih show ?thesis unfolding step out by (auto simp: dict_simps)
    qed
  qed
qed (simp add: collect_from_def)

lemmas collect_outputs_cases =
  collect_from_cases [where acc = "[]", unfolded collect_from_def, folded collect_outputs_def, simplified]

section \<open>The invariant is kept\<close>

lemma ready_mono: "map_of d \<subseteq>\<^sub>m map_of d' \<Longrightarrow> is_node_ready d n \<Longrightarrow> is_node_ready d' n"
proof -
  assume le: "map_of d \<subseteq>\<^sub>m map_of d'" and r: "is_node_ready d n"
  have "fst ` set d \<subseteq> fst ` set d'" using map_le_implies_dom_le [OF le] by (simp add: dom_map_of_conv_image_fst)
  with r show "is_node_ready d' n" unfolding ready_iff by blast
qed

lemma task_view_le: "map_of (dm_completed m) \<subseteq>\<^sub>m M \<Longrightarrow> map_of (task_view m f) \<subseteq>\<^sub>m M"
  by (simp add: task_view_def)

lemma future_ok_grow:
  assumes "future_ok run ns D m k f" "map_of (dm_completed m) \<subseteq>\<^sub>m map_of (dm_completed m')"
  shows "future_ok run ns D m' k f"
proof -
  have "map_of (task_view m f) \<subseteq>\<^sub>m map_of (task_view m' f)" using assms(2) by (simp add: task_view_def)
  then show ?thesis using assms(1) ready_mono unfolding future_ok_def by blast
qed

lemma pending_split:
  fixes P :: "node \<Rightarrow> bool"
  assumes "keyed pend"
  defines "R \<equiv> node_name ` set (filter P (map snd pend))" and "Q \<equiv> fst ` set (filter (\<lambda>(k, n). \<not> P n) pend)"
  shows "Q \<union> R = fst ` set pend" "Q \<inter> R = {}"
proof -
  have key: "k = node_name n" if "(k, n) \<in> set pend" for k n using that assms(1) by (auto simp: keyed_def)
  have uniq: "n = n'" if "(k, n) \<in> set pend" "(k, n') \<in> set pend" for k n n'
    using that assms(1) unfolding keyed_def by (meson eq_key_imp_eq_value)
  show "Q \<union> R = fst ` set pend" unfolding Q_def R_def using key by force
  show "Q \<inter> R = {}" unfolding Q_def R_def using key uniq by fastforce
qed

lemma shared_out_move:
  assumes "shared_out ns P F C" "Q \<union> R = P" "Q \<inter> R = {}"
  shows "shared_out ns Q (R \<union> F) C"
proof -
  from assms(1) have "Q \<union> R \<union> F \<union> C = node_name ` set ns" "(Q \<union> R) \<inter> F = {}" "(Q \<union> R) \<inter> C = {}" "F \<inter> C = {}"
    by (simp_all add: shared_out_def assms(2))
  with assms(3) show ?thesis by (simp add: shared_out_def Un_assoc Int_Un_distrib Int_Un_distrib2)
qed

lemma pop_submit_inv:
  assumes "dm_nodes m = ns" "keyed (dm_pending m)" "snd ` set (dm_pending m) \<subseteq> set ns"
    and "distinct (map fst futs)" "\<forall>(k, f)\<in>set futs. future_ok run ns D m k f"
    and "distinct (map fst (dm_completed m))" "map_of (dm_completed m) \<subseteq>\<^sub>m map_of D"
    and "shared_out ns (fst ` set (dm_pending m)) (fst ` set futs) (fst ` set (dm_completed m))"
    and "live \<or> dm_completed m = []" "pop_ready_nodes m = (ready, m')"
  shows "sched_inv run ns D \<lparr>sc_dag = m', sc_futures = submit_nodes live ready futs\<rparr>"
proof -
  from assms(10) have eqs: "ready = fst (pop_ready_nodes m)" "m' = snd (pop_ready_nodes m)" by simp_all
  note pend = pending_after_pop [OF assms(2)]
  have fut: "future_ok run ns D m' k f" if kf: "(k, f) \<in> set (submit_nodes live ready futs)" for k f
  proof -
    from set_submit [OF kf] show ?thesis
    proof
      assume "(k, f) \<in> set futs"
      then show ?thesis using assms(5) by (auto simp: eqs intro: future_ok_grow)
    next
      assume "\<exists>n\<in>set ready. k = node_name n \<and> f = \<lparr>fut_node = n, fut_live = live, fut_state = Waiting\<rparr>"
      then show ?thesis using assms(3,9) by (auto simp: eqs future_ok_def task_view_def)
    qed
  qed
  have "shared_out ns (fst ` set (dm_pending m')) (node_name ` set ready \<union> fst ` set futs) (fst ` set (dm_completed m))"
    unfolding eqs pend pop_ready_simps
    by (rule shared_out_move [OF assms(8)]) (rule pending_split [OF assms(2)])+
  moreover have "keyed (dm_pending m')" by (simp add: eqs pend assms(2) keyed_filter)
  moreover have "snd ` set (dm_pending m') \<subseteq> set ns" using assms(3) by (auto simp: eqs pend)
  moreover have "\<forall>n\<in>snd ` set (dm_pending m'). \<not> is_node_ready (dm_completed m) n" by (auto simp: eqs pend)
  moreover have "dm_nodes m' = ns" "dm_completed m' = dm_completed m" by (simp_all add: eqs assms(1))
  moreover have "\<forall>(k, f)\<in>set (submit_nodes live ready futs). future_ok run ns D m' k f" using fut by blast
  moreover have "distinct (map fst (submit_nodes live ready futs))" using assms(4) by simp
  ultimately show ?thesis using assms(6,7) by (simp add: sched_inv_def)
qed

lemma execute_start_inv:
  assumes "execute_start c ns = Executing s" "distinct (map node_name ns)"
  shows "sched_inv run ns D s"
proof -
  obtain ready m where pop: "pop_ready_nodes (dag_init ns) = (ready, m)" by force
  with assms have s: "s = \<lparr>sc_dag = m, sc_futures = submit_nodes False ready []\<rparr>"
    by (simp add: execute_start_def split: if_splits)
  show ?thesis unfolding s
    by (rule pop_submit_inv [OF _ keyed_init _ _ _ _ _ _ _ pop])
      (auto simp: dag_init_def shared_out_def dict_of_distinct assms(2) comp_def image_image)
qed

context node_runner
begin

lemma future_result_ok:
  assumes "sched_inv run ns0 D s" "map_of (sc_futures s) k = Some f" "is_finished (sc_futures s) k"
    and "topo_ordered ns" "set ns0 = set ns" "D = avail ns []"
  shows "is_node_ready D (fut_node f) \<and> fut_node f \<in> set ns \<and> k = node_name (fut_node f) \<and>
     future_result f = run (fut_node f) D \<and>
     (case future_result f of Inr v \<Rightarrow> map_of D k = Some v | Inl e \<Rightarrow> True)"
proof -
  from assms(2) have "(k, f) \<in> set (sc_futures s)" by (rule map_of_SomeD)
  with assms(1) have ok: "future_ok run ns0 D (sc_dag s) k f" "map_of (dm_completed (sc_dag s)) \<subseteq>\<^sub>m map_of D"
    by (auto simp: sched_inv_def)
  then have ready: "is_node_ready D (fut_node f)" unfolding future_ok_def using ready_mono task_view_le by blast
  from ok assms(2,3) have res: "future_result f = run (fut_node f) D"
    by (auto simp: is_finished_def future_ok_def future_result_def split: future_state.splits)
  have n: "fut_node f \<in> set ns" "k = node_name (fut_node f)" using ok assms(5) by (auto simp: future_ok_def)
  with avail_fate [OF assms(4) _ n(1), of "[]"] ready res assms(6)
  show ?thesis by (auto split: sum.split)
qed

lemma collect_turn_cases:
  assumes "sched_inv run ns0 D s" "wait_result (sc_futures s) ks"
    and "topo_ordered ns" "set ns0 = set ns" "D = avail ns []"
  shows "case collect_turn ks s of
      Executing t \<Rightarrow> sched_inv run ns0 D t
    | Raised e \<Rightarrow> \<exists>n\<in>set ns. is_node_ready D n \<and> run n D = Inl e
    | Returned outs \<Rightarrow> False"
proof -
  have fin: "is_finished (sc_futures s) k" if "k \<in> set ks" for k
    using assms(2) that by (auto simp: wait_result_def list_all_iff)
  have get: "\<exists>f. map_of (sc_futures s) k = Some f \<and> node_name (fut_node f) = k" if k: "k \<in> set ks" for k
  proof -
    from fin [OF k] obtain f where f: "map_of (sc_futures s) k = Some f"
      by (auto simp: is_finished_def split: option.splits)
    with future_result_ok [OF assms(1) f fin [OF k] assms(3-5)] show ?thesis by auto
  qed
  show ?thesis
  proof (cases "collect_outputs (sc_futures s) ks")
    case (Inl e)
    with collect_outputs_cases [of ks "sc_futures s"] get obtain k f where
      k: "k \<in> set ks" "map_of (sc_futures s) k = Some f" "future_result f = Inl e" by force
    from future_result_ok [OF assms(1) k(2) fin [OF k(1)] assms(3-5)] k(3) Inl
    show ?thesis by (auto simp: collect_turn_def)
  next
    case (Inr outs)
    with collect_outputs_cases [of ks "sc_futures s"] get have
      outs: "fst ` set outs = set ks" "distinct (map fst outs)"
      "\<And>k v. map_of outs k = Some v \<Longrightarrow> k \<in> set ks \<and> (\<exists>f. map_of (sc_futures s) k = Some f \<and> future_result f = Inr v)"
      by (auto split: sum.splits)
    have sub: "map_of outs \<subseteq>\<^sub>m map_of D"
    proof (rule map_le_def [THEN iffD2], rule ballI)
      fix k assume "k \<in> dom (map_of outs)"
      then obtain v where v: "map_of outs k = Some v" by blast
      from outs(3) [OF this] obtain f where
        "k \<in> set ks" "map_of (sc_futures s) k = Some f" "future_result f = Inr v" by blast
      with future_result_ok [OF assms(1) _ fin assms(3-5)] have "map_of D k = Some v" by fastforce
      with v show "map_of outs k = map_of D k" by simp
    qed
    let ?m = "complete_nodes outs (sc_dag s)" and ?futs = "filter (\<lambda>(k, v). k \<notin> set ks) (sc_futures s)"
    have new: "map_of (dm_completed ?m) = map_of (dm_completed (sc_dag s)) ++ map_of outs"
      by (simp add: map_of_dict_updates map_of_rev_distinct outs(2))
    have keys: "fst ` set (dm_completed ?m) = set ks \<union> fst ` set (dm_completed (sc_dag s))"
      by (simp add: dict_simps outs(1))
    have inv: "map_of (dm_completed (sc_dag s)) \<subseteq>\<^sub>m map_of D"
      "shared_out ns0 (fst ` set (dm_pending (sc_dag s))) (fst ` set (sc_futures s)) (fst ` set (dm_completed (sc_dag s)))"
      "\<forall>(k, f)\<in>set (sc_futures s). future_ok run ns0 D (sc_dag s) k f" "keyed (dm_pending (sc_dag s))"
      "snd ` set (dm_pending (sc_dag s)) \<subseteq> set ns0" "dm_nodes (sc_dag s) = ns0"
      "distinct (map fst (sc_futures s))" "distinct (map fst (dm_completed (sc_dag s)))"
      using assms(1) by (simp_all add: sched_inv_def)
    have ksF: "set ks \<subseteq> fst ` set (sc_futures s)"
      using get by (force dest: map_of_SomeD)
    have disj: "dom (map_of (dm_completed (sc_dag s))) \<inter> dom (map_of outs) = {}"
      using inv(2) ksF outs(1) by (auto simp: shared_out_def dom_map_of_conv_image_fst)
    have grow: "map_of (dm_completed (sc_dag s)) \<subseteq>\<^sub>m map_of (dm_completed ?m)"
      unfolding new using disj by (metis map_add_comm map_le_map_add)
    have futs: "\<forall>(k, f)\<in>set ?futs. future_ok run ns0 D ?m k f"
      using inv(3) grow by (auto intro: future_ok_grow)
    have le: "map_of (dm_completed ?m) \<subseteq>\<^sub>m map_of D"
      unfolding new using inv(1) sub by (rule map_add_le_mapI)
    have so: "shared_out ns0 (fst ` set (dm_pending ?m)) (fst ` set ?futs) (fst ` set (dm_completed ?m))"
      using inv(2) ksF unfolding keys keys_filter_key by (auto simp: shared_out_def)
    obtain ready m' where pop: "pop_ready_nodes ?m = (ready, m')" by force
    have "sched_inv run ns0 D \<lparr>sc_dag = m', sc_futures = submit_nodes True ready ?futs\<rparr>"
      using inv futs le so
      by (intro pop_submit_inv [OF _ _ _ _ _ _ _ _ _ pop]) (simp_all add: distinct_map_filter distinct_dict_updates)
    with Inr pop show ?thesis by (simp add: collect_turn_def fold_delete_keys)
  qed
qed

end

end
