(* ===== verification/SchedulerRuns.thy ===== *)
theory SchedulerRuns imports Scheduler begin

text \<open>
  What every run of the scheduler does: its outputs are those of the sequential evaluation of the
  nodes, whatever the interleaving; it never blocks and it ends after a bounded number of steps
  when the references stay among the scheduled nodes; when one does not, it never returns.
\<close>

section \<open>Every step keeps the invariant\<close>

definition execution_inv :: "(node \<Rightarrow> (string, pyval) dict \<Rightarrow> pyval res) \<Rightarrow> node list \<Rightarrow> (string, pyval) dict \<Rightarrow>
    execution \<Rightarrow> bool" where
  "execution_inv run ns D e = (case e of
     Executing s \<Rightarrow> sched_inv run ns D s
   | Returned outs \<Rightarrow> map_of outs \<subseteq>\<^sub>m map_of D \<and> distinct (map fst outs) \<and> fst ` set outs = node_name ` set ns
   | Raised x \<Rightarrow> \<exists>n\<in>set ns. is_node_ready D n \<and> run n D = Inl x)"

lemma keys_update_same: "map_of d k = Some v \<Longrightarrow> fst ` set (AList.update k w d) = fst ` set d"
  by (auto simp: dict_simps insert_absorb dest!: map_of_SomeD intro: rev_image_eqI)

lemma sched_inv_update:
  assumes "sched_inv run ns D s" "map_of (sc_futures s) k = Some f"
    and "fut_node g = fut_node f" "fut_live g = fut_live f"
    and "case fut_state g of Finished r \<Rightarrow> r = run (fut_node f) D | _ \<Rightarrow> True"
  shows "sched_inv run ns D (s\<lparr>sc_futures := AList.update k g (sc_futures s)\<rparr>)"
proof -
  from map_of_SomeD [OF assms(2)] assms(1) have "future_ok run ns D (sc_dag s) k f" by (auto simp: sched_inv_def)
  then have "future_ok run ns D (sc_dag s) k g" using assms(3-5)
    by (cases "fut_state g") (simp_all add: future_ok_def task_view_def)
  then have "\<forall>(k, f)\<in>set (AList.update k g (sc_futures s)). future_ok run ns D (sc_dag s) k f"
    using set_AList_update [of k g "sc_futures s"] assms(1) by (fastforce simp: sched_inv_def)
  then show ?thesis
    using assms(1) by (simp add: sched_inv_def keys_update_same [OF assms(2)] distinct_update)
qed

lemma completed_iff:
  assumes "sched_inv run ns D s" "distinct (map node_name ns)"
  shows "completed (sc_dag s) \<longleftrightarrow> fst ` set (dm_completed (sc_dag s)) = node_name ` set ns"
proof -
  have sub: "fst ` set (dm_completed (sc_dag s)) \<subseteq> node_name ` set ns"
    using assms(1) by (auto simp: sched_inv_def shared_out_def)
  have "length ns = card (node_name ` set ns)" by (metis assms(2) distinct_card length_map list.set_map)
  moreover have "length (dm_completed (sc_dag s)) = card (fst ` set (dm_completed (sc_dag s)))"
    using assms(1) by (intro distinct_names_card) (simp add: sched_inv_def)
  ultimately have "completed (sc_dag s) \<longleftrightarrow> card (fst ` set (dm_completed (sc_dag s))) = card (node_name ` set ns)"
    using assms(1) by (simp add: completed_def sched_inv_def)
  also have "\<dots> \<longleftrightarrow> fst ` set (dm_completed (sc_dag s)) = node_name ` set ns"
    using card_subset_eq [OF _ sub] by auto
  finally show ?thesis .
qed

lemma execute_start_executing: "0 < c \<Longrightarrow> \<exists>s. execute_start c ns = Executing s"
  by (cases "pop_ready_nodes (dag_init ns)")
    (simp add: execute_start_def default_concurrency_flow_def min_le_iff_disj)

context node_runner
begin

lemma step_inv:
  assumes "sched_step run c e e'" "execution_inv run ns0 D e"
    and "topo_ordered ns" "set ns0 = set ns" "D = avail ns []" "distinct (map node_name ns0)"
  shows "execution_inv run ns0 D e'"
  using assms(1)
proof cases
  case (begin_task s k f)
  then have "map_of (sc_futures s) k = Some f"
    using assms(2) by (auto simp: next_waiting_def find_Some_iff execution_inv_def sched_inv_def)
      (metis map_of_eq_Some_iff nth_mem)
  from sched_inv_update [OF _ this, of run ns0 D "f\<lparr>fut_state := Working\<rparr>"] begin_task(1,2) assms(2)
  show ?thesis by (simp add: execution_inv_def)
next
  case (end_task s k f)
  with assms(2) have inv: "sched_inv run ns0 D s" by (simp add: execution_inv_def)
  from map_of_SomeD [OF end_task(3)] inv have ok: "future_ok run ns0 D (sc_dag s) k f"
    "map_of (dm_completed (sc_dag s)) \<subseteq>\<^sub>m map_of D" by (auto simp: sched_inv_def)
  let ?v = "task_view (sc_dag s) f"
  have "map_of ?v j = map_of D j" if "j \<in> set (dep_names (fut_node f))" for j
  proof -
    have "j \<in> fst ` set ?v" using ok that by (auto simp: future_ok_def ready_iff)
    then have "j \<in> dom (map_of ?v)" by (simp add: dom_map_of_conv_image_fst)
    then show ?thesis using task_view_le [OF ok(2)] by (auto simp: map_le_def)
  qed
  then have "run (fut_node f) ?v = run (fut_node f) D"
    using run_deps [of ?v "fut_node f" D] ok by (simp add: future_ok_def)
  with sched_inv_update [OF inv end_task(3), of "f\<lparr>fut_state := Finished (run (fut_node f) ?v)\<rparr>"] end_task(2)
  show ?thesis by (simp add: execution_inv_def)
next
  case (main_turn s ks)
  with assms(2) have "sched_inv run ns0 D s" by (simp add: execution_inv_def)
  from collect_turn_cases [OF this main_turn(4) assms(3-5)] main_turn(2) assms(4)
  show ?thesis by (auto simp: execution_inv_def split: execution.splits)
next
  case (main_exit s)
  with assms(2) have inv: "sched_inv run ns0 D s" by (simp add: execution_inv_def)
  with completed_iff [OF inv assms(6)] main_exit show ?thesis by (simp add: execution_inv_def sched_inv_def)
qed

lemma reach_inv:
  assumes "sched_reach run c ns0 e" "0 < c"
    and "topo_ordered ns" "set ns0 = set ns" "distinct (map node_name ns0)"
  shows "execution_inv run ns0 (avail ns []) e"
  using assms(1)
proof (induction rule: rtranclp_induct)
  case base
  obtain s where "execute_start c ns0 = Executing s" using execute_start_executing [OF assms(2)] by blast
  with execute_start_inv [OF this assms(5)] show ?case by (simp add: execution_inv_def)
next
  case (step y z)
  then show ?case using step_inv assms(3-5) by blast
qed

section \<open>What a run returns or raises\<close>

lemma run_in_order_closed:
  assumes "topo_ordered ns" "refs_closed ns"
  shows "case run_in_order run ns [] of
      Inr outs \<Rightarrow> avail ns [] = outs \<and> fst ` set outs = node_name ` set ns
    | Inl e \<Rightarrow> \<exists>n\<in>set ns. is_node_ready (avail ns []) n \<and> run n (avail ns []) = Inl e"
proof -
  have "\<forall>n\<in>set ns. refs_named n \<and> set (dep_names n) \<subseteq> fst ` set [] \<union> node_name ` set ns"
    using assms(2) by (auto simp: refs_closed_def list_all_iff)
  from run_in_order_cases [OF assms(1) _ this] show ?thesis by (simp split: sum.splits)
qed

lemma failing_not_available:
  assumes "topo_ordered ns" "n \<in> set ns" "is_node_ready (avail ns []) n \<longrightarrow> run n (avail ns []) = Inl e"
  shows "node_name n \<notin> fst ` set (avail ns [])"
proof -
  have "map_of (avail ns []) (node_name n) = None"
    using avail_fate [OF assms(1) _ assms(2), of "[]"] assms(3) by auto
  then show ?thesis by (simp add: map_of_eq_None_iff)
qed

lemma returned_outputs:
  assumes "sched_reach run c ns0 (Returned outs)" "0 < c"
    and "topo_ordered ns" "set ns0 = set ns" "distinct (map node_name ns0)" "refs_closed ns"
  shows "\<exists>os. run_in_order run ns [] = Inr os \<and> map_of os = map_of outs"
proof -
  from reach_inv [OF assms(1-5)] have inv: "map_of outs \<subseteq>\<^sub>m map_of (avail ns [])" "fst ` set outs = node_name ` set ns"
    by (simp_all add: execution_inv_def assms(4))
  then have all: "node_name ` set ns \<subseteq> fst ` set (avail ns [])"
    by (metis map_le_implies_dom_le dom_map_of_conv_image_fst)
  show ?thesis
  proof (cases "run_in_order run ns []")
    case (Inl e)
    with run_in_order_closed [OF assms(3,6)] obtain n where
      n: "n \<in> set ns" "run n (avail ns []) = Inl e" by auto
    from failing_not_available [OF assms(3) n(1)] n(2) have "node_name n \<notin> fst ` set (avail ns [])" by blast
    with all n(1) show ?thesis by blast
  next
    case (Inr os)
    with run_in_order_closed [OF assms(3,6)] have os: "avail ns [] = os" "fst ` set os = node_name ` set ns" by auto
    then have "dom (map_of outs) = dom (map_of os)" using inv(2) by (simp add: dom_map_of_conv_image_fst)
    with inv(1) os(1) have "map_of os = map_of outs" by (metis map_le_antisym map_le_def)
    with Inr show ?thesis by blast
  qed
qed

lemma raised_error:
  assumes "sched_reach run c ns0 (Raised x)" "0 < c"
    and "topo_ordered ns" "set ns0 = set ns" "distinct (map node_name ns0)" "refs_closed ns"
  shows "(\<exists>e. run_in_order run ns [] = Inl e) \<and>
    (\<exists>n\<in>set ns. is_node_ready (avail ns []) n \<and> run n (avail ns []) = Inl x)"
proof -
  from reach_inv [OF assms(1-5)] obtain n where
    n: "n \<in> set ns" "is_node_ready (avail ns []) n" "run n (avail ns []) = Inl x"
    by (auto simp: execution_inv_def assms(4))
  with failing_not_available [OF assms(3) n(1)] have "node_name n \<notin> fst ` set (avail ns [])" by blast
  with run_in_order_closed [OF assms(3,6)] n show ?thesis by (auto split: sum.splits)
qed

section \<open>Every run ends\<close>

end

fun future_weight :: "future_state \<Rightarrow> nat" where
  "future_weight Waiting = 3"
| "future_weight Working = 2"
| "future_weight (Finished r) = 1"

definition futures_weight :: "(string, future) dict \<Rightarrow> nat" where
  "futures_weight futs = sum_list (map (\<lambda>(k, f). future_weight (fut_state f)) futs)"

fun steps_left :: "execution \<Rightarrow> nat" where
  "steps_left (Executing s) = 1 + 4 * length (dm_pending (sc_dag s)) + futures_weight (sc_futures s)"
| "steps_left (Returned outs) = 0"
| "steps_left (Raised e) = 0"

lemma future_weight_pos: "0 < future_weight st"
  by (cases st) simp_all

lemma futures_weight_update:
  "map_of futs k = Some f \<Longrightarrow>
     futures_weight (AList.update k g futs) + future_weight (fut_state f) = futures_weight futs + future_weight (fut_state g)"
  by (induction futs) (auto simp: futures_weight_def split: if_splits)

lemma futures_weight_filter:
  "futures_weight (filter P futs) \<le> futures_weight futs"
  by (induction futs) (auto simp: futures_weight_def)

lemma futures_weight_remove:
  "\<exists>kf\<in>set futs. \<not> P kf \<Longrightarrow> futures_weight (filter P futs) < futures_weight futs"
proof (induction futs)
  case (Cons kf futs)
  obtain k f where [simp]: "kf = (k, f)" by force
  have w: "futures_weight (filter P futs) \<le> futures_weight futs" by (rule futures_weight_filter)
  show ?case
  proof (cases "P kf")
    case True
    with Cons have "futures_weight (filter P futs) < futures_weight futs" by auto
    with True show ?thesis by (simp add: futures_weight_def)
  next
    case False
    with w future_weight_pos [of "fut_state f"] show ?thesis by (simp add: futures_weight_def)
  qed
qed simp

lemma futures_weight_submit:
  "distinct (map node_name ready) \<Longrightarrow> node_name ` set ready \<inter> fst ` set futs = {} \<Longrightarrow>
     futures_weight (submit_nodes live ready futs) = futures_weight futs + 3 * length ready"
proof (induction ready arbitrary: futs)
  case (Cons n ready)
  let ?f = "\<lparr>fut_node = n, fut_live = live, fut_state = Waiting\<rparr>"
  have new: "AList.update (node_name n) ?f futs = futs @ [(node_name n, ?f)]"
    using Cons.prems by (intro update_new_key) auto
  have "futures_weight (submit_nodes live ready (futs @ [(node_name n, ?f)])) =
      futures_weight (futs @ [(node_name n, ?f)]) + 3 * length ready"
    using Cons.prems by (intro Cons.IH) auto
  then show ?case by (simp add: submit_nodes_def new) (simp add: futures_weight_def)
qed (simp add: submit_nodes_def)

lemma keyed_values_distinct:
  assumes "keyed d"
  shows "distinct (map node_name (filter P (map snd d)))"
proof -
  have "map node_name (map snd d) = map fst d" using assms by (auto simp: keyed_def)
  then have "distinct (map node_name (map snd d))" using assms by (simp add: keyed_def del: map_map)
  then show ?thesis by (rule distinct_map_filter)
qed

lemma filter_values_length:
  "length (filter (\<lambda>(k, n). \<not> P n) d) + length (filter P (map snd d)) = length d"
  by (induction d) auto

lemma collect_turn_weight:
  assumes "sched_inv run ns D s" "wait_result (sc_futures s) ks" "ks \<noteq> []"
  shows "steps_left (collect_turn ks s) < steps_left (Executing s)"
proof (cases "collect_outputs (sc_futures s) ks")
  case (Inl e)
  then show ?thesis by (simp add: collect_turn_def)
next
  case (Inr outs)
  let ?m = "complete_nodes outs (sc_dag s)" and ?futs = "filter (\<lambda>(k, f). k \<notin> set ks) (sc_futures s)"
  obtain ready m' where pop: "pop_ready_nodes ?m = (ready, m')" by force
  have inv: "keyed (dm_pending (sc_dag s))" "fst ` set (dm_pending (sc_dag s)) \<inter> fst ` set (sc_futures s) = {}"
    using assms(1) by (simp_all add: sched_inv_def shared_out_def)
  from pop have eqs: "ready = fst (pop_ready_nodes ?m)" "m' = snd (pop_ready_nodes ?m)" by simp_all
  have ready: "ready = filter (is_node_ready (dm_completed ?m)) (map snd (dm_pending (sc_dag s)))" by (simp add: eqs)
  have pend: "dm_pending m' = filter (\<lambda>(k, n). \<not> is_node_ready (dm_completed ?m) n) (dm_pending (sc_dag s))"
    using pending_after_pop [of ?m] inv(1) by (simp add: eqs)
  have names: "node_name ` set ready \<subseteq> fst ` set (dm_pending (sc_dag s))"
    using inv(1) by (force simp: ready keyed_def)
  have fut: "futures_weight (submit_nodes True ready ?futs) = futures_weight ?futs + 3 * length ready"
  proof (rule futures_weight_submit)
    show "distinct (map node_name ready)" unfolding ready by (rule keyed_values_distinct [OF inv(1)])
    show "node_name ` set ready \<inter> fst ` set ?futs = {}" using names inv(2) by auto
  qed
  have "length (dm_pending m') + length ready = length (dm_pending (sc_dag s))"
    unfolding pend ready by (rule filter_values_length)
  moreover have "futures_weight ?futs < futures_weight (sc_futures s)"
  proof (rule futures_weight_remove)
    from assms(3) obtain k where k: "k \<in> set ks" by (cases ks) auto
    with assms(2) obtain f where "map_of (sc_futures s) k = Some f"
      by (auto simp: wait_result_def list_all_iff is_finished_def split: option.splits)
    with k show "\<exists>kf\<in>set (sc_futures s). \<not> (case kf of (k, f) \<Rightarrow> k \<notin> set ks)" by (force dest: map_of_SomeD)
  qed
  ultimately show ?thesis using Inr pop fut by (simp add: collect_turn_def fold_delete_keys)
qed

text \<open>A run that is not over has something to wait for.\<close>

lemma topo_all_completed:
  assumes "topo_ordered ns" "\<And>n. n \<in> set ns \<Longrightarrow> (\<forall>k\<in>set (dep_names n). k \<in> C \<union> S) \<Longrightarrow> node_name n \<in> C"
    and "\<And>n. n \<in> set ns \<Longrightarrow> set (dep_names n) \<subseteq> S \<union> node_name ` set ns"
  shows "node_name ` set ns \<subseteq> C"
  using assms
proof (induction ns arbitrary: S)
  case (Cons a ns)
  have "k \<in> S" if "k \<in> set (dep_names a)" for k
    using that Cons.prems(1) Cons.prems(3) [of a] by (auto simp: list_all_iff)
  then have a: "node_name a \<in> C" using Cons.prems(2) [of a] by auto
  have "node_name ` set ns \<subseteq> C"
  proof (rule Cons.IH [of "insert (node_name a) S"])
    show "topo_ordered ns" using Cons.prems(1) by simp
    show "node_name n \<in> C" if "n \<in> set ns" "\<forall>k\<in>set (dep_names n). k \<in> C \<union> insert (node_name a) S" for n
    proof (rule Cons.prems(2))
      show "n \<in> set (a # ns)" using that by simp
      show "\<forall>k\<in>set (dep_names n). k \<in> C \<union> S" using that(2) a by (metis UnE UnI1 UnI2 insertE)
    qed
    show "set (dep_names n) \<subseteq> insert (node_name a) S \<union> node_name ` set ns" if "n \<in> set ns" for n
      using that Cons.prems(3) [of n] by auto
  qed
  with a show ?case by simp
qed simp

lemma not_completed_waits:
  assumes "sched_inv run ns0 D s" "\<not> completed (sc_dag s)" "distinct (map node_name ns0)"
    and "topo_ordered ns" "set ns0 = set ns" "refs_closed ns"
  shows "sc_futures s \<noteq> []"
proof
  assume empty: "sc_futures s = []"
  let ?C = "fst ` set (dm_completed (sc_dag s))"
  have inv: "fst ` set (dm_pending (sc_dag s)) \<union> ?C = node_name ` set ns" "keyed (dm_pending (sc_dag s))"
    "snd ` set (dm_pending (sc_dag s)) \<subseteq> set ns"
    "\<forall>n\<in>snd ` set (dm_pending (sc_dag s)). \<not> is_node_ready (dm_completed (sc_dag s)) n"
    using assms(1,5) by (simp_all add: sched_inv_def shared_out_def empty)
  have inj: "inj_on node_name (set ns)" using assms(3,5) by (simp add: distinct_map)
  have "node_name ` set ns \<subseteq> ?C"
  proof (rule topo_all_completed [OF assms(4), where S = "{}"])
    fix n assume n: "n \<in> set ns"
    show "set (dep_names n) \<subseteq> {} \<union> node_name ` set ns"
      using assms(6) n by (auto simp: refs_closed_def list_all_iff)
    assume "\<forall>k\<in>set (dep_names n). k \<in> ?C \<union> {}"
    then have ready: "is_node_ready (dm_completed (sc_dag s)) n"
      using assms(6) n by (auto simp: ready_iff refs_closed_def list_all_iff)
    show "node_name n \<in> ?C"
    proof (rule ccontr)
      assume "node_name n \<notin> ?C"
      with n inv(1) have "node_name n \<in> fst ` set (dm_pending (sc_dag s))" by blast
      then obtain m where m: "(node_name n, m) \<in> set (dm_pending (sc_dag s))" by auto
      then have "node_name m = node_name n" "m \<in> set ns" using inv(2,3) by (auto simp: keyed_def)
      with inj n have "m = n" by (auto simp: inj_on_def)
      with m inv(4) ready show False by force
    qed
  qed
  with inv(1) have "?C = node_name ` set ns0" using assms(5) by auto
  with completed_iff [OF assms(1,3)] assms(2) show False by simp
qed

lemma wait_single: "is_finished futs k \<Longrightarrow> wait_result futs [k]"
  by (simp add: wait_result_def)

context node_runner
begin

lemma step_weight:
  assumes "sched_step run c e e'" "execution_inv run ns0 D e" "distinct (map node_name ns0)"
    and "topo_ordered ns" "set ns0 = set ns" "refs_closed ns"
  shows "steps_left e' < steps_left e"
  using assms(1)
proof cases
  case (begin_task s k f)
  then have f: "map_of (sc_futures s) k = Some f" "fut_state f = Waiting"
    using assms(2) by (auto simp: next_waiting_def find_Some_iff execution_inv_def sched_inv_def)
      (metis map_of_eq_Some_iff nth_mem)
  from futures_weight_update [OF f(1), of "f\<lparr>fut_state := Working\<rparr>"] f(2)
  show ?thesis unfolding begin_task(1,2) by simp
next
  case (end_task s k f)
  from futures_weight_update [OF end_task(3), of "f\<lparr>fut_state := Finished (run (fut_node f) (task_view (sc_dag s) f))\<rparr>"]
    end_task(4)
  show ?thesis unfolding end_task(1,2) by simp
next
  case (main_turn s ks)
  with assms(2) have inv: "sched_inv run ns0 D s" by (simp add: execution_inv_def)
  have "sc_futures s \<noteq> []"
    using not_completed_waits [OF inv main_turn(3) assms(3-6)] .
  with main_turn(4) have "ks \<noteq> []" by (auto simp: wait_result_def)
  from collect_turn_weight [OF inv main_turn(4) this] main_turn(1,2) show ?thesis by simp
next
  case (main_exit s)
  then show ?thesis by simp
qed

lemma progress:
  assumes "sched_inv run ns0 D s" "distinct (map node_name ns0)" "0 < c"
    and "topo_ordered ns" "set ns0 = set ns" "refs_closed ns"
  shows "\<exists>e. sched_step run c (Executing s) e"
proof (cases "completed (sc_dag s)")
  case True
  then show ?thesis by (blast intro: sched_step.main_exit)
next
  case False
  have dist: "distinct (map fst (sc_futures s))" using assms(1) by (simp add: sched_inv_def)
  obtain k f where kf: "(k, f) \<in> set (sc_futures s)"
    using not_completed_waits [OF assms(1) False assms(2,4-6)] by (cases "sc_futures s") auto
  show ?thesis
  proof (cases "\<exists>k f. (k, f) \<in> set (sc_futures s) \<and> fut_state f \<noteq> Waiting")
    case True
    then obtain k f where f: "map_of (sc_futures s) k = Some f" "fut_state f \<noteq> Waiting"
      using dist by (auto intro: map_of_is_SomeI)
    show ?thesis
    proof (cases "fut_state f")
      case Waiting
      with f show ?thesis by simp
    next
      case Working
      with f(1) show ?thesis by (blast intro: sched_step.end_task)
    next
      case (Finished r)
      with f(1) have "is_finished (sc_futures s) k" by (simp add: is_finished_def)
      with False show ?thesis by (blast intro: sched_step.main_turn wait_single)
    qed
  next
    case waiting: False
    then have "working (sc_futures s) = 0" by (auto simp: working_def filter_empty_conv)
    moreover obtain k f where "next_waiting (sc_futures s) = Some (k, f)"
      using waiting kf by (cases "next_waiting (sc_futures s)") (auto simp: next_waiting_def find_None_iff)
    moreover from \<open>working (sc_futures s) = 0\<close>
    have "int (working (sc_futures s)) < min c default_concurrency_flow"
      using assms(3) by (simp add: default_concurrency_flow_def)
    ultimately show ?thesis by (blast intro: sched_step.begin_task)
  qed
qed

lemma start_weight:
  assumes "distinct (map node_name ns0)"
  shows "steps_left (execute_start c ns0) \<le> 4 * length ns0 + 1"
proof -
  obtain ready m where pop: "pop_ready_nodes (dag_init ns0) = (ready, m)" by force
  then have eqs: "ready = fst (pop_ready_nodes (dag_init ns0))" "m = snd (pop_ready_nodes (dag_init ns0))" by simp_all
  have ready: "ready = filter (is_node_ready ([]::(string, pyval) dict)) ns0"
    using pending_init_distinct [OF assms] by (simp add: eqs comp_def) (simp add: dag_init_def)
  have "length (dm_pending m) + length ready = length ns0"
    using filter_values_length [of "is_node_ready ([]::(string, pyval) dict)" "dm_pending (dag_init ns0)"]
      pending_after_pop [OF keyed_init, of ns0] pending_init_distinct [OF assms]
    by (simp add: eqs ready comp_def) (simp add: dag_init_def eqs)
  moreover have "futures_weight (submit_nodes False ready []) = 3 * length ready"
    using futures_weight_submit [of ready "[]" False] distinct_map_filter [OF assms] by (simp add: ready futures_weight_def)
  ultimately show ?thesis using pop by (simp add: execute_start_def)
qed

lemma run_length:
  assumes "(sched_step run c ^^ k) (execute_start c ns0) e" "0 < c"
    and "topo_ordered ns" "set ns0 = set ns" "distinct (map node_name ns0)" "refs_closed ns"
  shows "k + steps_left e \<le> 4 * length ns0 + 1"
  using assms(1)
proof (induction k arbitrary: e)
  case 0
  then have "e = execute_start c ns0" by simp
  with start_weight [OF assms(5), of c] show ?case by simp
next
  case (Suc k)
  then obtain e1 where e1: "(sched_step run c ^^ k) (execute_start c ns0) e1" "sched_step run c e1 e" by auto
  have "sched_reach run c ns0 e1" using e1(1) by (rule relpowp_imp_rtranclp)
  from step_weight [OF e1(2) reach_inv [OF this assms(2-5)] assms(5,3,4,6)] Suc.IH [OF e1(1)]
  show ?case by simp
qed

end

section \<open>The tasks of the program\<close>

lemma parse_value_agree:
  assumes "ia_value_type i = NODE_REFERENCE \<Longrightarrow> lookup_name d (ia_value i) \<noteq> None"
    and "\<And>k. ia_value_type i = NODE_REFERENCE \<Longrightarrow> as_str (ia_value i) = Some k \<Longrightarrow> map_of d k = map_of d' k"
  shows "parse_value i d fins = parse_value i d' fins"
proof (cases "ia_value_type i = NODE_REFERENCE")
  case True
  with assms have "lookup_name d (ia_value i) = lookup_name d' (ia_value i)" "lookup_name d (ia_value i) \<noteq> None"
    by (simp_all add: lookup_name_def split: option.splits)
  with True show ?thesis by (auto simp: parse_value_def)
next
  case False
  then show ?thesis by (cases "ia_value_type i") (simp_all add: parse_value_def)
qed

lemma parse_dependency_agree:
  assumes "is_node_ready d n" "\<And>k. k \<in> set (dep_names n) \<Longrightarrow> map_of d k = map_of d' k" "i \<in> set (node_dependencies n)"
  shows "parse_value i d fins = parse_value i d' fins"
proof (rule parse_value_agree)
  show "lookup_name d (ia_value i) \<noteq> None" if "ia_value_type i = NODE_REFERENCE"
    using that assms(1,3) by (auto simp: is_node_ready_def list_all_iff)
  show "map_of d k = map_of d' k" if "ia_value_type i = NODE_REFERENCE" "as_str (ia_value i) = Some k" for k
    using that assms(2,3) in_dep_names by blast
qed

lemma exec_single_node_deps:
  assumes "is_node_ready d n" "\<And>k. k \<in> set (dep_names n) \<Longrightarrow> map_of d k = map_of d' k"
  shows "exec_single_node tools fins n d = exec_single_node tools fins n d'"
proof -
  have agree: "parse_value i d fins = parse_value i d' fins" if "i \<in> set (node_dependencies n)" for i
    by (rule parse_dependency_agree [OF assms that])
  have ins: "parse_inputs (node_inputs n) d fins = parse_inputs (node_inputs n) d' fins"
    unfolding parse_inputs_def
  proof (rule mapr_cong [OF refl], clarify)
    fix k i assume "(k, i) \<in> set (node_inputs n)"
    then have "i \<in> set (node_dependencies n)" by (force simp: node_dependencies_def)
    from agree [OF this] show "bindr (parse_value i d fins) (\<lambda>v. Inr (k, v)) = bindr (parse_value i d' fins) (\<lambda>v. Inr (k, v))"
      by metis
  qed
  show ?thesis
  proof (cases "node_skip n")
    case None
    with ins show ?thesis by (simp add: exec_single_node_def)
  next
    case (Some s)
    then have eqs: "parse_value (sk_condition s) d fins = parse_value (sk_condition s) d' fins"
      "parse_value (sk_return_value s) d fins = parse_value (sk_return_value s) d' fins"
      by (auto intro!: agree simp: node_dependencies_def)
    show ?thesis unfolding exec_single_node_def Some option.case ins eqs by (rule refl)
  qed
qed

interpretation tasks: node_runner "exec_single_node tools fins" for tools fins
  by unfold_locales (rule exec_single_node_deps)

section \<open>Workers\<close>

lemma working_update:
  "working (AList.update k g d) \<le> working d + (if fut_state g = Working then 1 else 0)"
  by (induction d) (auto simp: working_def)

lemma working_update_end:
  "map_of d k = Some f \<Longrightarrow> fut_state f = Working \<Longrightarrow> fut_state g \<noteq> Working \<Longrightarrow>
     working (AList.update k g d) < working d"
  by (induction d) (auto simp: working_def split: if_splits)

lemma working_submit: "working (submit_nodes live ns d) \<le> working d"
proof (induction ns arbitrary: d)
  case (Cons n ns)
  have "working (submit_nodes live (n # ns) d) \<le>
      working (AList.update (node_name n) \<lparr>fut_node = n, fut_live = live, fut_state = Waiting\<rparr> d)"
    using Cons.IH [of "AList.update (node_name n) \<lparr>fut_node = n, fut_live = live, fut_state = Waiting\<rparr> d"]
    by (simp add: submit_nodes_def)
  also have "\<dots> \<le> working d"
    using working_update [of "node_name n" "\<lparr>fut_node = n, fut_live = live, fut_state = Waiting\<rparr>" d] by simp
  finally show ?case .
qed (simp add: submit_nodes_def)

lemma working_filter: "working (filter P d) \<le> working d"
  by (induction d) (auto simp: working_def)

lemma workers_bounded:
  assumes "sched_reach run c ns e" "0 < c"
  shows "case e of Executing s \<Rightarrow> int (working (sc_futures s)) \<le> min c default_concurrency_flow | _ \<Rightarrow> True"
  using assms(1)
proof (induction rule: rtranclp_induct)
  case base
  have "working (submit_nodes False r []) = 0" for r using working_submit [of False r "[]"] by (simp add: working_def)
  then show ?case using assms(2)
    by (cases "pop_ready_nodes (dag_init ns)") (simp add: execute_start_def default_concurrency_flow_def)
next
  case (step y z)
  from step(2) show ?case
  proof cases
    case (begin_task s k f)
    then show ?thesis using working_update [of k "f\<lparr>fut_state := Working\<rparr>" "sc_futures s"] by simp
  next
    case (end_task s k f)
    with working_update_end [OF end_task(3,4), of "f\<lparr>fut_state := Finished (run (fut_node f) (task_view (sc_dag s) f))\<rparr>"] step.IH
    show ?thesis by simp
  next
    case (main_turn s ks)
    have "working (submit_nodes True r (fold AList.delete ks (sc_futures s))) \<le> working (sc_futures s)" for r
      using working_submit working_filter unfolding fold_delete_keys by (rule order.trans)
    moreover have "int (working (sc_futures s)) \<le> min c default_concurrency_flow"
      using step.IH main_turn(1) by simp
    ultimately have "int (working (submit_nodes True r (fold AList.delete ks (sc_futures s)))) \<le> min c default_concurrency_flow" for r
      by (meson of_nat_mono order.trans)
    then show ?thesis
      unfolding main_turn(2) collect_turn_def by (auto split: sum.split prod.split)
  next
    case (main_exit s)
    then show ?thesis by simp
  qed
qed

section \<open>Schedules\<close>

text \<open>A run given by the choices of the workers and of the waiting main thread.\<close>

datatype choice = Begin | End string | Turn "string list" | Exit

fun take_choice :: "(node \<Rightarrow> (string, pyval) dict \<Rightarrow> pyval res) \<Rightarrow> int \<Rightarrow> choice \<Rightarrow> execution \<Rightarrow> execution option" where
  "take_choice run c Begin (Executing s) =
    (case next_waiting (sc_futures s) of
       None \<Rightarrow> None
     | Some (k, f) \<Rightarrow>
         if int (working (sc_futures s)) < min c default_concurrency_flow
         then Some (Executing (s\<lparr>sc_futures := AList.update k (f\<lparr>fut_state := Working\<rparr>) (sc_futures s)\<rparr>)) else None)"
| "take_choice run c (End k) (Executing s) =
    (case map_of (sc_futures s) k of
       None \<Rightarrow> None
     | Some f \<Rightarrow>
         if fut_state f = Working
         then Some (Executing (s\<lparr>sc_futures := AList.update k
           (f\<lparr>fut_state := Finished (run (fut_node f) (task_view (sc_dag s) f))\<rparr>) (sc_futures s)\<rparr>)) else None)"
| "take_choice run c (Turn ks) (Executing s) =
    (if \<not> completed (sc_dag s) \<and> wait_result (sc_futures s) ks then Some (collect_turn ks s) else None)"
| "take_choice run c Exit (Executing s) =
    (if completed (sc_dag s) then Some (Returned (dm_completed (sc_dag s))) else None)"
| "take_choice run c a (Returned outs) = None"
| "take_choice run c a (Raised e) = None"

fun schedule :: "(node \<Rightarrow> (string, pyval) dict \<Rightarrow> pyval res) \<Rightarrow> int \<Rightarrow> choice list \<Rightarrow> execution \<Rightarrow> execution option" where
  "schedule run c [] e = Some e"
| "schedule run c (a # as) e = (case take_choice run c a e of None \<Rightarrow> None | Some e' \<Rightarrow> schedule run c as e')"

lemma take_choice_step: "take_choice run c a e = Some e' \<Longrightarrow> sched_step run c e e'"
  by (induction run c a e rule: take_choice.induct) (auto split: option.splits if_splits intro: sched_step.intros simp del: min_less_iff_conj)

lemma schedule_steps: "schedule run c as e = Some e' \<Longrightarrow> (sched_step run c ^^ length as) e e'"
proof (induction "as" arbitrary: e)
  case (Cons a as)
  then obtain e1 where "take_choice run c a e = Some e1" "schedule run c as e1 = Some e'" by (auto split: option.splits)
  with Cons.IH take_choice_step show ?case by (metis length_Cons relpowp_Suc_I2)
qed simp

lemma schedule_reach: "schedule run c as (execute_start c ns) = Some e \<Longrightarrow> sched_reach run c ns e"
  by (blast dest: schedule_steps relpowp_imp_rtranclp)

section \<open>A reference outside the scheduled nodes\<close>

lemma empty_turn:
  assumes "sched_inv run ns D s" "sc_futures s = []"
  shows "collect_turn [] s = Executing s"
proof -
  let ?m = "sc_dag s"
  from assms(1) have inv: "keyed (dm_pending ?m)" "\<forall>n\<in>snd ` set (dm_pending ?m). \<not> is_node_ready (dm_completed ?m) n"
    by (simp_all add: sched_inv_def)
  have "fst (pop_ready_nodes ?m) = []" using inv(2) by (simp add: filter_empty_conv)
  moreover have "dm_pending (snd (pop_ready_nodes ?m)) = dm_pending ?m"
    unfolding pending_after_pop [OF inv(1)] using inv(2) by (intro filter_True) auto
  ultimately have "pop_ready_nodes ?m = ([], ?m)" by (simp add: prod_eq_iff)
  moreover have "complete_nodes [] ?m = ?m" by (simp add: complete_nodes_def dict_updates_def)
  ultimately show ?thesis
    using assms(2) by (simp add: collect_turn_def collect_outputs_def submit_nodes_def)
qed

lemma empty_steps:
  assumes "sched_inv run ns D s" "sc_futures s = []" "\<not> completed (sc_dag s)"
  shows "sched_step run c (Executing s) e \<longleftrightarrow> e = Executing s"
proof
  assume "sched_step run c (Executing s) e"
  then show "e = Executing s"
  proof cases
    case (main_turn ks)
    then have "ks = []" using assms(2) by (cases ks) (auto simp: wait_result_def is_finished_def)
    with main_turn empty_turn [OF assms(1,2)] show ?thesis by simp
  qed (use assms in \<open>simp_all add: next_waiting_def\<close>)
next
  assume "e = Executing s"
  have "wait_result (sc_futures s) []" by (simp add: wait_result_def assms(2))
  from sched_step.main_turn [OF assms(3) this] empty_turn [OF assms(1,2)] \<open>e = Executing s\<close>
  show "sched_step run c (Executing s) e" by simp
qed

context node_runner
begin

lemma never_returns:
  assumes "sched_reach run c nodes (Returned outs)" "0 < c"
    and "topo_ordered ns" "set nodes = set ns" "distinct (map node_name nodes)"
    and "n \<in> set ns" "k \<in> set (dep_names n)" "k \<notin> node_name ` set ns"
  shows False
proof -
  from reach_inv [OF assms(1-5)] have "map_of outs \<subseteq>\<^sub>m map_of (avail ns [])" "fst ` set outs = node_name ` set ns"
    by (simp_all add: execution_inv_def assms(4))
  then have "node_name n \<in> fst ` set (avail ns [])"
    using assms(6) by (metis imageI in_mono map_le_implies_dom_le dom_map_of_conv_image_fst)
  moreover have "k \<notin> fst ` set (avail ns [])" using avail_extends [of ns "[]"] assms(8) by auto
  then have "\<not> is_node_ready (avail ns []) n" using assms(7) by (auto simp: ready_iff)
  ultimately show False using failing_not_available [OF assms(3,6)] by blast
qed

lemma run_ends:
  assumes "(sched_step run c ^^ k) (execute_start c nodes) e" "0 < c"
    and "topo_ordered ns" "set nodes = set ns" "distinct (map node_name nodes)" "refs_closed ns"
  shows "k \<le> 4 * length nodes + 1 \<and>
    ((\<exists>e'. sched_step run c e e') \<or> (\<exists>os. e = Returned os) \<or> (\<exists>x. e = Raised x))"
proof
  show "k \<le> 4 * length nodes + 1" using run_length [OF assms] by simp
  have "execution_inv run nodes (available_outputs run ns []) e"
    by (rule reach_inv [OF relpowp_imp_rtranclp [OF assms(1)] assms(2-5)])
  then show "(\<exists>e'. sched_step run c e e') \<or> (\<exists>os. e = Returned os) \<or> (\<exists>x. e = Raised x)"
    using progress [OF _ assms(5,2,3,4,6)] by (cases e) (auto simp: execution_inv_def)
qed

end

section \<open>Properties\<close>

text \<open>C2. Whatever the interleaving of the workers and the main thread, the outputs a run returns are
  those of evaluating the nodes one after another in any topological order.\<close>

theorem scheduler_returns_sequential:
  assumes "sched_reach (exec_single_node tools fins) c nodes (Returned outs)" "0 < c"
    and "topo_ordered ns" "set nodes = set ns" "distinct (map node_name nodes)" "refs_closed ns"
  shows "\<exists>os. run_in_order (exec_single_node tools fins) ns [] = Inr os \<and> map_of os = map_of outs"
  using tasks.returned_outputs [OF assms] .

definition demo_tools :: tools where
  "demo_tools k = (if k = ''fail'' then Some (\<lambda>kwargs. Inl (py_exn ValueError [PStr ''bad'']))
     else if k = ''lost'' then None else Some (\<lambda>kwargs. Inr (PList (dict_values kwargs))))"

definition demo_pair :: "node list" where
  "demo_pair = [demo_node ''b'' [(''x'', node_reference ''a'' ''output'' ''[0]'')],
     demo_node ''a'' [(''q'', flow_input ''q'' ''flow.'')]]"

definition demo_inputs :: "(string, pyval) dict" where
  "demo_inputs = [(''q'', PInt 7)]"

definition demo_outputs :: "(string, pyval) dict" where
  "demo_outputs = [(''a'', PList [PInt 7]), (''b'', PList [PInt 7])]"

lemma demo_pair_ok:
  "topo_ordered (rev demo_pair)" "set demo_pair = set (rev demo_pair)" "distinct (map node_name demo_pair)"
  "refs_closed (rev demo_pair)"
  by (code_simp, simp, code_simp, code_simp)

lemma demo_schedule:
  "schedule (exec_single_node demo_tools demo_inputs) 2
     [Begin, End ''a'', Turn [''a''], Begin, End ''b'', Turn [''b''], Exit] (execute_start 2 demo_pair)
   = Some (Returned demo_outputs)"
  by code_simp

theorem scheduler_returns_sequential_witness:
  "\<exists>os. run_in_order (exec_single_node demo_tools demo_inputs) (rev demo_pair) [] = Inr os \<and>
     map_of os = map_of demo_outputs"
  using scheduler_returns_sequential [OF schedule_reach [OF demo_schedule] _ demo_pair_ok] by simp

text \<open>C4. A run raises only if the sequential evaluation does, and it raises the error of a node whose
  dependencies are all available.\<close>

theorem scheduler_raises_sequential:
  assumes "sched_reach (exec_single_node tools fins) c nodes (Raised x)" "0 < c"
    and "topo_ordered ns" "set nodes = set ns" "distinct (map node_name nodes)" "refs_closed ns"
  shows "(\<exists>e. run_in_order (exec_single_node tools fins) ns [] = Inl e) \<and>
    (\<exists>n\<in>set ns. is_node_ready (available_outputs (exec_single_node tools fins) ns []) n \<and>
       exec_single_node tools fins n (available_outputs (exec_single_node tools fins) ns []) = Inl x)"
  using tasks.raised_error [OF assms] .

theorem scheduler_raises_sequential_witness:
  "\<exists>e. run_in_order (exec_single_node demo_tools []) [demo_node ''fail'' []] [] = Inl e"
proof -
  have run: "schedule (exec_single_node demo_tools []) 2 [Begin, End ''fail'', Turn [''fail'']]
      (execute_start 2 [demo_node ''fail'' []]) = Some (Raised (py_exn ValueError [PStr ''bad'']))" by code_simp
  have ok: "topo_ordered [demo_node ''fail'' []]" "distinct (map node_name [demo_node ''fail'' []])"
    "refs_closed [demo_node ''fail'' []]" by code_simp+
  from scheduler_raises_sequential [OF schedule_reach [OF run] _ ok(1) refl ok(2,3)] show ?thesis by simp
qed

text \<open>C3. When the references stay among the scheduled nodes, no run blocks or goes on for ever: after
  at most four steps a node and one more it has returned or raised, and until then a step exists.\<close>

theorem scheduler_ends:
  assumes "(sched_step (exec_single_node tools fins) c ^^ k) (execute_start c nodes) e" "0 < c"
    and "topo_ordered ns" "set nodes = set ns" "distinct (map node_name nodes)" "refs_closed ns"
  shows "k \<le> 4 * length nodes + 1 \<and>
    ((\<exists>e'. sched_step (exec_single_node tools fins) c e e') \<or> (\<exists>os. e = Returned os) \<or> (\<exists>x. e = Raised x))"
  by (rule tasks.run_ends [OF assms])

theorem scheduler_ends_witness:
  "(sched_step (exec_single_node demo_tools demo_inputs) 2 ^^ 7) (execute_start 2 demo_pair) (Returned demo_outputs) \<and>
     (7::nat) \<le> 4 * length demo_pair + 1"
proof -
  have seven: "length [Begin, End ''a'', Turn [''a''], Begin, End ''b'', Turn [''b''], Exit] = 7" by simp
  note steps = schedule_steps [OF demo_schedule, unfolded seven]
  have "(0::int) < 2" by simp
  from scheduler_ends [OF steps this demo_pair_ok] steps show ?thesis by blast
qed

text \<open>C5. At every moment of a run each node is in exactly one place (waiting for others, submitted, or
  done), so it is submitted once; it was submitted only after its dependencies were done; and no
  more than \<open>node_concurrency\<close> (at most 16) tasks run at a time.\<close>

theorem scheduler_invariant:
  assumes "sched_reach (exec_single_node tools fins) c nodes (Executing s)" "0 < c"
    and "topo_ordered ns" "set nodes = set ns" "distinct (map node_name nodes)"
  shows "shared_out nodes (fst ` set (dm_pending (sc_dag s))) (fst ` set (sc_futures s)) (fst ` set (dm_completed (sc_dag s))) \<and>
    (\<forall>(k, f)\<in>set (sc_futures s). set (dep_names (fut_node f)) \<subseteq> fst ` set (dm_completed (sc_dag s))) \<and>
    int (working (sc_futures s)) \<le> min c 16"
proof (intro conjI)
  from tasks.reach_inv [OF assms] have inv: "sched_inv (exec_single_node tools fins) nodes
      (available_outputs (exec_single_node tools fins) ns []) s" by (simp add: execution_inv_def)
  then show "shared_out nodes (fst ` set (dm_pending (sc_dag s))) (fst ` set (sc_futures s)) (fst ` set (dm_completed (sc_dag s)))"
    by (simp add: sched_inv_def)
  have "set (dep_names (fut_node f)) \<subseteq> fst ` set (dm_completed (sc_dag s))" if "(k, f) \<in> set (sc_futures s)" for k f
  proof -
    from inv that have "is_node_ready (task_view (sc_dag s) f) (fut_node f)" by (auto simp: sched_inv_def future_ok_def)
    then show ?thesis by (auto simp: task_view_def ready_iff split: if_splits)
  qed
  then show "\<forall>(k, f)\<in>set (sc_futures s). set (dep_names (fut_node f)) \<subseteq> fst ` set (dm_completed (sc_dag s))" by blast
  show "int (working (sc_futures s)) \<le> min c 16"
    using workers_bounded [OF assms(1,2)] by (simp add: default_concurrency_flow_def)
qed

theorem scheduler_invariant_witness:
  "\<exists>s. schedule (exec_single_node demo_tools demo_inputs) 2 [Begin] (execute_start 2 demo_pair) = Some (Executing s) \<and>
     shared_out demo_pair (fst ` set (dm_pending (sc_dag s))) (fst ` set (sc_futures s)) (fst ` set (dm_completed (sc_dag s)))"
proof -
  have "(case schedule (exec_single_node demo_tools demo_inputs) 2 [Begin] (execute_start 2 demo_pair) of
      Some (Executing s) \<Rightarrow> True | _ \<Rightarrow> False)" by code_simp
  then obtain s where s: "schedule (exec_single_node demo_tools demo_inputs) 2 [Begin] (execute_start 2 demo_pair) = Some (Executing s)"
    by (auto split: option.splits execution.splits)
  from scheduler_invariant [OF schedule_reach [OF s] _ demo_pair_ok(1-3)] s show ?thesis by auto
qed

text \<open>A node that refers to a name outside the scheduled nodes (a node of the flow that is an
  aggregation node, say) makes the scheduler spin: no run returns, and once no task is left the
  main loop turns for ever without a change, because waiting for no future returns at once.\<close>

theorem scheduler_foreign_reference:
  assumes "0 < c" "topo_ordered ns" "set nodes = set ns" "distinct (map node_name nodes)"
    and "n \<in> set ns" "k \<in> set (dep_names n)" "k \<notin> node_name ` set ns"
  shows "(\<forall>outs. \<not> sched_reach (exec_single_node tools fins) c nodes (Returned outs)) \<and>
    (\<forall>s. sched_reach (exec_single_node tools fins) c nodes (Executing s) \<and> sc_futures s = [] \<longrightarrow>
       (\<forall>e. sched_step (exec_single_node tools fins) c (Executing s) e \<longleftrightarrow> e = Executing s))"
proof (intro conjI allI impI)
  note never = tasks.never_returns [OF _ assms]
  then show "\<not> sched_reach (exec_single_node tools fins) c nodes (Returned outs)" for outs by blast
  fix s e
  assume "sched_reach (exec_single_node tools fins) c nodes (Executing s) \<and> sc_futures s = []"
  then have reach: "sched_reach (exec_single_node tools fins) c nodes (Executing s)" and empty: "sc_futures s = []"
    by simp_all
  from tasks.reach_inv [OF reach assms(1-4)] have inv: "sched_inv (exec_single_node tools fins) nodes
      (available_outputs (exec_single_node tools fins) ns []) s" by (simp add: execution_inv_def)
  have "\<not> completed (sc_dag s)" using never reach sched_step.main_exit by (meson rtranclp.rtrancl_into_rtrancl)
  from empty_steps [OF inv empty this]
  show "sched_step (exec_single_node tools fins) c (Executing s) e \<longleftrightarrow> e = Executing s" .
qed

theorem scheduler_foreign_reference_witness:
  "\<forall>outs. \<not> sched_reach (exec_single_node demo_tools []) 2
     [demo_node ''b'' [(''x'', node_reference ''agg'' ''output'' [])]] (Returned outs)"
proof -
  let ?n = "demo_node ''b'' [(''x'', node_reference ''agg'' ''output'' [])]"
  have ok: "topo_ordered [?n]" "distinct (map node_name [?n])" "''agg'' \<in> set (dep_names ?n)"
    "''agg'' \<notin> node_name ` set [?n]" by code_simp+
  from scheduler_foreign_reference [OF _ ok(1) refl ok(2) _ ok(3,4)] show ?thesis by simp
qed

end
