(* ===== verification/FlowValidator.thy ===== *)
theory FlowValidator imports SchedulerRuns begin

text \<open>
  \<^verbatim>\<open>executor/flow_validator.py\<close>: checking a flow before execution. The nodes are sorted so that
  each refers only to earlier ones, the inputs are converted to their declared types, and the
  outputs are checked; outputs that refer to aggregation nodes are dropped.
\<close>

section \<open>The order of the nodes\<close>

definition flow_error :: "executor_class \<Rightarrow> msg \<Rightarrow> 'a res" where
  "flow_error c m = Inl (invalid_flow_request c m)"

definition flow_text :: "flow \<Rightarrow> msg" where
  "flow_text f = [PStr [CHR 0x27], flow_name f, PStr [CHR 0x27]]"

definition add_dependency ::
  "flow \<Rightarrow> node \<Rightarrow> input_assignment \<Rightarrow> (string, string list) dict \<Rightarrow> (string, string list) dict res" where
  "add_dependency f n i deps =
    (if ia_value_type i \<noteq> NODE_REFERENCE then Inr deps
     else (case lookup_name deps (ia_value i) of
         None \<Rightarrow> flow_error NodeReferenceNotFound
           ([PStr (''Node '' @ squote (node_name n)), PStr '' references node '', PStr [CHR 0x27], ia_value i,
             PStr [CHR 0x27], PStr '' which is not in the flow ''] @ flow_text f @ [PStr ''.''])
       | Some (k, _) \<Rightarrow> Inr (AList.update (node_name n) (dict_get deps (node_name n) [] @ [k]) deps)))"

definition collect_dependencies :: "flow \<Rightarrow> (string, string list) dict res" where
  "collect_dependencies f =
     foldr_res (\<lambda>n. foldr_res (add_dependency f n) (node_dependencies n)) (flow_nodes f)
       (dict_of (map (\<lambda>n. (node_name n, [])) (flow_nodes f)))"

text \<open>One turn picks the first node, in the order of the flow, whose dependencies are all picked.\<close>

definition available :: "(string, string list) dict \<Rightarrow> string list \<Rightarrow> node \<Rightarrow> bool" where
  "available deps picked n = (node_name n \<notin> set picked \<and> list_all (\<lambda>d. d \<in> set picked) (dict_get deps (node_name n) []))"

fun pick_nodes :: "flow \<Rightarrow> (string, string list) dict \<Rightarrow> nat \<Rightarrow> node list \<Rightarrow> node list res" where
  "pick_nodes f deps 0 sorted_nodes = Inr sorted_nodes"
| "pick_nodes f deps (Suc k) sorted_nodes =
    (case find (available deps (map node_name sorted_nodes)) (flow_nodes f) of
       None \<Rightarrow> flow_error NodeCircularDependency
         ([PStr ''There is a circular dependency in the flow ''] @ flow_text f @ [PStr ''.''])
     | Some n \<Rightarrow> pick_nodes f deps k (sorted_nodes @ [n]))"

definition ensure_nodes_order :: "flow \<Rightarrow> flow res" where
  "ensure_nodes_order f =
    bindr (collect_dependencies f) (\<lambda>deps.
    bindr (pick_nodes f deps (length (flow_nodes f)) []) (\<lambda>sorted_nodes.
      Inr (if list_ex (\<lambda>(n1, n2). node_name n1 \<noteq> node_name n2) (zip (flow_nodes f) sorted_nodes)
           then f\<lparr>flow_nodes := sorted_nodes, flow_node_variants := []\<rparr> else f)))"

fun check_duplicates :: "flow \<Rightarrow> node list \<Rightarrow> string list \<Rightarrow> unit res" where
  "check_duplicates f [] names = Inr ()"
| "check_duplicates f (n # ns) names =
    (if node_name n \<in> set names
     then flow_error DuplicateNodeName
       ([PStr (''Node name '' @ squote (node_name n) @ '' is duplicated in the flow '')] @ flow_text f @ [PStr ''.''])
     else check_duplicates f ns (node_name n # names))"

definition check_flow_input :: "flow \<Rightarrow> node \<Rightarrow> input_assignment \<Rightarrow> unit \<Rightarrow> unit res" where
  "check_flow_input f n i u =
    (if ia_value_type i = FLOW_INPUT \<and> lookup_name (flow_inputs f) (ia_value i) = None
     then flow_error InputReferenceNotFound
       [PStr (''Node '' @ squote (node_name n) @ '' references flow input ''), PStr [CHR 0x27], ia_value i,
        PStr [CHR 0x27], PStr '' which is not in the flow.'']
     else Inr ())"

definition validate_nodes_topology :: "flow \<Rightarrow> flow res" where
  "validate_nodes_topology f =
    bindr (check_duplicates f (flow_nodes f) []) (\<lambda>_.
    bindr (foldr_res (\<lambda>n. foldr_res (check_flow_input f n) (dict_values (node_inputs n))) (flow_nodes f) ()) (\<lambda>_.
      ensure_nodes_order f))"

section \<open>Inputs and outputs\<close>

definition resolve_flow_inputs_type ::
  "pyenv \<Rightarrow> flow \<Rightarrow> (string, pyval) dict \<Rightarrow> pyval \<Rightarrow> (string, pyval) dict res" where
  "resolve_flow_inputs_type env f inputs idx =
     foldr_res (\<lambda>(k, v) updated.
       (case map_of inputs k of
          None \<Rightarrow> Inr updated
        | Some x \<Rightarrow>
           (case parse env (fi_type v) x of
              Inr y \<Rightarrow> Inr (AList.update k y updated)
            | Inl e \<Rightarrow> Inl (raise_from (invalid_flow_request InputTypeError
                ([PStr (''Input '' @ squote k @ '' in line ''), idx, PStr '' for flow ''] @ flow_text f @
                 [PStr '' of value '', x, PStr '' is not type '', PStr (value_type_value (fi_type v)), PStr ''.''])) e))))
       (flow_inputs f) inputs"

definition ensure_flow_inputs_type ::
  "pyenv \<Rightarrow> flow \<Rightarrow> (string, pyval) dict \<Rightarrow> pyval \<Rightarrow> (string, pyval) dict res" where
  "ensure_flow_inputs_type env f inputs idx =
    (case find (\<lambda>(k, v). \<not> dict_has k inputs) (flow_inputs f) of
       Some (k, v) \<Rightarrow> flow_error InputNotFound
         ([PStr (''Input '' @ squote k)] @ (if idx = PNone then [] else [PStr '' in line '', idx]) @
          [PStr '' is not provided for flow.''])
     | None \<Rightarrow> resolve_flow_inputs_type env f inputs idx)"

fun convert_node_input ::
  "pyenv \<Rightarrow> flow \<Rightarrow> node \<Rightarrow> (string, pyval) dict \<Rightarrow> string \<times> input_assignment \<Rightarrow> (string, pyval) dict \<Rightarrow>
     (string, pyval) dict res" where
  "convert_node_input env f n inputs (k, v) updated =
    (if ia_value_type v \<noteq> FLOW_INPUT then Inr updated
     else (case lookup_name (flow_inputs f) (ia_value v) of
         None \<Rightarrow> flow_error InputNotFound
           [PStr (''Node input '' @ k @ '' is not found in flow input '' @ squote (keys_text (flow_inputs f)) @ '' for node'')]
       | Some (name, d) \<Rightarrow>
          (case map_of inputs name of
             None \<Rightarrow> flow_error InputNotFound
               [PStr (''Node input '' @ k @ '' is not found in input data with keys of '' @ squote (keys_text inputs) @ '' for node'')]
           | Some x \<Rightarrow>
              (case parse env (fi_type d) x of
                 Inr y \<Rightarrow> Inr (AList.update name y updated)
               | Inl e \<Rightarrow> Inl (raise_from (invalid_flow_request InputTypeError
                   [PStr (''Input '' @ squote k @ '' for node '' @ squote (node_name n) @ '' of value ''), PStr [CHR 0x27], x,
                    PStr [CHR 0x27], PStr ('' is not type '' @ squote (value_type_value (fi_type d)) @ ''.'')]) e)))))"

definition convert_flow_inputs_for_node ::
  "pyenv \<Rightarrow> flow \<Rightarrow> node \<Rightarrow> (string, pyval) dict \<Rightarrow> (string, pyval) dict res" where
  "convert_flow_inputs_for_node env f n inputs = foldr_res (convert_node_input env f n inputs) (node_inputs n) []"

text \<open>An output is kept, dropped (\<open>None\<close>) or refused.\<close>

definition check_output :: "flow \<Rightarrow> string \<times> flow_output_definition \<Rightarrow> (string \<times> flow_output_definition) option res" where
  "check_output f kv =
    (let k = fst kv; r = fo_reference (snd kv);
         refers = (\<lambda>what tail. [PStr (''Output '' @ squote k @ '' references '' @ what), PStr [CHR 0x27], ia_value r,
           PStr [CHR 0x27], PStr '' which is not in the flow''] @ tail) in
     case ia_value_type r of
       LITERAL \<Rightarrow> if py_eq (ia_value r) (PStr [])
         then flow_error EmptyOutputError [PStr (''Output '' @ squote k @ '' is empty.'')] else Inr (Some kv)
     | FLOW_INPUT \<Rightarrow> if lookup_name (flow_inputs f) (ia_value r) = None
         then flow_error OutputReferenceNotFound (refers ''flow input '' [PStr ''.'']) else Inr (Some kv)
     | NODE_REFERENCE \<Rightarrow>
         (case as_str (ia_value r) of
            None \<Rightarrow> flow_error OutputReferenceNotFound (refers ''node '' ([PStr '' ''] @ flow_text f @ [PStr ''.'']))
          | Some name \<Rightarrow>
             (case get_node f name of
                None \<Rightarrow> flow_error OutputReferenceNotFound (refers ''node '' ([PStr '' ''] @ flow_text f @ [PStr ''.'']))
              | Some n \<Rightarrow> Inr (if node_aggregation n then None else Some kv))))"

definition ensure_outputs_valid :: "flow \<Rightarrow> (string, flow_output_definition) dict res" where
  "ensure_outputs_valid f =
     bindr (mapr (check_output f) (flow_outputs f)) (\<lambda>kvs. Inr (concat (map option_list kvs)))"

section \<open>The collected dependencies\<close>

definition refs_known :: "string set \<Rightarrow> node \<Rightarrow> bool" where
  "refs_known K n \<longleftrightarrow> refs_named n \<and> set (dep_names n) \<subseteq> K"

lemma add_dependency_get:
  assumes "add_dependency f n i deps = Inr deps'" "node_name n \<in> fst ` set deps"
  shows "fst ` set deps' = fst ` set deps \<and>
     (\<forall>m. dict_get deps' m [] = dict_get deps m [] @ (if m = node_name n then assignment_ref i else []))"
proof (cases "ia_value_type i = NODE_REFERENCE")
  case False
  with assms show ?thesis by (simp add: assignment_ref_def add_dependency_def)
next
  case True
  with assms(1) obtain k where k: "as_str (ia_value i) = Some k"
    "deps' = AList.update (node_name n) (dict_get deps (node_name n) [] @ [k]) deps"
    by (auto simp: add_dependency_def flow_error_def lookup_name_def split: option.splits)
  have "fst ` set deps' = fst ` set deps" using assms(2) by (simp add: k(2) dict_simps insert_absorb)
  with True k show ?thesis by (simp add: dict_get_def assignment_ref_def)
qed

lemma inner_dependencies:
  assumes "node_name n \<in> fst ` set deps"
  shows "case foldr_res (add_dependency f n) ias deps of
      Inr deps' \<Rightarrow> fst ` set deps' = fst ` set deps \<and>
        (\<forall>i\<in>set ias. ia_value_type i = NODE_REFERENCE \<longrightarrow> lookup_name deps (ia_value i) \<noteq> None) \<and>
        (\<forall>m. dict_get deps' m [] = dict_get deps m [] @ (if m = node_name n then concat (map assignment_ref ias) else []))
    | Inl e \<Rightarrow> \<exists>i\<in>set ias. ia_value_type i = NODE_REFERENCE \<and> lookup_name deps (ia_value i) = None"
  using assms
proof (induction ias arbitrary: deps)
  case (Cons i ias)
  have same: "lookup_name d v = None \<longleftrightarrow> lookup_name deps v = None" if "fst ` set d = fst ` set deps" for d :: "(string, string list) dict" and v
    using lookup_name_some_iff [of d v] lookup_name_some_iff [of deps v] that by metis
  show ?case
  proof (cases "add_dependency f n i deps")
    case (Inl e)
    then show ?thesis by (auto simp: add_dependency_def split: if_splits option.splits)
  next
    case (Inr d)
    from add_dependency_get [OF Inr Cons.prems] have
      keys: "fst ` set d = fst ` set deps" and
      get: "\<forall>m. dict_get d m [] = dict_get deps m [] @ (if m = node_name n then assignment_ref i else [])" by auto
    have i: "ia_value_type i = NODE_REFERENCE \<longrightarrow> lookup_name deps (ia_value i) \<noteq> None"
      using Inr by (auto simp: add_dependency_def flow_error_def split: if_splits option.splits)
    have "node_name n \<in> fst ` set d" using Cons.prems keys by simp
    from Cons.IH [OF this] show ?thesis using Inr i keys get same [OF keys] by (auto split: sum.splits)
  qed
qed simp

lemma refs_known_iff:
  "refs_known (fst ` set d) n \<longleftrightarrow>
     (\<forall>i\<in>set (node_dependencies n). ia_value_type i = NODE_REFERENCE \<longrightarrow> lookup_name d (ia_value i) \<noteq> None)"
  unfolding refs_known_def ready_iff [symmetric] by (simp add: is_node_ready_def list_all_iff)

lemma outer_dependencies:
  assumes "node_name ` set ns \<subseteq> fst ` set deps"
  shows "case foldr_res (\<lambda>n. foldr_res (add_dependency f n) (node_dependencies n)) ns deps of
      Inr deps' \<Rightarrow> (\<forall>n\<in>set ns. refs_known (fst ` set deps) n) \<and>
        (\<forall>m. dict_get deps' m [] = dict_get deps m [] @ concat (map dep_names (filter (\<lambda>n. node_name n = m) ns)))
    | Inl e \<Rightarrow> \<exists>n\<in>set ns. \<not> refs_known (fst ` set deps) n"
  using assms
proof (induction ns arbitrary: deps)
  case (Cons n ns)
  have n: "node_name n \<in> fst ` set deps" using Cons.prems by simp
  note inner = inner_dependencies [OF n, where f = f and ias = "node_dependencies n"]
  show ?case
  proof (cases "foldr_res (add_dependency f n) (node_dependencies n) deps")
    case (Inl e)
    with inner show ?thesis by (auto simp: refs_known_iff)
  next
    case (Inr d)
    with inner have d: "fst ` set d = fst ` set deps" "refs_known (fst ` set deps) n"
      "\<forall>m. dict_get d m [] = dict_get deps m [] @ (if m = node_name n then dep_names n else [])"
      by (auto simp: refs_known_iff dep_names_def)
    have "node_name ` set ns \<subseteq> fst ` set d" using Cons.prems d(1) by simp
    from Cons.IH [OF this] show ?thesis using Inr d by (auto split: sum.splits)
  qed
qed simp

lemma filter_single_name:
  "distinct (map node_name ns) \<Longrightarrow> n \<in> set ns \<Longrightarrow> filter (\<lambda>m. node_name m = node_name n) ns = [n]"
proof (induction ns)
  case (Cons a ns)
  have tail: "filter (\<lambda>m. node_name m = node_name a) ns = []" using Cons.prems(1)
    by (auto simp: filter_empty_conv intro: rev_image_eqI dest: sym)
  show ?case
  proof (cases "n = a")
    case True
    with tail show ?thesis by simp
  next
    case False
    with Cons.prems have "n \<in> set ns" "node_name a \<noteq> node_name n" by auto
    with Cons show ?thesis by simp
  qed
qed simp

lemma collect_dependencies_cases:
  assumes "distinct (map node_name (flow_nodes f))"
  shows "case collect_dependencies f of
      Inr deps \<Rightarrow> (\<forall>n\<in>set (flow_nodes f). refs_known (node_name ` set (flow_nodes f)) n \<and>
        dict_get deps (node_name n) [] = dep_names n)
    | Inl e \<Rightarrow> \<exists>n\<in>set (flow_nodes f). \<not> refs_known (node_name ` set (flow_nodes f)) n"
proof -
  let ?d = "map (\<lambda>n. (node_name n, []::string list)) (flow_nodes f)"
  have d: "dict_of ?d = ?d" using assms by (simp add: dict_of_distinct comp_def)
  have keys: "fst ` set ?d = node_name ` set (flow_nodes f)" by (simp add: image_image)
  have nil: "dict_get ?d m [] = []" for m
    by (simp add: dict_get_def split: option.split) (auto dest: map_of_SomeD)
  note single = filter_single_name [OF assms]
  from outer_dependencies [of "flow_nodes f" ?d f] show ?thesis
    unfolding collect_dependencies_def d keys by (auto simp: nil single split: sum.splits)
qed

section \<open>Picking\<close>

definition grounded :: "node list \<Rightarrow> bool" where
  "grounded ns \<longleftrightarrow> (\<forall>n\<in>set ns. set (dep_names n) \<subseteq> node_name ` set ns)"

lemma topo_ordered_snoc:
  assumes "topo_ordered ns" "grounded ns" "node_name n \<notin> node_name ` set ns" "set (dep_names n) \<subseteq> node_name ` set ns"
  shows "topo_ordered (ns @ [n]) \<and> grounded (ns @ [n])"
proof
  have "topo_ordered (ns @ [n])"
    if "topo_ordered ns" "node_name n \<notin> node_name ` set ns" "node_name n \<notin> set (dep_names n)"
      "\<forall>m\<in>set ns. node_name n \<notin> set (dep_names m)" for ns
    using that by (induction ns) (auto simp: list_all_iff)
  then show "topo_ordered (ns @ [n])" using assms by (auto simp: grounded_def)
  show "grounded (ns @ [n])" using assms by (auto simp: grounded_def)
qed

lemma pick_nodes_sound:
  assumes "pick_nodes f deps k ns = Inr ms" "topo_ordered ns" "grounded ns" "set ns \<subseteq> set (flow_nodes f)"
    and "\<And>n. n \<in> set (flow_nodes f) \<Longrightarrow> dict_get deps (node_name n) [] = dep_names n"
  shows "topo_ordered ms \<and> grounded ms \<and> set ms \<subseteq> set (flow_nodes f) \<and> length ms = length ns + k"
  using assms
proof (induction k arbitrary: ns)
  case (Suc k)
  from Suc.prems(1) obtain n where
    n: "find (available deps (map node_name ns)) (flow_nodes f) = Some n" "pick_nodes f deps k (ns @ [n]) = Inr ms"
    by (auto simp: flow_error_def split: option.splits)
  then have "n \<in> set (flow_nodes f)" "available deps (map node_name ns) n" by (auto simp: find_Some_iff)
  with Suc.prems have "node_name n \<notin> node_name ` set ns" "set (dep_names n) \<subseteq> node_name ` set ns"
    by (auto simp: available_def list_all_iff)
  from topo_ordered_snoc [OF Suc.prems(2,3) this] Suc.IH [OF n(2)] Suc.prems(4,5) \<open>n \<in> set (flow_nodes f)\<close>
  show ?case by auto
qed simp

lemma pick_nodes_complete:
  assumes "topo_ordered os" "set os = set (flow_nodes f)" "distinct (map node_name (flow_nodes f))"
    and "\<And>n. n \<in> set (flow_nodes f) \<Longrightarrow> dict_get deps (node_name n) [] = dep_names n \<and>
      set (dep_names n) \<subseteq> node_name ` set (flow_nodes f)"
    and "distinct (map node_name ns)" "set ns \<subseteq> set (flow_nodes f)" "length ns + k \<le> length (flow_nodes f)"
  shows "\<exists>ms. pick_nodes f deps k ns = Inr ms"
  using assms(5-7)
proof (induction k arbitrary: ns)
  case (Suc k)
  let ?C = "node_name ` set ns"
  have "\<exists>n\<in>set (flow_nodes f). available deps (map node_name ns) n"
  proof (rule ccontr)
    assume none: "\<not> (\<exists>n\<in>set (flow_nodes f). available deps (map node_name ns) n)"
    have "node_name ` set os \<subseteq> ?C"
      using none assms(2,4) by (intro topo_all_completed [OF assms(1), where S = "{}"]) (auto simp: available_def list_all_iff)
    then have "card (node_name ` set (flow_nodes f)) \<le> card ?C" using assms(2) by (simp add: card_mono)
    moreover have "card ?C = length ns" using Suc.prems(1) by (metis distinct_card length_map list.set_map)
    moreover have "card (node_name ` set (flow_nodes f)) = length (flow_nodes f)"
      using assms(3) by (metis distinct_card length_map list.set_map)
    ultimately show False using Suc.prems(3) by simp
  qed
  then obtain n where n: "find (available deps (map node_name ns)) (flow_nodes f) = Some n"
    by (metis find_None_iff not_None_eq)
  then have "n \<in> set (flow_nodes f)" "node_name n \<notin> ?C" by (auto simp: find_Some_iff available_def)
  with Suc.IH [of "ns @ [n]"] Suc.prems n show ?case by auto
qed simp

lemma check_duplicates_iff:
  "check_duplicates f ns names = Inr () \<longleftrightarrow> distinct (map node_name ns) \<and> node_name ` set ns \<inter> set names = {}"
  by (induction ns arbitrary: names) (auto simp: flow_error_def)

lemma foldr_res_unit:
  "foldr_res g xs () = Inr () \<longleftrightarrow> (\<forall>x\<in>set xs. g x () = Inr ())"
  by (induction xs) (auto simp: res_simps)

text \<open>The flow inputs that the inputs of a node name are declared; those of its skip condition are not among them.\<close>

definition flow_inputs_known :: "flow \<Rightarrow> node \<Rightarrow> bool" where
  "flow_inputs_known f n = list_all (\<lambda>i. ia_value_type i = FLOW_INPUT \<longrightarrow> lookup_name (flow_inputs f) (ia_value i) \<noteq> None)
     (dict_values (node_inputs n))"

lemma check_flow_inputs_iff:
  "foldr_res (\<lambda>n. foldr_res (check_flow_input f n) (dict_values (node_inputs n))) ns () = Inr () \<longleftrightarrow>
     list_all (flow_inputs_known f) ns"
  by (auto simp: foldr_res_unit list_all_iff flow_inputs_known_def check_flow_input_def flow_error_def)

lemma topo_ordered_distinct: "topo_ordered ns \<Longrightarrow> distinct (map node_name ns)"
  by (induction ns) auto

lemma refs_known_all: "(\<forall>n\<in>set ns. refs_known (node_name ` set ns) n) \<longleftrightarrow> refs_closed ns"
  by (auto simp: refs_closed_def refs_known_def list_all_iff)

text \<open>The comparison of names that decides whether the flow is copied as it is.\<close>

lemma same_names_same_nodes:
  assumes "distinct (map node_name ns)" "set ms = set ns" "length ms = length ns"
    and "\<not> list_ex (\<lambda>(n1, n2). node_name n1 \<noteq> node_name n2) (zip ns ms)"
  shows "ns = ms"
proof (rule nth_equalityI [OF assms(3) [symmetric]])
  fix i assume i: "i < length ns"
  with assms(3) have "(ns ! i, ms ! i) \<in> set (zip ns ms)" by (auto simp: set_zip)
  with assms(4) have "node_name (ns ! i) = node_name (ms ! i)" by (auto simp: list_ex_iff)
  moreover have "ns ! i \<in> set ns" "ms ! i \<in> set ns" using i assms(2,3) by (metis nth_mem)+
  ultimately show "ns ! i = ms ! i" using assms(1) by (auto simp: distinct_map inj_on_def)
qed

lemma ensure_nodes_order_sound:
  assumes "distinct (map node_name (flow_nodes f))" "ensure_nodes_order f = Inr g"
  shows "topo_ordered (flow_nodes g) \<and> set (flow_nodes g) = set (flow_nodes f) \<and>
      flow_inputs g = flow_inputs f \<and> flow_outputs g = flow_outputs f \<and> refs_closed (flow_nodes f)"
proof -
  from assms(2) obtain deps ms where deps: "collect_dependencies f = Inr deps"
    and ms: "pick_nodes f deps (length (flow_nodes f)) [] = Inr ms"
    and g: "g = (if list_ex (\<lambda>(n1, n2). node_name n1 \<noteq> node_name n2) (zip (flow_nodes f) ms)
         then f\<lparr>flow_nodes := ms, flow_node_variants := []\<rparr> else f)"
    by (auto simp: ensure_nodes_order_def res_simps)
  from collect_dependencies_cases [OF assms(1)] deps have
    dg: "\<forall>n\<in>set (flow_nodes f). refs_known (node_name ` set (flow_nodes f)) n \<and> dict_get deps (node_name n) [] = dep_names n"
    by simp
  from pick_nodes_sound [OF ms] dg have
    ms_ok: "topo_ordered ms" "set ms \<subseteq> set (flow_nodes f)" "length ms = length (flow_nodes f)"
    by (auto simp: grounded_def)
  have "distinct ms" "distinct (flow_nodes f)" using topo_ordered_distinct [OF ms_ok(1)] assms(1) by (auto simp: distinct_map)
  then have seteq: "set ms = set (flow_nodes f)" using ms_ok(2,3) by (metis List.finite_set card_subset_eq distinct_card)
  have "flow_nodes g = ms" using same_names_same_nodes [OF assms(1) seteq ms_ok(3)] by (auto simp: g)
  moreover have "flow_inputs g = flow_inputs f" "flow_outputs g = flow_outputs f" by (simp_all add: g)
  ultimately show ?thesis using ms_ok(1) seteq dg refs_known_all by blast
qed

lemma ensure_nodes_order_complete:
  assumes "distinct (map node_name (flow_nodes f))" "refs_closed (flow_nodes f)"
    and "set os = set (flow_nodes f)" "topo_ordered os"
  shows "\<exists>g. ensure_nodes_order f = Inr g"
proof -
  from assms(2) have "\<forall>n\<in>set (flow_nodes f). refs_known (node_name ` set (flow_nodes f)) n"
    unfolding refs_known_all [symmetric] .
  with collect_dependencies_cases [OF assms(1)] obtain deps where deps: "collect_dependencies f = Inr deps"
    "\<forall>n\<in>set (flow_nodes f). refs_known (node_name ` set (flow_nodes f)) n \<and> dict_get deps (node_name n) [] = dep_names n"
    by (auto split: sum.splits)
  then have "\<exists>ms. pick_nodes f deps (length (flow_nodes f)) [] = Inr ms"
    using assms by (intro pick_nodes_complete [OF assms(4,3,1)]) (auto simp: refs_known_def)
  with deps(1) show "\<exists>g. ensure_nodes_order f = Inr g" by (auto simp: ensure_nodes_order_def)
qed

section \<open>Properties\<close>

lemma refs_closed_cong: "set ns = set ms \<Longrightarrow> refs_closed ns = refs_closed ms"
  by (simp add: refs_closed_def list_all_iff)

lemma validate_nodes_topology_Inr:
  "validate_nodes_topology f = Inr g \<longleftrightarrow> distinct (map node_name (flow_nodes f)) \<and>
     list_all (flow_inputs_known f) (flow_nodes f) \<and> ensure_nodes_order f = Inr g"
  by (simp add: validate_nodes_topology_def res_simps check_duplicates_iff check_flow_inputs_iff)

text \<open>A validated flow has the nodes of the given one, with distinct names, sorted so that each
  refers only to earlier ones; every reference is to a node of the flow or to a declared input.\<close>

theorem validate_nodes_topology_sound:
  assumes "validate_nodes_topology f = Inr g"
  shows "set (flow_nodes g) = set (flow_nodes f) \<and> distinct (map node_name (flow_nodes g)) \<and>
    topo_ordered (flow_nodes g) \<and> refs_closed (flow_nodes g) \<and> list_all (flow_inputs_known f) (flow_nodes g) \<and>
    flow_inputs g = flow_inputs f \<and> flow_outputs g = flow_outputs f"
proof -
  from assms have v: "distinct (map node_name (flow_nodes f))" "list_all (flow_inputs_known f) (flow_nodes f)"
    "ensure_nodes_order f = Inr g" by (simp_all add: validate_nodes_topology_Inr)
  from ensure_nodes_order_sound [OF v(1,3)] have s: "topo_ordered (flow_nodes g)" "set (flow_nodes g) = set (flow_nodes f)"
    "flow_inputs g = flow_inputs f" "flow_outputs g = flow_outputs f" "refs_closed (flow_nodes f)" by simp_all
  have "refs_closed (flow_nodes g)" using refs_closed_cong [OF s(2)] s(5) by simp
  moreover have "list_all (flow_inputs_known f) (flow_nodes g)" using v(2) by (simp add: list_all_iff s(2))
  ultimately show ?thesis using s topo_ordered_distinct [OF s(1)] by simp
qed

definition demo_flow_pair :: flow where
  "demo_flow_pair = (demo_flow demo_pair)\<lparr>flow_inputs := [(''q'', \<lparr>fi_type = INT', fi_default = PNone,
     fi_description = PStr [], fi_enum = PList [], fi_is_chat_input = False\<rparr>)]\<rparr>"

theorem validate_nodes_topology_sound_witness:
  "\<exists>g. validate_nodes_topology demo_flow_pair = Inr g \<and> topo_ordered (flow_nodes g)"
proof -
  have v: "validate_nodes_topology demo_flow_pair =
      Inr (demo_flow_pair\<lparr>flow_nodes := rev demo_pair, flow_node_variants := []\<rparr>)" by code_simp
  from validate_nodes_topology_sound [OF v] v show ?thesis by blast
qed

text \<open>Only the inputs of a node are searched for flow inputs, not its skip condition: the search gives the same answer
  whatever condition the node has.\<close>

lemma flow_inputs_known_skip: "flow_inputs_known f (n\<lparr>node_skip := s\<rparr>) = flow_inputs_known f n"
  by (simp add: flow_inputs_known_def)

definition demo_skip_flow :: flow where
  "demo_skip_flow = demo_flow [(demo_node ''a'' [])\<lparr>node_skip := Some \<lparr>sk_condition = flow_input ''missing'' ''flow.'',
     sk_condition_value = PBool True, sk_return_value = literal PNone\<rparr>\<rparr>]"

lemma skip_condition_unchecked:
  "\<exists>g. validate_nodes_topology demo_skip_flow = Inr g"
proof -
  have "(case validate_nodes_topology demo_skip_flow of Inr g \<Rightarrow> True | Inl e \<Rightarrow> False)" by code_simp
  then show ?thesis by (cases "validate_nodes_topology demo_skip_flow") auto
qed

text \<open>C12. The validation accepts exactly the flows whose node names are distinct, where every flow input that an input of a
  node refers to is declared, where every node that an input, a skip condition or the value returned when skipping refers to
  is in the flow, and whose nodes have a topological order by these references. Flow inputs in skip conditions are not looked
  up: a node may skip on an input the flow does not have.\<close>

theorem validate_nodes_topology_accepts:
  "(\<exists>g. validate_nodes_topology f = Inr g) \<longleftrightarrow>
     distinct (map node_name (flow_nodes f)) \<and> list_all (flow_inputs_known f) (flow_nodes f) \<and>
     refs_closed (flow_nodes f) \<and> (\<exists>os. set os = set (flow_nodes f) \<and> topo_ordered os)"
proof
  assume "\<exists>g. validate_nodes_topology f = Inr g"
  then show "distinct (map node_name (flow_nodes f)) \<and> list_all (flow_inputs_known f) (flow_nodes f) \<and>
     refs_closed (flow_nodes f) \<and> (\<exists>os. set os = set (flow_nodes f) \<and> topo_ordered os)"
    unfolding validate_nodes_topology_Inr using ensure_nodes_order_sound by blast
next
  assume "distinct (map node_name (flow_nodes f)) \<and> list_all (flow_inputs_known f) (flow_nodes f) \<and>
     refs_closed (flow_nodes f) \<and> (\<exists>os. set os = set (flow_nodes f) \<and> topo_ordered os)"
  then show "\<exists>g. validate_nodes_topology f = Inr g"
    unfolding validate_nodes_topology_Inr using ensure_nodes_order_complete by blast
qed

lemma resolve_inputs:
  assumes "foldr_res (\<lambda>(k, v) updated. (case map_of inputs k of None \<Rightarrow> Inr updated
      | Some x \<Rightarrow> (case parse env (fi_type v) x of Inr y \<Rightarrow> Inr (AList.update k y updated) | Inl e \<Rightarrow> Inl (h k v x e))))
      ds acc = Inr out" "distinct (map fst ds)" "fst ` set inputs \<subseteq> fst ` set acc"
  shows "dict_keys out = dict_keys acc \<and>
    (\<forall>k. map_of out k = (case map_of ds k of None \<Rightarrow> map_of acc k
       | Some d \<Rightarrow> (case map_of inputs k of None \<Rightarrow> map_of acc k
         | Some x \<Rightarrow> (case parse env (fi_type d) x of Inr y \<Rightarrow> Some y | Inl e \<Rightarrow> None)))) \<and>
    (\<forall>(k, d)\<in>set ds. \<forall>x. map_of inputs k = Some x \<longrightarrow> (\<exists>y. parse env (fi_type d) x = Inr y))"
  using assms
proof (induction ds arbitrary: acc)
  case (Cons kd ds)
  obtain k d where [simp]: "kd = (k, d)" by force
  show ?case
  proof (cases "map_of inputs k")
    case None
    with Cons.prems have "foldr_res (\<lambda>(k, v) updated. (case map_of inputs k of None \<Rightarrow> Inr updated
      | Some x \<Rightarrow> (case parse env (fi_type v) x of Inr y \<Rightarrow> Inr (AList.update k y updated) | Inl e \<Rightarrow> Inl (h k v x e))))
      ds acc = Inr out" by simp
    note ih = Cons.IH [OF this _ Cons.prems(3)]
    show ?thesis using ih Cons.prems(2) None by (simp split: option.split)
  next
    case (Some x)
    with Cons.prems(1) obtain y where y: "parse env (fi_type d) x = Inr y" by (auto split: sum.splits)
    have k: "k \<in> fst ` set acc" using Some Cons.prems(3) by (metis in_mono map_of_eq_None_iff option.distinct(1))
    have new: "map_of ds k = None" using Cons.prems(2) by (simp add: map_of_eq_None_iff)
    have "dict_keys out = dict_keys (AList.update k y acc) \<and>
      (\<forall>j. map_of out j = (case map_of ds j of None \<Rightarrow> map_of (AList.update k y acc) j
       | Some d \<Rightarrow> (case map_of inputs j of None \<Rightarrow> map_of (AList.update k y acc) j
         | Some x \<Rightarrow> (case parse env (fi_type d) x of Inr y \<Rightarrow> Some y | Inl e \<Rightarrow> None)))) \<and>
      (\<forall>(k, d)\<in>set ds. \<forall>x. map_of inputs k = Some x \<longrightarrow> (\<exists>y. parse env (fi_type d) x = Inr y))"
      using Cons.prems Some y by (intro Cons.IH) (auto simp: dict_simps)
    with Some y new keys_update_existing [OF k] show ?thesis by (auto split: option.splits)
  qed
qed auto

text \<open>C14. Checked inputs have the keys of the given ones in their order, every declared input is there
  with its value parsed as its declared type, and the others are unchanged.\<close>

theorem ensure_flow_inputs_type_sound:
  assumes "ensure_flow_inputs_type env f inputs idx = Inr out" "distinct (map fst (flow_inputs f))"
  shows "dict_keys out = dict_keys inputs \<and>
    (\<forall>(k, d)\<in>set (flow_inputs f). \<exists>x y. map_of inputs k = Some x \<and> parse env (fi_type d) x = Inr y \<and> map_of out k = Some y) \<and>
    (\<forall>k. k \<notin> fst ` set (flow_inputs f) \<longrightarrow> map_of out k = map_of inputs k)"
proof -
  from assms(1) have all: "\<forall>(k, d)\<in>set (flow_inputs f). \<exists>x. map_of inputs k = Some x"
    and res: "resolve_flow_inputs_type env f inputs idx = Inr out"
    by (auto simp: ensure_flow_inputs_type_def flow_error_def find_None_iff dict_has_def split: option.splits)
  note r = resolve_inputs [OF res [unfolded resolve_flow_inputs_type_def] assms(2) order.refl]
  have "map_of (flow_inputs f) k = Some d" if "(k, d) \<in> set (flow_inputs f)" for k d
    using that assms(2) by simp
  with r all have "\<exists>x y. map_of inputs k = Some x \<and> parse env (fi_type d) x = Inr y \<and> map_of out k = Some y"
    if "(k, d) \<in> set (flow_inputs f)" for k d using that by fastforce
  moreover have "map_of (flow_inputs f) k = None" if "k \<notin> fst ` set (flow_inputs f)" for k
    using that by (simp add: map_of_eq_None_iff)
  ultimately show ?thesis using r by auto
qed

theorem ensure_flow_inputs_type_sound_witness:
  "ensure_flow_inputs_type demo_env demo_flow_pair [(''extra'', PNone), (''q'', PStr '' 7 '')] PNone
     = Inr [(''extra'', PNone), (''q'', PInt 7)] \<and>
   dict_keys [(''extra'', PNone), (''q'', PInt 7)] = dict_keys [(''extra'', PNone), (''q'', PStr '' 7 '')]"
proof -
  have e: "ensure_flow_inputs_type demo_env demo_flow_pair [(''extra'', PNone), (''q'', PStr '' 7 '')] PNone
     = Inr [(''extra'', PNone), (''q'', PInt 7)]" by code_simp
  have d: "distinct (map fst (flow_inputs demo_flow_pair))" by code_simp
  from ensure_flow_inputs_type_sound [OF e d] e show ?thesis by simp
qed

text \<open>What a kept output refers to.\<close>

definition output_resolvable :: "flow \<Rightarrow> flow_output_definition \<Rightarrow> bool" where
  "output_resolvable f od = (case ia_value_type (fo_reference od) of
     LITERAL \<Rightarrow> True
   | FLOW_INPUT \<Rightarrow> lookup_name (flow_inputs f) (ia_value (fo_reference od)) \<noteq> None
   | NODE_REFERENCE \<Rightarrow> (case as_str (ia_value (fo_reference od)) of None \<Rightarrow> False | Some s \<Rightarrow> is_normal_node f s))"

definition output_aggregated :: "flow \<Rightarrow> flow_output_definition \<Rightarrow> bool" where
  "output_aggregated f od = (ia_value_type (fo_reference od) = NODE_REFERENCE \<and>
     (case as_str (ia_value (fo_reference od)) of None \<Rightarrow> False | Some s \<Rightarrow> is_reduce_node f s))"

lemma check_output_Inr:
  "check_output f (k, od) = Inr r \<Longrightarrow> (if output_aggregated f od then r = None else r = Some (k, od) \<and> output_resolvable f od)"
  by (auto simp: check_output_def Let_def flow_error_def output_aggregated_def output_resolvable_def is_reduce_node_def
      is_normal_node_def split: input_value_type.splits if_splits option.splits)

lemma checked_outputs:
  "mapr (check_output f) kvs = Inr rs \<Longrightarrow>
     concat (map option_list rs) = filter (\<lambda>(k, od). \<not> output_aggregated f od) kvs \<and>
     list_all (\<lambda>(k, od). output_resolvable f od) (concat (map option_list rs))"
proof (induction kvs arbitrary: rs)
  case (Cons kv kvs)
  obtain k od where [simp]: "kv = (k, od)" by force
  from Cons.prems obtain r rs' where r: "check_output f (k, od) = Inr r" "mapr (check_output f) kvs = Inr rs'" "rs = r # rs'"
    by (auto simp: res_simps)
  from check_output_Inr [OF r(1)] Cons.IH [OF r(2)] r(3) show ?case by (auto split: if_splits)
qed simp

definition demo_out_flow :: flow where
  "demo_out_flow = (demo_flow (demo_pair @ [(demo_node ''g'' [])\<lparr>node_aggregation := True\<rparr>]))\<lparr>flow_outputs :=
     [(''o'', \<lparr>fo_type = STRING, fo_reference = node_reference ''b'' ''output'' [], fo_description = PStr [],
        fo_evaluation_only = False, fo_is_chat_output = False\<rparr>),
      (''g'', \<lparr>fo_type = STRING, fo_reference = node_reference ''g'' ''output'' [], fo_description = PStr [],
        fo_evaluation_only = False, fo_is_chat_output = False\<rparr>)]\<rparr>"

text \<open>The outputs kept by the validation are those that do not refer to an aggregation node, in their
  order, and each of them refers to a literal, a declared input or a normal node of the flow.\<close>

theorem ensure_outputs_valid_sound:
  assumes "ensure_outputs_valid f = Inr os"
  shows "os = filter (\<lambda>(k, od). \<not> output_aggregated f od) (flow_outputs f) \<and>
    list_all (\<lambda>(k, od). output_resolvable f od) os"
proof -
  from assms obtain kvs where kvs: "mapr (check_output f) (flow_outputs f) = Inr kvs" "os = concat (map option_list kvs)"
    by (auto simp: ensure_outputs_valid_def res_simps)
  show ?thesis unfolding kvs(2) by (rule checked_outputs [OF kvs(1)])
qed

theorem ensure_outputs_valid_sound_witness:
  "ensure_outputs_valid demo_out_flow = Inr (take 1 (flow_outputs demo_out_flow)) \<and>
   list_all (\<lambda>(k, od). output_resolvable demo_out_flow od) (take 1 (flow_outputs demo_out_flow))"
proof -
  have v: "ensure_outputs_valid demo_out_flow = Inr (take 1 (flow_outputs demo_out_flow))" by code_simp
  show ?thesis using v ensure_outputs_valid_sound [OF v] by blast
qed

end
