(* ===== verification/InputMapping.thy ===== *)
theory InputMapping imports FlowValidator begin

text \<open>
  The inputs mapping of \<^verbatim>\<open>executor/flow_executor.py\<close>: the lists of input rows are merged by
  line number, and each merged line is mapped to the inputs of the flow by references
  \<open>${data.question}\<close> and literals. A line number that is not an \<open>int\<close> is outside the model.
\<close>

definition line_number_key :: string where
  "line_number_key = ''line_number''"

section \<open>One line\<close>

text \<open>\<open>source in v\<close> for a text \<open>source\<close>.\<close>

definition occurs_in :: "string \<Rightarrow> string \<Rightarrow> bool" where
  "occurs_in t s = list_ex (\<lambda>i. startswith (drop i s) t) [0..<Suc (length s)]"

definition py_contains :: "string \<Rightarrow> pyval \<Rightarrow> bool res" where
  "py_contains k v =
    (case as_str v of
       Some s \<Rightarrow> Inr (occurs_in k s)
     | None \<Rightarrow>
    (case v of
       PDict d \<Rightarrow> Inr (dict_has k d)
     | PList vs \<Rightarrow> Inr (list_ex (py_eq (PStr k)) vs)
     | PTuple vs \<Rightarrow> Inr (list_ex (py_eq (PStr k)) vs)
     | _ \<Rightarrow> Inl (py_exn TypeError [PStr ''argument of this type is not iterable''])))"

text \<open>\<open>re.search(r"^\${([^{}]+)}$", s)\<close>, where \<open>$\<close> also matches before a final newline.\<close>

definition mapping_pattern :: "string \<Rightarrow> string option" where
  "mapping_pattern s =
    (if startswith s [CHR ''$'', CHR 0x7B] then
       (let p = takeWhile (\<lambda>c. c \<noteq> CHR 0x7B \<and> c \<noteq> CHR 0x7D) (drop 2 s);
            r = dropWhile (\<lambda>c. c \<noteq> CHR 0x7B \<and> c \<noteq> CHR 0x7D) (drop 2 s)
        in if p \<noteq> [] \<and> (r = [CHR 0x7D] \<or> r = [CHR 0x7D, CHR 0x0A]) then Some p else None)
     else None)"

text \<open>The loop over the places where the pattern can be split; a key with fewer dots has priority.\<close>

fun find_source :: "(string, pyval) dict \<Rightarrow> string list \<Rightarrow> string list \<Rightarrow> pyval option res" where
  "find_source inputs front [] = Inr None"
| "find_source inputs front (part # parts) =
    (if front = [] then find_source inputs [part] parts
     else (let key = join ''.'' front; source = join ''.'' (part # parts) in
       case map_of inputs key of
         None \<Rightarrow> find_source inputs (front @ [part]) parts
       | Some v \<Rightarrow> bindr (py_contains source v) (\<lambda>found.
           if found then bindr (subscript_str source v) (\<lambda>w. Inr (Some w))
           else find_source inputs (front @ [part]) parts)))"

fun map_inputs ::
  "(string, pyval) dict \<Rightarrow> (string, pyval) dict \<Rightarrow> (string, pyval) dict \<Rightarrow> string list \<Rightarrow>
     ((string, pyval) dict \<times> string list) res" where
  "map_inputs inputs [] result notfound = Inr (result, notfound)"
| "map_inputs inputs ((map_to_key, map_value) # rest) result notfound =
    (if map_to_key = line_number_key then map_inputs inputs rest result notfound
     else (case as_str map_value of
         None \<Rightarrow> map_inputs inputs rest (AList.update map_to_key map_value result) notfound
       | Some s \<Rightarrow>
          (case mapping_pattern s of
             None \<Rightarrow> map_inputs inputs rest (AList.update map_to_key map_value result) notfound
           | Some p \<Rightarrow> bindr (find_source inputs [] (split_on (CHR ''.'') p)) (\<lambda>r.
               case r of
                 Some v \<Rightarrow> map_inputs inputs rest (AList.update map_to_key v result) notfound
               | None \<Rightarrow> map_inputs inputs rest result (notfound @ [s])))))"

definition mapping_error :: "mapping_class \<Rightarrow> msg \<Rightarrow> 'a res" where
  "mapping_error c m = Inl (pf_exn (Fe c) m FLOW_EXECUTOR)"

definition apply_inputs_mapping :: "(string, pyval) dict \<Rightarrow> (string, pyval) dict \<Rightarrow> (string, pyval) dict res" where
  "apply_inputs_mapping inputs inputs_mapping =
    bindr (map_inputs inputs inputs_mapping [] []) (\<lambda>(result, notfound).
      if notfound \<noteq> [] then mapping_error MappingSourceNotFound
        [PStr (concat [''Couldn'', [CHR 0x27], ''t find these mapping relations: '', join '', '' notfound, ''. '',
          ''Please make sure your input mapping keys and values match your YAML input section and input data. '',
          ''If a mapping value has a '', squote (''$'' @ [CHR 0x7B] @ ''data''), '' prefix, it might be generated from the YAML input section, '',
          ''and you may need to manually assign input mapping based on your input data.''])]
      else Inr (case map_of inputs line_number_key of
          Some v \<Rightarrow> AList.update line_number_key v result
        | None \<Rightarrow> result))"

section \<open>All lines\<close>

type_synonym row = "(string, pyval) dict"

definition has_line_number :: "row \<Rightarrow> bool" where
  "has_line_number r = dict_has line_number_key r"

definition line_of :: "row \<Rightarrow> int res" where
  "line_of r = (case map_of r line_number_key of Some (PInt i) \<Rightarrow> Inr i | _ \<Rightarrow> Inl outside_model)"

text \<open>\<open>tmp_dict[index][input_key] = row\<close>, after creating \<open>tmp_dict[index]\<close>.\<close>

definition put_row :: "string \<Rightarrow> int \<Rightarrow> row \<Rightarrow> (int, (string, pyval) dict) dict \<Rightarrow> (int, (string, pyval) dict) dict" where
  "put_row k i r tmp = AList.update i (AList.update k (PDict r) (dict_get tmp i [])) tmp"

fun put_numbered :: "string \<Rightarrow> row list \<Rightarrow> int \<Rightarrow> (int, (string, pyval) dict) dict \<Rightarrow> (int, (string, pyval) dict) dict" where
  "put_numbered k [] i tmp = tmp"
| "put_numbered k (r # rs) i tmp = put_numbered k rs (i + 1) (put_row k i r tmp)"

definition put_aligned :: "string \<Rightarrow> row list \<Rightarrow> (int, (string, pyval) dict) dict \<Rightarrow> (int, (string, pyval) dict) dict res" where
  "put_aligned k rs tmp = foldr_res (\<lambda>r tmp. if has_line_number r
      then bindr (line_of r) (\<lambda>i. Inr (put_row k i r tmp)) else Inr tmp) rs tmp"

definition put_input :: "string \<times> row list \<Rightarrow> (int, (string, pyval) dict) dict \<Rightarrow> (int, (string, pyval) dict) dict res" where
  "put_input kv tmp = (case kv of (k, rs) \<Rightarrow>
     if \<not> list_ex has_line_number rs then Inr (put_numbered k rs 0 tmp) else put_aligned k rs tmp)"

definition lengths_without_line_number :: "(string, row list) dict \<Rightarrow> (string, nat) dict" where
  "lengths_without_line_number input_dict =
     map (\<lambda>(k, rs). (k, length rs)) (filter (\<lambda>(k, rs). \<not> list_ex has_line_number rs) input_dict)"

definition merge_input_dicts_by_line :: "(string, row list) dict \<Rightarrow> (string, pyval) dict list res" where
  "merge_input_dicts_by_line input_dict =
    (case find (\<lambda>(k, rs). rs = []) input_dict of
       Some (k, _) \<Rightarrow> mapping_error EmptyInputListError [PStr (''List from key '' @ squote k @ '' is empty.'')]
     | None \<Rightarrow>
        (let lens = lengths_without_line_number input_dict in
         if length (remdups (map snd lens)) > 1 then
           mapping_error LineNumberNotAlign
             [PStr (''Line numbers are not aligned. Some lists have dictionaries missing the '' @ squote line_number_key @
                '' key, and the lengths of these lists are different. List lengths: ''),
              PDict (map (\<lambda>(k, n). (k, PInt (int n))) lens)]
         else bindr (foldr_res put_input input_dict []) (\<lambda>tmp.
           Inr (map (\<lambda>(i, vs). AList.update line_number_key (PInt i) vs)
                 (filter (\<lambda>(i, vs). length vs = length input_dict) tmp)))))"

definition apply_inputs_mapping_for_all_lines ::
  "(string, row list) dict \<Rightarrow> (string, pyval) dict option \<Rightarrow> (string, pyval) dict list res" where
  "apply_inputs_mapping_for_all_lines input_dict inputs_mapping =
    (case inputs_mapping of
       None \<Rightarrow> Inl (pf_exn (Fe NoneInputsMappingIsNotSupported) [PStr ''Inputs mapping is None.''] UNKNOWN)
     | Some mapping \<Rightarrow> bindr (merge_input_dicts_by_line input_dict) (\<lambda>merged.
         if merged = [] then mapping_error EmptyInputAfterMapping
           [PStr ''Input data does not contain a complete line. Please check your input.'']
         else mapr (\<lambda>item. apply_inputs_mapping item mapping) merged))"

text \<open>The default mapping reads every flow input from the data of the same name.\<close>

definition default_inputs_mapping :: "flow \<Rightarrow> (string, pyval) dict" where
  "default_inputs_mapping f = map (\<lambda>(k, _). (k, PStr (braced (''data.'' @ k)))) (flow_inputs f)"

definition complete_inputs_mapping_by_default_value ::
  "flow \<Rightarrow> (string, pyval) dict option \<Rightarrow> (string, pyval) dict" where
  "complete_inputs_mapping_by_default_value f inputs_mapping =
     dict_updates (default_inputs_mapping f) (case inputs_mapping of None \<Rightarrow> [] | Some m \<Rightarrow> m)"

definition validate_and_apply_inputs_mapping ::
  "flow \<Rightarrow> (string, row list) dict \<Rightarrow> (string, pyval) dict option \<Rightarrow> (string, pyval) dict list res" where
  "validate_and_apply_inputs_mapping f inputs inputs_mapping =
     apply_inputs_mapping_for_all_lines inputs (Some (complete_inputs_mapping_by_default_value f inputs_mapping))"

section \<open>What a reference reads\<close>

definition source_at :: "(string, pyval) dict \<Rightarrow> string list \<Rightarrow> nat \<Rightarrow> pyval option" where
  "source_at inputs parts n = (case map_of inputs (join ''.'' (take n parts)) of
     Some (PDict d) \<Rightarrow> map_of d (join ''.'' (drop n parts)) | _ \<Rightarrow> None)"

text \<open>The inputs of a line are rows, apart from its line number.\<close>

definition line_rows :: "(string, pyval) dict \<Rightarrow> bool" where
  "line_rows inputs = list_all (\<lambda>(k, v). k \<noteq> line_number_key \<longrightarrow> as_dict v \<noteq> None) inputs"

definition reads :: "(string, pyval) dict \<Rightarrow> string list \<Rightarrow> pyval option \<Rightarrow> bool" where
  "reads inputs parts r = (case r of
     Some v \<Rightarrow> \<exists>n. 0 < n \<and> n < length parts \<and> source_at inputs parts n = Some v \<and>
       (\<forall>m. 0 < m \<and> m < n \<longrightarrow> source_at inputs parts m = None)
   | None \<Rightarrow> \<forall>n. 0 < n \<and> n < length parts \<longrightarrow> source_at inputs parts n = None)"

lemma as_dict_Some_iff: "as_dict v = Some d \<longleftrightarrow> v = PDict d"
  by (cases v) auto

lemma find_source_step:
  assumes "line_rows inputs" "front \<noteq> []" "find_source inputs front (part # parts) = Inr r"
  shows "(\<exists>v. source_at inputs (front @ part # parts) (length front) = Some v \<and> r = Some v) \<or>
    (source_at inputs (front @ part # parts) (length front) = None \<and> find_source inputs (front @ [part]) parts = Inr r)"
proof (cases "map_of inputs (join ''.'' front)")
  case None
  with assms(2,3) show ?thesis by (simp add: source_at_def)
next
  case (Some v)
  have "v = PDict d" if "as_dict v = Some d" for d using that by (simp add: as_dict_Some_iff)
  show ?thesis
  proof (cases "as_dict v")
    case None
    from Some assms(2,3) obtain b where "py_contains (join ''.'' (part # parts)) v = Inr b"
      "(if b then bindr (subscript_str (join ''.'' (part # parts)) v) (\<lambda>w. Inr (Some w)) else find_source inputs (front @ [part]) parts) = Inr r"
      by (auto simp: res_simps Let_def)
    with None Some show ?thesis
      by (cases v) (auto simp: source_at_def subscript_str_def res_simps split: if_splits)
  next
    case (Some d)
    then have v: "v = PDict d" by (simp add: as_dict_Some_iff)
    with \<open>map_of inputs (join ''.'' front) = Some v\<close> assms(2,3) show ?thesis
      by (auto simp: source_at_def py_contains_def subscript_str_def get_item_def dict_has_def res_simps Let_def split: if_splits option.splits)
  qed
qed

lemma find_source_reads_from:
  assumes "line_rows inputs" "front \<noteq> []" "find_source inputs front parts = Inr r"
    and "\<And>m. 0 < m \<Longrightarrow> m < length front \<Longrightarrow> source_at inputs (front @ parts) m = None"
  shows "reads inputs (front @ parts) r"
  using assms
proof (induction parts arbitrary: front)
  case Nil
  then show ?case by (simp add: reads_def)
next
  case (Cons part parts)
  from find_source_step [OF Cons.prems(1-3)] show ?case
  proof (elim disjE exE conjE)
    fix v assume "source_at inputs (front @ part # parts) (length front) = Some v" "r = Some v"
    with Cons.prems(2,4) show ?thesis unfolding reads_def by (auto intro!: exI [of _ "length front"])
  next
    assume none: "source_at inputs (front @ part # parts) (length front) = None"
      and rest: "find_source inputs (front @ [part]) parts = Inr r"
    have "source_at inputs ((front @ [part]) @ parts) m = None" if "0 < m" "m < length (front @ [part])" for m
      using that none Cons.prems(4) [of m] by (cases "m = length front") auto
    from Cons.IH [OF Cons.prems(1) _ rest this] show ?thesis by simp
  qed
qed

lemma find_source_reads:
  assumes "line_rows inputs" "find_source inputs [] parts = Inr r"
  shows "reads inputs parts r"
proof (cases parts)
  case Nil
  with assms show ?thesis by (simp add: reads_def)
next
  case (Cons part ps)
  with assms have "find_source inputs [part] ps = Inr r" by simp
  from find_source_reads_from [OF assms(1) _ this] Cons show ?thesis by simp
qed

section \<open>What a mapped line holds\<close>

text \<open>A mapping value is a literal (\<open>Inl\<close>) or the parts of a reference (\<open>Inr\<close>).\<close>

definition mapping_kind :: "pyval \<Rightarrow> pyval + string list" where
  "mapping_kind v = (case as_str v of None \<Rightarrow> Inl v
     | Some s \<Rightarrow> (case mapping_pattern s of None \<Rightarrow> Inl v | Some p \<Rightarrow> Inr (split_on (CHR ''.'') p)))"

definition mapped_to :: "(string, pyval) dict \<Rightarrow> pyval \<Rightarrow> pyval \<Rightarrow> bool" where
  "mapped_to inputs v w = (case mapping_kind v of Inl l \<Rightarrow> w = l | Inr parts \<Rightarrow> reads inputs parts (Some w))"

lemma map_inputs_cases:
  assumes "map_inputs inputs mapping result nf = Inr (out, nf')" "line_rows inputs" "distinct (map fst mapping)"
  shows "(\<exists>e. nf' = nf @ e) \<and> (\<forall>k. k \<notin> fst ` set mapping \<or> k = line_number_key \<longrightarrow> map_of out k = map_of result k) \<and>
    (nf' = nf \<longrightarrow> (\<forall>(k, v)\<in>set mapping. k \<noteq> line_number_key \<longrightarrow> (\<exists>w. map_of out k = Some w \<and> mapped_to inputs v w)))"
  using assms
proof (induction mapping arbitrary: result nf)
  case (Cons kv mapping)
  obtain k v where kv [simp]: "kv = (k, v)" by force
  have dist: "distinct (map fst mapping)" "k \<notin> fst ` set mapping" using Cons.prems(3) by auto
  show ?case
  proof (cases "k = line_number_key")
    case True
    with Cons.prems(1) have "map_inputs inputs mapping result nf = Inr (out, nf')" by simp
    from Cons.IH [OF this Cons.prems(2) dist(1)] True show ?thesis by fastforce
  next
    case False
    show ?thesis
    proof (cases "mapping_kind v")
      case (Inl l)
      then have "l = v" by (auto simp: mapping_kind_def split: option.splits)
      with Inl Cons.prems(1) False have "map_inputs inputs mapping (AList.update k v result) nf = Inr (out, nf')"
        by (auto simp: mapping_kind_def split: option.splits)
      from Cons.IH [OF this Cons.prems(2) dist(1)] dist(2) False Inl \<open>l = v\<close> show ?thesis
        by (auto simp: mapped_to_def)
    next
      case (Inr parts)
      then obtain s p where sp: "as_str v = Some s" "mapping_pattern s = Some p" "parts = split_on (CHR ''.'') p"
        by (auto simp: mapping_kind_def split: option.splits)
      with Cons.prems(1) False obtain r where r: "find_source inputs [] parts = Inr r"
        "(case r of Some w \<Rightarrow> map_inputs inputs mapping (AList.update k w result) nf
          | None \<Rightarrow> map_inputs inputs mapping result (nf @ [s])) = Inr (out, nf')"
        by (simp add: res_simps) blast
      note reads = find_source_reads [OF Cons.prems(2) r(1)]
      show ?thesis
      proof (cases r)
        case None
        with r have "map_inputs inputs mapping result (nf @ [s]) = Inr (out, nf')" by simp
        from Cons.IH [OF this Cons.prems(2) dist(1)] show ?thesis by auto
      next
        case (Some w)
        with r have "map_inputs inputs mapping (AList.update k w result) nf = Inr (out, nf')" by simp
        from Cons.IH [OF this Cons.prems(2) dist(1)] dist(2) False Inr reads Some show ?thesis
          by (auto simp: mapped_to_def)
      qed
    qed
  qed
qed auto

text \<open>C18. A mapped line has, for every key of the mapping but the reserved line number, the literal or
  the datum its reference reads, where a reference is split at the first dot that finds one; its
  line number is that of the line, and it has no other key.\<close>

theorem apply_inputs_mapping_sound:
  assumes "apply_inputs_mapping inputs mapping = Inr out" "line_rows inputs" "distinct (map fst mapping)"
  shows "(\<forall>(k, v)\<in>set mapping. k \<noteq> line_number_key \<longrightarrow> (\<exists>w. map_of out k = Some w \<and> mapped_to inputs v w)) \<and>
    map_of out line_number_key = map_of inputs line_number_key \<and>
    (\<forall>k. k \<notin> fst ` set mapping \<and> k \<noteq> line_number_key \<longrightarrow> map_of out k = None)"
proof -
  from assms(1) obtain res where res: "map_inputs inputs mapping [] [] = Inr (res, [])"
    "out = (case map_of inputs line_number_key of Some v \<Rightarrow> AList.update line_number_key v res | None \<Rightarrow> res)"
    by (auto simp: apply_inputs_mapping_def mapping_error_def res_simps split: if_splits)
  from map_inputs_cases [OF res(1) assms(2,3)] res(2) show ?thesis by (auto split: option.splits)
qed

theorem apply_inputs_mapping_sound_witness:
  "apply_inputs_mapping [(''data'', PDict [(''q'', PInt 1), (''a.b'', PInt 2)]), (line_number_key, PInt 5)]
     [(''x'', PStr ''${data.a.b}''), (''y'', PStr ''lit'')] = Inr [(''x'', PInt 2), (''y'', PStr ''lit''), (line_number_key, PInt 5)] \<and>
   mapped_to [(''data'', PDict [(''q'', PInt 1), (''a.b'', PInt 2)]), (line_number_key, PInt 5)] (PStr ''${data.a.b}'') (PInt 2)"
proof -
  let ?i = "[(''data'', PDict [(''q'', PInt 1), (''a.b'', PInt 2)]), (line_number_key, PInt 5)]"
  let ?m = "[(''x'', PStr ''${data.a.b}''), (''y'', PStr ''lit'')]"
  let ?o = "[(''x'', PInt 2), (''y'', PStr ''lit''), (line_number_key, PInt 5)]"
  have a: "apply_inputs_mapping ?i ?m = Inr ?o" by code_simp
  have b: "line_rows ?i" "distinct (map fst ?m)" by code_simp+
  from apply_inputs_mapping_sound [OF a b] a show ?thesis by (simp add: line_number_key_def)
qed

section \<open>Merging by line number\<close>

text \<open>The row of a list for a line: by position when no row carries a line number, otherwise the last
  row that carries it.\<close>

definition row_at :: "row list \<Rightarrow> int \<Rightarrow> row option" where
  "row_at rs i = (if \<not> list_ex has_line_number rs
     then (if 0 \<le> i \<and> i < int (length rs) then Some (rs ! nat i) else None)
     else find (\<lambda>r. has_line_number r \<and> line_of r = Inr i) (rev rs))"

definition cell :: "(int, (string, pyval) dict) dict \<Rightarrow> int \<Rightarrow> string \<Rightarrow> pyval option" where
  "cell tmp i k = map_of (dict_get tmp i []) k"

definition tmp_ok :: "string set \<Rightarrow> (int, (string, pyval) dict) dict \<Rightarrow> bool" where
  "tmp_ok K tmp \<longleftrightarrow> distinct (map fst tmp) \<and> (\<forall>(i, vs)\<in>set tmp. distinct (map fst vs) \<and> fst ` set vs \<subseteq> K)"

lemma tmp_ok_entry: "tmp_ok K tmp \<Longrightarrow> (i, vs) \<in> set tmp \<Longrightarrow> distinct (map fst vs) \<and> fst ` set vs \<subseteq> K"
  unfolding tmp_ok_def by blast

lemma cell_put_row [simp]:
  "cell (put_row k i r tmp) j l = (if j = i \<and> l = k then Some (PDict r) else cell tmp j l)"
  by (simp add: cell_def put_row_def dict_get_def)

lemma tmp_ok_put_row:
  assumes "tmp_ok K tmp" "k \<in> K"
  shows "tmp_ok K (put_row k i r tmp)"
proof -
  have old: "distinct (map fst (dict_get tmp i [])) \<and> fst ` set (dict_get tmp i []) \<subseteq> K"
    using tmp_ok_entry [OF assms(1) map_of_SomeD] by (cases "map_of tmp i") (simp_all add: dict_get_def)
  have new: "distinct (map fst (AList.update k (PDict r) (dict_get tmp i []))) \<and>
      fst ` set (AList.update k (PDict r) (dict_get tmp i [])) \<subseteq> K"
    using old assms(2) by (simp add: distinct_update dict_simps)
  let ?new = "AList.update k (PDict r) (dict_get tmp i [])"
  have "\<forall>(j, vs)\<in>insert (i, ?new) (set tmp). distinct (map fst vs) \<and> fst ` set vs \<subseteq> K"
    using assms(1) new by (simp add: tmp_ok_def)
  then have "\<forall>(j, vs)\<in>set (AList.update i ?new tmp). distinct (map fst vs) \<and> fst ` set vs \<subseteq> K"
    using set_AList_update [of i ?new tmp] by blast
  then show ?thesis using assms(1) unfolding tmp_ok_def put_row_def by (simp add: distinct_update)
qed

lemma put_numbered_cells:
  assumes "tmp_ok K tmp" "k \<in> K"
  shows "tmp_ok K (put_numbered k rs n tmp) \<and> (\<forall>j l. cell (put_numbered k rs n tmp) j l =
    (if l = k \<and> n \<le> j \<and> j < n + int (length rs) then Some (PDict (rs ! nat (j - n))) else cell tmp j l))"
  using assms
proof (induction rs arbitrary: n tmp)
  case (Cons r rs)
  have nth: "(r # rs) ! nat (j - n) = rs ! nat (j - (n + 1))" if "n < j" for j
  proof -
    from that have "nat (j - n) = Suc (nat (j - (n + 1)))" by linarith
    then show ?thesis by simp
  qed
  from Cons.IH [OF tmp_ok_put_row [OF Cons.prems] Cons.prems(2), of "n + 1" n r] nth
  show ?case by auto
qed auto

lemma put_aligned_cells:
  assumes "put_aligned k rs tmp = Inr tmp'" "tmp_ok K tmp" "k \<in> K"
  shows "tmp_ok K tmp' \<and> (\<forall>j l. cell tmp' j l =
    (if l = k then (case find (\<lambda>r. has_line_number r \<and> line_of r = Inr j) (rev rs) of
       Some r \<Rightarrow> Some (PDict r) | None \<Rightarrow> cell tmp j l) else cell tmp j l))"
  using assms
proof (induction rs arbitrary: tmp' rule: rev_induct)
  case Nil
  then show ?case by (simp add: put_aligned_def)
next
  case (snoc r rs)
  from snoc.prems(1) obtain t where t: "put_aligned k rs tmp = Inr t"
    "(if has_line_number r then bindr (line_of r) (\<lambda>i. Inr (put_row k i r t)) else Inr t) = Inr tmp'"
    by (auto simp: put_aligned_def foldr_res_append res_simps split: if_splits)
  note ih = snoc.IH [OF t(1) snoc.prems(2,3)]
  show ?case
  proof (cases "has_line_number r")
    case False
    with ih t(2) show ?thesis by simp
  next
    case True
    with t(2) obtain i where "line_of r = Inr i" "tmp' = put_row k i r t" by (auto simp: res_simps)
    with ih True snoc.prems(3) tmp_ok_put_row show ?thesis by auto
  qed
qed

lemma put_input_cells:
  assumes "put_input (k, rs) tmp = Inr tmp'" "tmp_ok K tmp" "k \<in> K" "\<And>j. cell tmp j k = None"
  shows "tmp_ok K tmp' \<and> (\<forall>j l. cell tmp' j l = (if l = k then map_option PDict (row_at rs j) else cell tmp j l))"
proof (cases "list_ex has_line_number rs")
  case True
  with assms(1) have "put_aligned k rs tmp = Inr tmp'" by (simp add: put_input_def)
  from put_aligned_cells [OF this assms(2,3)] True assms(4) show ?thesis
    by (simp add: row_at_def split: option.split)
next
  case False
  with assms(1) have "tmp' = put_numbered k rs 0 tmp" by (simp add: put_input_def)
  with put_numbered_cells [OF assms(2,3), of rs 0] False assms(4) show ?thesis by (simp add: row_at_def)
qed

lemma put_inputs_cells:
  assumes "foldr_res put_input ds tmp = Inr out" "tmp_ok K tmp" "fst ` set ds \<subseteq> K" "distinct (map fst ds)"
    and "\<And>j k. k \<in> fst ` set ds \<Longrightarrow> cell tmp j k = None"
  shows "tmp_ok K out \<and> (\<forall>j k. cell out j k = (case map_of ds k of
      Some rs \<Rightarrow> map_option PDict (row_at rs j) | None \<Rightarrow> cell tmp j k))"
  using assms
proof (induction ds arbitrary: tmp)
  case (Cons kd ds)
  obtain k rs where [simp]: "kd = (k, rs)" by force
  from Cons.prems(1) obtain t where t: "put_input (k, rs) tmp = Inr t" "foldr_res put_input ds t = Inr out"
    by (auto simp: res_simps)
  from Cons.prems have k: "k \<in> K" "cell tmp j k = None" "k \<notin> fst ` set ds" for j by auto
  note one = put_input_cells [OF t(1) Cons.prems(2) k(1,2)]
  have "tmp_ok K out \<and> (\<forall>j l. cell out j l = (case map_of ds l of
      Some rs \<Rightarrow> map_option PDict (row_at rs j) | None \<Rightarrow> cell t j l))"
    using one k(3) Cons.prems(3-5) by (intro Cons.IH [OF t(2)]) auto
  with one k(3) show ?case by (auto split: option.splits) (metis map_of_eq_None_iff not_None_eq)+
qed simp

lemma all_keys_length:
  assumes "distinct (map fst vs)" "fst ` set vs \<subseteq> fst ` set ds" "distinct (map fst ds)"
  shows "length vs = length ds \<longleftrightarrow> (\<forall>k\<in>fst ` set ds. map_of vs k \<noteq> None)"
proof -
  have "length vs = card (fst ` set vs)" "length ds = card (fst ` set ds)"
    using assms by (simp_all add: distinct_names_card)
  moreover have "card (fst ` set vs) = card (fst ` set ds) \<longleftrightarrow> fst ` set vs = fst ` set ds"
    using card_subset_eq [OF _ assms(2)] by auto
  ultimately have "length vs = length ds \<longleftrightarrow> fst ` set vs = fst ` set ds" by simp
  also have "\<dots> \<longleftrightarrow> (\<forall>k\<in>fst ` set ds. k \<in> fst ` set vs)" using assms(2) by blast
  finally show ?thesis by (simp add: map_of_eq_None_iff)
qed

lemma merged_entries:
  assumes "foldr_res put_input ds [] = Inr tmp" "distinct (map fst ds)" "ds \<noteq> []"
  shows "distinct (map fst tmp) \<and>
    (\<forall>(i, vs)\<in>set tmp. \<forall>(k, rs)\<in>set ds. map_of vs k = map_option PDict (row_at rs i)) \<and>
    (\<forall>i. i \<in> fst ` set (filter (\<lambda>(i, vs). length vs = length ds) tmp) \<longleftrightarrow> (\<forall>(k, rs)\<in>set ds. row_at rs i \<noteq> None))"
proof -
  have cells: "tmp_ok (fst ` set ds) tmp" "\<And>j k. cell tmp j k = (case map_of ds k of
      Some rs \<Rightarrow> map_option PDict (row_at rs j) | None \<Rightarrow> None)"
    using put_inputs_cells [OF assms(1), of "fst ` set ds"] assms(2) by (auto simp: tmp_ok_def cell_def dict_get_def split: option.splits)
  have dist: "distinct (map fst tmp)" using cells(1) by (simp add: tmp_ok_def)
  have vs: "map_of vs k = cell tmp i k" if "(i, vs) \<in> set tmp" for i vs k
    using that dist by (simp add: cell_def dict_get_def)
  have row: "cell tmp i k = map_option PDict (row_at rs i)" if "(k, rs) \<in> set ds" for i k rs
    using that cells(2) [of i k] assms(2) by simp
  have full: "length v = length ds \<longleftrightarrow> (\<forall>(k, rs)\<in>set ds. row_at rs i \<noteq> None)" if iv: "(i, v) \<in> set tmp" for i v
  proof -
    have "distinct (map fst v)" "fst ` set v \<subseteq> fst ` set ds" using tmp_ok_entry [OF cells(1) iv] by simp_all
    from all_keys_length [OF this assms(2)] show ?thesis using vs [OF iv] row by fastforce
  qed
  have listed: "i \<in> fst ` set tmp" if all: "\<forall>(k, rs)\<in>set ds. row_at rs i \<noteq> None" for i
  proof -
    obtain k rs where kr: "(k, rs) \<in> set ds" using assms(3) by (cases ds) auto
    with all have "cell tmp i k \<noteq> None" using row [OF kr] by auto
    then show ?thesis by (auto simp: cell_def dict_get_def split: option.splits dest!: map_of_SomeD intro: rev_image_eqI)
  qed
  have "i \<in> fst ` set (filter (\<lambda>(i, vs). length vs = length ds) tmp) \<longleftrightarrow> (\<forall>(k, rs)\<in>set ds. row_at rs i \<noteq> None)" for i
    using full listed [of i] by (auto simp: image_iff) blast+
  moreover have "\<forall>(i, vs)\<in>set tmp. \<forall>(k, rs)\<in>set ds. map_of vs k = map_option PDict (row_at rs i)"
    using vs row by auto
  ultimately show ?thesis using dist by blast
qed

text \<open>The merged lines are exactly the line numbers for which every input has a row, each once, with
  the row of every input for that line.\<close>

theorem merge_input_dicts_by_line_sound:
  assumes "merge_input_dicts_by_line ds = Inr ls" "distinct (map fst ds)" "line_number_key \<notin> fst ` set ds" "ds \<noteq> []"
  shows "\<exists>lines. distinct lines \<and> map (\<lambda>l. map_of l line_number_key) ls = map (\<lambda>i. Some (PInt i)) lines \<and>
    (\<forall>i. i \<in> set lines \<longleftrightarrow> (\<forall>(k, rs)\<in>set ds. row_at rs i \<noteq> None)) \<and>
    (\<forall>(i, l)\<in>set (zip lines ls). \<forall>(k, rs)\<in>set ds. map_of l k = map_option PDict (row_at rs i))"
proof -
  from assms(1) obtain tmp where tmp: "foldr_res put_input ds [] = Inr tmp"
    and ls: "ls = map (\<lambda>(i, vs). AList.update line_number_key (PInt i) vs) (filter (\<lambda>(i, vs). length vs = length ds) tmp)"
    by (auto simp: merge_input_dicts_by_line_def mapping_error_def res_simps Let_def split: option.splits if_splits)
  let ?full = "filter (\<lambda>(i, vs). length vs = length ds) tmp"
  note entries = merged_entries [OF tmp assms(2,4)]
  have "map (\<lambda>l. map_of l line_number_key) ls = map (\<lambda>i. Some (PInt i)) (map fst ?full)"
    by (simp add: ls comp_def split_beta)
  moreover have "distinct (map fst ?full)" using entries by (simp add: distinct_map_filter)
  moreover have "map_of l k = map_option PDict (row_at rs i)"
    if il: "(i, l) \<in> set (zip (map fst ?full) ls)" and kr: "(k, rs) \<in> set ds" for i l k rs
  proof -
    from il obtain v where v: "(i, v) \<in> set tmp" "l = AList.update line_number_key (PInt i) v"
      unfolding ls zip_map_map zip_same_conv_map by auto
    have "k \<noteq> line_number_key" using kr assms(3) by force
    moreover have "map_of v k = map_option PDict (row_at rs i)" using entries v(1) kr by blast
    ultimately show ?thesis using v by simp
  qed
  moreover have "\<forall>i. i \<in> set (map fst ?full) \<longleftrightarrow> (\<forall>(k, rs)\<in>set ds. row_at rs i \<noteq> None)" using entries by simp
  ultimately show ?thesis by (intro exI [of _ "map fst ?full"] conjI) blast+
qed

theorem merge_input_dicts_by_line_sound_witness:
  "\<exists>ls. merge_input_dicts_by_line [(''data'', [[(''q'', PInt 1)], [(''q'', PInt 2)]]),
      (''out'', [[(''a'', PInt 3), (line_number_key, PInt 1)]])] = Inr ls \<and>
    map (\<lambda>l. map_of l line_number_key) ls = [Some (PInt 1)]"
proof -
  let ?ds = "[(''data'', [[(''q'', PInt 1)], [(''q'', PInt 2)]]), (''out'', [[(''a'', PInt 3), (line_number_key, PInt 1)]])]"
  let ?ls = "[[(''data'', PDict [(''q'', PInt 2)]), (''out'', PDict [(''a'', PInt 3), (line_number_key, PInt 1)]), (line_number_key, PInt 1)]]"
  have m: "merge_input_dicts_by_line ?ds = Inr ?ls" by code_simp
  have d: "distinct (map fst ?ds)" "line_number_key \<notin> fst ` set ?ds" "?ds \<noteq> []" by code_simp+
  obtain lines where "map (\<lambda>l. map_of l line_number_key) ?ls = map (\<lambda>i. Some (PInt i)) lines"
    using merge_input_dicts_by_line_sound [OF m d] by (elim exE conjE)
  moreover have "map (\<lambda>l. map_of l line_number_key) ?ls = [Some (PInt 1)]" by code_simp
  ultimately show ?thesis using m by (intro exI [of _ ?ls] conjI)
qed

end
