(* ===== verification/LogManager.thy ===== *)
theory LogManager imports ErrorPresenter begin

text \<open>
  \<^verbatim>\<open>_core/log_manager.py\<close> and \<^verbatim>\<open>_utils/credential_scrubber.py\<close>: while a node runs,
  what it prints goes to a text of its run, without credentials. The context variable that says
  which run prints belongs to a thread; a writer of the model is the writer as one thread sees it.
\<close>

section \<open>Credentials\<close>

definition place_holder :: string where
  "place_holder = ''**data_scrubbed**''"

text \<open>A secret \<open>[^\s;&]+\<close> goes on to the next space, \<open>;\<close> (59) or \<open>&\<close> (38).\<close>

definition secret_char :: "char \<Rightarrow> bool" where
  "secret_char c = (let n = (of_char c :: nat) in
     \<not> (n = 32 \<or> (9 \<le> n \<and> n \<le> 13) \<or> (28 \<le> n \<and> n \<le> 31) \<or> n = 59 \<or> n = 38))"

text \<open>
  \<open>re.sub(r"(?<=key=)[^\s;&]+", PLACE_HOLDER, s, flags=IGNORECASE)\<close>: \<open>before\<close> holds the text that
  precedes the position, reversed, which the look-behind inspects.
\<close>

function scrub_after :: "string \<Rightarrow> string \<Rightarrow> string \<Rightarrow> string" where
  "scrub_after key before [] = []"
| "scrub_after key before (c # s) =
    (if lower (rev (take (length key) before)) = key \<and> secret_char c
     then place_holder @ scrub_after key (rev (takeWhile secret_char (c # s)) @ before) (dropWhile secret_char (c # s))
     else c # scrub_after key (c # before) s)"
  by pat_completeness auto
termination
  by (relation "measure (\<lambda>(key, before, s). length s)") (auto simp: le_imp_less_Suc length_dropWhile_le)

declare scrub_after.simps [simp del]

definition default_keys :: "string list" where
  "default_keys = [''sig='', ''key='']"

text \<open>The custom patterns are functions of the caller; the sets are visited in the order of the lists.\<close>

record scrubber =
  sc_regex :: "(string \<Rightarrow> string) list"
  sc_strs :: "string list"

definition new_scrubber :: scrubber where
  "new_scrubber = \<lparr>sc_regex = [], sc_strs = []\<rparr>"

definition add_str :: "string option \<Rightarrow> scrubber \<Rightarrow> scrubber" where
  "add_str so sc = (case so of
     None \<Rightarrow> sc
   | Some s \<Rightarrow> if length s \<le> 2 then sc else sc\<lparr>sc_strs := List.insert s (sc_strs sc)\<rparr>)"

definition add_regex :: "(string \<Rightarrow> string) \<Rightarrow> scrubber \<Rightarrow> scrubber" where
  "add_regex p sc = sc\<lparr>sc_regex := sc_regex sc @ [p]\<rparr>"

definition clear :: "scrubber \<Rightarrow> scrubber" where
  "clear sc = sc\<lparr>sc_regex := [], sc_strs := []\<rparr>"

definition scrub :: "scrubber \<Rightarrow> string \<Rightarrow> string" where
  "scrub sc input =
    (let patterns = map (\<lambda>k. scrub_after k []) default_keys @ sc_regex sc;
         output = fold (\<lambda>p t. p t) patterns input
     in fold (\<lambda>s t. replace_all s place_holder t) (sc_strs sc) output)"

section \<open>Writers\<close>

record node_info =
  ni_run_id :: string
  ni_node_name :: string
  ni_line_number :: "int option"

record log_writer =
  lw_texts :: "(string, string) dict"
  lw_context :: "node_info option"
  lw_prev_out :: string
  lw_record_datetime :: bool

definition new_writer :: "bool \<Rightarrow> log_writer" where
  "new_writer record_datetime = \<lparr>lw_texts = [], lw_context = None, lw_prev_out = [], lw_record_datetime = record_datetime\<rparr>"

definition set_node_info :: "node_info \<Rightarrow> log_writer \<Rightarrow> log_writer" where
  "set_node_info i w = w\<lparr>lw_context := Some i, lw_texts := AList.update (ni_run_id i) [] (lw_texts w)\<rparr>"

definition clear_node_info :: "string \<Rightarrow> log_writer \<Rightarrow> log_writer" where
  "clear_node_info run_id w =
     w\<lparr>lw_context := (case lw_context w of Some i \<Rightarrow> if ni_run_id i = run_id then None else Some i | None \<Rightarrow> None),
       lw_texts := AList.delete run_id (lw_texts w)\<rparr>"

definition get_log :: "string \<Rightarrow> log_writer \<Rightarrow> string option" where
  "get_log run_id w = map_of (lw_texts w) run_id"

text \<open>
  \<open>write\<close> prefixes the time \<open>now\<close> unless the text is a lone line break. Writing for a run whose
  text is gone is an \<open>AttributeError\<close>. The copy to the flow log is not modelled.
\<close>

definition write_text :: "scrubber \<Rightarrow> string \<Rightarrow> string \<Rightarrow> log_writer \<Rightarrow> log_writer res" where
  "write_text sc now s w =
    (let t = scrub sc s in
     case lw_context w of
       None \<Rightarrow> Inr (w\<lparr>lw_prev_out := lw_prev_out w @ t\<rparr>)
     | Some i \<Rightarrow>
        (let u = (if lw_record_datetime w \<and> t \<noteq> [CHR 0x0A] then ''['' @ now @ ''] '' @ t else t) in
         case map_of (lw_texts w) (ni_run_id i) of
           None \<Rightarrow> Inl (py_exn AttributeError [PStr ''write''])
         | Some old \<Rightarrow> Inr (w\<lparr>lw_texts := AList.update (ni_run_id i) (old @ u) (lw_texts w)\<rparr>)))"

section \<open>The manager of both streams\<close>

record log_manager =
  lm_stdout :: log_writer
  lm_stderr :: log_writer

definition new_log_manager :: "bool \<Rightarrow> log_manager" where
  "new_log_manager record_datetime = \<lparr>lm_stdout = new_writer record_datetime, lm_stderr = new_writer record_datetime\<rparr>"

definition set_node_context :: "string \<Rightarrow> string \<Rightarrow> int option \<Rightarrow> log_manager \<Rightarrow> log_manager" where
  "set_node_context run_id name line lm =
    (let i = \<lparr>ni_run_id = run_id, ni_node_name = name, ni_line_number = line\<rparr>
     in lm\<lparr>lm_stdout := set_node_info i (lm_stdout lm), lm_stderr := set_node_info i (lm_stderr lm)\<rparr>)"

definition clear_node_context :: "string \<Rightarrow> log_manager \<Rightarrow> log_manager" where
  "clear_node_context run_id lm =
     lm\<lparr>lm_stdout := clear_node_info run_id (lm_stdout lm), lm_stderr := clear_node_info run_id (lm_stderr lm)\<rparr>"

definition none_or_text :: "string option \<Rightarrow> pyval" where
  "none_or_text so = (case so of None \<Rightarrow> PNone | Some s \<Rightarrow> PStr s)"

definition get_logs :: "string \<Rightarrow> log_manager \<Rightarrow> (string, pyval) dict" where
  "get_logs run_id lm = [(''stdout'', none_or_text (get_log run_id (lm_stdout lm))),
     (''stderr'', none_or_text (get_log run_id (lm_stderr lm)))]"

section \<open>Secrets do not reach the log\<close>

lemma lower_char_secret [simp]: "secret_char (lower_char c) \<longleftrightarrow> secret_char c"
proof (cases "65 \<le> (of_char c :: nat) \<and> (of_char c :: nat) \<le> 90")
  case True
  then have "(of_char (lower_char c) :: nat) = of_char c + 32"
    by (simp add: lower_char_def Let_def of_char_of take_bit_eq_mod)
  then show ?thesis using True unfolding secret_char_def Let_def by simp
next
  case False
  then show ?thesis by (auto simp: lower_char_def Let_def)
qed

definition key_before :: "string \<Rightarrow> string \<Rightarrow> bool" where
  "key_before key before \<longleftrightarrow> lower (rev (take (length key) before)) = key"

lemma scrub_step:
  "scrub_after key before (c # s) =
    (if key_before key before \<and> secret_char c
     then place_holder @ scrub_after key (rev (takeWhile secret_char (c # s)) @ before) (dropWhile secret_char (c # s))
     else c # scrub_after key (c # before) s)"
  by (simp add: scrub_after.simps key_before_def)

lemma scrub_nil [simp]: "scrub_after key before [] = []"
  by (simp add: scrub_after.simps)

text \<open>The look-behind does not see past a character that is not part of a secret.\<close>

lemma key_before_blocked:
  assumes "list_all secret_char key" "\<not> secret_char c"
  shows "key_before key (u @ c # b1) \<longleftrightarrow> key_before key (u @ c # b2)"
proof (cases "length key \<le> length u")
  case True
  then show ?thesis by (simp add: key_before_def)
next
  case False
  then obtain m where m: "length key - length u = Suc m" by (cases "length key - length u") auto
  have "\<not> key_before key (u @ c # b)" for b
  proof
    assume "key_before key (u @ c # b)"
    then have "lower_char c \<in> set key"
      by (simp add: key_before_def m lower_def) (metis in_set_conv_decomp)
    with assms show False by (auto simp: list_all_iff)
  qed
  then show ?thesis by blast
qed

lemma scrub_blocked:
  "list_all secret_char key \<Longrightarrow> \<not> secret_char c \<Longrightarrow>
     scrub_after key (u @ c # b1) s = scrub_after key (u @ c # b2) s"
proof (induction "length s" arbitrary: s u rule: less_induct)
  case less
  show ?case
  proof (cases s)
    case (Cons d t)
    have shorter: "length (dropWhile secret_char t) < length s" using length_dropWhile_le [of secret_char t] Cons by simp
    show ?thesis
      using less.hyps [OF shorter less.prems, of "rev (takeWhile secret_char t) @ d # u"] less.hyps [of t "d # u"] less.prems
        key_before_blocked [OF less.prems, of u b1 b2]
      by (simp add: Cons scrub_step)
  qed simp
qed

lemma scrub_rest:
  assumes "list_all secret_char key" "r = [] \<or> \<not> secret_char (hd r)"
  shows "scrub_after key b1 r = scrub_after key b2 r"
proof (cases r)
  case (Cons c t)
  with assms scrub_blocked [OF assms(1), of c "[]" b1 t b2] show ?thesis by (simp add: scrub_step)
qed simp

lemma takeWhile_secret:
  "list_all secret_char x \<Longrightarrow> r = [] \<or> \<not> secret_char (hd r) \<Longrightarrow>
     takeWhile secret_char (x @ r) = x \<and> dropWhile secret_char (x @ r) = r"
  by (rule takeWhile_all_then)

text \<open>After a part \<open>k1\<close> of the key has been read.\<close>

lemma scrub_key_hides:
  assumes "list_all secret_char key" "lower (k1 @ k2) = key" "r = [] \<or> \<not> secret_char (hd r)"
    and "x \<noteq> []" "y \<noteq> []" "list_all secret_char x" "list_all secret_char y"
  shows "scrub_after key (rev k1 @ before) (k2 @ x @ r) = scrub_after key (rev k1 @ before) (k2 @ y @ r)"
  using assms(2)
proof (induction k2 arbitrary: k1)
  case Nil
  have len: "length key = length k1" using Nil by (auto simp: lower_def)
  have key: "key_before key (rev k1 @ before)" using Nil by (simp add: key_before_def len)
  have one: "scrub_after key (rev k1 @ before) (z @ r) = place_holder @ scrub_after key (rev z @ rev k1 @ before) r"
    if "z \<noteq> []" "list_all secret_char z" for z
  proof -
    from that(1) obtain c t where z: "z = c # t" by (cases z) auto
    with that(2) takeWhile_secret [OF _ assms(3), of t] show ?thesis by (simp add: scrub_step key)
  qed
  show ?case using one assms(4-7) scrub_rest [OF assms(1,3)] by simp
next
  case (Cons c k2)
  have all: "list_all secret_char (c # k2)"
    using assms(1) Cons.prems unfolding list_all_iff lower_def by (metis (no_types, lifting) Un_iff imageI list.set_map lower_char_secret set_append)
  show ?case
  proof (cases "key_before key (rev k1 @ before)")
    case True
    have "scrub_after key (rev k1 @ before) ((c # k2) @ z @ r) =
        place_holder @ scrub_after key (rev ((c # k2) @ z) @ rev k1 @ before) r" if "list_all secret_char z" for z
      using that all True takeWhile_secret [OF _ assms(3), of "k2 @ z"] by (simp add: scrub_step)
    then show ?thesis using assms(6,7) scrub_rest [OF assms(1,3)] by simp
  next
    case False
    with Cons.IH [of "k1 @ [c]"] Cons.prems show ?thesis by (simp add: scrub_step)
  qed
qed

lemma scrub_hides:
  assumes "list_all secret_char key" "lower k = key" "r = [] \<or> \<not> secret_char (hd r)"
    and "x \<noteq> []" "y \<noteq> []" "list_all secret_char x" "list_all secret_char y"
  shows "scrub_after key before (a @ k @ x @ r) = scrub_after key before (a @ k @ y @ r)"
proof (induction "length a" arbitrary: a before rule: less_induct)
  case less
  show ?case
  proof (cases a)
    case Nil
    with scrub_key_hides [of key "[]" k, OF assms(1) _ assms(3-7)] assms(2) show ?thesis by simp
  next
    case (Cons c t)
    show ?thesis
    proof (cases "key_before key before \<and> secret_char c")
      case False
      with less.hyps [of t "c # before"] Cons show ?thesis by (auto simp: scrub_step)
    next
      case True
      show ?thesis
      proof (cases "list_all secret_char t")
        case all: True
        have k: "list_all secret_char k"
          using assms(1,2) by (auto simp: lower_def list_all_iff)
        have "scrub_after key before (a @ k @ z @ r) = place_holder @ scrub_after key (rev (a @ k @ z) @ before) r"
          if "list_all secret_char z" for z
          using that all True k takeWhile_secret [OF _ assms(3), of "t @ k @ z"] by (simp add: Cons scrub_step)
        then show ?thesis using assms(6,7) scrub_rest [OF assms(1,3)] by simp
      next
        case part: False
        then have split: "takeWhile secret_char (t @ s) = takeWhile secret_char t"
          "dropWhile secret_char (t @ s) = dropWhile secret_char t @ s" for s
          by (auto simp: list_all_iff takeWhile_append dropWhile_append)
        have "length (dropWhile secret_char t) < length a" using length_dropWhile_le [of secret_char t] Cons by simp
        from less.hyps [OF this] show ?thesis using True split by (simp add: Cons scrub_step)
      qed
    qed
  qed
qed

text \<open>One pass of the scrubber hides the text after its key: whatever the secret is, the result is
  the same.\<close>

theorem scrub_after_hides_secret:
  assumes "key \<in> set default_keys" "lower k = key" "r = [] \<or> \<not> secret_char (hd r)"
    and "x \<noteq> []" "y \<noteq> []" "list_all secret_char x" "list_all secret_char y"
  shows "scrub_after key [] (a @ k @ x @ r) = scrub_after key [] (a @ k @ y @ r)"
proof -
  have "list_all secret_char key" using assms(1) by (auto simp: default_keys_def) code_simp+
  from scrub_hides [OF this assms(2-7)] show ?thesis .
qed

theorem scrub_after_hides_secret_witness:
  "scrub_after ''key='' [] ''accountKEY=abc; x'' = scrub_after ''key='' [] ''accountKEY=zz9; x'' \<and>
   scrub_after ''key='' [] ''accountKEY=abc; x'' = ''accountKEY=**data_scrubbed**; x''"
proof -
  have h: "''key='' \<in> set default_keys" "lower ''KEY='' = ''key=''" "''; x'' = [] \<or> \<not> secret_char (hd ''; x'')"
    "''abc'' \<noteq> []" "''zz9'' \<noteq> []" "list_all secret_char ''abc''" "list_all secret_char ''zz9''" by code_simp+
  have v: "scrub_after ''key='' [] ''accountKEY=abc; x'' = ''accountKEY=**data_scrubbed**; x''" by code_simp
  from scrub_after_hides_secret [OF h, of "''account''"] v show ?thesis by simp
qed

end
