(* ===== verification/Runs.thy ===== *)
theory Runs imports FlowContract LogManager begin

text \<open>
  \<^verbatim>\<open>contracts/run_info.py\<close>, \<^verbatim>\<open>contracts/run_mode.py\<close> and \<^verbatim>\<open>_core/run_tracker.py\<close>: the
  records of flow and node runs and the tracker that starts, ends and collects them. Python
  shares one object between the tracker and its callers; the model keeps it in the tracker, under
  its run id. What the tracker hands to its storage is the list \<open>rt_persisted\<close>, in order (the
  dummy storage drops it, the queue storage of the worker processes sends it on). Times are
  microseconds, read from the clock by the caller.
\<close>

section \<open>Run records\<close>

datatype status = Running | Preparing | Completed | Failed | Canceled | NotStarted | CancelRequested

fun status_value :: "status \<Rightarrow> string" where
  "status_value Running = ''Running''"
| "status_value Preparing = ''Preparing''"
| "status_value Completed = ''Completed''"
| "status_value Failed = ''Failed''"
| "status_value Canceled = ''Canceled''"
| "status_value NotStarted = ''NotStarted''"
| "status_value CancelRequested = ''CancelRequested''"

definition is_terminated :: "string \<Rightarrow> bool" where
  "is_terminated s = (s \<in> set (map status_value [Completed, Failed, Canceled]))"

datatype run_mode = Test | SingleNode | Batch

definition run_mode_parse :: "pyval \<Rightarrow> run_mode res" where
  "run_mode_parse v = (case as_str v of
     None \<Rightarrow> Inl (py_exn ValueError [PStr ''Invalid value type to parse: ''])
   | Some s \<Rightarrow> Inr (if s = ''SingleNode'' then SingleNode else if s = ''Batch'' then Batch else Test))"

record run_info =
  ri_node :: string
  ri_flow_run_id :: string
  ri_run_id :: string
  ri_status :: status
  ri_inputs :: "(string, pyval) dict option"
  ri_output :: pyval
  ri_metrics :: pyval
  ri_error :: pyval
  ri_parent_run_id :: string
  ri_start_time :: int
  ri_end_time :: "int option"
  ri_index :: "int option"
  ri_api_calls :: "pyval list option"
  ri_variant_id :: string
  ri_cached_run_id :: "string option"
  ri_cached_flow_run_id :: "string option"
  ri_logs :: "(string, pyval) dict option"
  ri_system_metrics :: "(string, pyval) dict option"
  ri_result :: pyval

record flow_run_info =
  fr_run_id :: string
  fr_status :: status
  fr_error :: pyval
  fr_inputs :: "(string, pyval) dict"
  fr_output :: pyval
  fr_parent_run_id :: string
  fr_root_run_id :: string
  fr_flow_id :: pyval
  fr_start_time :: int
  fr_end_time :: "int option"
  fr_index :: "int option"
  fr_api_calls :: "pyval list option"
  fr_variant_id :: string
  fr_system_metrics :: "(string, pyval) dict option"
  fr_result :: pyval

section \<open>Metrics of traces\<close>

text \<open>\<open>a + b\<close> on the counters of the usage records; sums of floats are outside the model.\<close>

fun py_int :: "pyval \<Rightarrow> int option" where
  "py_int (PInt i) = Some i"
| "py_int (PBool b) = Some (if b then 1 else 0)"
| "py_int _ = None"

definition py_add :: "pyval \<Rightarrow> pyval \<Rightarrow> pyval res" where
  "py_add a b =
    (case (py_int a, py_int b) of
       (Some i, Some j) \<Rightarrow> Inr (PInt (i + j))
     | _ \<Rightarrow> (case (num_of a, num_of b) of
         (Some _, Some _) \<Rightarrow> Inl outside_model
       | _ \<Rightarrow> Inl (py_exn TypeError [PStr ''unsupported operand types for +''])))"

definition merge_metrics_dict :: "(string, pyval) dict \<Rightarrow> (string, pyval) dict \<Rightarrow> (string, pyval) dict res" where
  "merge_metrics_dict metrics to_merge =
     foldr_res (\<lambda>(k, v) m. bindr (py_add (dict_get m k (PInt 0)) v) (\<lambda>w. Inr (AList.update k w m))) to_merge metrics"

definition need_collect_metrics :: "(string, pyval) dict \<Rightarrow> bool" where
  "need_collect_metrics call =
    (map_of call ''type'' = Some (PStr ''LLM'') \<and>
     (case map_of call ''output'' of
        Some (PDict d) \<Rightarrow> (case map_of d ''usage'' of Some (PDict u) \<Rightarrow> True | _ \<Rightarrow> False)
      | _ \<Rightarrow> False))"

definition call_usage :: "(string, pyval) dict \<Rightarrow> (string, pyval) dict" where
  "call_usage call =
    (if need_collect_metrics call then
       (case map_of call ''output'' of
          Some (PDict d) \<Rightarrow> (case map_of d ''usage'' of Some (PDict u) \<Rightarrow> u | _ \<Rightarrow> [])
        | _ \<Rightarrow> [])
     else [])"

text \<open>The children of a trace, which are traces again; \<open>None\<close> and a missing entry mean no children.\<close>

definition call_children :: "(string, pyval) dict \<Rightarrow> pyval list res" where
  "call_children call = (case map_of call ''children'' of
     None \<Rightarrow> Inr [] | Some PNone \<Rightarrow> Inr [] | Some (PList cs) \<Rightarrow> Inr cs
   | Some _ \<Rightarrow> Inl (py_exn TypeError [PStr ''object is not iterable'']))"

lemma call_children_size:
  assumes "call_children call = Inr cs" "c \<in> set cs"
  shows "size c < size (PDict call)"
proof -
  from assms have "(''children'', PList cs) \<in> set call"
    by (auto simp: call_children_def split: option.splits pyval.splits dest: map_of_SomeD)
  from size_dict_entry [OF this] assms(2) have "size c < size_list (size_prod (\<lambda>_. 0) size) call + 1"
    by (auto dest: size_list_estimation' [OF _ order.refl, where f = size])
  then show ?thesis by simp
qed

lemma foldr_res_cong [fundef_cong]:
  assumes "xs = ys" "s = t" "\<And>x u. x \<in> set ys \<Longrightarrow> f x u = g x u"
  shows "foldr_res f xs s = foldr_res g ys t"
proof -
  have "foldr_res f ys s = foldr_res g ys s"
    using assms(3) by (induction ys arbitrary: s) (auto intro: bindr_cong)
  with assms(1,2) show ?thesis by simp
qed

function get_openai_metrics :: "pyval \<Rightarrow> (string, pyval) dict res" where
  "get_openai_metrics v =
    (case v of
       PDict call \<Rightarrow>
         bindr (merge_metrics_dict [] (call_usage call)) (\<lambda>total.
           (case call_children call of
              Inl e \<Rightarrow> Inl e
            | Inr cs \<Rightarrow> foldr_res (\<lambda>c t. bindr (get_openai_metrics c) (merge_metrics_dict t)) cs total))
     | _ \<Rightarrow> Inl (py_exn AttributeError [PStr ''get'']))"
  by pat_completeness auto
termination
  by (relation "measure size") (use call_children_size in \<open>auto\<close>)

declare get_openai_metrics.simps [simp del]

section \<open>The tracker\<close>

datatype persisted = NodeRun run_info | FlowRun flow_run_info

record run_tracker =
  rt_node_runs :: "(string, run_info) dict"
  rt_flow_runs :: "(string, flow_run_info) dict"
  rt_current_run_id :: string
  rt_run_context :: string
  rt_persisted :: "persisted list"
  rt_log_manager :: log_manager
  rt_run_mode :: run_mode
  rt_allow_generator_types :: bool

definition new_run_tracker :: "run_mode \<Rightarrow> log_manager \<Rightarrow> run_tracker" where
  "new_run_tracker mode lm = \<lparr>rt_node_runs = [], rt_flow_runs = [], rt_current_run_id = [], rt_run_context = [],
     rt_persisted = [], rt_log_manager = lm, rt_run_mode = mode, rt_allow_generator_types = False\<rparr>"

definition node_run_list :: "run_tracker \<Rightarrow> run_info list" where
  "node_run_list rt = dict_values (rt_node_runs rt)"

definition flow_run_list :: "run_tracker \<Rightarrow> flow_run_info list" where
  "flow_run_list rt = dict_values (rt_flow_runs rt)"

definition persist_node_run :: "run_info \<Rightarrow> run_tracker \<Rightarrow> run_tracker" where
  "persist_node_run r rt = rt\<lparr>rt_persisted := rt_persisted rt @ [NodeRun r]\<rparr>"

definition persist_flow_run :: "flow_run_info \<Rightarrow> run_tracker \<Rightarrow> run_tracker" where
  "persist_flow_run r rt = rt\<lparr>rt_persisted := rt_persisted rt @ [FlowRun r]\<rparr>"

definition put_node_run :: "run_info \<Rightarrow> run_tracker \<Rightarrow> run_tracker" where
  "put_node_run r rt = rt\<lparr>rt_node_runs := AList.update (ri_run_id r) r (rt_node_runs rt)\<rparr>"

definition put_flow_run :: "flow_run_info \<Rightarrow> run_tracker \<Rightarrow> run_tracker" where
  "put_flow_run r rt = rt\<lparr>rt_flow_runs := AList.update (fr_run_id r) r (rt_flow_runs rt)\<rparr>"

definition start_flow_run ::
  "int \<Rightarrow> pyval \<Rightarrow> string \<Rightarrow> string \<Rightarrow> string \<Rightarrow> (string, pyval) dict \<Rightarrow> int option \<Rightarrow> string \<Rightarrow> run_tracker \<Rightarrow>
     flow_run_info \<times> run_tracker" where
  "start_flow_run now fid root_run_id run_id parent_run_id inputs index variant_id rt =
    (let r = \<lparr>fr_run_id = run_id, fr_status = Running, fr_error = PNone, fr_inputs = inputs, fr_output = PNone,
           fr_parent_run_id = parent_run_id, fr_root_run_id = root_run_id, fr_flow_id = fid,
           fr_start_time = now, fr_end_time = None, fr_index = index, fr_api_calls = None,
           fr_variant_id = variant_id, fr_system_metrics = None, fr_result = PNone\<rparr>
     in (r, (put_flow_run r (persist_flow_run r rt))\<lparr>rt_current_run_id := run_id\<rparr>))"

definition start_node_run ::
  "int \<Rightarrow> string \<Rightarrow> string \<Rightarrow> string \<Rightarrow> string \<Rightarrow> int option \<Rightarrow> run_tracker \<Rightarrow> run_info \<times> run_tracker" where
  "start_node_run now name flow_run_id parent_run_id run_id index rt =
    (let r = \<lparr>ri_node = name, ri_flow_run_id = flow_run_id, ri_run_id = run_id, ri_status = Running,
           ri_inputs = None, ri_output = PNone, ri_metrics = PNone, ri_error = PNone,
           ri_parent_run_id = parent_run_id, ri_start_time = now, ri_end_time = None, ri_index = None,
           ri_api_calls = None, ri_variant_id = [], ri_cached_run_id = None, ri_cached_flow_run_id = None,
           ri_logs = None, ri_system_metrics = None, ri_result = PNone\<rparr>
     in (r, (put_node_run r rt)\<lparr>rt_current_run_id := run_id, rt_run_context := run_id,
           rt_log_manager := set_node_context run_id name index (rt_log_manager rt)\<rparr>))"

text \<open>\<open>json.dumps\<close> fails on what is not JSON data; with a warning the value is stored as its \<open>repr\<close>.\<close>

definition ensure_serializable_value :: "pyenv \<Rightarrow> string list \<Rightarrow> run_tracker \<Rightarrow> bool \<Rightarrow> pyval \<Rightarrow> pyval res" where
  "ensure_serializable_value env conns rt warn v =
    (if is_connection_value conns v then serialize_conn conns v
     else if rt_allow_generator_types rt \<and> (case v of PGen _ \<Rightarrow> True | _ \<Rightarrow> False) then Inr (PStr (py_str (obj_repr env) v))
     else if json_ok v then Inr v
     else if \<not> warn then Inl (py_exn TypeError [PStr ''Object is not JSON serializable''])
     else Inr (PStr (py_repr (obj_repr env) v)))"

definition ensure_inputs_is_json_serializable ::
  "pyenv \<Rightarrow> string list \<Rightarrow> run_tracker \<Rightarrow> (string, pyval) dict \<Rightarrow> (string, pyval) dict res" where
  "ensure_inputs_is_json_serializable env conns rt inputs =
     mapr (\<lambda>(k, v). bindr (ensure_serializable_value env conns rt True v) (\<lambda>w. Inr (k, w))) inputs"

text \<open>The exception quotes the one that was raised: \<open>str(e)\<close>.\<close>

definition assert_flow_output_serializable ::
  "pyenv \<Rightarrow> string list \<Rightarrow> run_tracker \<Rightarrow> (string, pyval) dict \<Rightarrow> (string, pyval) dict res" where
  "assert_flow_output_serializable env conns rt out =
    (case mapr (\<lambda>(k, v). bindr (ensure_serializable_value env conns rt False v) (\<lambda>w. Inr (k, w))) out of
       Inr d \<Rightarrow> Inr d
     | Inl e \<Rightarrow> bindr (message env e) (\<lambda>s. Inl (raise_from (pf_exn (Pf UserErrorException)
         [PStr ''Flow output must be json serializable, dump json failed: '', PStr s] FLOW_EXECUTOR) e)))"

definition duration_entry :: "int \<Rightarrow> int \<Rightarrow> (string, pyval) dict option \<Rightarrow> (string, pyval) dict" where
  "duration_entry start_t end_t metrics =
     AList.update ''duration'' (PFloat (float_fin (end_t - start_t) (- 6))) (case metrics of None \<Rightarrow> [] | Some m \<Rightarrow> m)"

text \<open>\<open>_common_postprocess\<close>, for a flow run and for a node run; \<open>None\<close> is no output or no exception.\<close>

definition finish_flow_run :: "pyenv \<Rightarrow> int \<Rightarrow> pyval \<Rightarrow> exn option \<Rightarrow> flow_run_info \<Rightarrow> flow_run_info res" where
  "finish_flow_run env now out e r =
    (let r1 = (if out \<noteq> PNone then r\<lparr>fr_result := out, fr_output := out\<rparr> else r) in
     bindr (case e of
         Some x \<Rightarrow> bindr (error_to_dict env True x) (\<lambda>d. Inr (r1\<lparr>fr_error := d, fr_status := Failed\<rparr>))
       | None \<Rightarrow> Inr (r1\<lparr>fr_status := Completed\<rparr>)) (\<lambda>r2.
       Inr (r2\<lparr>fr_end_time := Some now,
         fr_system_metrics := Some (duration_entry (fr_start_time r2) now (fr_system_metrics r2))\<rparr>)))"

definition finish_node_run :: "pyenv \<Rightarrow> int \<Rightarrow> pyval \<Rightarrow> exn option \<Rightarrow> run_info \<Rightarrow> run_info res" where
  "finish_node_run env now out e r =
    (let r1 = (if out \<noteq> PNone then r\<lparr>ri_result := out, ri_output := out\<rparr> else r) in
     bindr (case e of
         Some x \<Rightarrow> bindr (error_to_dict env True x) (\<lambda>d. Inr (r1\<lparr>ri_error := d, ri_status := Failed\<rparr>))
       | None \<Rightarrow> Inr (r1\<lparr>ri_status := Completed\<rparr>)) (\<lambda>r2.
       Inr (r2\<lparr>ri_end_time := Some now,
         ri_system_metrics := Some (duration_entry (ri_start_time r2) now (ri_system_metrics r2))\<rparr>)))"

definition flow_run_postprocess ::
  "pyenv \<Rightarrow> string list \<Rightarrow> int \<Rightarrow> run_tracker \<Rightarrow> pyval \<Rightarrow> exn option \<Rightarrow> flow_run_info \<Rightarrow> flow_run_info res" where
  "flow_run_postprocess env conns now rt out e r =
    (if truthy out then
       (case (case out of PDict d \<Rightarrow> bindr (assert_flow_output_serializable env conns rt d) (\<lambda>_. Inr ())
            | _ \<Rightarrow> Inl (py_exn AttributeError [PStr ''items''])) of
          Inl x \<Rightarrow> finish_flow_run env now PNone (Some x) r
        | Inr _ \<Rightarrow> finish_flow_run env now out e r)
     else finish_flow_run env now out e r)"

definition run_not_found :: "string \<Rightarrow> string \<Rightarrow> exn" where
  "run_not_found run_id tail = pf_exn (Ot RunRecordNotFound) [PStr (''Run '' @ run_id @ '' not found'' @ tail)] RUN_TRACKER"

text \<open>The openai metrics of all the traces of a run.\<close>

definition collect_openai_metrics :: "pyval list \<Rightarrow> (string, pyval) dict \<Rightarrow> (string, pyval) dict res" where
  "collect_openai_metrics calls acc =
     foldr_res (\<lambda>c t. bindr (get_openai_metrics c) (merge_metrics_dict t)) calls acc"

definition set_openai_metrics :: "run_info \<Rightarrow> run_info res" where
  "set_openai_metrics r =
     bindr (collect_openai_metrics (case ri_api_calls r of None \<Rightarrow> [] | Some cs \<Rightarrow> cs) []) (\<lambda>total.
       Inr (r\<lparr>ri_system_metrics := Some (dict_updates (case ri_system_metrics r of None \<Rightarrow> [] | Some m \<Rightarrow> m) total)\<rparr>))"

text \<open>
  The text of a run's log is removed when it is stored. When a step raises, what the steps before it
  changed stays in the code; here the caller keeps the tracker it had.
\<close>

definition node_run_postprocess ::
  "pyenv \<Rightarrow> string list \<Rightarrow> int \<Rightarrow> pyval \<Rightarrow> exn option \<Rightarrow> run_info \<Rightarrow> run_tracker \<Rightarrow> run_tracker res" where
  "node_run_postprocess env conns now out e r rt =
    bindr (set_openai_metrics r) (\<lambda>r1.
      let r2 = r1\<lparr>ri_logs := Some (get_logs (ri_run_id r) (rt_log_manager rt))\<rparr>;
          rt1 = rt\<lparr>rt_log_manager := clear_node_context (ri_run_id r) (rt_log_manager rt)\<rparr> in
      bindr (case ri_inputs r2 of
          Some ins \<Rightarrow> if ins = [] then Inr r2
            else bindr (ensure_inputs_is_json_serializable env conns rt ins) (\<lambda>i. Inr (r2\<lparr>ri_inputs := Some i\<rparr>))
        | None \<Rightarrow> Inr r2) (\<lambda>r3.
      bindr (if out \<noteq> PNone then ensure_serializable_value env conns rt True out else Inr out) (\<lambda>out'.
      bindr (finish_node_run env now out' e r3) (\<lambda>r4. Inr (put_node_run r4 rt1)))))"

definition end_run ::
  "pyenv \<Rightarrow> string list \<Rightarrow> int \<Rightarrow> string \<Rightarrow> pyval \<Rightarrow> exn option \<Rightarrow> pyval list option \<Rightarrow> run_tracker \<Rightarrow> run_tracker res" where
  "end_run env conns now run_id out e traces rt =
    (case map_of (rt_flow_runs rt) run_id of
       Some r \<Rightarrow> bindr (flow_run_postprocess env conns now rt out e r) (\<lambda>r'. Inr (put_flow_run r' rt))
     | None \<Rightarrow>
        (case map_of (rt_node_runs rt) run_id of
           Some r \<Rightarrow> node_run_postprocess env conns now out e (r\<lparr>ri_api_calls := traces\<rparr>) rt
         | None \<Rightarrow> Inl (run_not_found run_id [])))"

definition set_inputs :: "string \<Rightarrow> (string, pyval) dict \<Rightarrow> run_tracker \<Rightarrow> run_tracker res" where
  "set_inputs run_id inputs rt =
    (case map_of (rt_node_runs rt) run_id of
       Some r \<Rightarrow> Inr (put_node_run (r\<lparr>ri_inputs := Some inputs\<rparr>) rt)
     | None \<Rightarrow>
        (case map_of (rt_flow_runs rt) run_id of
           Some r \<Rightarrow> Inr (put_flow_run (r\<lparr>fr_inputs := inputs\<rparr>) rt)
         | None \<Rightarrow> Inl (run_not_found run_id '' when tracking inputs'')))"

definition collect_node_runs :: "string option \<Rightarrow> run_tracker \<Rightarrow> run_info list" where
  "collect_node_runs flow_run_id rt = (case flow_run_id of
     Some k \<Rightarrow> if k \<noteq> [] then filter (\<lambda>r. ri_flow_run_id r = k) (node_run_list rt) else node_run_list rt
   | None \<Rightarrow> node_run_list rt)"

definition collect_child_node_runs :: "string \<Rightarrow> run_tracker \<Rightarrow> run_info list" where
  "collect_child_node_runs parent_run_id rt = filter (\<lambda>r. ri_parent_run_id r = parent_run_id) (node_run_list rt)"

definition collect_traces_from_nodes :: "string \<Rightarrow> run_tracker \<Rightarrow> pyval list res" where
  "collect_traces_from_nodes run_id rt =
    bindr (mapr (\<lambda>r. case ri_api_calls r of Some cs \<Rightarrow> Inr cs
        | None \<Rightarrow> Inl (py_exn TypeError [PStr ''NoneType object is not iterable''])) (collect_child_node_runs run_id rt))
      (\<lambda>css. Inr (concat css))"

definition collect_metrics :: "run_info list \<Rightarrow> string list \<Rightarrow> (string, pyval) dict res" where
  "collect_metrics runs metrics =
    (if metrics = [] then Inr []
     else foldr_res (\<lambda>r total. case ri_system_metrics r of
         None \<Rightarrow> Inr total
       | Some sm \<Rightarrow> if sm = [] then Inr total
           else foldr_res (\<lambda>m t. bindr (py_add (dict_get t m (PInt 0)) (dict_get sm m (PInt 0)))
                   (\<lambda>v. Inr (AList.update m v t))) metrics total) runs [])"

definition openai_aggregate_metrics :: "string list" where
  "openai_aggregate_metrics = [''total_tokens'']"

definition update_flow_run_info_with_node_runs :: "string \<Rightarrow> run_tracker \<Rightarrow> run_tracker res" where
  "update_flow_run_info_with_node_runs run_id rt =
    (case map_of (rt_flow_runs rt) run_id of
       None \<Rightarrow> Inl outside_model
     | Some r \<Rightarrow>
        bindr (collect_traces_from_nodes run_id rt) (\<lambda>traces.
        bindr (collect_metrics (collect_child_node_runs run_id rt) openai_aggregate_metrics) (\<lambda>m.
          Inr (put_flow_run (r\<lparr>fr_api_calls := Some traces,
            fr_system_metrics := Some (dict_updates (case fr_system_metrics r of None \<Rightarrow> [] | Some s \<Rightarrow> s) m)\<rparr>) rt))))"

section \<open>Status summaries\<close>

definition node_key :: "string \<Rightarrow> string \<Rightarrow> string" where
  "node_key name ending = ''__pf__.nodes.'' @ name @ ending"

definition bump :: "string \<Rightarrow> (string, int) dict \<Rightarrow> (string, int) dict res" where
  "bump k d = (case map_of d k of Some n \<Rightarrow> Inr (AList.update k (n + 1) d) | None \<Rightarrow> Inl (py_exn KeyError [PStr (repr_str k)]))"

text \<open>Only the suffix of the key is lowered: the method call binds to the last f-string.\<close>

definition count_node_run :: "run_info \<Rightarrow> (string, int) dict \<Rightarrow> (string, int) dict res" where
  "count_node_run r summary =
    (let s1 = (if dict_has (node_key (ri_node r) ''.completed'') summary then summary
               else AList.update (node_key (ri_node r) ''.failed'') 0
                 (AList.update (node_key (ri_node r) ''.completed'') 0 summary))
     in if ri_status r = Completed \<or> ri_status r = Failed
        then bump (node_key (ri_node r) (lower (''.'' @ status_value (ri_status r)))) s1
        else Inr s1)"

definition note_line :: "int option \<Rightarrow> bool \<Rightarrow> (int option, bool) dict \<Rightarrow> (int option, bool) dict" where
  "note_line i ok lines = AList.update i (dict_get lines i True \<and> ok) lines"

definition lines_summary :: "(int option, bool) dict \<Rightarrow> (string, int) dict \<Rightarrow> (string, int) dict" where
  "lines_summary lines summary =
    (let done_lines = int (length (filter (\<lambda>(i, b). b) lines)) in
     AList.update ''__pf__.lines.failed'' (int (length lines) - done_lines)
       (AList.update ''__pf__.lines.completed'' done_lines summary))"

definition summary_step ::
  "run_info \<Rightarrow> (string, int) dict \<times> (int option, bool) dict \<Rightarrow> ((string, int) dict \<times> (int option, bool) dict) res" where
  "summary_step r st = (case st of (summary, lines) \<Rightarrow>
     case ri_index r of
       Some i \<Rightarrow> bindr (count_node_run r summary) (\<lambda>s. Inr (s, note_line (Some i) (ri_status r = Completed) lines))
     | None \<Rightarrow> Inr (AList.update (node_key (ri_node r) ''.completed'') (if ri_status r = Completed then 1 else 0) summary, lines))"

definition get_status_summary :: "string option \<Rightarrow> run_tracker \<Rightarrow> (string, int) dict res" where
  "get_status_summary run_id rt =
    bindr (foldr_res summary_step (collect_node_runs run_id rt) ([], [])) (\<lambda>(summary, lines).
      Inr (lines_summary lines summary))"

section \<open>Metrics are sums over the traces\<close>

function llm_usages :: "pyval \<Rightarrow> (string, pyval) dict list" where
  "llm_usages v = (case v of
     PDict call \<Rightarrow> call_usage call #
       (case call_children call of Inl e \<Rightarrow> [] | Inr cs \<Rightarrow> concat (map llm_usages cs))
   | _ \<Rightarrow> [])"
  by pat_completeness auto
termination
  by (relation "measure size") (use call_children_size in \<open>auto\<close>)

declare llm_usages.simps [simp del]

definition entry_sum :: "(string, pyval) dict \<Rightarrow> string \<Rightarrow> int" where
  "entry_sum d k = sum_list (map (\<lambda>(j, v). if j = k then (case py_int v of Some i \<Rightarrow> i | None \<Rightarrow> 0) else 0) d)"

definition metric :: "(string, pyval) dict \<Rightarrow> string \<Rightarrow> int" where
  "metric m k = (case map_of m k of Some v \<Rightarrow> (case py_int v of Some i \<Rightarrow> i | None \<Rightarrow> 0) | None \<Rightarrow> 0)"

lemma metric_nil [simp]: "metric [] k = 0"
  by (simp add: metric_def)

lemma py_add_ints: "py_add a b = Inr w \<Longrightarrow> \<exists>i j. py_int a = Some i \<and> py_int b = Some j \<and> w = PInt (i + j)"
  by (auto simp: py_add_def split: option.splits)

lemma merge_metrics:
  "merge_metrics_dict m d = Inr t \<Longrightarrow> metric t k = metric m k + entry_sum d k"
proof (induction d arbitrary: m)
  case Nil
  then show ?case by (simp add: merge_metrics_dict_def entry_sum_def)
next
  case (Cons jv d)
  obtain j v where jv: "jv = (j, v)" by force
  from Cons.prems obtain w where w: "py_add (dict_get m j (PInt 0)) v = Inr w"
    "merge_metrics_dict (AList.update j w m) d = Inr t"
    by (auto simp: merge_metrics_dict_def jv res_simps)
  from py_add_ints [OF w(1)] obtain a b where ab: "py_int (dict_get m j (PInt 0)) = Some a" "py_int v = Some b" "w = PInt (a + b)"
    by blast
  have "metric (AList.update j w m) k = metric m k + (if j = k then b else 0)"
    using ab by (auto simp: metric_def dict_get_def split: option.splits)
  with Cons.IH [OF w(2)] ab(2) show ?case by (simp add: jv entry_sum_def)
qed

lemma merge_metrics_distinct:
  "merge_metrics_dict m d = Inr t \<Longrightarrow> distinct (map fst m) \<Longrightarrow> distinct (map fst t)"
  by (induction d arbitrary: m) (auto simp: merge_metrics_dict_def res_simps distinct_update)

lemma entry_sum_metric: "distinct (map fst d) \<Longrightarrow> entry_sum d k = metric d k"
proof (induction d)
  case (Cons jv d)
  obtain j v where jv: "jv = (j, v)" by force
  have zero: "entry_sum d j = 0" if "j \<notin> fst ` set d"
    using that by (induction d) (auto simp: entry_sum_def)
  show ?case
  proof (cases "j = k")
    case True
    with Cons.prems zero show ?thesis by (simp add: jv entry_sum_def metric_def)
  next
    case False
    with Cons show ?thesis by (simp add: jv entry_sum_def metric_def)
  qed
qed (simp add: entry_sum_def metric_def)

lemma merge_all_metrics:
  assumes "foldr_res (\<lambda>c t. bindr (f c) (merge_metrics_dict t)) cs acc = Inr t" "distinct (map fst acc)"
    and "\<And>c m. c \<in> set cs \<Longrightarrow> f c = Inr m \<Longrightarrow> distinct (map fst m) \<and> metric m k = g c"
  shows "distinct (map fst t) \<and> metric t k = metric acc k + sum_list (map g cs)"
  using assms
proof (induction cs arbitrary: acc)
  case (Cons c cs)
  from Cons.prems(1) obtain m u where mu: "f c = Inr m" "merge_metrics_dict acc m = Inr u"
    "foldr_res (\<lambda>c t. bindr (f c) (merge_metrics_dict t)) cs u = Inr t" by (auto simp: res_simps)
  from Cons.prems(3) [of c m] mu(1) have m: "distinct (map fst m)" "metric m k = g c" by auto
  have "distinct (map fst t) \<and> metric t k = metric u k + sum_list (map g cs)"
    by (rule Cons.IH [OF mu(3) merge_metrics_distinct [OF mu(2) Cons.prems(2)]]) (use Cons.prems(3) in auto)
  with merge_metrics [OF mu(2), of k] m show ?case by (simp add: entry_sum_metric)
qed simp

lemma openai_metrics_sum:
  "get_openai_metrics v = Inr m \<Longrightarrow>
     distinct (map fst m) \<and> metric m k = sum_list (map (\<lambda>u. entry_sum u k) (llm_usages v))"
proof (induction v arbitrary: m rule: get_openai_metrics.induct)
  case (1 v)
  from 1(2) obtain call where v: "v = PDict call" by (simp add: get_openai_metrics.simps [of v] split: pyval.splits)
  obtain cs where cs: "call_children call = Inr cs"
    using 1(2) by (cases "call_children call") (auto simp: v get_openai_metrics.simps [of "PDict call"] res_simps)
  with 1(2) obtain t where t: "merge_metrics_dict [] (call_usage call) = Inr t" "call_children call = Inr cs"
    "foldr_res (\<lambda>c t. bindr (get_openai_metrics c) (merge_metrics_dict t)) cs t = Inr m"
    by (auto simp: v get_openai_metrics.simps [of "PDict call"] res_simps)
  have "distinct (map fst m) \<and> metric m k = metric t k + sum_list (map (\<lambda>c. sum_list (map (\<lambda>u. entry_sum u k) (llm_usages c))) cs)"
    using 1(1) [OF v t(1) t(2)] merge_metrics_distinct [OF t(1)] by (intro merge_all_metrics [OF t(3)]) auto
  moreover have "sum_list (map (\<lambda>u. entry_sum u k) (concat (map llm_usages cs))) =
      sum_list (map (\<lambda>c. sum_list (map (\<lambda>u. entry_sum u k) (llm_usages c))) cs)"
    by (induction cs) simp_all
  ultimately show ?case using merge_metrics [OF t(1), of k] by (simp add: v llm_usages.simps [of "PDict call"] t(2))
qed

text \<open>C20. The openai metrics of a run are, counter by counter, the sums over all the LLM calls of its
  traces, nested ones included, each counted once.\<close>

theorem collect_openai_metrics_sum:
  assumes "collect_openai_metrics calls [] = Inr m"
  shows "metric m k = (\<Sum>c\<leftarrow>calls. \<Sum>u\<leftarrow>llm_usages c. entry_sum u k)"
  using merge_all_metrics [OF assms [unfolded collect_openai_metrics_def], of k "\<lambda>c. \<Sum>u\<leftarrow>llm_usages c. entry_sum u k"]
    openai_metrics_sum by simp

definition demo_call :: "int \<Rightarrow> pyval list \<Rightarrow> pyval" where
  "demo_call n cs = PDict [(''type'', PStr ''LLM''), (''output'', PDict [(''usage'', PDict [(''total_tokens'', PInt n)])]),
     (''children'', PList cs)]"

theorem collect_openai_metrics_sum_witness:
  "collect_openai_metrics [demo_call 3 [demo_call 4 []], demo_call 5 []] [] = Inr [(''total_tokens'', PInt 12)] \<and>
   metric [(''total_tokens'', PInt 12)] ''total_tokens'' =
     (\<Sum>c\<leftarrow>[demo_call 3 [demo_call 4 []], demo_call 5 []]. \<Sum>u\<leftarrow>llm_usages c. entry_sum u ''total_tokens'')"
proof -
  have c: "collect_openai_metrics [demo_call 3 [demo_call 4 []], demo_call 5 []] [] = Inr [(''total_tokens'', PInt 12)]"
    by code_simp
  show ?thesis using c collect_openai_metrics_sum [OF c] by blast
qed

section \<open>Status summaries count the runs\<close>

lemma node_key_inject [simp]:
  "node_key n ''.completed'' = node_key m ''.completed'' \<longleftrightarrow> n = m"
  "node_key n ''.failed'' = node_key m ''.failed'' \<longleftrightarrow> n = m"
  by (simp_all add: node_key_def)

lemma node_key_differ [simp]:
  "node_key n ''.completed'' \<noteq> node_key m ''.failed''" "node_key n ''.failed'' \<noteq> node_key m ''.completed''"
proof -
  have "rev (node_key n ''.completed'') \<noteq> rev (node_key m ''.failed'')" for n m by (simp add: node_key_def)
  then show "node_key n ''.completed'' \<noteq> node_key m ''.failed''" "node_key n ''.failed'' \<noteq> node_key m ''.completed''"
    by metis+
qed

lemma lower_status:
  "lower (''.'' @ status_value Completed) = ''.completed''" "lower (''.'' @ status_value Failed) = ''.failed''"
  by code_simp+

lemma bump_counted: "map_of d k = Some n \<Longrightarrow> bump k d = Inr (AList.update k (n + 1) d)"
  by (simp add: bump_def)

definition line_runs :: "run_info list \<Rightarrow> string \<Rightarrow> status \<Rightarrow> int" where
  "line_runs rs n st = int (length (filter (\<lambda>r. ri_index r \<noteq> None \<and> ri_node r = n \<and> ri_status r = st) rs))"

definition is_line_node :: "run_info list \<Rightarrow> string \<Rightarrow> bool" where
  "is_line_node rs n \<longleftrightarrow> (\<exists>r\<in>set rs. ri_index r \<noteq> None \<and> ri_node r = n)"

text \<open>Aggregation nodes, whose runs have no line, are not nodes of lines.\<close>

definition nodes_apart :: "run_info list \<Rightarrow> bool" where
  "nodes_apart rs = list_all (\<lambda>r. ri_index r = None \<longrightarrow> \<not> list_ex (\<lambda>q. ri_index q \<noteq> None \<and> ri_node q = ri_node r) rs) rs"

definition line_completed :: "run_info list \<Rightarrow> int option \<Rightarrow> bool" where
  "line_completed rs i \<longleftrightarrow> (\<forall>r\<in>set rs. ri_index r = i \<longrightarrow> ri_status r = Completed)"

definition summary_ok :: "run_info list \<Rightarrow> (string, int) dict \<Rightarrow> bool" where
  "summary_ok rs s \<longleftrightarrow>
     (\<forall>n. is_line_node rs n \<longrightarrow> map_of s (node_key n ''.completed'') = Some (line_runs rs n Completed) \<and>
        map_of s (node_key n ''.failed'') = Some (line_runs rs n Failed)) \<and>
     (\<forall>n. n \<notin> ri_node ` set rs \<longrightarrow> map_of s (node_key n ''.completed'') = None)"

lemma line_runs_snoc:
  "line_runs (rs @ [r]) n st = line_runs rs n st + (if ri_index r \<noteq> None \<and> ri_node r = n \<and> ri_status r = st then 1 else 0)"
  by (simp add: line_runs_def)

lemma line_runs_none: "\<not> is_line_node rs n \<Longrightarrow> line_runs rs n st = 0"
  by (auto simp: line_runs_def is_line_node_def filter_empty_conv)

lemma nodes_apart_prefix: "nodes_apart (rs @ [r]) \<Longrightarrow> nodes_apart rs"
  by (auto simp: nodes_apart_def list_all_iff list_ex_iff)

lemma count_node_run_ok:
  assumes "summary_ok rs s" "nodes_apart (rs @ [r])" "ri_index r = Some i"
  shows "\<exists>t. count_node_run r s = Inr t \<and> summary_ok (rs @ [r]) t"
proof -
  let ?n = "ri_node r"
  let ?s1 = "if dict_has (node_key ?n ''.completed'') s then s
     else AList.update (node_key ?n ''.failed'') 0 (AList.update (node_key ?n ''.completed'') 0 s)"
  have here: "dict_has (node_key ?n ''.completed'') s \<longleftrightarrow> is_line_node rs ?n"
  proof
    assume "dict_has (node_key ?n ''.completed'') s"
    then have "map_of s (node_key ?n ''.completed'') \<noteq> None" by (auto simp: dict_has_def)
    with assms(1) have "?n \<in> ri_node ` set rs" unfolding summary_ok_def by metis
    then obtain q where q: "q \<in> set rs" "ri_node q = ?n" by force
    have "ri_index q \<noteq> None" using assms(2,3) q by (auto simp: nodes_apart_def list_all_iff list_ex_iff)
    with q show "is_line_node rs ?n" by (auto simp: is_line_node_def)
  next
    assume "is_line_node rs ?n"
    then show "dict_has (node_key ?n ''.completed'') s" using assms(1) by (simp add: summary_ok_def dict_has_def)
  qed
  have s1: "map_of ?s1 (node_key ?n ''.completed'') = Some (line_runs rs ?n Completed)"
    "map_of ?s1 (node_key ?n ''.failed'') = Some (line_runs rs ?n Failed)"
  proof -
    show "map_of ?s1 (node_key ?n ''.completed'') = Some (line_runs rs ?n Completed)"
      using here assms(1) by (cases "is_line_node rs ?n") (simp_all add: summary_ok_def line_runs_none)
    show "map_of ?s1 (node_key ?n ''.failed'') = Some (line_runs rs ?n Failed)"
      using here assms(1) by (cases "is_line_node rs ?n") (simp_all add: summary_ok_def line_runs_none)
  qed
  have s1_other: "map_of ?s1 (node_key m ''.completed'') = map_of s (node_key m ''.completed'')"
    "map_of ?s1 (node_key m ''.failed'') = map_of s (node_key m ''.failed'')" if "m \<noteq> ?n" for m
    using that by simp_all
  have line: "is_line_node (rs @ [r]) m \<longleftrightarrow> is_line_node rs m \<or> m = ?n" for m
    using assms(3) by (auto simp: is_line_node_def)
  have ok: "summary_ok (rs @ [r]) t"
    if t: "map_of t (node_key ?n ''.completed'') = Some (line_runs (rs @ [r]) ?n Completed)"
      "map_of t (node_key ?n ''.failed'') = Some (line_runs (rs @ [r]) ?n Failed)"
      "\<And>m. m \<noteq> ?n \<Longrightarrow> map_of t (node_key m ''.completed'') = map_of s (node_key m ''.completed'')"
      "\<And>m. m \<noteq> ?n \<Longrightarrow> map_of t (node_key m ''.failed'') = map_of s (node_key m ''.failed'')" for t
    unfolding summary_ok_def
  proof (intro conjI allI impI)
    fix m
    assume m: "is_line_node (rs @ [r]) m"
    show "map_of t (node_key m ''.completed'') = Some (line_runs (rs @ [r]) m Completed)"
      using t(1) t(3) [of m] m assms(1) by (cases "m = ?n") (simp_all add: line line_runs_snoc summary_ok_def)
    show "map_of t (node_key m ''.failed'') = Some (line_runs (rs @ [r]) m Failed)"
      using t(2) t(4) [of m] m assms(1) by (cases "m = ?n") (simp_all add: line line_runs_snoc summary_ok_def)
  next
    fix m
    assume "m \<notin> ri_node ` set (rs @ [r])"
    then show "map_of t (node_key m ''.completed'') = None"
      using t(3) [of m] assms(1) by (simp add: summary_ok_def)
  qed
  show ?thesis
  proof (cases "ri_status r = Completed \<or> ri_status r = Failed")
    case False
    with s1 s1_other have "summary_ok (rs @ [r]) ?s1" by (intro ok) (simp_all add: line_runs_snoc)
    with False show ?thesis by (simp add: count_node_run_def Let_def)
  next
    case True
    then consider "ri_status r = Completed" | "ri_status r = Failed" by blast
    then show ?thesis
    proof cases
      case 1
      have "summary_ok (rs @ [r]) (AList.update (node_key ?n ''.completed'') (line_runs rs ?n Completed + 1) ?s1)"
        using 1 s1 s1_other assms(3) by (intro ok) (simp_all add: line_runs_snoc)
      moreover have "count_node_run r s = bump (node_key ?n ''.completed'') ?s1"
        using 1 by (simp only: count_node_run_def Let_def lower_status) simp
      ultimately show ?thesis using bump_counted [OF s1(1)] by (intro exI conjI) (rule trans)
    next
      case 2
      have "summary_ok (rs @ [r]) (AList.update (node_key ?n ''.failed'') (line_runs rs ?n Failed + 1) ?s1)"
        using 2 s1 s1_other assms(3) by (intro ok) (simp_all add: line_runs_snoc)
      moreover have "count_node_run r s = bump (node_key ?n ''.failed'') ?s1"
        using 2 by (simp only: count_node_run_def Let_def lower_status) simp
      ultimately show ?thesis using bump_counted [OF s1(2)] by (intro exI conjI) (rule trans)
    qed
  qed
qed

lemma summary_fold:
  assumes "nodes_apart rs"
  shows "\<exists>s l. foldr_res summary_step rs ([], []) = Inr (s, l) \<and> summary_ok rs s \<and> distinct (map fst l) \<and>
    (\<forall>i. map_of l i = (if \<exists>r\<in>set rs. ri_index r = i \<and> i \<noteq> None then Some (line_completed rs i) else None))"
  using assms
proof (induction rs rule: rev_induct)
  case Nil
  then show ?case by (simp add: summary_ok_def is_line_node_def)
next
  case (snoc r rs)
  from snoc.IH [OF nodes_apart_prefix [OF snoc.prems]] obtain s l where
    sl: "foldr_res summary_step rs ([], []) = Inr (s, l)" "summary_ok rs s" "distinct (map fst l)"
    "\<And>i. map_of l i = (if \<exists>r\<in>set rs. ri_index r = i \<and> i \<noteq> None then Some (line_completed rs i) else None)" by blast
  show ?case
  proof (cases "ri_index r")
    case None
    have "\<not> is_line_node rs (ri_node r)"
      using snoc.prems None by (auto simp: nodes_apart_def list_all_iff list_ex_iff is_line_node_def)
    then have summary: "summary_ok (rs @ [r]) (AList.update (node_key (ri_node r) ''.completed'') (if ri_status r = Completed then 1 else 0) s)"
      using sl(2) None by (auto simp: summary_ok_def is_line_node_def line_runs_snoc)
    have "line_completed (rs @ [r]) i = line_completed rs i" if "i \<noteq> None" for i
      using that None by (auto simp: line_completed_def)
    then have "(\<forall>j. map_of l j = (if \<exists>q\<in>set (rs @ [r]). ri_index q = j \<and> j \<noteq> None then Some (line_completed (rs @ [r]) j) else None))"
      using sl(4) None by auto
    moreover have "foldr_res summary_step (rs @ [r]) ([], []) =
        Inr (AList.update (node_key (ri_node r) ''.completed'') (if ri_status r = Completed then 1 else 0) s, l)"
      using None by (simp only: foldr_res_append sl(1)) (simp add: summary_step_def)
    ultimately show ?thesis using sl(3) summary by blast
  next
    case (Some i)
    from count_node_run_ok [OF sl(2) snoc.prems Some] obtain t where
      t: "count_node_run r s = Inr t" "summary_ok (rs @ [r]) t" by blast
    let ?l = "note_line (Some i) (ri_status r = Completed) l"
    have lines: "map_of ?l j = (if \<exists>q\<in>set (rs @ [r]). ri_index q = j \<and> j \<noteq> None then Some (line_completed (rs @ [r]) j) else None)" for j
      using Some sl(4) [of j] by (auto simp: note_line_def dict_get_def line_completed_def split: option.splits if_splits)
    have "distinct (map fst ?l)" using sl(3) by (simp add: note_line_def distinct_update)
    moreover have "foldr_res summary_step (rs @ [r]) ([], []) = Inr (t, ?l)"
      using t(1) Some by (simp only: foldr_res_append sl(1)) (simp add: summary_step_def)
    ultimately show ?thesis using t(2) lines by blast
  qed
qed

lemma count_true_lines:
  "distinct (map fst l) \<Longrightarrow> int (length (filter (\<lambda>(i, b). b) l)) = int (card {i. map_of l i = Some True})"
proof -
  assume d: "distinct (map fst l)"
  have "{i. map_of l i = Some True} = fst ` set (filter (\<lambda>(i, b). b) l)" using d by force
  moreover have "distinct (map fst (filter (\<lambda>(i, b). b) l))" using d by (rule distinct_map_filter)
  ultimately show ?thesis using distinct_names_card [of "filter (\<lambda>(i, b). b) l"] by simp
qed

text \<open>The status summary of a run counts as completed the lines all of whose node runs completed and
  as failed the others, and for every node of lines how many of its runs completed and failed.\<close>

theorem get_status_summary_counts:
  assumes "nodes_apart (collect_node_runs run_id rt)"
  shows "\<exists>s. get_status_summary run_id rt = Inr s \<and>
    map_of s ''__pf__.lines.completed'' = Some (int (card {i \<in> ri_index ` set (collect_node_runs run_id rt) - {None}.
       line_completed (collect_node_runs run_id rt) i})) \<and>
    map_of s ''__pf__.lines.failed'' = Some (int (card {i \<in> ri_index ` set (collect_node_runs run_id rt) - {None}.
       \<not> line_completed (collect_node_runs run_id rt) i})) \<and>
    (\<forall>n. is_line_node (collect_node_runs run_id rt) n \<longrightarrow>
       map_of s (node_key n ''.completed'') = Some (line_runs (collect_node_runs run_id rt) n Completed) \<and>
       map_of s (node_key n ''.failed'') = Some (line_runs (collect_node_runs run_id rt) n Failed))"
proof -
  let ?rs = "collect_node_runs run_id rt"
  let ?I = "ri_index ` set ?rs - {None}"
  from summary_fold [OF assms] obtain s l where
    sl: "foldr_res summary_step ?rs ([], []) = Inr (s, l)" "summary_ok ?rs s" "distinct (map fst l)"
    "\<And>i. map_of l i = (if \<exists>r\<in>set ?rs. ri_index r = i \<and> i \<noteq> None then Some (line_completed ?rs i) else None)" by blast
  have yes: "{i. map_of l i = Some True} = {i \<in> ?I. line_completed ?rs i}" by (auto simp: sl(4))
  have "fst ` set l = dom (map_of l)" by (simp add: dom_map_of_conv_image_fst)
  also have "\<dots> = ?I" by (auto simp: sl(4) dom_def)
  finally have all: "length l = card ?I" using distinct_names_card [OF sl(3)] by simp
  have "card ?I = card {i \<in> ?I. line_completed ?rs i} + card {i \<in> ?I. \<not> line_completed ?rs i}"
    by (subst card_Un_disjoint [symmetric]) (auto intro!: arg_cong [where f = card])
  with all have no: "int (length l) - int (card {i \<in> ?I. line_completed ?rs i}) = int (card {i \<in> ?I. \<not> line_completed ?rs i})" by simp
  have keys: "node_key n e \<noteq> ''__pf__.lines.completed''" "node_key n e \<noteq> ''__pf__.lines.failed''" for n e
    by (simp_all add: node_key_def)
  have "get_status_summary run_id rt = Inr (lines_summary l s)" by (simp add: get_status_summary_def sl(1))
  moreover have "map_of (lines_summary l s) ''__pf__.lines.completed'' = Some (int (card {i \<in> ?I. line_completed ?rs i}))"
    "map_of (lines_summary l s) ''__pf__.lines.failed'' = Some (int (card {i \<in> ?I. \<not> line_completed ?rs i}))"
    using count_true_lines [OF sl(3)] no by (simp_all add: lines_summary_def Let_def yes)
  moreover have "map_of (lines_summary l s) (node_key n e) = map_of s (node_key n e)" for n e
    using keys by (simp add: lines_summary_def Let_def)
  ultimately show ?thesis using sl(2) by (auto simp: summary_ok_def)
qed

definition demo_run :: "string \<Rightarrow> string \<Rightarrow> int option \<Rightarrow> status \<Rightarrow> run_info" where
  "demo_run rid node i st = \<lparr>ri_node = node, ri_flow_run_id = ''f'', ri_run_id = rid, ri_status = st,
     ri_inputs = None, ri_output = PNone, ri_metrics = PNone, ri_error = PNone, ri_parent_run_id = ''f'',
     ri_start_time = 0, ri_end_time = Some 1, ri_index = i, ri_api_calls = None, ri_variant_id = [],
     ri_cached_run_id = None, ri_cached_flow_run_id = None, ri_logs = None, ri_system_metrics = None, ri_result = PNone\<rparr>"

definition demo_tracker :: "run_tracker" where
  "demo_tracker = foldr put_node_run
     [demo_run ''r1'' ''a'' (Some 0) Completed, demo_run ''r2'' ''a'' (Some 1) Failed,
      demo_run ''r3'' ''b'' (Some 0) Completed, demo_run ''r4'' ''agg'' None Completed]
     (new_run_tracker Test (new_log_manager False))"

theorem get_status_summary_counts_witness:
  "nodes_apart (collect_node_runs None demo_tracker) \<and>
   (\<exists>s. get_status_summary None demo_tracker = Inr s \<and> map_of s ''__pf__.lines.completed'' = Some 1 \<and>
      map_of s ''__pf__.lines.failed'' = Some 1 \<and> map_of s (node_key ''a'' ''.completed'') = Some 1 \<and>
      map_of s (node_key ''a'' ''.failed'') = Some 1)"
proof -
  let ?rs = "collect_node_runs None demo_tracker"
  have n: "nodes_apart ?rs" by code_simp
  have I: "ri_index ` set ?rs - {None} = {Some 0, Some 1}" by code_simp
  have "line_completed ?rs (Some 0)" "\<not> line_completed ?rs (Some 1)" "is_line_node ?rs ''a''"
    "line_runs ?rs ''a'' Completed = 1" "line_runs ?rs ''a'' Failed = 1" by code_simp+
  moreover from this have "{i \<in> {Some 0, Some 1}. line_completed ?rs i} = {Some 0}"
    "{i \<in> {Some 0, Some 1}. \<not> line_completed ?rs i} = {Some 1}" by auto
  ultimately show ?thesis using n get_status_summary_counts [OF n, unfolded I] by auto
qed

section \<open>Ending a run\<close>

lemma finish_node_run_fields:
  assumes "finish_node_run env now out e r = Inr r'"
  shows "ri_status r' = (if e = None then Completed else Failed)" "ri_end_time r' = Some now" "ri_run_id r' = ri_run_id r"
    "ri_output r' = (if out = PNone then ri_output r else out)" "ri_logs r' = ri_logs r" "ri_api_calls r' = ri_api_calls r"
    "ri_inputs r' = ri_inputs r" "e = None \<Longrightarrow> ri_error r' = ri_error r" "ri_node r' = ri_node r"
  using assms by (auto simp: finish_node_run_def Let_def res_simps split: option.splits if_splits)

lemma set_openai_metrics_fields:
  assumes "set_openai_metrics r = Inr r'"
  shows "ri_run_id r' = ri_run_id r" "ri_api_calls r' = ri_api_calls r" "ri_inputs r' = ri_inputs r" "ri_output r' = ri_output r"
    "ri_node r' = ri_node r"
  using assms by (auto simp: set_openai_metrics_def res_simps)

lemma ensure_serializable_json:
  assumes "ensure_serializable_value env conns rt True v = Inr w" "\<not> is_connection_value conns v"
  shows "json_ok w"
  using assms by (auto simp: ensure_serializable_value_def split: if_splits)

lemma ensure_inputs_json:
  assumes "ensure_inputs_is_json_serializable env conns rt d = Inr d'" "\<forall>(k, v) \<in> set d. \<not> is_connection_value conns v"
  shows "json_ok (PDict d')"
  using assms unfolding ensure_inputs_is_json_serializable_def
proof (induction d arbitrary: d')
  case (Cons kv d)
  obtain k v where kv: "kv = (k, v)" by force
  from Cons.prems(1) obtain w d1 where w: "ensure_serializable_value env conns rt True v = Inr w" "d' = (k, w) # d1"
    "mapr (\<lambda>(k, v). bindr (ensure_serializable_value env conns rt True v) (\<lambda>w. Inr (k, w))) d = Inr d1"
    by (auto simp: kv res_simps)
  from Cons.prems(2) have "\<not> is_connection_value conns v" by (simp add: kv)
  with ensure_serializable_json [OF w(1)] Cons.IH [OF w(3)] Cons.prems(2) w(2) show ?case by simp
qed simp

lemma put_node_run_lookup [simp]:
  "map_of (rt_node_runs (put_node_run r rt)) = (map_of (rt_node_runs rt))(ri_run_id r \<mapsto> r)"
  "rt_flow_runs (put_node_run r rt) = rt_flow_runs rt" "rt_log_manager (put_node_run r rt) = rt_log_manager rt"
  "rt_persisted (put_node_run r rt) = rt_persisted rt"
  by (simp_all add: put_node_run_def update_conv')

lemma end_node_run_fields:
  assumes "end_run env conns now run_id out e traces rt = Inr rt'"
    and "map_of (rt_flow_runs rt) run_id = None" "map_of (rt_node_runs rt) run_id = Some r" "ri_run_id r = run_id"
  shows "\<exists>r'. map_of (rt_node_runs rt') = (map_of (rt_node_runs rt))(run_id \<mapsto> r') \<and>
    rt_flow_runs rt' = rt_flow_runs rt \<and> rt_persisted rt' = rt_persisted rt \<and>
    ri_run_id r' = run_id \<and> ri_node r' = ri_node r \<and>
    ri_status r' = (if e = None then Completed else Failed) \<and> ri_end_time r' = Some now \<and>
    ri_api_calls r' = traces \<and> ri_logs r' = Some (get_logs run_id (rt_log_manager rt)) \<and>
    rt_log_manager rt' = clear_node_context run_id (rt_log_manager rt) \<and>
    (out \<noteq> PNone \<and> \<not> is_connection_value conns out \<longrightarrow> json_ok (ri_output r')) \<and>
    (\<forall>ins. ri_inputs r = Some ins \<and> (\<forall>(k, v) \<in> set ins. \<not> is_connection_value conns v) \<longrightarrow>
       (\<exists>d. ri_inputs r' = Some d \<and> json_ok (PDict d)))"
proof -
  let ?lm = "rt_log_manager rt"
  from assms obtain r1 where r1: "set_openai_metrics (r\<lparr>ri_api_calls := traces\<rparr>) = Inr r1"
    by (auto simp: end_run_def node_run_postprocess_def res_simps)
  note f1 = set_openai_metrics_fields [OF r1, simplified]
  have rid: "ri_run_id r1 = run_id" using f1(1) assms(4) by simp
  let ?r2 = "r1\<lparr>ri_logs := Some (get_logs run_id ?lm)\<rparr>"
  have post: "node_run_postprocess env conns now out e (r\<lparr>ri_api_calls := traces\<rparr>) rt = Inr rt'"
    using assms(1-3) by (simp add: end_run_def)
  from post obtain r3 out' r4 where steps:
    "(case ri_inputs r of Some ins \<Rightarrow> if ins = [] then Inr ?r2
        else bindr (ensure_inputs_is_json_serializable env conns rt ins) (\<lambda>i. Inr (?r2\<lparr>ri_inputs := Some i\<rparr>))
      | None \<Rightarrow> Inr ?r2) = Inr r3"
    "(if out \<noteq> PNone then ensure_serializable_value env conns rt True out else Inr out) = Inr out'"
    "finish_node_run env now out' e r3 = Inr r4"
    "rt' = put_node_run r4 (rt\<lparr>rt_log_manager := clear_node_context run_id ?lm\<rparr>)"
    by (auto simp: node_run_postprocess_def r1 f1(3) assms(4) rid Let_def res_simps)
  note f4 = finish_node_run_fields [OF steps(3)]
  have f3: "ri_run_id r3 = run_id" "ri_api_calls r3 = traces" "ri_logs r3 = Some (get_logs run_id ?lm)"
    "ri_node r3 = ri_node r"
    using steps(1) f1 assms(4) by (auto simp: res_simps split: option.splits if_splits)
  have out_json: "json_ok (ri_output r4)" if "out \<noteq> PNone" "\<not> is_connection_value conns out"
  proof -
    from that steps(2) have o: "ensure_serializable_value env conns rt True out = Inr out'" by simp
    have "out' \<noteq> PNone" using o that by (auto simp: ensure_serializable_value_def split: if_splits)
    with f4(4) ensure_serializable_json [OF o that(2)] show ?thesis by simp
  qed
  have ins_json: "\<exists>d. ri_inputs r4 = Some d \<and> json_ok (PDict d)"
    if "ri_inputs r = Some ins" "\<forall>(k, v) \<in> set ins. \<not> is_connection_value conns v" for ins
  proof (cases "ins = []")
    case True
    with that steps(1) f1(3) f4(7) show ?thesis by auto
  next
    case False
    with that(1) steps(1) obtain d where "ensure_inputs_is_json_serializable env conns rt ins = Inr d" "ri_inputs r3 = Some d"
      by (auto simp: res_simps)
    with ensure_inputs_json [OF _ that(2)] f4(7) show ?thesis by auto
  qed
  show ?thesis
    using f4 f3 f1(1) assms(4) out_json ins_json by (intro exI [of _ r4]) (auto simp: steps(4))
qed

text \<open>Ending a node run marks it failed exactly when an exception is given and completed otherwise,
  stamps its end, stores the traces given and the text logged in its name, which is taken out of the log
  manager, and stores inputs and output as JSON data (connections apart); no other run changes.\<close>

theorem end_node_run_sound:
  assumes "end_run env conns now run_id out e traces rt = Inr rt'"
    and "map_of (rt_flow_runs rt) run_id = None" "map_of (rt_node_runs rt) run_id = Some r" "ri_run_id r = run_id"
  shows "\<exists>r'. map_of (rt_node_runs rt') = (map_of (rt_node_runs rt))(run_id \<mapsto> r') \<and>
    rt_flow_runs rt' = rt_flow_runs rt \<and>
    ri_status r' = (if e = None then Completed else Failed) \<and> ri_end_time r' = Some now \<and>
    ri_api_calls r' = traces \<and> ri_logs r' = Some (get_logs run_id (rt_log_manager rt)) \<and>
    rt_log_manager rt' = clear_node_context run_id (rt_log_manager rt) \<and>
    (out \<noteq> PNone \<and> \<not> is_connection_value conns out \<longrightarrow> json_ok (ri_output r')) \<and>
    (\<forall>ins. ri_inputs r = Some ins \<and> (\<forall>(k, v) \<in> set ins. \<not> is_connection_value conns v) \<longrightarrow>
       (\<exists>d. ri_inputs r' = Some d \<and> json_ok (PDict d)))"
  using end_node_run_fields [OF assms] by blast

theorem end_node_run_sound_witness:
  "\<exists>rt' r'. end_run demo_env [] 7 ''r1'' (PObj ''Thing'' []) None (Some [demo_call 2 []]) demo_tracker = Inr rt' \<and>
     map_of (rt_node_runs rt') ''r1'' = Some r' \<and> ri_status r' = Completed \<and> ri_end_time r' = Some 7 \<and> json_ok (ri_output r')"
proof -
  let ?e = "end_run demo_env [] 7 ''r1'' (PObj ''Thing'' []) None (Some [demo_call 2 []]) demo_tracker"
  have "\<not> isl ?e" by code_simp
  then obtain rt' where rt': "?e = Inr rt'" by (cases ?e) simp_all
  have "map_of (rt_flow_runs demo_tracker) ''r1'' = None"
    "map_of (rt_node_runs demo_tracker) ''r1'' = Some (demo_run ''r1'' ''a'' (Some 0) Completed)"
    "ri_run_id (demo_run ''r1'' ''a'' (Some 0) Completed) = ''r1''" by code_simp+
  from end_node_run_sound [OF rt' this] show ?thesis using rt' by (auto simp: is_connection_value_def)
qed

end
