(* ===== verification/Tracer.thy ===== *)
theory Tracer imports ToolContract begin

text \<open>
  The tracer (\<^verbatim>\<open>promptflow/_core/tracer.py\<close>, \<^verbatim>\<open>contracts/trace.py\<close>,
  \<^verbatim>\<open>_core/generator_proxy.py\<close>) and the wrapper of LLM calls (\<^verbatim>\<open>_core/openai_injector.py\<close>). Traces are
  mutable objects shared between the list of root traces, the children of other traces and the stack of
  open traces: they live in a store, and are referred to by their positions. The values of the stack are
  in the order the last one was pushed first. The active tracer of a context is an option.
\<close>

section \<open>Serializing values\<close>

text \<open>
  \<open>serialize\<close> of \<^verbatim>\<open>_utils/dataclass_serializer.py\<close>: the names of the connection classes and of the
  dataclasses among the classes of the instances are parameters; pydantic models, whose \<open>dict\<close> is not in
  the repository, are left as other instances.
\<close>

fun serialize_value :: "string list \<Rightarrow> string list \<Rightarrow> pyval \<Rightarrow> pyval" where
  "serialize_value conns dcs (PList vs) = PList (map (serialize_value conns dcs) vs)"
| "serialize_value conns dcs (PDict d) = PDict (map (\<lambda>kv. (fst kv, serialize_value conns dcs (snd kv))) d)"
| "serialize_value conns dcs (PObj c d) =
     (if c \<in> set conns then dict_get d connection_name_property (PStr c)
      else if c \<in> set dcs then PDict (map (\<lambda>kv. (fst kv, serialize_value conns dcs (snd kv))) d)
      else PObj c d)"
| "serialize_value conns dcs v = v"

text \<open>\<open>remove_null\<close> drops the fields of a dataclass that are \<open>None\<close>.\<close>

fun serialize_without_null :: "string list \<Rightarrow> string list \<Rightarrow> pyval \<Rightarrow> pyval" where
  "serialize_without_null conns dcs (PList vs) = PList (map (serialize_without_null conns dcs) vs)"
| "serialize_without_null conns dcs (PDict d) = PDict (map (\<lambda>kv. (fst kv, serialize_without_null conns dcs (snd kv))) d)"
| "serialize_without_null conns dcs (PObj c d) =
     (if c \<in> set conns then dict_get d connection_name_property (PStr c)
      else if c \<in> set dcs then PDict (filter (\<lambda>kv. snd kv \<noteq> PNone)
        (map (\<lambda>kv. (fst kv, serialize_without_null conns dcs (snd kv))) d))
      else PObj c d)"
| "serialize_without_null conns dcs v = v"

record codec =
  cd_env :: pyenv
  cd_connections :: "string list"
  cd_dataclasses :: "string list"

fun to_serializable :: "codec \<Rightarrow> pyval \<Rightarrow> pyval" where
  "to_serializable cd (PDict d) = PDict (map (\<lambda>kv. (fst kv, to_serializable cd (snd kv))) d)"
| "to_serializable cd v =
    (let w = serialize_value (cd_connections cd) (cd_dataclasses cd) v
     in if json_ok w then w else PStr (py_str (obj_repr (cd_env cd)) w))"

lemma to_serializable_json: "json_ok (to_serializable cd v)"
proof (induction v)
  case (PDict d)
  then show ?case by (auto simp: list_all_iff)
qed (simp_all add: Let_def)

section \<open>Traces\<close>

datatype trace_type = TraceLLM | TraceTool | TraceLangChain

fun trace_type_value :: "trace_type \<Rightarrow> string" where
  "trace_type_value TraceLLM = ''LLM''"
| "trace_type_value TraceTool = ''Tool''"
| "trace_type_value TraceLangChain = ''LangChain''"

text \<open>
  The output of a trace is a value or the proxy of a generator: the items it has yielded and those to
  come. Times are in microseconds.
\<close>

datatype trace_output = Value pyval | Proxy "pyval list" "pyval list"

record trace =
  tr_name :: string
  tr_type :: trace_type
  tr_inputs :: "(string, pyval) dict"
  tr_output :: trace_output
  tr_start_time :: "int option"
  tr_end_time :: "int option"
  tr_error :: pyval
  tr_children :: "nat list option"
  tr_node_name :: "string option"

definition new_trace :: "string \<Rightarrow> trace_type \<Rightarrow> (string, pyval) dict \<Rightarrow> int option \<Rightarrow> trace" where
  "new_trace name type inputs start_time = \<lparr>tr_name = name, tr_type = type, tr_inputs = inputs, tr_output = Value PNone,
     tr_start_time = start_time, tr_end_time = None, tr_error = PNone, tr_children = None, tr_node_name = None\<rparr>"

definition time_value :: "int option \<Rightarrow> pyval" where
  "time_value t = (case t of None \<Rightarrow> PNone | Some n \<Rightarrow> PFloat (float_fin n (- 6)))"

definition output_value :: "codec \<Rightarrow> trace_output \<Rightarrow> pyval" where
  "output_value cd out = (case out of
     Value v \<Rightarrow> serialize_value (cd_connections cd) (cd_dataclasses cd) v
   | Proxy items _ \<Rightarrow> PList (map (serialize_value (cd_connections cd) (cd_dataclasses cd)) items))"

text \<open>The dictionary of a trace, its children already serialized.\<close>

definition trace_fields :: "codec \<Rightarrow> trace \<Rightarrow> pyval \<Rightarrow> pyval" where
  "trace_fields cd t children = PDict [(''name'', PStr (tr_name t)), (''type'', PStr (trace_type_value (tr_type t))),
     (''inputs'', serialize_value (cd_connections cd) (cd_dataclasses cd) (PDict (tr_inputs t))),
     (''output'', output_value cd (tr_output t)), (''start_time'', time_value (tr_start_time t)),
     (''end_time'', time_value (tr_end_time t)), (''error'', tr_error t), (''children'', children),
     (''node_name'', none_or_str (tr_node_name t))]"

text \<open>The depth is at most the number of traces: a trace is pushed after the one it is a child of.\<close>

fun trace_json :: "codec \<Rightarrow> nat \<Rightarrow> trace list \<Rightarrow> nat \<Rightarrow> pyval" where
  "trace_json cd 0 store i = PNone"
| "trace_json cd (Suc depth) store i =
     trace_fields cd (store ! i) (case tr_children (store ! i) of None \<Rightarrow> PNone
       | Some cs \<Rightarrow> PList (map (trace_json cd depth store) cs))"

section \<open>The tracer\<close>

record tracer =
  tc_run_id :: string
  tc_store :: "trace list"
  tc_traces :: "nat list"
  tc_stack :: "nat list"

definition new_tracer :: "string \<Rightarrow> tracer" where
  "new_tracer run_id = \<lparr>tc_run_id = run_id, tc_store = [], tc_traces = [], tc_stack = []\<rparr>"

definition to_json :: "codec \<Rightarrow> tracer \<Rightarrow> pyval list" where
  "to_json cd t = map (trace_json cd (length (tc_store t)) (tc_store t)) (tc_traces t)"

definition start_tracing :: "string \<Rightarrow> tracer option \<Rightarrow> tracer option res" where
  "start_tracing run_id active = (case active of
     None \<Rightarrow> Inr (Some (new_tracer run_id))
   | Some _ \<Rightarrow> Inl (py_exn NotImplementedError [PStr ''Cannot set active since there is another active instance'']))"

definition end_tracing :: "codec \<Rightarrow> bool \<Rightarrow> tracer option \<Rightarrow> (pyval list \<times> tracer option) res" where
  "end_tracing cd raise_ex active = (case active of
     None \<Rightarrow> if raise_ex then Inl (py_exn Exception [PStr ''Try end tracing but no active tracer in current context.''])
       else Inr ([], None)
   | Some t \<Rightarrow> Inr (to_json cd t, None))"

definition update_trace :: "nat \<Rightarrow> (trace \<Rightarrow> trace) \<Rightarrow> tracer \<Rightarrow> tracer" where
  "update_trace i f t = t\<lparr>tc_store := (tc_store t)[i := f (tc_store t ! i)]\<rparr>"

definition add_child :: "nat \<Rightarrow> trace \<Rightarrow> trace" where
  "add_child i p = p\<lparr>tr_children := Some ((case tr_children p of None \<Rightarrow> [] | Some cs \<Rightarrow> cs) @ [i])\<rparr>"

text \<open>\<open>_push\<close>: \<open>now\<close> is the time when the trace brings none.\<close>

definition prepare :: "codec \<Rightarrow> int \<Rightarrow> trace \<Rightarrow> trace" where
  "prepare cd now tr = tr\<lparr>
     tr_inputs := map (\<lambda>kv. (fst kv, to_serializable cd (snd kv))) (tr_inputs tr),
     tr_start_time := (case tr_start_time tr of Some s \<Rightarrow> if s \<noteq> 0 then Some s else Some now | None \<Rightarrow> Some now)\<rparr>"

definition tracer_push :: "codec \<Rightarrow> int \<Rightarrow> trace \<Rightarrow> tracer \<Rightarrow> tracer" where
  "tracer_push cd now tr t =
    (let i = length (tc_store t);
         t1 = t\<lparr>tc_store := tc_store t @ [prepare cd now tr]\<rparr>;
         t2 = (case tc_stack t1 of [] \<Rightarrow> t1\<lparr>tc_traces := tc_traces t1 @ [i]\<rparr>
               | p # _ \<Rightarrow> update_trace p (add_child i) t1)
     in t2\<lparr>tc_stack := i # tc_stack t2\<rparr>)"

text \<open>\<open>_pop\<close>: the value returned stands for the generator that reads the proxy.\<close>

definition format_error :: "codec \<Rightarrow> exn \<Rightarrow> pyval res" where
  "format_error cd e = bindr (message (cd_env cd) e) (\<lambda>s.
     Inr (PDict [(''message'', PStr s), (''type'', PStr (class_name (ex_class (ex e))))]))"

definition recorded_output :: "codec \<Rightarrow> pyval \<Rightarrow> trace_output option" where
  "recorded_output cd out = (case out of PNone \<Rightarrow> None | PGen vs \<Rightarrow> Some (Proxy [] vs)
     | _ \<Rightarrow> Some (Value (to_serializable cd out)))"

definition tracer_pop :: "codec \<Rightarrow> int \<Rightarrow> pyval \<Rightarrow> exn option \<Rightarrow> tracer \<Rightarrow> (pyval \<times> tracer) res" where
  "tracer_pop cd now out err t =
    (case tc_stack t of
       [] \<Rightarrow> Inl (py_exn IndexError [PStr ''list index out of range''])
     | i # rest \<Rightarrow>
         (let t1 = (case recorded_output cd out of None \<Rightarrow> t | Some w \<Rightarrow> update_trace i (tr_output_update (\<lambda>_. w)) t) in
          bindr (case err of None \<Rightarrow> Inr t1
              | Some e \<Rightarrow> bindr (format_error cd e) (\<lambda>d. Inr (update_trace i (tr_error_update (\<lambda>_. d)) t1))) (\<lambda>t2.
          Inr (out, (update_trace i (tr_end_time_update (\<lambda>_. Some now)) t2)\<lparr>tc_stack := rest\<rparr>))))"

text \<open>\<open>GeneratorProxy.__next__\<close>: reading the generator a trace returned records the item.\<close>

definition proxy_next :: "nat \<Rightarrow> tracer \<Rightarrow> (pyval option \<times> tracer)" where
  "proxy_next i t = (case tr_output (tc_store t ! i) of
     Proxy items (v # vs) \<Rightarrow> (Some v, update_trace i (tr_output_update (\<lambda>_. Proxy (items @ [v]) vs)) t)
   | _ \<Rightarrow> (None, t))"

section \<open>The class methods\<close>

text \<open>A tool: the qualified name of its function, its module and the names of its parameters.\<close>

record tool_function =
  tf_qualname :: string
  tf_module :: "string option"
  tf_params :: "string list"

definition no_tracer :: "string \<Rightarrow> exn" where
  "no_tracer attribute = py_exn AttributeError [PStr (''NoneType object has no attribute '' @ attribute)]"

definition all_kwargs :: "tool_function \<Rightarrow> pyval list \<Rightarrow> (string, pyval) dict \<Rightarrow> (string, pyval) dict" where
  "all_kwargs f args kwargs = dict_updates (dict_of (zip (tf_params f) args)) kwargs"

definition tool_inputs :: "codec \<Rightarrow> (string, pyval) dict \<Rightarrow> (string, pyval) dict res" where
  "tool_inputs cd d = bindr (mapr (\<lambda>(k, v).
       bindr (if is_connection_value (cd_connections cd) v then serialize_conn (cd_connections cd) v else Inr v) (\<lambda>w. Inr (k, w))) d)
     (\<lambda>d'. Inr (AList.delete ''self'' d'))"

definition push_tool ::
  "codec \<Rightarrow> int \<Rightarrow> tool_function \<Rightarrow> pyval list \<Rightarrow> (string, pyval) dict \<Rightarrow> tracer option \<Rightarrow> tracer option res" where
  "push_tool cd now f args kwargs active =
    bindr (tool_inputs cd (all_kwargs f args kwargs)) (\<lambda>ins.
      (case active of None \<Rightarrow> Inl (no_tracer ''_push'')
       | Some t \<Rightarrow> Inr (Some (tracer_push cd now (new_trace (tf_qualname f) TraceTool ins (Some now)) t))))"

definition push :: "codec \<Rightarrow> int \<Rightarrow> trace \<Rightarrow> tracer option \<Rightarrow> tracer option" where
  "push cd now tr active = (case active of None \<Rightarrow> None | Some t \<Rightarrow> Some (tracer_push cd now tr t))"

definition pop :: "codec \<Rightarrow> int \<Rightarrow> pyval \<Rightarrow> exn option \<Rightarrow> tracer option \<Rightarrow> (pyval \<times> tracer option) res" where
  "pop cd now out err active = (case active of None \<Rightarrow> Inl (no_tracer ''_pop'')
     | Some t \<Rightarrow> bindr (tracer_pop cd now out err t) (\<lambda>(v, t'). Inr (v, Some t')))"

section \<open>Calls\<close>

text \<open>
  What running a tool does to the tracer is told by its calls: calls of other tools, which
  \<open>invoke_tool_with_cache\<close> wraps between a push and, when the tool returned, a pop; and calls of the
  openai API, wrapped by \<open>inject_function\<close>. A call has its name, its arguments, when it starts, the calls
  it makes, its result and when it ends.
\<close>

datatype call_kind = ToolCall | ApiCall

datatype call = Call call_kind string "(string, pyval) dict" int "call list" "pyval res" int

definition args_to_ignore :: "string list" where
  "args_to_ignore = [''api_key'', ''headers'']"

definition api_inputs :: "(string, pyval) dict \<Rightarrow> (string, pyval) dict" where
  "api_inputs inputs = filter (\<lambda>kv. fst kv \<notin> set args_to_ignore) inputs"

fun run_call :: "codec \<Rightarrow> call \<Rightarrow> tracer \<Rightarrow> tracer res"
  and run_calls :: "codec \<Rightarrow> call list \<Rightarrow> tracer \<Rightarrow> tracer res" where
  "run_call cd (Call ToolCall name inputs start cs result stop) t =
     bindr (tool_inputs cd inputs) (\<lambda>ins.
     bindr (run_calls cd cs (tracer_push cd start (new_trace name TraceTool ins (Some start)) t)) (\<lambda>t1.
       (case result of
          Inr v \<Rightarrow> bindr (tracer_pop cd stop v None t1) (\<lambda>(_, t2). Inr t2)
        | Inl _ \<Rightarrow> Inr t1)))"
| "run_call cd (Call ApiCall name inputs start cs result stop) t =
     bindr (run_calls cd cs (tracer_push cd start (new_trace name TraceLLM (api_inputs inputs) (Some start)) t)) (\<lambda>t1.
       (case result of
          Inr v \<Rightarrow> bindr (tracer_pop cd stop v None t1) (\<lambda>(_, t2). Inr t2)
        | Inl e \<Rightarrow> bindr (tracer_pop cd stop PNone (Some e) t1) (\<lambda>(_, t2). Inr t2)))"
| "run_calls cd [] t = Inr t"
| "run_calls cd (c # cs) t = bindr (run_call cd c t) (run_calls cd cs)"

section \<open>The tracer records the tree of calls\<close>

text \<open>A call that ends: a tool that returned, or an API call, with an error that can be printed.\<close>

fun call_ends :: "codec \<Rightarrow> call \<Rightarrow> bool" where
  "call_ends cd (Call k name inputs start cs result stop) =
     (list_all (call_ends cd) cs \<and>
      (case result of Inr v \<Rightarrow> True | Inl e \<Rightarrow> k = ApiCall \<and> \<not> isl (message (cd_env cd) e)))"

fun call_count :: "call \<Rightarrow> nat" where
  "call_count (Call k name inputs start cs result stop) = Suc (sum_list (map call_count cs))"

definition traced_inputs :: "codec \<Rightarrow> call_kind \<Rightarrow> (string, pyval) dict \<Rightarrow> (string, pyval) dict" where
  "traced_inputs cd k inputs = (case k of
     ToolCall \<Rightarrow> (case tool_inputs cd inputs of Inr d \<Rightarrow> d | Inl _ \<Rightarrow> [])
   | ApiCall \<Rightarrow> api_inputs inputs)"

text \<open>The trace of a call that has ended.\<close>

definition call_trace ::
  "codec \<Rightarrow> call_kind \<Rightarrow> string \<Rightarrow> (string, pyval) dict \<Rightarrow> int \<Rightarrow> pyval res \<Rightarrow> int \<Rightarrow> nat list option \<Rightarrow> trace" where
  "call_trace cd k name inputs start result stop children =
    \<lparr>tr_name = name, tr_type = (case k of ToolCall \<Rightarrow> TraceTool | ApiCall \<Rightarrow> TraceLLM),
     tr_inputs = map (\<lambda>kv. (fst kv, to_serializable cd (snd kv))) (traced_inputs cd k inputs),
     tr_output = (case result of Inr v \<Rightarrow> (case recorded_output cd v of None \<Rightarrow> Value PNone | Some w \<Rightarrow> w) | Inl e \<Rightarrow> Value PNone),
     tr_start_time = Some start, tr_end_time = Some stop,
     tr_error = (case result of Inr v \<Rightarrow> PNone | Inl e \<Rightarrow> (case format_error cd e of Inr d \<Rightarrow> d | Inl _ \<Rightarrow> PNone)),
     tr_children = children, tr_node_name = None\<rparr>"

text \<open>Its dictionary, that of the specification: it holds those of the calls it made, in their order.\<close>

fun call_json :: "codec \<Rightarrow> call \<Rightarrow> pyval" where
  "call_json cd (Call k name inputs start cs result stop) =
     trace_fields cd (call_trace cd k name inputs start result stop None)
       (if cs = [] then PNone else PList (map (call_json cd) cs))"

text \<open>Where the calls are in the store.\<close>

fun roots :: "nat \<Rightarrow> call list \<Rightarrow> nat list" where
  "roots b [] = []"
| "roots b (c # cs) = b # roots (b + call_count c) cs"

fun call_block :: "codec \<Rightarrow> nat \<Rightarrow> call \<Rightarrow> trace list"
  and calls_block :: "codec \<Rightarrow> nat \<Rightarrow> call list \<Rightarrow> trace list" where
  "call_block cd b (Call k name inputs start cs result stop) =
     call_trace cd k name inputs start result stop (if cs = [] then None else Some (roots (Suc b) cs)) # calls_block cd (Suc b) cs"
| "calls_block cd b [] = []"
| "calls_block cd b (c # cs) = call_block cd b c @ calls_block cd (b + call_count c) cs"

lemma block_length:
  "length (call_block cd b c) = call_count c"
  "length (calls_block cd b cs) = sum_list (map call_count cs)"
  by (induction cd b c and cd b cs rule: call_block_calls_block.induct) simp_all

definition add_children :: "nat list \<Rightarrow> trace \<Rightarrow> trace" where
  "add_children rs p = (if rs = [] then p
     else p\<lparr>tr_children := Some ((case tr_children p of None \<Rightarrow> [] | Some cs \<Rightarrow> cs) @ rs)\<rparr>)"

definition attach :: "nat list \<Rightarrow> trace list \<Rightarrow> tracer \<Rightarrow> tracer" where
  "attach rs blk t = (case tc_stack t of
     [] \<Rightarrow> t\<lparr>tc_store := tc_store t @ blk, tc_traces := tc_traces t @ rs\<rparr>
   | p # _ \<Rightarrow> t\<lparr>tc_store := (tc_store t)[p := add_children rs (tc_store t ! p)] @ blk\<rparr>)"

definition stack_ok :: "tracer \<Rightarrow> bool" where
  "stack_ok t \<longleftrightarrow> list_all (\<lambda>p. p < length (tc_store t)) (tc_stack t)"

lemma attach_simps [simp]:
  "tc_stack (attach rs blk t) = tc_stack t"
  "length (tc_store (attach rs blk t)) = length (tc_store t) + length blk"
  "stack_ok t \<Longrightarrow> stack_ok (attach rs blk t)"
  by (auto simp: attach_def stack_ok_def list_all_iff trans_less_add1 split: list.splits)

lemma attach_nil [simp]: "attach [] [] t = t"
  by (auto simp: attach_def add_children_def split: list.splits)

lemma attach_attach:
  assumes "stack_ok t"
  shows "attach rs2 blk2 (attach rs1 blk1 t) = attach (rs1 @ rs2) (blk1 @ blk2) t"
proof (cases "tc_stack t")
  case (Cons p ps)
  with assms have p: "p < length (tc_store t)" by (simp add: stack_ok_def)
  show ?thesis
    by (cases "rs1 = []"; cases "rs2 = []")
       (simp_all add: attach_def Cons add_children_def nth_append list_update_append p)
qed (simp add: attach_def)

lemma tool_inputs_ok: "\<exists>d. tool_inputs cd inputs = Inr d"
proof -
  have "\<exists>d. mapr (\<lambda>(k, v). bindr (if is_connection_value (cd_connections cd) v then serialize_conn (cd_connections cd) v
     else Inr v) (\<lambda>w. Inr (k, w))) inputs = Inr d"
  proof (induction inputs)
    case (Cons kv ins)
    obtain k v where kv: "kv = (k, v)" by force
    have "\<exists>w. (if is_connection_value (cd_connections cd) v then serialize_conn (cd_connections cd) v else Inr v) = Inr w"
      by (auto simp: serialize_conn_def is_connection_value_def split: pyval.splits)
    with Cons.IH show ?case by (auto simp: kv)
  qed simp
  then show ?thesis by (auto simp: tool_inputs_def)
qed

lemma push_attach:
  assumes "stack_ok t"
  shows "tracer_push cd start tr t =
    (attach [length (tc_store t)] [prepare cd start tr] t)\<lparr>tc_stack := length (tc_store t) # tc_stack t\<rparr>"
proof (cases "tc_stack t")
  case (Cons p ps)
  with assms have "p < length (tc_store t)" by (simp add: stack_ok_def)
  then show ?thesis
    by (simp add: tracer_push_def Let_def attach_def Cons update_trace_def add_child_def add_children_def
        nth_append list_update_append)
qed (simp add: tracer_push_def Let_def attach_def)

lemma update_trace_twice [simp]:
  "b < length (tc_store t) \<Longrightarrow> update_trace b f (update_trace b g t) = update_trace b (\<lambda>x. f (g x)) t"
  by (simp add: update_trace_def)

lemma update_trace_simps [simp]:
  "tc_stack (update_trace b f t) = tc_stack t" "length (tc_store (update_trace b f t)) = length (tc_store t)"
  by (simp_all add: update_trace_def)

lemma close_call:
  assumes "stack_ok t"
  shows "(update_trace (length (tc_store t)) f
      (attach rs blk ((attach [length (tc_store t)] [tr] t)\<lparr>tc_stack := length (tc_store t) # tc_stack t\<rparr>)))\<lparr>tc_stack := tc_stack t\<rparr> =
    attach [length (tc_store t)] (f (add_children rs tr) # blk) t"
proof (cases "tc_stack t")
  case (Cons p ps)
  with assms have "p < length (tc_store t)" by (simp add: stack_ok_def)
  then show ?thesis
    by (simp add: attach_def Cons update_trace_def nth_append list_update_append add_children_def)
qed (simp add: attach_def update_trace_def nth_append list_update_append)

text \<open>What a pop does to the trace on top of the stack.\<close>

definition finish_trace :: "codec \<Rightarrow> int \<Rightarrow> pyval res \<Rightarrow> trace \<Rightarrow> trace" where
  "finish_trace cd stop result tr = tr\<lparr>
     tr_output := (case result of Inr v \<Rightarrow> (case recorded_output cd v of None \<Rightarrow> tr_output tr | Some w \<Rightarrow> w) | Inl e \<Rightarrow> tr_output tr),
     tr_error := (case result of Inr v \<Rightarrow> tr_error tr | Inl e \<Rightarrow> (case format_error cd e of Inr d \<Rightarrow> d | Inl _ \<Rightarrow> PNone)),
     tr_end_time := Some stop\<rparr>"

lemma pop_value:
  assumes "tc_stack t = i # rest" "i < length (tc_store t)"
  shows "tracer_pop cd stop v None t = Inr (v, (update_trace i (finish_trace cd stop (Inr v)) t)\<lparr>tc_stack := rest\<rparr>)"
  using assms
  by (cases "recorded_output cd v") (simp_all add: tracer_pop_def finish_trace_def update_trace_def Let_def)

lemma pop_error:
  assumes "tc_stack t = i # rest" "i < length (tc_store t)" "\<not> isl (message (cd_env cd) e)"
  shows "tracer_pop cd stop PNone (Some e) t = Inr (PNone, (update_trace i (finish_trace cd stop (Inl e)) t)\<lparr>tc_stack := rest\<rparr>)"
  using assms
  by (cases "message (cd_env cd) e")
     (simp_all add: tracer_pop_def finish_trace_def update_trace_def Let_def recorded_output_def format_error_def)

lemma roots_nil [simp]: "roots b cs = [] \<longleftrightarrow> cs = []"
  by (cases cs) simp_all

lemma finish_call:
  assumes "traced_inputs cd k inputs = ins" "ty = (case k of ToolCall \<Rightarrow> TraceTool | ApiCall \<Rightarrow> TraceLLM)"
  shows "finish_trace cd stop result (add_children (roots b cs) (prepare cd start (new_trace name ty ins (Some start)))) =
    call_trace cd k name inputs start result stop (if cs = [] then None else Some (roots b cs))"
  using assms
  by (auto simp: finish_trace_def add_children_def prepare_def new_trace_def call_trace_def split: sum.splits option.splits)

lemma pushed:
  assumes "stack_ok t"
  shows "stack_ok (tracer_push cd start tr t)" "length (tc_store (tracer_push cd start tr t)) = Suc (length (tc_store t))"
  using assms by (simp_all add: push_attach stack_ok_def list_all_iff less_Suc_eq)

lemma run_call_attach:
  "call_ends cd c \<Longrightarrow> stack_ok t \<Longrightarrow>
     run_call cd c t = Inr (attach [length (tc_store t)] (call_block cd (length (tc_store t)) c) t)"
  "list_all (call_ends cd) cs \<Longrightarrow> stack_ok t \<Longrightarrow>
     run_calls cd cs t = Inr (attach (roots (length (tc_store t)) cs) (calls_block cd (length (tc_store t)) cs) t)"
proof (induction cd c t and cd cs t rule: run_call_run_calls.induct)
  case (1 cd name inputs start cs result stop t)
  obtain ins where ins: "tool_inputs cd inputs = Inr ins" using tool_inputs_ok by blast
  let ?tr = "new_trace name TraceTool ins (Some start)"
  note run = 1(1) [OF ins _ pushed(1) [OF 1(3)]]
  from 1(2) obtain v where v: "result = Inr v" by (auto split: sum.splits)
  have f: "traced_inputs cd ToolCall inputs = ins" by (simp add: traced_inputs_def ins)
  show ?case
    using 1(2) run 1(3) pushed(2) [OF 1(3), of cd start ?tr]
    by (simp add: ins v push_attach pop_value close_call finish_call [OF f])
next
  case (2 cd name inputs start cs result stop t)
  let ?tr = "new_trace name TraceLLM (api_inputs inputs) (Some start)"
  note run = 2(1) [OF _ pushed(1) [OF 2(3)]]
  have f: "traced_inputs cd ApiCall inputs = api_inputs inputs" by (simp add: traced_inputs_def)
  show ?case
    using 2(2) run 2(3) pushed(2) [OF 2(3), of cd start ?tr]
    by (cases result) (simp_all add: push_attach pop_value pop_error close_call finish_call [OF f])
next
  case (4 cd c cs t)
  then show ?case by (simp add: attach_attach block_length)
qed simp_all

lemma trace_fields_children:
  "trace_fields cd (call_trace cd k name inputs start result stop (Some rs)) v =
     trace_fields cd (call_trace cd k name inputs start result stop None) v"
  "tr_children (call_trace cd k name inputs start result stop rs') = rs'"
  by (simp_all add: trace_fields_def call_trace_def)

lemma trace_json_block:
  "call_count c \<le> n \<Longrightarrow> b = length pre \<Longrightarrow> trace_json cd n (pre @ call_block cd b c @ post) b = call_json cd c"
  "sum_list (map call_count cs) \<le> n \<Longrightarrow> b = length pre \<Longrightarrow>
     map (trace_json cd n (pre @ calls_block cd b cs @ post)) (roots b cs) = map (call_json cd) cs"
proof (induction cd b c and cd b cs arbitrary: n pre post and n pre post rule: call_block_calls_block.induct)
  case (1 cd b k name inputs start cs result stop)
  then obtain m where n: "n = Suc m" by (cases n) auto
  let ?root = "call_trace cd k name inputs start result stop (if cs = [] then None else Some (roots (Suc b) cs))"
  have "map (trace_json cd m ((pre @ [?root]) @ calls_block cd (Suc b) cs @ post)) (roots (Suc b) cs) = map (call_json cd) cs"
    using 1(2,3) n by (intro 1(1)) simp_all
  then show ?case
    using 1(3) by (cases "cs = []") (simp_all add: n nth_append trace_fields_children)
next
  case (3 cd b c cs)
  have "trace_json cd n (pre @ call_block cd b c @ calls_block cd (b + call_count c) cs @ post) b = call_json cd c"
    using 3(3,4) by (intro 3(1)) simp_all
  moreover have "map (trace_json cd n ((pre @ call_block cd b c) @ calls_block cd (b + call_count c) cs @ post))
      (roots (b + call_count c) cs) = map (call_json cd) cs"
    using 3(3,4) by (intro 3(2)) (simp_all add: block_length)
  ultimately show ?case by simp
qed simp_all

text \<open>C28. A tracer that sees calls which all end reports exactly the tree of the calls: each call once,
  in its order among the calls of the one that made it, with its arguments, result or error and times.\<close>

theorem tracer_records_calls:
  assumes "list_all (call_ends cd) cs"
  shows "\<exists>t. run_calls cd cs (new_tracer run_id) = Inr t \<and> tc_stack t = [] \<and> to_json cd t = map (call_json cd) cs"
proof -
  let ?t = "new_tracer run_id"
  have "stack_ok ?t" by (simp add: stack_ok_def new_tracer_def)
  from run_call_attach(2) [OF assms this]
  have run: "run_calls cd cs ?t = Inr (attach (roots 0 cs) (calls_block cd 0 cs) ?t)" by (simp add: new_tracer_def)
  moreover have "to_json cd (attach (roots 0 cs) (calls_block cd 0 cs) ?t) = map (call_json cd) cs"
    using trace_json_block(2) [of cs "length (calls_block cd 0 cs)" 0 "[]" cd "[]"]
    by (simp add: to_json_def attach_def new_tracer_def block_length)
  ultimately show ?thesis by (auto simp: new_tracer_def)
qed

definition demo_codec :: codec where
  "demo_codec = \<lparr>cd_env = demo_env, cd_connections = [''AzureOpenAIConnection''], cd_dataclasses = []\<rparr>"

definition demo_calls :: "call list" where
  "demo_calls = [Call ToolCall ''node'' [(''q'', PStr ''hi''), (''conn'', PObj ''AzureOpenAIConnection'' [])] 1
     [Call ApiCall ''chat'' [(''api_key'', PStr ''secret''), (''prompt'', PStr ''hi'')] 2 []
        (Inl (py_exn ValueError [PStr ''busy''])) 3,
      Call ApiCall ''chat'' [(''prompt'', PStr ''hi'')] 4 [] (Inr (PStr ''hello'')) 5] (Inr (PStr ''hello'')) 6]"

theorem tracer_records_calls_witness:
  "list_all (call_ends demo_codec) demo_calls \<and>
   (\<exists>t. run_calls demo_codec demo_calls (new_tracer ''r'') = Inr t \<and> tc_stack t = [] \<and>
      to_json demo_codec t = map (call_json demo_codec) demo_calls)"
proof -
  have "list_all (call_ends demo_codec) demo_calls" by code_simp
  with tracer_records_calls [OF this] show ?thesis by blast
qed

section \<open>A nested tool that fails\<close>

text \<open>A nested tool that raises is never popped: when the node it belongs to fails with it, the error
  and the end are recorded in the trace of the nested tool, and the trace of the node, which is the root of the
  report, has neither.\<close>

theorem nested_failure_misplaced:
  assumes "list_all (call_ends cd) cs" "format_error cd e = Inr d"
  shows "\<exists>t v t'. run_calls cd [Call ToolCall name inputs start cs (Inl e) stop]
      (tracer_push cd s (new_trace node TraceTool [] (Some s)) (new_tracer run_id)) = Inr t \<and>
    tracer_pop cd now PNone (Some e) t = Inr (v, t') \<and> tc_traces t' = [0] \<and>
    tr_error (tc_store t' ! 0) = PNone \<and> tr_end_time (tc_store t' ! 0) = None \<and> 0 \<in> set (tc_stack t') \<and>
    tr_error (tc_store t' ! 1) = d \<and> tr_end_time (tc_store t' ! 1) = Some now"
proof -
  obtain ins where ins: "tool_inputs cd inputs = Inr ins" using tool_inputs_ok by blast
  let ?t0 = "new_tracer run_id"
  let ?t1 = "tracer_push cd s (new_trace node TraceTool [] (Some s)) ?t0"
  let ?t2 = "tracer_push cd start (new_trace name TraceTool ins (Some start)) ?t1"
  have ok: "stack_ok ?t0" by (simp add: stack_ok_def new_tracer_def)
  note ok1 = pushed [OF ok, of cd s "new_trace node TraceTool [] (Some s)"]
  note ok2 = pushed [OF ok1(1), of cd start "new_trace name TraceTool ins (Some start)"]
  have len: "length (tc_store ?t2) = 2" using ok1(2) ok2(2) by (simp add: new_tracer_def)
  let ?t3 = "attach (roots 2 cs) (calls_block cd 2 cs) ?t2"
  from run_call_attach(2) [OF assms(1) ok2(1)] len have run: "run_calls cd cs ?t2 = Inr ?t3" by simp
  have t2: "tc_stack ?t2 = [1, 0]" "tc_traces ?t2 = [0]"
    "tr_error (tc_store ?t2 ! 0) = PNone" "tr_end_time (tc_store ?t2 ! 0) = None"
    by (simp_all add: tracer_push_def Let_def update_trace_def add_child_def new_tracer_def new_trace_def prepare_def)
  let ?t4 = "(update_trace 1 (finish_trace cd now (Inl e)) ?t3)\<lparr>tc_stack := [0]\<rparr>"
  have "\<not> isl (message (cd_env cd) e)" using assms(2) by (cases "message (cd_env cd) e") (simp_all add: format_error_def)
  from pop_error [of ?t3 1 "[0]", OF _ _ this] t2(1) len
  have pop: "tracer_pop cd now PNone (Some e) ?t3 = Inr (PNone, ?t4)" by simp
  have t4: "tc_store ?t4 ! 0 = tc_store ?t2 ! 0" "tc_traces ?t4 = [0]"
    "tr_error (tc_store ?t4 ! 1) = d" "tr_end_time (tc_store ?t4 ! 1) = Some now"
    using len t2(1,2) assms(2) by (simp_all add: attach_def update_trace_def nth_append finish_trace_def)
  show ?thesis using run pop t2 t4 by (simp add: ins)
qed

theorem nested_failure_misplaced_witness:
  "\<exists>t v t'. run_calls demo_codec [Call ToolCall ''inner'' [] 2 [] (Inl (py_exn ValueError [PStr ''bad''])) 3]
      (tracer_push demo_codec 1 (new_trace ''node'' TraceTool [] (Some 1)) (new_tracer ''r'')) = Inr t \<and>
    tracer_pop demo_codec 4 PNone (Some (py_exn ValueError [PStr ''bad''])) t = Inr (v, t') \<and>
    tr_error (tc_store t' ! 0) = PNone \<and>
    tr_error (tc_store t' ! 1) = PDict [(''message'', PStr ''bad''), (''type'', PStr ''ValueError'')]"
proof -
  have "list_all (call_ends demo_codec) []"
    "format_error demo_codec (py_exn ValueError [PStr ''bad'']) = Inr (PDict [(''message'', PStr ''bad''), (''type'', PStr ''ValueError'')])"
    by code_simp+
  from nested_failure_misplaced [OF this, of "''inner''" "[]" 2 3 1 "''node''" "''r''" 4] show ?thesis by blast
qed

end
