(* ===== verification/SqliteClient.thy ===== *)
theory SqliteClient imports Exceptions begin

text \<open>
  Retried calls (\<^verbatim>\<open>_utils/retry_utils.py\<close>, and its copy in \<^verbatim>\<open>_sdk/_orm/retry.py\<close>) and the client of a table
  (\<^verbatim>\<open>storage/_sqlite_client.py\<close>). The library under the client (\<^verbatim>\<open>dataset\<close>, over SQLAlchemy and SQLite) is a
  parameter: what a transaction answers and what it does to the database. The locale \<open>dataset_table\<close> states what
  is documented of it.
\<close>

section \<open>Retrying\<close>

text \<open>\<open>f_retry\<close>: at most \<open>tries\<close> attempts; the delays between them are left out.\<close>

fun retry :: "(exn \<Rightarrow> bool) \<Rightarrow> nat \<Rightarrow> ('s \<Rightarrow> 'a res \<times> 's) \<Rightarrow> 's \<Rightarrow> 'a res \<times> 's" where
  "retry check (Suc (Suc n)) f s =
    (case f s of
       (Inl e, s') \<Rightarrow> if check e then retry check (Suc n) f s' else (Inl e, s')
     | (Inr x, s') \<Rightarrow> (Inr x, s'))"
| "retry check n f s = f s"

text \<open>The state after some attempts, and the errors after which there is another one.\<close>

definition attempted :: "('s \<Rightarrow> 'a \<times> 's) \<Rightarrow> nat \<Rightarrow> 's \<Rightarrow> 's" where
  "attempted f i = (snd \<circ> f) ^^ i"

lemma attempted_simps [simp]: "attempted f 0 s = s" "attempted f (Suc i) s = attempted f i (snd (f s))"
  by (simp_all add: attempted_def funpow_swap1)

lemma attempted_Suc: "attempted f (Suc i) s = snd (f (attempted f i s))"
  by (simp add: attempted_def)

definition failed_with :: "(exn \<Rightarrow> bool) \<Rightarrow> 'a res \<Rightarrow> bool" where
  "failed_with check r = (case r of Inl e \<Rightarrow> check e | Inr _ \<Rightarrow> False)"

lemma failed_with_simps [simp]: "failed_with check (Inl e) = check e" "failed_with check (Inr x) = False"
  by (simp_all add: failed_with_def)

text \<open>A retried call is one of its attempts: all before it raised an error of the class, and it does too only
  when it is the last one allowed.\<close>

lemma retry_attempts:
  "\<exists>i\<le>n. retry check (Suc n) f s = f (attempted f i s) \<and> (\<forall>j<i. failed_with check (fst (f (attempted f j s)))) \<and>
     (failed_with check (fst (f (attempted f i s))) \<longrightarrow> i = n)"
proof (induction n arbitrary: s)
  case 0
  show ?case by simp
next
  case (Suc n)
  show ?case
  proof (cases "failed_with check (fst (f s))")
    case False
    then show ?thesis by (intro exI [of _ 0]) (auto split: prod.splits sum.splits)
  next
    case True
    with Suc.IH [of "snd (f s)"] obtain i where i: "i \<le> n" "retry check (Suc n) f (snd (f s)) = f (attempted f i (snd (f s)))"
      "\<forall>j<i. failed_with check (fst (f (attempted f j (snd (f s)))))" "failed_with check (fst (f (attempted f i (snd (f s))))) \<longrightarrow> i = n"
      by blast
    have tried: "\<forall>j<Suc i. failed_with check (fst (f (attempted f j s)))"
      using True i(3) by (auto simp: less_Suc_eq_0_disj)
    have "retry check (Suc (Suc n)) f s = retry check (Suc n) f (snd (f s))"
      using True by (auto simp: failed_with_def split: prod.splits sum.splits)
    also have "\<dots> = f (attempted f (Suc i) s)" by (simp only: i(2) attempted_simps)
    finally have same: "retry check (Suc (Suc n)) f s = f (attempted f (Suc i) s)" .
    have last: "failed_with check (fst (f (attempted f (Suc i) s))) \<longrightarrow> Suc i = Suc n" unfolding attempted_simps using i(4) by blast
    show ?thesis by (rule exI [of _ "Suc i"]) (rule conjI [OF Suc_leI [OF le_imp_less_Suc [OF i(1)]] conjI [OF same conjI [OF tried last]]])
  qed
qed

text \<open>What failed attempts keep, the whole call keeps up to its last attempt.\<close>

lemma retry_last:
  assumes "retry check (Suc n) f s = (r, s')" "\<And>t e t'. f t = (Inl e, t') \<Longrightarrow> h t' = h t"
  shows "\<exists>t. h t = h s \<and> f t = (r, s')"
proof -
  obtain i where i: "retry check (Suc n) f s = f (attempted f i s)" "\<forall>j<i. failed_with check (fst (f (attempted f j s)))"
    using retry_attempts [of n check f s] by blast
  have "j \<le> i \<Longrightarrow> h (attempted f j s) = h s" for j
  proof (induction j)
    case (Suc j)
    from Suc.prems i(2) have "failed_with check (fst (f (attempted f j s)))" by simp
    then obtain e where "fst (f (attempted f j s)) = Inl e" by (auto simp: failed_with_def split: sum.splits)
    with Suc assms(2) show ?case unfolding attempted_Suc by (metis Suc_leD prod.collapse)
  qed simp
  with i(1) assms(1) show ?thesis by auto
qed

section \<open>The library\<close>

text \<open>A database with one table: its rows, and a clock, so that a transaction may be answered differently when it is
  tried again. A transaction of the library is a function on it.\<close>

record 'r database =
  da_rows :: "'r list"
  da_time :: nat

record 'r dataset =
  ds_find_one :: "string \<Rightarrow> 'r database \<Rightarrow> 'r option res \<times> 'r database"
  ds_find :: "string \<Rightarrow> string \<Rightarrow> 'r database \<Rightarrow> 'r list res \<times> 'r database"
  ds_insert :: "'r \<Rightarrow> 'r database \<Rightarrow> unit res \<times> 'r database"
  ds_upsert :: "'r \<Rightarrow> 'r database \<Rightarrow> unit res \<times> 'r database"

text \<open>The classes of the database's errors: those of SQLite's driver, and those of SQLAlchemy that wrap them.\<close>

definition driver_class :: "string \<Rightarrow> exc_class" where
  "driver_class n = UserClass n (UserClass ''DatabaseError'' (UserClass ''Error'' (Py Exception)))"

definition sqlalchemy_class :: "string \<Rightarrow> exc_class" where
  "sqlalchemy_class n = UserClass n (UserClass ''DatabaseError'' (UserClass ''DBAPIError''
     (UserClass ''StatementError'' (UserClass ''SQLAlchemyError'' (Py Exception)))))"

text \<open>The classes \<open>_sqlite_client.py\<close> imports: \<open>sqlite3.OperationalError\<close> and \<open>sqlalchemy.exc.IntegrityError\<close>.\<close>

abbreviation is_driver_locked :: "exn \<Rightarrow> bool" where
  "is_driver_locked e \<equiv> isinstance e (driver_class ''OperationalError'')"

abbreviation is_integrity :: "exn \<Rightarrow> bool" where
  "is_integrity e \<equiv> isinstance e (sqlalchemy_class ''IntegrityError'')"

section \<open>The client\<close>

definition duplicated_primary_key :: "string \<Rightarrow> exn" where
  "duplicated_primary_key k = pf_exn (Ot DuplicatedPrimaryKeyException) [PStr (''Primary key '' @ k @ '' already exists.'')] UNKNOWN"

definition primary_key_not_found :: "string \<Rightarrow> exn" where
  "primary_key_not_found k = pf_exn (Ot NotFoundException) [PStr (''Entity with primary key '' @ k @ '' not found.'')] UNKNOWN"

text \<open>The bodies of \<open>get\<close> and \<open>insert\<close>, and the decorated methods.\<close>

definition get_once :: "'r dataset \<Rightarrow> string \<Rightarrow> 'r database \<Rightarrow> 'r res \<times> 'r database" where
  "get_once ds k d = (case ds_find_one ds k d of
     (Inl e, d') \<Rightarrow> (Inl e, d')
   | (Inr None, d') \<Rightarrow> (Inl (primary_key_not_found k), d')
   | (Inr (Some r), d') \<Rightarrow> (Inr r, d'))"

definition client_get :: "'r dataset \<Rightarrow> string \<Rightarrow> 'r database \<Rightarrow> 'r res \<times> 'r database" where
  "client_get ds k = retry is_driver_locked 3 (get_once ds k)"

definition client_get_by_field :: "'r dataset \<Rightarrow> string \<Rightarrow> string \<Rightarrow> 'r database \<Rightarrow> 'r list res \<times> 'r database" where
  "client_get_by_field ds column v = retry is_driver_locked 3 (ds_find ds column v)"

definition insert_once :: "('r \<Rightarrow> string) \<Rightarrow> 'r dataset \<Rightarrow> 'r \<Rightarrow> 'r database \<Rightarrow> unit res \<times> 'r database" where
  "insert_once primary_key ds entity d = (case ds_insert ds entity d of
     (Inl e, d') \<Rightarrow> (Inl (if is_integrity e then raise_from (duplicated_primary_key (primary_key entity)) e else e), d')
   | (Inr u, d') \<Rightarrow> (Inr u, d'))"

definition client_insert :: "('r \<Rightarrow> string) \<Rightarrow> 'r dataset \<Rightarrow> 'r \<Rightarrow> 'r database \<Rightarrow> unit res \<times> 'r database" where
  "client_insert primary_key ds entity = retry is_driver_locked 3 (insert_once primary_key ds entity)"

definition client_upsert :: "'r dataset \<Rightarrow> 'r \<Rightarrow> 'r database \<Rightarrow> unit res \<times> 'r database" where
  "client_upsert ds entity = retry is_driver_locked 3 (ds_upsert ds entity)"

lemma not_driver_locked [simp]:
  "\<not> is_driver_locked (raise_from (duplicated_primary_key k) e)" "\<not> is_driver_locked (primary_key_not_found k)"
  by (simp_all add: isinstance_def driver_class_def mro_def duplicated_primary_key_def primary_key_not_found_def numeral_eq_Suc)

text \<open>An insertion fails with the driver's error only after three transactions that raised it.\<close>

lemma client_insert_exhausted:
  assumes "client_insert primary_key ds r d = (Inl e, d')" "is_driver_locked e" "i < 3"
  shows "failed_with is_driver_locked (fst (ds_insert ds r (attempted (ds_insert ds r) i d)))"
proof -
  let ?f = "insert_once primary_key ds r" and ?g = "ds_insert ds r"
  have snd_once: "snd (?f t) = snd (?g t)" for t by (auto simp: insert_once_def split: prod.splits sum.splits)
  have same: "attempted ?f j d = attempted ?g j d" for j
    by (induction j) (simp_all only: attempted_Suc attempted_simps(1) snd_once)
  have locked: "failed_with is_driver_locked (fst (?g t))" if "failed_with is_driver_locked (fst (?f t))" for t
    using that by (auto simp: insert_once_def failed_with_def split: prod.splits sum.splits if_splits)
  obtain k where k: "retry is_driver_locked (Suc 2) ?f d = ?f (attempted ?f k d)"
    "\<forall>j<k. failed_with is_driver_locked (fst (?f (attempted ?f j d)))" "failed_with is_driver_locked (fst (?f (attempted ?f k d))) \<longrightarrow> k = 2"
    using retry_attempts [of 2 is_driver_locked ?f d] by blast
  have "?f (attempted ?f k d) = (Inl e, d')" using assms(1) k(1) by (simp add: client_insert_def numeral_3_eq_3 numeral_2_eq_2)
  then have "failed_with is_driver_locked (fst (?f (attempted ?f k d)))" using assms(2) by simp
  with k(2,3) assms(3) have "failed_with is_driver_locked (fst (?f (attempted ?f i d)))" by (cases "i = 2") auto
  then show ?thesis using locked same by metis
qed

section \<open>What the library promises\<close>

text \<open>A transaction that ends reads or changes the rows as its name says, one that raises is rolled back, and an insertion
  violates integrity only when a row has the primary key.\<close>

locale dataset_table =
  fixes primary_key :: "'r \<Rightarrow> string" and columns :: "string \<Rightarrow> 'r \<Rightarrow> string" and ds :: "'r dataset"
  assumes find_one_rows: "ds_find_one ds k d = (Inr found, d') \<Longrightarrow> set (da_rows d') = set (da_rows d) \<and>
      (case found of Some x \<Rightarrow> x \<in> set (da_rows d) \<and> primary_key x = k | None \<Rightarrow> \<forall>x\<in>set (da_rows d). primary_key x \<noteq> k)"
    and find_one_raised: "ds_find_one ds k d = (Inl e, d') \<Longrightarrow> set (da_rows d') = set (da_rows d)"
    and find_rows: "ds_find ds c v d = (Inr rs, d') \<Longrightarrow>
      set (da_rows d') = set (da_rows d) \<and> set rs = {r \<in> set (da_rows d). columns c r = v}"
    and find_raised: "ds_find ds c v d = (Inl e, d') \<Longrightarrow> set (da_rows d') = set (da_rows d)"
    and insert_rows: "ds_insert ds r d = (Inr u, d') \<Longrightarrow>
      set (da_rows d') = insert r (set (da_rows d)) \<and> (\<forall>x\<in>set (da_rows d). primary_key x \<noteq> primary_key r)"
    and insert_raised: "ds_insert ds r d = (Inl e, d') \<Longrightarrow> set (da_rows d') = set (da_rows d) \<and>
      (is_integrity e \<longrightarrow> (\<exists>x\<in>set (da_rows d). primary_key x = primary_key r))"
    and upsert_rows: "ds_upsert ds r d = (Inr u, d') \<Longrightarrow>
      set (da_rows d') = insert r {x \<in> set (da_rows d). primary_key x \<noteq> primary_key r}"
    and upsert_raised: "ds_upsert ds r d = (Inl e, d') \<Longrightarrow> set (da_rows d') = set (da_rows d)"
begin

lemma get_by_field:
  assumes "client_get_by_field ds c v d = (r, d')"
  shows "set (da_rows d') = set (da_rows d) \<and> (case r of
      Inr rs \<Rightarrow> set rs = {r \<in> set (da_rows d). columns c r = v}
    | Inl e \<Rightarrow> \<exists>t. fst (ds_find ds c v t) = Inl e)"
proof -
  have "\<exists>t. set (da_rows t) = set (da_rows d) \<and> ds_find ds c v t = (r, d')"
    by (rule retry_last [OF assms [unfolded client_get_by_field_def numeral_3_eq_3]]) (rule find_raised)
  then obtain t where t: "set (da_rows t) = set (da_rows d)" "ds_find ds c v t = (r, d')" by blast
  show ?thesis
  proof (cases r)
    case (Inl e)
    with t(2) have "fst (ds_find ds c v t) = Inl e" "set (da_rows d') = set (da_rows t)" using find_raised by simp_all
    with t(1) Inl show ?thesis by auto
  next
    case (Inr rs)
    then show ?thesis using t find_rows [of c v t rs d'] by simp
  qed
qed

lemma get_once_raised:
  assumes "get_once ds k d = (Inl e, d')"
  shows "set (da_rows d') = set (da_rows d)"
proof (cases "ds_find_one ds k d")
  case (Pair r d0)
  then show ?thesis
    using assms find_one_raised [of k d] find_one_rows [of k d] by (cases r) (auto simp: get_once_def split: option.splits)
qed

lemma insert_once_raised:
  assumes "insert_once primary_key ds r d = (Inl e, d')"
  shows "set (da_rows d') = set (da_rows d)"
proof (cases "ds_insert ds r d")
  case (Pair u d0)
  then show ?thesis using assms insert_raised [of r d] by (cases u) (auto simp: insert_once_def)
qed

lemma insertion:
  assumes "client_insert primary_key ds r d = (res, d')"
  shows "case res of
      Inr u \<Rightarrow> set (da_rows d') = insert r (set (da_rows d)) \<and> (\<forall>x\<in>set (da_rows d). primary_key x \<noteq> primary_key r)
    | Inl e \<Rightarrow> set (da_rows d') = set (da_rows d) \<and> (\<exists>t c. fst (ds_insert ds r t) = Inl c \<and>
        (if is_integrity c then e = raise_from (duplicated_primary_key (primary_key r)) c \<and>
           (\<exists>x\<in>set (da_rows d). primary_key x = primary_key r) else e = c))"
proof -
  have "\<exists>t. set (da_rows t) = set (da_rows d) \<and> insert_once primary_key ds r t = (res, d')"
    by (rule retry_last [OF assms [unfolded client_insert_def numeral_3_eq_3]]) (rule insert_once_raised)
  then obtain t where t: "set (da_rows t) = set (da_rows d)" "insert_once primary_key ds r t = (res, d')" by blast
  obtain res0 d0 where i: "ds_insert ds r t = (res0, d0)" by force
  show ?thesis
  proof (cases res0)
    case (Inl c)
    then have f: "fst (ds_insert ds r t) = Inl c" using i by simp
    have res: "res = Inl (if is_integrity c then raise_from (duplicated_primary_key (primary_key r)) c else c)" "d' = d0"
      using t(2) i Inl by (simp_all add: insert_once_def)
    from insert_raised [OF i [unfolded Inl]] t(1) have "set (da_rows d0) = set (da_rows d)"
      "is_integrity c \<longrightarrow> (\<exists>x\<in>set (da_rows d). primary_key x = primary_key r)" by simp_all
    then show ?thesis unfolding res by (auto intro!: exI [of _ t] exI [of _ c] simp: f)
  next
    case (Inr u)
    then have "res = Inr u" "d' = d0" using t(2) i by (simp_all add: insert_once_def)
    with insert_rows [OF i [unfolded Inr]] t(1) show ?thesis by simp
  qed
qed

text \<open>What was upserted is what is read.\<close>

lemma upserted:
  assumes "client_upsert ds r d = (Inr u, d1)" "client_get ds (primary_key r) d1 = (res, d2)"
  shows "res = Inr r \<or> (\<exists>t e. fst (ds_find_one ds (primary_key r) t) = Inl e \<and> res = Inl e)"
proof -
  have "\<exists>t. set (da_rows t) = set (da_rows d) \<and> ds_upsert ds r t = (Inr u, d1)"
    by (rule retry_last [OF assms(1) [unfolded client_upsert_def numeral_3_eq_3]]) (rule upsert_raised)
  then have rows: "set (da_rows d1) = insert r {x \<in> set (da_rows d). primary_key x \<noteq> primary_key r}" using upsert_rows by force
  have "\<exists>t. set (da_rows t) = set (da_rows d1) \<and> get_once ds (primary_key r) t = (res, d2)"
    by (rule retry_last [OF assms(2) [unfolded client_get_def numeral_3_eq_3]]) (rule get_once_raised)
  then obtain t where t: "set (da_rows t) = set (da_rows d1)" "get_once ds (primary_key r) t = (res, d2)" by blast
  obtain r0 d0 where i: "ds_find_one ds (primary_key r) t = (r0, d0)" by force
  show ?thesis
  proof (cases r0)
    case (Inl e)
    then have "fst (ds_find_one ds (primary_key r) t) = Inl e" "res = Inl e" using i t(2) by (simp_all add: get_once_def)
    then show ?thesis by blast
  next
    case (Inr x)
    with find_one_rows [of "primary_key r" t x d0] i t(1) rows have "x = Some r" by (cases x) auto
    with Inr i t(2) show ?thesis by (simp add: get_once_def)
  qed
qed

end

text \<open>A library that satisfies it: the rows in memory, with a primary key.\<close>

definition in_memory :: "('r \<Rightarrow> string) \<Rightarrow> (string \<Rightarrow> 'r \<Rightarrow> string) \<Rightarrow> 'r dataset" where
  "in_memory primary_key columns = \<lparr>
     ds_find_one = (\<lambda>k d. (Inr (find (\<lambda>r. primary_key r = k) (da_rows d)), d)),
     ds_find = (\<lambda>c v d. (Inr (filter (\<lambda>r. columns c r = v) (da_rows d)), d)),
     ds_insert = (\<lambda>r d. if list_ex (\<lambda>x. primary_key x = primary_key r) (da_rows d)
       then (Inl (pf_exn (sqlalchemy_class ''IntegrityError'') [] UNKNOWN), d) else (Inr (), d\<lparr>da_rows := da_rows d @ [r]\<rparr>)),
     ds_upsert = (\<lambda>r d. (Inr (), d\<lparr>da_rows := filter (\<lambda>x. primary_key x \<noteq> primary_key r) (da_rows d) @ [r]\<rparr>))\<rparr>"

interpretation memory: dataset_table primary_key columns "in_memory primary_key columns" for primary_key columns
  by unfold_locales (auto simp: in_memory_def list_ex_iff find_None_iff find_Some_iff split: if_splits option.splits)

section \<open>The errors that are retried\<close>

text \<open>A library that finds the database locked while its clock runs down.\<close>

definition locked_insert :: "exn \<Rightarrow> 'r \<Rightarrow> 'r database \<Rightarrow> unit res \<times> 'r database" where
  "locked_insert e r d = (if 0 < da_time d then (Inl e, d\<lparr>da_time := da_time d - 1\<rparr>) else (Inr (), d\<lparr>da_rows := da_rows d @ [r]\<rparr>))"

text \<open>The decorator waits for an error of SQLite's driver. SQLAlchemy raises such errors wrapped in a class of its own, which
  is not retried: the first locked transaction fails the call.\<close>

lemma locked_driver_retried:
  "client_insert id \<lparr>ds_find_one = f, ds_find = g, ds_insert = locked_insert (pf_exn (driver_class ''OperationalError'') [] UNKNOWN),
      ds_upsert = h\<rparr> ''a'' \<lparr>da_rows = [], da_time = 2\<rparr> = (Inr (), \<lparr>da_rows = [''a''], da_time = 0\<rparr>)"
  by (simp add: client_insert_def insert_once_def numeral_eq_Suc locked_insert_def isinstance_def driver_class_def sqlalchemy_class_def mro_def)

lemma locked_wrapped_not_retried:
  "client_insert id \<lparr>ds_find_one = f, ds_find = g, ds_insert = locked_insert (pf_exn (sqlalchemy_class ''OperationalError'') [] UNKNOWN),
      ds_upsert = h\<rparr> ''a'' \<lparr>da_rows = [], da_time = 1\<rparr> =
    (Inl (pf_exn (sqlalchemy_class ''OperationalError'') [] UNKNOWN), \<lparr>da_rows = [], da_time = 0\<rparr>)"
  by (simp add: client_insert_def insert_once_def numeral_eq_Suc locked_insert_def isinstance_def driver_class_def sqlalchemy_class_def mro_def)

end
