(* ===== verification/Cache.thy ===== *)
theory Cache imports Runs Tracer SqliteClient begin

text \<open>
  The cache of node results (\<^verbatim>\<open>promptflow/_core/cache_manager.py\<close>, \<^verbatim>\<open>storage/_cache_storage.py\<close>)
  over the client of its table. Parameters: the library under the client, the hash function, the cache function
  registered with a tool, and \<open>get_node_run\<close> of the run storage, which no storage class of the repository defines.
\<close>

section \<open>Cache records\<close>

record cache_record =
  cc_run_id :: string
  cc_hash_id :: string
  cc_flow_run_id :: string
  cc_flow_id :: string
  cc_cache_string :: string
  cc_end_time :: "int option"

type_synonym cache_table = "cache_record database"

text \<open>The columns of the table that are texts.\<close>

definition cache_column :: "string \<Rightarrow> cache_record \<Rightarrow> string" where
  "cache_column c r =
    (if c = ''run_id'' then cc_run_id r else if c = ''hash_id'' then cc_hash_id r else if c = ''flow_run_id'' then cc_flow_run_id r
     else if c = ''flow_id'' then cc_flow_id r else if c = ''cache_string'' then cc_cache_string r else [])"

definition get_cache_record_list ::
  "cache_record dataset \<Rightarrow> string \<Rightarrow> cache_table \<Rightarrow> cache_record list res \<times> cache_table" where
  "get_cache_record_list ds hash_id = client_get_by_field ds ''hash_id'' hash_id"

definition cache_record_of :: "run_info \<Rightarrow> string \<Rightarrow> string \<Rightarrow> string \<Rightarrow> cache_record" where
  "cache_record_of r hash_id cache_string fid = \<lparr>cc_run_id = ri_run_id r, cc_hash_id = hash_id,
     cc_flow_run_id = ri_flow_run_id r, cc_flow_id = fid, cc_cache_string = cache_string, cc_end_time = ri_end_time r\<rparr>"

definition persist_cache_result :: "cache_record dataset \<Rightarrow> cache_record \<Rightarrow> cache_table \<Rightarrow> unit res \<times> cache_table" where
  "persist_cache_result ds r = client_insert cc_run_id ds r"

section \<open>The cache manager\<close>

record cache_info =
  ci_hash_id :: string
  ci_cache_string :: string

record cache_result =
  cr_result :: pyval
  cr_cached_run_id :: string
  cr_cached_flow_run_id :: string
  cr_hit_cache :: bool

text \<open>The text \<open>json.dumps\<close> writes for a string: what is not printable ASCII is escaped.\<close>

definition hex_digit :: "nat \<Rightarrow> char" where
  "hex_digit d = (if d < 10 then digit_char d else char_of (87 + d))"

definition json_char :: "char \<Rightarrow> string" where
  "json_char c = (let n = (of_char c :: nat) in
     if n = 34 then [CHR 0x5C, CHR 0x22] else if n = 92 then [CHR 0x5C, CHR 0x5C]
     else if n = 10 then [CHR 0x5C, CHR ''n''] else if n = 13 then [CHR 0x5C, CHR ''r'']
     else if n = 9 then [CHR 0x5C, CHR ''t''] else if n = 8 then [CHR 0x5C, CHR ''b'']
     else if n = 12 then [CHR 0x5C, CHR ''f'']
     else if n < 32 \<or> 126 < n
     then [CHR 0x5C, CHR ''u'', CHR ''0'', CHR ''0'', hex_digit (n div 16), hex_digit (n mod 16)]
     else [c])"

definition json_text :: "string \<Rightarrow> string" where
  "json_text s = concat (map json_char s)"

definition other_cache_string :: "string \<Rightarrow> string \<Rightarrow> string" where
  "other_cache_string fid name = ''{'' @ [CHR 0x22] @ ''flow_id'' @ [CHR 0x22] @ '': '' @ [CHR 0x22] @ json_text fid @
     [CHR 0x22] @ '', '' @ [CHR 0x22] @ ''tool_name'' @ [CHR 0x22] @ '': '' @ [CHR 0x22] @ json_text name @ [CHR 0x22] @ ''}''"

type_synonym cache_function = "pyval list \<Rightarrow> (string, pyval) dict \<Rightarrow> string res"

definition calculate_cache_info ::
  "(string \<Rightarrow> string) \<Rightarrow> string \<Rightarrow> string \<Rightarrow> cache_function option \<Rightarrow> pyval list \<Rightarrow> (string, pyval) dict \<Rightarrow>
     cache_info option" where
  "calculate_cache_info sha1 fid name cache_function args kwargs =
    (case cache_function of
       None \<Rightarrow> None
     | Some f \<Rightarrow> (case f args kwargs of
         Inl _ \<Rightarrow> None
       | Inr s \<Rightarrow> (let t = s @ other_cache_string fid name
                   in Some \<lparr>ci_hash_id = sha1 t, ci_cache_string = t\<rparr>)))"

text \<open>\<open>sorted(records, reverse=True, key=end_time)[0]\<close>: among equal times the first stays first.
  Times that are missing cannot be compared.\<close>

definition latest_record :: "cache_record list \<Rightarrow> cache_record res" where
  "latest_record rs =
    (if 1 < length rs \<and> list_ex (\<lambda>r. cc_end_time r = None) rs
     then Inl (py_exn TypeError [PStr ''< not supported between instances''])
     else Inr (hd (sort_key (\<lambda>r. case cc_end_time r of None \<Rightarrow> 0 | Some n \<Rightarrow> - n) rs)))"

definition during :: "exn \<Rightarrow> exn \<Rightarrow> exn" where
  "during e c = Exn (ex e) (ex_error e) (ex_cause e) (Some c)"

text \<open>When the run storage raises, the handler reads \<open>cached_run_info\<close>, which was never assigned.\<close>

definition cached_run_result :: "(string \<Rightarrow> run_info res) \<Rightarrow> cache_record list \<Rightarrow> cache_result option res" where
  "cached_run_result get_node_run rs =
    (if rs = [] then Inr None
     else bindr (latest_record rs) (\<lambda>r.
         (case get_node_run (cc_run_id r) of
            Inl e \<Rightarrow> Inl (during (py_exn UnboundLocalError [PStr ''local variable cached_run_info referenced before assignment'']) e)
          | Inr run \<Rightarrow> Inr (Some \<lparr>cr_result = ri_result run, cr_cached_run_id = ri_run_id run,
              cr_cached_flow_run_id = ri_flow_run_id run, cr_hit_cache = True\<rparr>))))"

definition get_cache_result ::
  "(string \<Rightarrow> 'd \<Rightarrow> cache_record list res \<times> 'd) \<Rightarrow> (string \<Rightarrow> run_info res) \<Rightarrow> cache_info \<Rightarrow> 'd \<Rightarrow> cache_result option res \<times> 'd" where
  "get_cache_result records get_node_run info d =
    (case records (ci_hash_id info) d of
       (Inl e, d') \<Rightarrow> (Inl e, d')
     | (Inr rs, d') \<Rightarrow> (cached_run_result get_node_run rs, d'))"

definition persist_result ::
  "(cache_record \<Rightarrow> 'd \<Rightarrow> unit res \<times> 'd) \<Rightarrow> run_info \<Rightarrow> cache_info \<Rightarrow> string \<Rightarrow> 'd \<Rightarrow> unit res \<times> 'd" where
  "persist_result persist r info fid = persist (cache_record_of r (ci_hash_id info) (ci_cache_string info) fid)"

text \<open>The managers: the dummy one, and the one over a cache storage.\<close>

datatype cache_manager = DummyCacheManager | CacheManager cache_table

section \<open>Storage and manager\<close>

text \<open>What the manager needs of a cache storage.\<close>

locale cache_storage =
  fixes kept :: "'d \<Rightarrow> cache_record set"
    and records :: "string \<Rightarrow> 'd \<Rightarrow> cache_record list res \<times> 'd"
    and persist :: "cache_record \<Rightarrow> 'd \<Rightarrow> unit res \<times> 'd"
  assumes records_kept: "records h d = (Inr rs, d') \<Longrightarrow> kept d' = kept d \<and> set rs = {r \<in> kept d. cc_hash_id r = h}"
    and records_raised: "records h d = (Inl e, d') \<Longrightarrow> kept d' = kept d"
    and persist_kept: "persist r d = (Inr u, d') \<Longrightarrow> kept d' = insert r (kept d)"
begin

lemma hit_latest:
  assumes "persist_result persist run info fid d = (Inr u, d1)" "ri_end_time run = Some n"
    and "\<forall>r\<in>kept d. cc_hash_id r = ci_hash_id info \<longrightarrow> (\<exists>m. cc_end_time r = Some m \<and> m < n)"
    and "get_node_run (ri_run_id run) = Inr stored"
    and "get_cache_result records get_node_run info d1 = (found, d2)"
  shows "kept d2 = kept d1 \<and> (case found of
      Inr c \<Rightarrow> c = Some \<lparr>cr_result = ri_result stored, cr_cached_run_id = ri_run_id stored,
        cr_cached_flow_run_id = ri_flow_run_id stored, cr_hit_cache = True\<rparr>
    | Inl e \<Rightarrow> fst (records (ci_hash_id info) d1) = Inl e)"
proof (cases "records (ci_hash_id info) d1")
  case (Pair x d')
  show ?thesis
  proof (cases x)
    case (Inl e)
    with Pair assms(5) records_raised show ?thesis by (auto simp: get_cache_result_def)
  next
    case (Inr rs)
    let ?r = "cache_record_of run (ci_hash_id info) (ci_cache_string info) fid"
    let ?k = "\<lambda>r. case cc_end_time r of None \<Rightarrow> 0 | Some n \<Rightarrow> - n"
    have rs: "kept d' = kept d1" "set rs = {r \<in> kept d1. cc_hash_id r = ci_hash_id info}"
      using records_kept Pair Inr by simp_all
    have last: "cc_end_time ?r = Some n" "cc_hash_id ?r = ci_hash_id info" "cc_run_id ?r = ri_run_id run"
      by (simp_all add: cache_record_of_def assms(2))
    have "kept d1 = insert ?r (kept d)" using persist_kept assms(1) by (simp add: persist_result_def)
    then have els: "?r \<in> set rs" "\<forall>r\<in>set rs. r = ?r \<or> (\<exists>m. cc_end_time r = Some m \<and> m < n)" using rs(2) last(2) assms(3) by auto
    then have "rs \<noteq> []" by auto
    then have "sort_key ?k rs \<noteq> []" by (metis length_0_conv length_sort)
    then obtain y ys where srt: "sort_key ?k rs = y # ys" by (meson neq_Nil_conv)
    have "set (y # ys) = set rs" by (metis set_sort srt)
    moreover have "sorted (map ?k (y # ys))" by (metis sorted_sort_key srt)
    ultimately have "?k y \<le> ?k ?r" "y \<in> set rs" using els(1) by auto
    with els(2) last(1) have "y = ?r" by fastforce
    moreover have "\<not> list_ex (\<lambda>r. cc_end_time r = None) rs" using els(2) last(1) by (auto simp: list_ex_iff)
    ultimately have "latest_record rs = Inr ?r" by (simp add: latest_record_def srt)
    with \<open>rs \<noteq> []\<close> have "cached_run_result get_node_run rs = Inr (Some \<lparr>cr_result = ri_result stored, cr_cached_run_id = ri_run_id stored,
        cr_cached_flow_run_id = ri_flow_run_id stored, cr_hit_cache = True\<rparr>)"
      using assms(4) by (simp add: cached_run_result_def last(3))
    moreover have "found = cached_run_result get_node_run rs" "d2 = d'" using Pair Inr assms(5) by (simp_all add: get_cache_result_def)
    ultimately show ?thesis using rs(1) by simp
  qed
qed

end

text \<open>The local storage over a library that keeps its promises is one.\<close>

locale cache_dataset = dataset_table cc_run_id cache_column ds for ds :: "cache_record dataset"

sublocale cache_dataset \<subseteq> local_cache: cache_storage "\<lambda>d. set (da_rows d)" "get_cache_record_list ds" "persist_cache_result ds"
proof
  fix h d rs d'
  assume "get_cache_record_list ds h d = (Inr rs, d')"
  from get_by_field [OF this [unfolded get_cache_record_list_def]]
  show "set (da_rows d') = set (da_rows d) \<and> set rs = {r \<in> set (da_rows d). cc_hash_id r = h}" by (simp add: cache_column_def)
next
  fix h d e d'
  assume "get_cache_record_list ds h d = (Inl e, d')"
  from get_by_field [OF this [unfolded get_cache_record_list_def]] show "set (da_rows d') = set (da_rows d)" by simp
next
  fix r d u d'
  assume "persist_cache_result ds r d = (Inr u, d')"
  from insertion [OF this [unfolded persist_cache_result_def]] show "set (da_rows d') = insert r (set (da_rows d))" by simp
qed

context cache_dataset begin

lemma persisted_found:
  assumes "persist_result (persist_cache_result ds) run info fid d = (Inr u, d1)" "ri_end_time run = Some n"
    and "\<forall>p\<in>set (da_rows d). cc_hash_id p = ci_hash_id info \<longrightarrow> (\<exists>m. cc_end_time p = Some m \<and> m < n)"
    and "get_node_run (ri_run_id run) = Inr stored" "get_cache_result (get_cache_record_list ds) get_node_run info d1 = (found, d2)"
  shows "set (da_rows d2) = set (da_rows d1) \<and> (case found of
      Inr c \<Rightarrow> c = Some \<lparr>cr_result = ri_result stored, cr_cached_run_id = ri_run_id stored,
        cr_cached_flow_run_id = ri_flow_run_id stored, cr_hit_cache = True\<rparr>
    | Inl e \<Rightarrow> \<exists>t. fst (ds_find ds ''hash_id'' (ci_hash_id info) t) = Inl e)"
proof (cases found)
  case (Inl e)
  obtain x d' where x: "get_cache_record_list ds (ci_hash_id info) d1 = (x, d')" by force
  with local_cache.hit_latest [OF assms] Inl have "x = Inl e" by simp
  with get_by_field [OF x [unfolded get_cache_record_list_def]] local_cache.hit_latest [OF assms] Inl show ?thesis by simp
next
  case (Inr c)
  with local_cache.hit_latest [OF assms] show ?thesis by simp
qed

end

interpretation memory_cache: cache_dataset "in_memory cc_run_id cache_column"
  by (simp add: cache_dataset_def memory.dataset_table_axioms)



text \<open>A lookup that finds a record whose run cannot be read does not miss: it raises
  \<open>UnboundLocalError\<close>.\<close>

theorem cache_lookup_unbound:
  assumes "records (ci_hash_id info) d = (Inr [r], d')" "get_node_run (cc_run_id r) = Inl e"
  shows "\<exists>x. get_cache_result records get_node_run info d = (Inl x, d') \<and> isinstance x (Py UnboundLocalError)"
  using assms
  by (simp add: get_cache_result_def cached_run_result_def latest_record_def isinstance_def during_def py_exn_def mro_def numeral_eq_Suc)

theorem cache_lookup_unbound_witness:
  "\<exists>x. get_cache_result (\<lambda>h d. (Inr [cache_record_of (demo_run ''r1'' ''a'' (Some 0) Completed) h ''s'' ''f''], d))
      (\<lambda>k. Inl (py_exn AttributeError [PStr ''get_node_run''])) \<lparr>ci_hash_id = ''h'', ci_cache_string = ''s''\<rparr> () = (Inl x, ()) \<and>
    isinstance x (Py UnboundLocalError)"
  by (rule cache_lookup_unbound [where r = "cache_record_of (demo_run ''r1'' ''a'' (Some 0) Completed) ''h'' ''s'' ''f''"]) simp_all

section \<open>Cache strings\<close>

lemma code_less_256: "(of_char c :: nat) < 256"
proof -
  have "(of_char c :: nat) \<in> range of_char" by simp
  then show ?thesis by (simp only: range_nat_of_char) simp
qed

lemma hex_val_digit:
  assumes "d < 16"
  shows "hex_val (hex_digit d) = Some d"
proof (cases "d < 10")
  case True
  then show ?thesis by (simp add: hex_val_def hex_digit_def digit_char_def is_digit_def Let_def)
next
  case False
  with assms show ?thesis by (simp add: hex_val_def hex_digit_def is_digit_def Let_def)
qed

lemma code_char: "(of_char c :: nat) = n \<Longrightarrow> c = char_of n"
  using char_of_char [of c, where ?'a = nat] by metis

lemma special_codes:
  "char_of (34::nat) = CHR 0x22" "char_of (92::nat) = CHR 0x5C" "char_of (10::nat) = CHR 0x0A" "char_of (13::nat) = CHR 0x0D"
  "char_of (9::nat) = CHR 0x09" "char_of (8::nat) = CHR 0x08" "char_of (12::nat) = CHR 0x0C"
  by code_simp+

lemma json_string_char: "json_string (json_char c @ s) = map_option (\<lambda>(t, r). (c # t, r)) (json_string s)"
proof -
  let ?n = "of_char c :: nat"
  consider "?n \<in> {34, 92, 10, 13, 9, 8, 12}" | "?n \<notin> {34, 92, 10, 13, 9, 8, 12}" "?n < 32 \<or> 126 < ?n"
    | "?n \<notin> {34, 92, 10, 13, 9, 8, 12}" "32 \<le> ?n" "?n \<le> 126" by fastforce
  then show ?thesis
  proof cases
    case 1
    then have "c \<in> {char_of (34::nat), char_of (92::nat), char_of (10::nat), char_of (13::nat), char_of (9::nat), char_of (8::nat), char_of (12::nat)}"
      using code_char [of c] by blast
    then show ?thesis by (auto simp: json_char_def special_codes)
  next
    case 2
    have "?n < 256" by (rule code_less_256)
    then have "?n div 16 < 16" "?n mod 16 < 16" by (simp_all add: less_mult_imp_div_less)
    then have h: "hex_val (hex_digit (?n div 16)) = Some (?n div 16)" "hex_val (hex_digit (?n mod 16)) = Some (?n mod 16)"
      "hex_val (CHR ''0'') = Some 0"
      using hex_val_digit by (simp_all add: hex_val_def is_digit_def)
    have "char_of (16 * (?n div 16) + ?n mod 16) = c" by simp
    with 2 h show ?thesis by (simp add: json_char_def Let_def)
  next
    case 3
    then have "c \<noteq> CHR 0x22" "c \<noteq> CHR 0x5C" by auto
    with 3 show ?thesis by (simp add: json_char_def)
  qed
qed

lemma json_string_text: "json_string (json_text s @ CHR 0x22 # rest) = Some (s, rest)"
  by (induction s) (simp_all add: json_text_def json_string_char del: json_string.simps(2), simp)

lemma json_text_inject: "json_text s = json_text t \<longleftrightarrow> s = t"
  using json_string_text [of s "[]"] json_string_text [of t "[]"] by (metis option.inject prod.inject)

text \<open>Every quote in a written string follows a backslash.\<close>

fun quotes_escaped :: "char \<Rightarrow> string \<Rightarrow> bool" where
  "quotes_escaped p [] = True"
| "quotes_escaped p (c # s) = ((c = CHR 0x22 \<longrightarrow> p = CHR 0x5C) \<and> quotes_escaped c s)"

lemma quotes_escaped_append: "quotes_escaped p (s @ t) \<longleftrightarrow> quotes_escaped p s \<and> quotes_escaped (last (p # s)) t"
  by (induction s arbitrary: p) simp_all

lemma quotes_escaped_weaken: "quotes_escaped p s \<Longrightarrow> s = [] \<or> hd s \<noteq> CHR 0x22 \<Longrightarrow> quotes_escaped q s"
  by (cases s) auto

lemma hex_digit_plain: "d < 16 \<Longrightarrow> hex_digit d \<noteq> CHR 0x22"
  using hex_val_digit [of d] by (auto simp: hex_val_def is_digit_def)

lemma json_char_escaped: "quotes_escaped p (json_char c) \<and> json_char c \<noteq> [] \<and> hd (json_char c) \<noteq> CHR 0x22"
proof -
  have "of_char c div 16 < (16::nat)" by (rule less_mult_imp_div_less) (use code_less_256 [of c] in simp)
  then have "hex_digit (of_char c div 16) \<noteq> CHR 0x22" "hex_digit (of_char c mod 16) \<noteq> CHR 0x22"
    using hex_digit_plain [of "of_char c div 16"] hex_digit_plain [of "of_char c mod 16"] by simp_all
  then show ?thesis by (auto simp: json_char_def Let_def)
qed

lemma json_text_escaped: "quotes_escaped p (json_text s)"
proof (induction s arbitrary: p)
  case (Cons c s)
  then show ?case using json_char_escaped [of p c] by (simp add: json_text_def quotes_escaped_append)
qed (simp add: json_text_def)

lemma quoted_suffix_unique:
  assumes "x @ [CHR '' '', CHR 0x22] @ s = y @ [CHR '' '', CHR 0x22] @ t"
    and "\<And>p. quotes_escaped p s" "\<And>p. quotes_escaped p t"
  shows "x = y \<and> s = t"
proof -
  have no: "us = []" if e: "v @ [CHR '' '', CHR 0x22] @ us = w @ [CHR '' '', CHR 0x22]" "\<And>p. quotes_escaped p (us @ r)" for v w us r
  proof (rule ccontr)
    assume "us \<noteq> []"
    then obtain us' u where us: "us = us' @ [u]" by (cases us rule: rev_cases) auto
    with e(1) have l: "u = CHR 0x22" by (metis append.assoc append_Cons append_Nil last_snoc)
    have e': "v @ [CHR '' '', CHR 0x22] @ us' = w @ [CHR '' '']" using e(1) us by simp
    show False
    proof (cases us' rule: rev_cases)
      case Nil
      then show ?thesis using e' by simp
    next
      case (snoc us'' u')
      then have "u' = CHR '' ''" using e' by (metis append.assoc last_snoc)
      with e(2) [of "CHR '' ''"] us l snoc show ?thesis by (simp add: quotes_escaped_append)
    qed
  qed
  from assms(1) have "(x @ [CHR '' '', CHR 0x22]) @ s = (y @ [CHR '' '', CHR 0x22]) @ t" by simp
  from append_eq_append_conv2 [THEN iffD1, OF this] show ?thesis
  proof (elim exE disjE conjE)
    fix us assume us: "x @ [CHR '' '', CHR 0x22] = (y @ [CHR '' '', CHR 0x22]) @ us" "us @ s = t"
    with no [of y us x s] assms(3) have "us = []" by simp
    with us show ?thesis by simp
  next
    fix us assume us: "(x @ [CHR '' '', CHR 0x22]) @ us = y @ [CHR '' '', CHR 0x22]" "s = us @ t"
    with no [of x us y t] assms(2) have "us = []" by simp
    with us show ?thesis by simp
  qed
qed

text \<open>Cache strings of different flows or different tools differ, whatever the cache functions of the
  tools return.\<close>

theorem cache_strings_apart:
  "s1 @ other_cache_string f1 t1 = s2 @ other_cache_string f2 t2 \<longleftrightarrow> s1 = s2 \<and> f1 = f2 \<and> t1 = t2"
proof
  assume eq: "s1 @ other_cache_string f1 t1 = s2 @ other_cache_string f2 t2"
  let ?q = "[CHR '' '', CHR 0x22]"
  let ?A = "''{'' @ [CHR 0x22] @ ''flow_id'' @ [CHR 0x22] @ '':''"
  let ?B = "[CHR 0x22] @ '', '' @ [CHR 0x22] @ ''tool_name'' @ [CHR 0x22] @ '':''"
  have shape: "s @ other_cache_string f t = ((s @ ?A @ ?q @ json_text f @ ?B) @ ?q @ json_text t) @ [CHR 0x22] @ ''}''" for s f t
    by (simp add: other_cache_string_def)
  have "(s1 @ ?A @ ?q @ json_text f1 @ ?B) @ ?q @ json_text t1 = (s2 @ ?A @ ?q @ json_text f2 @ ?B) @ ?q @ json_text t2"
    using eq unfolding shape by (simp only: append_same_eq)
  from quoted_suffix_unique [OF this json_text_escaped json_text_escaped]
  have t: "json_text t1 = json_text t2" "(s1 @ ?A) @ ?q @ json_text f1 = (s2 @ ?A) @ ?q @ json_text f2" by simp_all
  from quoted_suffix_unique [OF t(2) json_text_escaped json_text_escaped] t(1)
  show "s1 = s2 \<and> f1 = f2 \<and> t1 = t2" by (simp add: json_text_inject)
qed simp

end
