(* ===== verification/Context.thy ===== *)
theory Context imports Cache InputMapping begin

text \<open>
  Running one node: the context of a flow execution (\<^verbatim>\<open>promptflow/_core/flow_execution_context.py\<close>), the
  operation context (\<^verbatim>\<open>_core/operation_context.py\<close>) and the arguments of tools
  (\<^verbatim>\<open>_core/tool.py\<close>). The state of a node's execution is the run tracker, the active tracer, the cache and
  the operation context. A tool is known by what it does: the calls it makes and its result.
\<close>

section \<open>Operation context\<close>

type_synonym operation_context = "(string, pyval) dict"

definition version :: string where
  "version = ''0.0.1''"

definition operation_instance :: "operation_context option \<Rightarrow> operation_context" where
  "operation_instance c = (case c of None \<Rightarrow> [] | Some d \<Rightarrow> d)"

definition is_primitive :: "pyval \<Rightarrow> bool" where
  "is_primitive v = (v = PNone \<or> as_str v \<noteq> None \<or> (case v of PBool _ \<Rightarrow> True | PInt _ \<Rightarrow> True | PFloat _ \<Rightarrow> True | _ \<Rightarrow> False))"

definition set_operation_attr :: "string \<Rightarrow> pyval \<Rightarrow> operation_context \<Rightarrow> operation_context res" where
  "set_operation_attr name v c =
    (if is_primitive v then Inr (AList.update name v c) else Inl (py_exn TypeError [PStr ''Value must be a primitive'']))"

definition get_operation_attr :: "string \<Rightarrow> operation_context \<Rightarrow> pyval res" where
  "get_operation_attr name c = (case map_of c name of Some v \<Rightarrow> Inr v | None \<Rightarrow> Inl (py_exn AttributeError [PStr name]))"

definition delete_operation_attr :: "string \<Rightarrow> operation_context \<Rightarrow> operation_context res" where
  "delete_operation_attr name c = (if dict_has name c then Inr (AList.delete name c) else Inl (py_exn AttributeError [PStr name]))"

definition get_user_agent :: "operation_context \<Rightarrow> string res" where
  "get_user_agent c =
    (case map_of c ''user_agent'' of
       None \<Rightarrow> Inr (''promptflow/'' @ version)
     | Some v \<Rightarrow> (case as_str v of
         Some s \<Rightarrow> Inr (s @ '' '' @ ''promptflow/'' @ version)
       | None \<Rightarrow> Inl (py_exn TypeError [PStr ''sequence item 0: expected str instance''])))"

definition append_user_agent :: "pyenv \<Rightarrow> string \<Rightarrow> operation_context \<Rightarrow> operation_context res" where
  "append_user_agent env agent c =
    (case map_of c ''user_agent'' of
       None \<Rightarrow> set_operation_attr ''user_agent'' (PStr agent) c
     | Some v \<Rightarrow> bindr (py_contains agent v) (\<lambda>known.
         if known then Inr c
         else set_operation_attr ''user_agent'' (PStr (py_str (obj_repr env) v @ '' '' @ agent)) c))"

text \<open>
  The headers added to calls of the openai API (\<^verbatim>\<open>_core/openai_injector.py\<close>): what the caller gives
  takes precedence.
\<close>

definition get_aoai_telemetry_headers :: "pyenv \<Rightarrow> operation_context \<Rightarrow> (string, pyval) dict res" where
  "get_aoai_telemetry_headers env c = bindr (get_user_agent c) (\<lambda>agent.
     let info = dict_of (map (\<lambda>(k, v). (map (\<lambda>x. if x = CHR ''_'' then CHR ''-'' else x) k, v)) c) in
     Inr (dict_updates [(''x-ms-useragent'', PStr agent)]
       (map (\<lambda>(k, v). (''ms-azure-ai-promptflow-'' @ k, PStr (if v \<noteq> PNone then py_str (obj_repr env) v else []))) info)))"

definition inject_operation_headers ::
  "pyenv \<Rightarrow> operation_context \<Rightarrow> (string, pyval) dict \<Rightarrow> (string, pyval) dict res" where
  "inject_operation_headers env c kwargs = bindr (get_aoai_telemetry_headers env c) (\<lambda>injected.
     Inr (AList.update ''headers'' (PDict (case map_of kwargs ''headers'' of
       Some (PDict original) \<Rightarrow> dict_updates injected original | _ \<Rightarrow> injected)) kwargs))"

section \<open>Arguments\<close>

definition parse_all_args :: "string list \<Rightarrow> pyval list \<Rightarrow> (string, pyval) dict \<Rightarrow> (string, pyval) dict" where
  "parse_all_args argnames args kwargs = dict_updates (dict_of (zip argnames args)) kwargs"

section \<open>The context of a node\<close>

record flow_context =
  fc_name :: pyval
  fc_current_tool :: "string option"
  fc_run_id :: string
  fc_flow_id :: string
  fc_line_number :: "int option"
  fc_variant_id :: string
  fc_current_node :: "node option"

definition new_context :: "pyval \<Rightarrow> string \<Rightarrow> string option \<Rightarrow> int option \<Rightarrow> string \<Rightarrow> flow_context" where
  "new_context name run_id fid line_number variant_id = \<lparr>fc_name = name, fc_current_tool = None, fc_run_id = run_id,
     fc_flow_id = (case fid of Some k \<Rightarrow> if k \<noteq> [] then k else run_id | None \<Rightarrow> run_id),
     fc_line_number = line_number, fc_variant_id = variant_id, fc_current_node = None\<rparr>"

definition copy_context :: "flow_context \<Rightarrow> flow_context" where
  "copy_context c = new_context (fc_name c) (fc_run_id c) (Some (fc_flow_id c)) (fc_line_number c) (fc_variant_id c)"

definition set_current_node :: "node option \<Rightarrow> flow_context \<Rightarrow> flow_context" where
  "set_current_node n c = c\<lparr>fc_current_node := n\<rparr>"

definition update_operation_context :: "flow_context \<Rightarrow> operation_context option \<Rightarrow> operation_context" where
  "update_operation_context c oc =
     dict_updates (operation_instance oc) [(''flow-id'', PStr (fc_flow_id c)), (''root-run-id'', PStr (fc_run_id c))]"

definition generate_current_node_run_id :: "string \<Rightarrow> node \<Rightarrow> flow_context \<Rightarrow> string" where
  "generate_current_node_run_id uuid n c =
    (if node_aggregation n then fc_run_id c @ ''_'' @ node_name n @ ''_reduce''
     else (case fc_line_number c of
       None \<Rightarrow> fc_run_id c @ ''_'' @ node_name n @ ''_'' @ uuid
     | Some i \<Rightarrow> fc_run_id c @ ''_'' @ node_name n @ ''_'' @ int_str i))"

definition parent_run_id :: "flow_context \<Rightarrow> string" where
  "parent_run_id c = (case fc_line_number c of Some i \<Rightarrow> fc_run_id c @ ''_'' @ int_str i | None \<Rightarrow> fc_run_id c)"

section \<open>Invoking a tool\<close>

record node_tool =
  nt_function :: tool_function
  nt_cache_function :: "cache_function option"
  nt_run :: "pyval list \<Rightarrow> (string, pyval) dict \<Rightarrow> call list \<times> pyval res"

text \<open>\<open>invoke_tool\<close>: an exception of the engine passes with the module of the tool, any other is the cause
  of a \<open>ToolExecutionError\<close>.\<close>

definition tool_failure :: "string \<Rightarrow> string option \<Rightarrow> exn \<Rightarrow> exn" where
  "tool_failure name module e =
    (if is_promptflow e then
       (case module of
          Some m \<Rightarrow> Exn ((ex e)\<lparr>ex_module := Some m\<rparr>) (ex_error e) (ex_cause e) (ex_context e)
        | None \<Rightarrow> e)
     else raise_from (tool_execution_error name module) e)"

definition invoke_tool ::
  "codec \<Rightarrow> node_tool \<Rightarrow> string \<Rightarrow> pyval list \<Rightarrow> (string, pyval) dict \<Rightarrow> tracer \<Rightarrow> pyval res \<times> tracer" where
  "invoke_tool cd f name args kwargs t =
    (let (calls, result) = nt_run f args kwargs; fail = tool_failure name (tf_module (nt_function f)) in
     case run_calls cd calls t of
       Inl e \<Rightarrow> (Inl (fail e), t)
     | Inr t' \<Rightarrow> (map_sum fail id result, t'))"

record world =
  w_tracker :: run_tracker
  w_tracer :: "tracer option"
  w_cache :: cache_manager
  w_operation :: "operation_context option"

text \<open>What the run takes from outside: when things happen, the ids it draws, the hash function, the
  storage of runs and the library under the cache's table.\<close>

record outside =
  os_codec :: codec
  os_uuid :: string
  os_start :: int
  os_push :: int
  os_pop :: int
  os_end :: int
  os_sha1 :: "string \<Rightarrow> string"
  os_get_node_run :: "string \<Rightarrow> run_info res"
  os_dataset :: "cache_record dataset"

definition cache_info_for ::
  "outside \<Rightarrow> flow_context \<Rightarrow> node_tool \<Rightarrow> pyval list \<Rightarrow> (string, pyval) dict \<Rightarrow> cache_manager \<Rightarrow> cache_info option" where
  "cache_info_for os c f args kwargs cm = (case cm of
     DummyCacheManager \<Rightarrow> None
   | CacheManager rows \<Rightarrow>
       calculate_cache_info (os_sha1 os) (fc_flow_id c) (tf_qualname (nt_function f)) (nt_cache_function f) args kwargs)"

definition cached_result :: "outside \<Rightarrow> cache_info \<Rightarrow> cache_manager \<Rightarrow> cache_result option res \<times> cache_manager" where
  "cached_result os info cm = (case cm of
     DummyCacheManager \<Rightarrow> (Inr None, cm)
   | CacheManager d \<Rightarrow>
       (case get_cache_result (get_cache_record_list (os_dataset os)) (os_get_node_run os) info d of (r, d') \<Rightarrow> (r, CacheManager d')))"

text \<open>\<open>_persist_cache\<close> swallows the failures of the storage.\<close>

definition persist_cache :: "outside \<Rightarrow> cache_info option \<Rightarrow> run_info \<Rightarrow> string \<Rightarrow> cache_manager \<Rightarrow> cache_manager" where
  "persist_cache os info r fid cm =
    (case (info, cm) of
       (Some i, CacheManager d) \<Rightarrow>
         if ci_hash_id i \<noteq> [] then CacheManager (snd (persist_result (persist_cache_result (os_dataset os)) r i fid d)) else cm
     | _ \<Rightarrow> cm)"

definition change_run :: "string \<Rightarrow> (run_info \<Rightarrow> run_info) \<Rightarrow> run_tracker \<Rightarrow> run_tracker" where
  "change_run rid f rt = (case map_of (rt_node_runs rt) rid of Some r \<Rightarrow> put_node_run (f r) rt | None \<Rightarrow> rt)"

text \<open>Opening the run of the node.\<close>

definition open_run ::
  "outside \<Rightarrow> flow_context \<Rightarrow> node \<Rightarrow> string \<Rightarrow> (string, pyval) dict \<Rightarrow> run_tracker \<Rightarrow> run_tracker res" where
  "open_run os c n rid all_args rt =
    (let (r, rt1) = start_node_run (os_start os) (node_name n) (fc_run_id c) (parent_run_id c) rid (fc_line_number c) rt;
         rt2 = change_run rid (\<lambda>r. r\<lparr>ri_index := fc_line_number c, ri_variant_id := fc_variant_id c\<rparr>) rt1
     in set_inputs rid (AList.delete ''self'' all_args) rt2)"

text \<open>
  The \<open>try\<close> block up to the result: from the cache, or by tracing the tool. The value is the result, whether it
  came from the cache, and the traces; the error keeps the world where the exception was raised.
\<close>

definition trace_tool ::
  "outside \<Rightarrow> string \<Rightarrow> node \<Rightarrow> node_tool \<Rightarrow> pyval list \<Rightarrow> (string, pyval) dict \<Rightarrow> world \<Rightarrow>
     (pyval \<times> pyval list) res \<times> world" where
  "trace_tool os rid n f args kwargs w =
    (case start_tracing rid (w_tracer w) of
       Inl e \<Rightarrow> (Inl e, w)
     | Inr active \<Rightarrow>
        (case push_tool (os_codec os) (os_push os) (nt_function f) args kwargs active of
           Inr (Some t) \<Rightarrow>
            (let (result, t1) = invoke_tool (os_codec os) f (node_name n) args kwargs
                   (update_trace 0 (tr_node_name_update (\<lambda>_. Some (node_name n))) t) in
             (case result of
                Inl e \<Rightarrow> (Inl e, w\<lparr>w_tracer := Some t1\<rparr>)
              | Inr v \<Rightarrow>
                 (case tracer_pop (os_codec os) (os_pop os) v None t1 of
                    Inl e \<Rightarrow> (Inl e, w\<lparr>w_tracer := Some t1\<rparr>)
                  | Inr (v', t2) \<Rightarrow> (Inr (v', to_json (os_codec os) t2), w\<lparr>w_tracer := None\<rparr>))))
         | Inr None \<Rightarrow> (Inl (no_tracer ''_push''), w\<lparr>w_tracer := active\<rparr>)
         | Inl e \<Rightarrow> (Inl e, w\<lparr>w_tracer := active\<rparr>)))"

text \<open>A hit of the cache.\<close>

definition look_up ::
  "outside \<Rightarrow> string \<Rightarrow> node \<Rightarrow> cache_info option \<Rightarrow> world \<Rightarrow> pyval option res \<times> world" where
  "look_up os rid n info w =
    (case info of
       Some i \<Rightarrow>
         if node_enable_cache n then
           (case cached_result os i (w_cache w) of
              (Inl e, cm) \<Rightarrow> (Inl e, w\<lparr>w_cache := cm\<rparr>)
            | (Inr (Some c), cm) \<Rightarrow>
                if cr_hit_cache c then
                  (Inr (Some (cr_result c)), w\<lparr>w_cache := cm, w_tracker := change_run rid (\<lambda>r. r\<lparr>ri_cached_flow_run_id := Some (cr_cached_flow_run_id c),
                     ri_cached_run_id := Some (cr_cached_run_id c)\<rparr>) (w_tracker w)\<rparr>)
                else (Inr None, w\<lparr>w_cache := cm\<rparr>)
            | (Inr None, cm) \<Rightarrow> (Inr None, w\<lparr>w_cache := cm\<rparr>))
         else (Inr None, w)
     | None \<Rightarrow> (Inr None, w))"

definition node_body ::
  "outside \<Rightarrow> flow_context \<Rightarrow> string \<Rightarrow> node \<Rightarrow> node_tool \<Rightarrow> pyval list \<Rightarrow> (string, pyval) dict \<Rightarrow> world \<Rightarrow>
     pyval res \<times> pyval list \<times> world" where
  "node_body os c rid n f args kwargs w =
    (let info = cache_info_for os c f args kwargs (w_cache w) in
     case look_up os rid n info w of
       (Inl e, w1) \<Rightarrow> (Inl e, [], w1)
     | (Inr hit, w1) \<Rightarrow>
        (case (case hit of Some v \<Rightarrow> (Inr (v, []), w1) | None \<Rightarrow> trace_tool os rid n f args kwargs w1) of
           (Inl e, w2) \<Rightarrow> (Inl e, [], w2)
         | (Inr (v, traces), w2) \<Rightarrow>
            (case end_run (cd_env (os_codec os)) (cd_connections (os_codec os)) (os_end os) rid v None (Some traces) (w_tracker w2) of
               Inl e \<Rightarrow> (Inl e, traces, w2)
             | Inr rt \<Rightarrow>
                (let w3 = w2\<lparr>w_tracker := rt\<rparr> in
                 (Inr v, traces,
                  if hit = None \<and> node_enable_cache n
                  then (case map_of (rt_node_runs rt) rid of
                      Some r \<Rightarrow> w3\<lparr>w_cache := persist_cache os info r (fc_flow_id c) (w_cache w3)\<rparr>
                    | None \<Rightarrow> w3)
                  else w3)))))"

text \<open>The \<open>except\<close> block: what it raises.\<close>

definition node_failed ::
  "outside \<Rightarrow> string \<Rightarrow> exn \<Rightarrow> pyval list \<Rightarrow> world \<Rightarrow> exn \<times> world" where
  "node_failed os rid e traces w =
    (case pop (os_codec os) (os_pop os) PNone (Some e) (w_tracer w) of
       Inl x \<Rightarrow> (during x e, w)
     | Inr (_, active) \<Rightarrow>
        (let w1 = w\<lparr>w_tracer := active\<rparr> in
         case (if traces = [] then end_tracing (os_codec os) False active else Inr (traces, active)) of
           Inl x \<Rightarrow> (during x e, w1)
         | Inr (traces', active') \<Rightarrow>
            (let w2 = w1\<lparr>w_tracer := active'\<rparr> in
             case end_run (cd_env (os_codec os)) (cd_connections (os_codec os)) (os_end os) rid PNone (Some e) (Some traces') (w_tracker w2) of
               Inl x \<Rightarrow> (during x e, w2)
             | Inr rt \<Rightarrow> (e, w2\<lparr>w_tracker := rt\<rparr>))))"

text \<open>The \<open>finally\<close> block.\<close>

definition store_run :: "string \<Rightarrow> world \<Rightarrow> world" where
  "store_run rid w = (case map_of (rt_node_runs (w_tracker w)) rid of
     Some r \<Rightarrow> w\<lparr>w_tracker := persist_node_run r (w_tracker w)\<rparr> | None \<Rightarrow> w)"

definition invoke_tool_with_cache ::
  "outside \<Rightarrow> flow_context \<Rightarrow> node_tool \<Rightarrow> pyval list \<Rightarrow> (string, pyval) dict \<Rightarrow> world \<Rightarrow> pyval res \<times> world" where
  "invoke_tool_with_cache os c f args kwargs w =
    (case fc_current_node c of
       None \<Rightarrow> (Inl (py_exn AttributeError [PStr ''aggregation'']), w)
     | Some n \<Rightarrow>
        (let rid = generate_current_node_run_id (os_uuid os) n c in
         case open_run os c n rid (parse_all_args (tf_params (nt_function f)) args kwargs) (w_tracker w) of
           Inl e \<Rightarrow> (Inl e, w)
         | Inr rt \<Rightarrow>
            (case node_body os c rid n f args kwargs (w\<lparr>w_tracker := rt\<rparr>) of
               (Inr v, _, w1) \<Rightarrow> (Inr v, store_run rid w1)
             | (Inl e, traces, w1) \<Rightarrow>
                (case node_failed os rid e traces w1 of (x, w2) \<Rightarrow> (Inl x, store_run rid w2)))))"

section \<open>One run, stored once\<close>

text \<open>What the execution of a node may have done to the tracker: to its own run, which has a status.\<close>

definition own_run :: "string \<Rightarrow> string \<Rightarrow> run_tracker \<Rightarrow> status \<Rightarrow> run_tracker \<Rightarrow> bool" where
  "own_run rid name rt0 st rt \<longleftrightarrow>
     rt_flow_runs rt = rt_flow_runs rt0 \<and> rt_persisted rt = rt_persisted rt0 \<and>
     (\<forall>k. k \<noteq> rid \<longrightarrow> map_of (rt_node_runs rt) k = map_of (rt_node_runs rt0) k) \<and>
     (\<exists>r. map_of (rt_node_runs rt) rid = Some r \<and> ri_run_id r = rid \<and> ri_node r = name \<and> ri_status r = st) \<and>
     (distinct (dict_keys (rt_node_runs rt0)) \<longrightarrow> distinct (dict_keys (rt_node_runs rt)))"

lemma put_node_run_keys: "distinct (dict_keys (rt_node_runs rt)) \<Longrightarrow> distinct (dict_keys (rt_node_runs (put_node_run r rt)))"
  by (simp add: put_node_run_def distinct_keys_update)

lemma own_run_put:
  assumes "own_run rid name rt0 st rt" "ri_run_id r = rid" "ri_node r = name"
  shows "own_run rid name rt0 (ri_status r) (put_node_run r rt)"
  using assms put_node_run_keys by (auto simp: own_run_def)

lemma own_run_change:
  assumes "own_run rid name rt0 st rt"
    and "\<And>r. ri_run_id (f r) = ri_run_id r \<and> ri_node (f r) = ri_node r \<and> ri_status (f r) = ri_status r"
  shows "own_run rid name rt0 st (change_run rid f rt)"
proof -
  from assms(1) obtain r where r: "map_of (rt_node_runs rt) rid = Some r" "ri_run_id r = rid" "ri_node r = name" "ri_status r = st"
    by (auto simp: own_run_def)
  have "own_run rid name rt0 (ri_status (f r)) (put_node_run (f r) rt)"
    using assms r by (intro own_run_put) auto
  with r assms(2) show ?thesis by (simp add: change_run_def)
qed

lemma open_run_own:
  "\<exists>rt'. open_run os c n rid all_args rt = Inr rt' \<and> own_run rid (node_name n) rt Running rt'"
proof -
  obtain r rt1 where s: "start_node_run (os_start os) (node_name n) (fc_run_id c) (parent_run_id c) rid (fc_line_number c) rt = (r, rt1)"
    by force
  then have rt1: "own_run rid (node_name n) rt Running rt1"
    by (auto simp: start_node_run_def Let_def own_run_def put_node_run_def distinct_keys_update)
  let ?rt2 = "change_run rid (\<lambda>r. r\<lparr>ri_index := fc_line_number c, ri_variant_id := fc_variant_id c\<rparr>) rt1"
  have rt2: "own_run rid (node_name n) rt Running ?rt2" by (rule own_run_change [OF rt1]) simp
  then obtain q where q: "map_of (rt_node_runs ?rt2) rid = Some q" "ri_run_id q = rid" "ri_node q = node_name n" "ri_status q = Running"
    by (auto simp: own_run_def)
  have "own_run rid (node_name n) rt Running (put_node_run (q\<lparr>ri_inputs := Some (AList.delete ''self'' all_args)\<rparr>) ?rt2)"
    using own_run_put [OF rt2, of "q\<lparr>ri_inputs := Some (AList.delete ''self'' all_args)\<rparr>"] q by simp
  with q(1) s show ?thesis by (simp add: open_run_def set_inputs_def)
qed

lemma end_run_keys:
  assumes "end_run env conns now rid out e traces rt = Inr rt'" "distinct (dict_keys (rt_node_runs rt))"
  shows "distinct (dict_keys (rt_node_runs rt'))"
  using assms put_node_run_keys
  by (auto simp: end_run_def put_flow_run_def node_run_postprocess_def Let_def res_simps split: option.splits)

lemma end_run_own:
  assumes "end_run env conns now rid out e traces rt = Inr rt'" "own_run rid name rt0 st rt"
    and "map_of (rt_flow_runs rt0) rid = None"
  shows "own_run rid name rt0 (if e = None then Completed else Failed) rt'"
proof -
  from assms(2) obtain r where r: "map_of (rt_node_runs rt) rid = Some r" "ri_run_id r = rid" "ri_node r = name"
    by (auto simp: own_run_def)
  have "map_of (rt_flow_runs rt) rid = None" using assms(2,3) by (simp add: own_run_def)
  from end_node_run_fields [OF assms(1) this r(1,2)] assms(2) r(3) end_run_keys [OF assms(1)] show ?thesis
    by (auto simp: own_run_def)
qed

lemma look_up_own:
  assumes "look_up os rid n info w = (x, w')" "own_run rid name rt0 st (w_tracker w)"
  shows "own_run rid name rt0 st (w_tracker w') \<and> w_tracer w' = w_tracer w"
  using assms own_run_change [OF assms(2)]
  by (auto simp: look_up_def split: option.splits if_splits sum.splits prod.splits)

lemma trace_tool_own:
  assumes "trace_tool os rid n f args kwargs w = (x, w')"
  shows "w_tracker w' = w_tracker w"
  using assms by (auto simp: trace_tool_def split: option.splits sum.splits prod.splits)

lemma node_body_own:
  assumes "node_body os c rid n f args kwargs w = (res, traces, w')" "own_run rid name rt0 Running (w_tracker w)"
    and "map_of (rt_flow_runs rt0) rid = None"
  shows "own_run rid name rt0 (if isl res then Running else Completed) (w_tracker w')"
proof -
  obtain x w1 where l: "look_up os rid n (cache_info_for os c f args kwargs (w_cache w)) w = (x, w1)" by force
  from look_up_own [OF l assms(2)] have w1: "own_run rid name rt0 Running (w_tracker w1)" by simp
  show ?thesis
  proof (cases x)
    case (Inl e)
    with assms(1) l w1 show ?thesis by (auto simp: node_body_def)
  next
    case (Inr hit)
    obtain y w2 where y: "(case hit of Some v \<Rightarrow> (Inr (v, []), w1) | None \<Rightarrow> trace_tool os rid n f args kwargs w1) = (y, w2)" by force
    with trace_tool_own have "w_tracker w2 = w_tracker w1" by (cases hit) auto
    with w1 have w2: "own_run rid name rt0 Running (w_tracker w2)" by simp
    show ?thesis
    proof (cases y)
      case (Inl e)
      with assms(1) l y w2 \<open>x = Inr hit\<close> show ?thesis by (auto simp: node_body_def)
    next
      case (Inr vt)
      obtain v tr where vt: "vt = (v, tr)" by force
      let ?fin = "end_run (cd_env (os_codec os)) (cd_connections (os_codec os)) (os_end os) rid v None (Some tr) (w_tracker w2)"
      show ?thesis
      proof (cases ?fin)
        case (Inl e)
        with assms(1) l y w2 vt \<open>x = Inr hit\<close> \<open>y = Inr vt\<close> show ?thesis by (auto simp: node_body_def)
      next
        case (Inr rt)
        from end_run_own [OF this w2 assms(3)] have "own_run rid name rt0 Completed rt" by simp
        with assms(1) l y vt \<open>x = Inr hit\<close> \<open>y = Inr vt\<close> Inr show ?thesis
          by (auto simp: node_body_def Let_def split: option.splits if_splits)
      qed
    qed
  qed
qed

lemma node_failed_own:
  assumes "node_failed os rid e traces w = (x, w')" "own_run rid name rt0 Running (w_tracker w)"
    and "map_of (rt_flow_runs rt0) rid = None"
  shows "own_run rid name rt0 Running (w_tracker w') \<or> own_run rid name rt0 Failed (w_tracker w') \<and> x = e"
proof -
  have "own_run rid name rt0 Failed rt"
    if "end_run env conns now rid PNone (Some y) tr (w_tracker w) = Inr rt" for env conns now y tr rt
    using end_run_own [OF that assms(2,3)] by simp
  then show ?thesis
    using assms(1,2) by (fastforce simp: node_failed_def Let_def split: sum.splits prod.splits if_splits)
qed

lemma invoke_tool_effect:
  assumes "invoke_tool_with_cache os c f args kwargs w = (res, w')" "fc_current_node c = Some n"
    and "rid = generate_current_node_run_id (os_uuid os) n c" "map_of (rt_flow_runs (w_tracker w)) rid = None"
  shows "\<exists>r. rt_persisted (w_tracker w') = rt_persisted (w_tracker w) @ [NodeRun r] \<and>
    map_of (rt_node_runs (w_tracker w')) = (map_of (rt_node_runs (w_tracker w)))(rid \<mapsto> r) \<and>
    rt_flow_runs (w_tracker w') = rt_flow_runs (w_tracker w) \<and>
    ri_run_id r = rid \<and> ri_node r = node_name n \<and> (ri_status r = Completed \<longleftrightarrow> \<not> isl res) \<and>
    (distinct (dict_keys (rt_node_runs (w_tracker w))) \<longrightarrow> distinct (dict_keys (rt_node_runs (w_tracker w'))))"
proof -
  let ?rt0 = "w_tracker w"
  have stored: "\<exists>r. rt_persisted (w_tracker (store_run rid v)) = rt_persisted ?rt0 @ [NodeRun r] \<and>
      map_of (rt_node_runs (w_tracker (store_run rid v))) = (map_of (rt_node_runs ?rt0))(rid \<mapsto> r) \<and>
      rt_flow_runs (w_tracker (store_run rid v)) = rt_flow_runs ?rt0 \<and>
      ri_run_id r = rid \<and> ri_node r = node_name n \<and> ri_status r = st \<and>
      (distinct (dict_keys (rt_node_runs ?rt0)) \<longrightarrow> distinct (dict_keys (rt_node_runs (w_tracker (store_run rid v)))))"
    if "own_run rid (node_name n) ?rt0 st (w_tracker v)" for v st
    using that by (auto simp: own_run_def store_run_def persist_node_run_def fun_eq_iff)
  obtain rt where rt: "open_run os c n rid (parse_all_args (tf_params (nt_function f)) args kwargs) ?rt0 = Inr rt"
    "own_run rid (node_name n) ?rt0 Running rt" using open_run_own by blast
  obtain x tr w1 where b: "node_body os c rid n f args kwargs (w\<lparr>w_tracker := rt\<rparr>) = (x, tr, w1)" by (metis prod_cases3)
  have w1: "own_run rid (node_name n) ?rt0 (if isl x then Running else Completed) (w_tracker w1)"
    using node_body_own [OF b _ assms(4)] rt(2) by simp
  show ?thesis
  proof (cases x)
    case (Inr v)
    with assms(1,2,3) rt(1) b have "res = Inr v" "w' = store_run rid w1" by (simp_all add: invoke_tool_with_cache_def)
    with stored [of Completed w1] w1 Inr show ?thesis by auto
  next
    case (Inl e)
    obtain z w2 where z: "node_failed os rid e tr w1 = (z, w2)" by force
    from node_failed_own [OF z _ assms(4)] w1 Inl
    have "own_run rid (node_name n) ?rt0 Running (w_tracker w2) \<or> own_run rid (node_name n) ?rt0 Failed (w_tracker w2)" by auto
    moreover have "res = Inl z" "w' = store_run rid w2"
      using assms(1,2,3) rt(1) b Inl z by (simp_all add: invoke_tool_with_cache_def)
    ultimately show ?thesis using stored [of Running w2] stored [of Failed w2] by fastforce
  qed
qed

text \<open>C27. Invoking the tool of a node, however it ends, stores exactly one record, that of the node's own
  run, and touches no other run; the record says completed exactly when a result is returned.\<close>

theorem invoke_tool_stores_run:
  assumes "invoke_tool_with_cache os c f args kwargs w = (res, w')" "fc_current_node c = Some n"
    and "rid = generate_current_node_run_id (os_uuid os) n c" "map_of (rt_flow_runs (w_tracker w)) rid = None"
  shows "\<exists>r. rt_persisted (w_tracker w') = rt_persisted (w_tracker w) @ [NodeRun r] \<and>
    map_of (rt_node_runs (w_tracker w')) = (map_of (rt_node_runs (w_tracker w)))(rid \<mapsto> r) \<and>
    rt_flow_runs (w_tracker w') = rt_flow_runs (w_tracker w) \<and>
    ri_run_id r = rid \<and> ri_node r = node_name n \<and> (ri_status r = Completed \<longleftrightarrow> \<not> isl res)"
  using invoke_tool_effect [OF assms] by blast

section \<open>The traces of a node\<close>

text \<open>The dictionary of the trace of a node: that of the call of its tool, with the name of the node.\<close>

definition node_call_json ::
  "codec \<Rightarrow> string \<Rightarrow> tool_function \<Rightarrow> pyval list \<Rightarrow> (string, pyval) dict \<Rightarrow> int \<Rightarrow> call list \<Rightarrow> pyval res \<Rightarrow> int \<Rightarrow> pyval" where
  "node_call_json cd name f args kwargs start calls res stop =
    trace_fields cd ((call_trace cd ToolCall (tf_qualname f) (all_kwargs f args kwargs) start res stop None)\<lparr>tr_node_name := Some name\<rparr>)
      (if calls = [] then PNone else PList (map (call_json cd) calls))"

lemma node_name_kept:
  "finish_trace cd stop res (tr\<lparr>tr_node_name := x\<rparr>) = (finish_trace cd stop res tr)\<lparr>tr_node_name := x\<rparr>"
  "add_children rs (tr\<lparr>tr_node_name := x\<rparr>) = (add_children rs tr)\<lparr>tr_node_name := x\<rparr>"
  by (auto simp: finish_trace_def add_children_def split: sum.splits option.splits)

lemma node_trace_json:
  assumes "push_tool cd start f args kwargs (Some (new_tracer rid)) = Inr (Some t)" "list_all (call_ends cd) calls"
  shows "\<exists>t1. run_calls cd calls (update_trace 0 (tr_node_name_update (\<lambda>_. Some name)) t) = Inr t1 \<and>
    tc_stack t1 = [0] \<and> 0 < length (tc_store t1) \<and>
    to_json cd ((update_trace 0 (finish_trace cd stop res) t1)\<lparr>tc_stack := []\<rparr>) =
      [node_call_json cd name f args kwargs start calls res stop]"
proof -
  obtain ins where ins: "tool_inputs cd (all_kwargs f args kwargs) = Inr ins" using tool_inputs_ok by blast
  let ?new = "new_trace (tf_qualname f) TraceTool ins (Some start)"
  let ?t0 = "update_trace 0 (tr_node_name_update (\<lambda>_. Some name)) t"
  from assms(1) ins have t: "t = tracer_push cd start ?new (new_tracer rid)" by (simp add: push_tool_def)
  have t0: "tc_store ?t0 = [(prepare cd start ?new)\<lparr>tr_node_name := Some name\<rparr>]" "tc_stack ?t0 = [0]" "tc_traces ?t0 = [0]"
    by (simp_all add: t tracer_push_def new_tracer_def update_trace_def Let_def)
  then have ok: "stack_ok ?t0" by (simp add: stack_ok_def)
  let ?t1 = "attach (roots 1 calls) (calls_block cd 1 calls) ?t0"
  let ?done = "finish_trace cd stop res (add_children (roots 1 calls) (prepare cd start ?new))"
  let ?root = "(call_trace cd ToolCall (tf_qualname f) (all_kwargs f args kwargs) start res stop
    (if calls = [] then None else Some (roots 1 calls)))\<lparr>tr_node_name := Some name\<rparr>"
  from run_call_attach(2) [OF assms(2) ok] t0(1) have run: "run_calls cd calls ?t0 = Inr ?t1" by simp
  have f: "traced_inputs cd ToolCall (all_kwargs f args kwargs) = ins" by (simp add: traced_inputs_def ins)
  have root: "?done = call_trace cd ToolCall (tf_qualname f) (all_kwargs f args kwargs) start res stop
      (if calls = [] then None else Some (roots 1 calls))"
    by (rule finish_call [OF f]) simp
  have "tc_store (update_trace 0 (finish_trace cd stop res) ?t1) = ?done\<lparr>tr_node_name := Some name\<rparr> # calls_block cd 1 calls"
    using t0 by (simp add: attach_def update_trace_def node_name_kept)
  then have st: "tc_store (update_trace 0 (finish_trace cd stop res) ?t1) = ?root # calls_block cd 1 calls" by (simp only: root)
  have t1: "tc_traces ?t1 = [0]" "tc_stack ?t1 = [0]" using t0 by (simp_all add: attach_def)
  have js: "trace_json cd (Suc (length (calls_block cd 1 calls))) (?root # calls_block cd 1 calls) 0 =
      node_call_json cd name f args kwargs start calls res stop"
    using trace_json_block(2) [of calls "length (calls_block cd 1 calls)" 1 "[?root]" cd "[]"]
    by (cases "calls = []")
      (simp_all add: block_length node_call_json_def trace_fields_children, simp_all add: call_trace_def trace_fields_def)
  have "to_json cd (t2\<lparr>tc_stack := []\<rparr>) = [node_call_json cd name f args kwargs start calls res stop]"
    if "tc_store t2 = ?root # calls_block cd 1 calls" "tc_traces t2 = [0]" for t2
    using js unfolding to_json_def by (simp add: that)
  from this [OF st] have "to_json cd ((update_trace 0 (finish_trace cd stop res) ?t1)\<lparr>tc_stack := []\<rparr>) =
      [node_call_json cd name f args kwargs start calls res stop]"
    using t1(1) by (simp add: update_trace_def)
  moreover have "0 < length (tc_store ?t1)" using t0(1) by simp
  ultimately show ?thesis using run t1(2) by blast
qed

lemma store_run_simps [simp]:
  "rt_node_runs (w_tracker (store_run rid w)) = rt_node_runs (w_tracker w)" "w_tracer (store_run rid w) = w_tracer w"
  by (simp_all add: store_run_def persist_node_run_def split: option.split)

lemma own_run_status:
  "own_run rid name rt0 st rt \<Longrightarrow> map_of (rt_node_runs rt) rid = Some r \<Longrightarrow> ri_status r = st"
  by (auto simp: own_run_def)

lemma end_run_traces:
  assumes "end_run env conns now rid out e traces rt = Inr rt'" "own_run rid name rt0 st rt"
    and "map_of (rt_flow_runs rt0) rid = None"
  shows "\<exists>r. map_of (rt_node_runs rt') rid = Some r \<and> ri_api_calls r = traces"
proof -
  from assms(2) obtain r where r: "map_of (rt_node_runs rt) rid = Some r" "ri_run_id r = rid" by (auto simp: own_run_def)
  have "map_of (rt_flow_runs rt) rid = None" using assms(2,3) by (simp add: own_run_def)
  from end_node_run_fields [OF assms(1) this r] show ?thesis by auto
qed

lemma trace_tool_result:
  assumes "w_tracer w = None" "nt_run f args kwargs = (calls, result)" "list_all (call_ends (os_codec os)) calls"
    and "x = map_sum (tool_failure (node_name n) (tf_module (nt_function f))) id result"
  shows "\<exists>t1. trace_tool os rid n f args kwargs w = (case x of
      Inr v \<Rightarrow> (Inr (v, [node_call_json (os_codec os) (node_name n) (nt_function f) args kwargs (os_push os) calls x (os_pop os)]),
        w\<lparr>w_tracer := None\<rparr>)
    | Inl e \<Rightarrow> (Inl e, w\<lparr>w_tracer := Some t1\<rparr>)) \<and>
    tc_stack t1 = [0] \<and> 0 < length (tc_store t1) \<and>
    to_json (os_codec os) ((update_trace 0 (finish_trace (os_codec os) (os_pop os) x) t1)\<lparr>tc_stack := []\<rparr>) =
      [node_call_json (os_codec os) (node_name n) (nt_function f) args kwargs (os_push os) calls x (os_pop os)]"
proof -
  obtain ins where "tool_inputs (os_codec os) (all_kwargs (nt_function f) args kwargs) = Inr ins" using tool_inputs_ok by blast
  then obtain t where t: "push_tool (os_codec os) (os_push os) (nt_function f) args kwargs (Some (new_tracer rid)) = Inr (Some t)"
    by (simp add: push_tool_def)
  from node_trace_json [OF t assms(3), of "node_name n" "os_pop os" x] obtain t1 where
    t1: "run_calls (os_codec os) calls (update_trace 0 (tr_node_name_update (\<lambda>_. Some (node_name n))) t) = Inr t1"
      "tc_stack t1 = [0]" "0 < length (tc_store t1)"
      "to_json (os_codec os) ((update_trace 0 (finish_trace (os_codec os) (os_pop os) x) t1)\<lparr>tc_stack := []\<rparr>) =
        [node_call_json (os_codec os) (node_name n) (nt_function f) args kwargs (os_push os) calls x (os_pop os)]" by blast
  have run: "invoke_tool (os_codec os) f (node_name n) args kwargs
      (update_trace 0 (tr_node_name_update (\<lambda>_. Some (node_name n))) t) = (x, t1)"
    by (simp add: invoke_tool_def assms(2,4) t1(1))
  note pop = pop_value [OF t1(2,3)]
  show ?thesis
    using t1(2-4) by (intro exI [of _ t1]) (auto simp: trace_tool_def start_tracing_def assms(1) t run pop split: sum.split)
qed

lemma node_failed_traces:
  assumes "node_failed os rid e [] (w\<lparr>w_tracer := Some t\<rparr>) = (y, w')" "tc_stack t = [0]" "0 < length (tc_store t)"
  shows "w_tracker w' = w_tracker w \<or> (\<exists>rt'. end_run (cd_env (os_codec os)) (cd_connections (os_codec os)) (os_end os) rid PNone (Some e)
      (Some (to_json (os_codec os) ((update_trace 0 (finish_trace (os_codec os) (os_pop os) (Inl e)) t)\<lparr>tc_stack := []\<rparr>)))
      (w_tracker w) = Inr rt' \<and> y = e \<and> w_tracker w' = rt' \<and> w_tracer w' = None)"
proof (cases "isl (message (cd_env (os_codec os)) e)")
  case True
  then show ?thesis
    using assms by (auto simp: node_failed_def pop_def tracer_pop_def recorded_output_def format_error_def isl_def)
next
  case False
  from pop_error [OF assms(2,3) this, of "os_pop os"] assms(1) show ?thesis
    by (auto simp: node_failed_def pop_def end_tracing_def Let_def split: sum.splits)
qed

text \<open>What the cache answers to a call of the tool of a node: a result only for a node with its cache enabled, a call whose
  key can be computed and a record that was found.\<close>

definition from_cache ::
  "outside \<Rightarrow> flow_context \<Rightarrow> node \<Rightarrow> node_tool \<Rightarrow> pyval list \<Rightarrow> (string, pyval) dict \<Rightarrow> cache_manager \<Rightarrow>
     cache_result option res \<times> cache_manager" where
  "from_cache os c n f args kwargs cm =
    (case cache_info_for os c f args kwargs cm of
       None \<Rightarrow> (Inr None, cm)
     | Some i \<Rightarrow> if node_enable_cache n
         then (case cached_result os i cm of
             (Inl e, cm') \<Rightarrow> (Inl e, cm')
           | (Inr found, cm') \<Rightarrow> (Inr (case found of Some cr \<Rightarrow> if cr_hit_cache cr then Some cr else None | None \<Rightarrow> None), cm'))
         else (Inr None, cm))"

lemma look_up_from_cache:
  "look_up os rid n (cache_info_for os c f args kwargs (w_cache w)) w =
    (case from_cache os c n f args kwargs (w_cache w) of
       (Inl e, cm) \<Rightarrow> (Inl e, w\<lparr>w_cache := cm\<rparr>)
     | (Inr None, cm) \<Rightarrow> (Inr None, w\<lparr>w_cache := cm\<rparr>)
     | (Inr (Some cr), cm) \<Rightarrow> (Inr (Some (cr_result cr)), w\<lparr>w_cache := cm, w_tracker := change_run rid (\<lambda>r. r\<lparr>
         ri_cached_flow_run_id := Some (cr_cached_flow_run_id cr), ri_cached_run_id := Some (cr_cached_run_id cr)\<rparr>) (w_tracker w)\<rparr>))"
  by (auto simp: look_up_def from_cache_def split: option.split sum.split prod.split)

lemma end_run_cached_id:
  assumes "end_run env conns now rid out e traces rt = Inr rt'" "map_of (rt_flow_runs rt) rid = None"
    and "map_of (rt_node_runs rt) rid = Some r" "ri_run_id r = rid" "map_of (rt_node_runs rt') rid = Some r'"
  shows "ri_cached_run_id r' = ri_cached_run_id r \<and> ri_cached_flow_run_id r' = ri_cached_flow_run_id r"
proof -
  have post: "node_run_postprocess env conns now out e (r\<lparr>ri_api_calls := traces\<rparr>) rt = Inr rt'"
    using assms(1-3) by (simp add: end_run_def)
  from post obtain r1 where r1: "set_openai_metrics (r\<lparr>ri_api_calls := traces\<rparr>) = Inr r1"
    by (auto simp: node_run_postprocess_def res_simps)
  note f1 = set_openai_metrics_fields [OF r1, simplified]
  let ?r2 = "r1\<lparr>ri_logs := Some (get_logs rid (rt_log_manager rt))\<rparr>"
  from post obtain r3 out' r4 where steps:
    "(case ri_inputs r of Some ins \<Rightarrow> if ins = [] then Inr ?r2
        else bindr (ensure_inputs_is_json_serializable env conns rt ins) (\<lambda>i. Inr (?r2\<lparr>ri_inputs := Some i\<rparr>))
      | None \<Rightarrow> Inr ?r2) = Inr r3"
    "finish_node_run env now out' e r3 = Inr r4"
    "rt' = put_node_run r4 (rt\<lparr>rt_log_manager := clear_node_context rid (rt_log_manager rt)\<rparr>)"
    by (auto simp: node_run_postprocess_def r1 f1(3) assms(4) Let_def res_simps)
  have r3: "ri_cached_run_id r3 = ri_cached_run_id r1 \<and> ri_cached_flow_run_id r3 = ri_cached_flow_run_id r1 \<and> ri_run_id r3 = ri_run_id r1"
    using steps(1) by (cases "ri_inputs r") (auto simp: res_simps split: if_splits)
  have "ri_cached_run_id r1 = ri_cached_run_id r \<and> ri_cached_flow_run_id r1 = ri_cached_flow_run_id r \<and> ri_run_id r1 = rid"
    using r1 assms(4) by (auto simp: set_openai_metrics_def res_simps)
  moreover have "ri_cached_run_id r4 = ri_cached_run_id r3 \<and> ri_cached_flow_run_id r4 = ri_cached_flow_run_id r3 \<and> ri_run_id r4 = ri_run_id r3"
    using steps(2) by (auto simp: finish_node_run_def Let_def res_simps split: option.splits if_splits)
  ultimately show ?thesis using r3 steps(3) assms(5) by (simp add: put_node_run_def update_conv')
qed

lemma cached_run_own:
  assumes "own_run rid name rt0 st rt"
    and "rt1 = change_run rid (\<lambda>r. r\<lparr>ri_cached_flow_run_id := Some a, ri_cached_run_id := Some b\<rparr>) rt"
  shows "own_run rid name rt0 st rt1 \<and> (\<exists>r. map_of (rt_node_runs rt1) rid = Some r \<and> ri_run_id r = rid \<and>
    ri_cached_flow_run_id r = Some a \<and> ri_cached_run_id r = Some b)"
proof
  show "own_run rid name rt0 st rt1" unfolding assms(2) by (rule own_run_change [OF assms(1)]) simp
  from assms(1) obtain r where "map_of (rt_node_runs rt) rid = Some r" "ri_run_id r = rid" by (auto simp: own_run_def)
  then show "\<exists>r. map_of (rt_node_runs rt1) rid = Some r \<and> ri_run_id r = rid \<and> ri_cached_flow_run_id r = Some a \<and> ri_cached_run_id r = Some b"
    by (simp add: assms(2) change_run_def put_node_run_def update_conv')
qed

text \<open>The run of a node that was answered by its tool: the result and the traces.\<close>

lemma traced_run:
  assumes "invoke_tool_with_cache os c f args kwargs w = (res, w')" "fc_current_node c = Some n"
    and "rid = generate_current_node_run_id (os_uuid os) n c" "map_of (rt_flow_runs (w_tracker w)) rid = None"
    and "from_cache os c n f args kwargs (w_cache w) = (Inr None, cm)" "w_tracer w = None"
    and "nt_run f args kwargs = (calls, result)" "list_all (call_ends (os_codec os)) calls"
    and "map_of (rt_node_runs (w_tracker w')) rid = Some r" "ri_status r \<noteq> Running"
  shows "res = map_sum (tool_failure (node_name n) (tf_module (nt_function f))) id result \<and> w_tracer w' = None \<and>
    ri_api_calls r = Some [node_call_json (os_codec os) (node_name n) (nt_function f) args kwargs (os_push os) calls res (os_pop os)]"
proof -
  let ?rt0 = "w_tracker w"
  let ?x = "map_sum (tool_failure (node_name n) (tf_module (nt_function f))) id result"
  let ?json = "[node_call_json (os_codec os) (node_name n) (nt_function f) args kwargs (os_push os) calls ?x (os_pop os)]"
  let ?fin = "end_run (cd_env (os_codec os)) (cd_connections (os_codec os)) (os_end os) rid"
  obtain rt where rt: "open_run os c n rid (parse_all_args (tf_params (nt_function f)) args kwargs) ?rt0 = Inr rt"
    "own_run rid (node_name n) ?rt0 Running rt" using open_run_own by blast
  let ?v = "w\<lparr>w_tracker := rt\<rparr>" and ?w = "w\<lparr>w_cache := cm, w_tracker := rt\<rparr>"
  from trace_tool_result [where w = ?w and n = n and rid = rid, OF _ assms(7,8) refl] assms(6) obtain t1 where
    tool: "trace_tool os rid n f args kwargs ?w = (case ?x of Inr v \<Rightarrow> (Inr (v, ?json), ?w\<lparr>w_tracer := None\<rparr>)
      | Inl e \<Rightarrow> (Inl e, ?w\<lparr>w_tracer := Some t1\<rparr>))"
    and t1: "tc_stack t1 = [0]" "0 < length (tc_store t1)"
      "to_json (os_codec os) ((update_trace 0 (finish_trace (os_codec os) (os_pop os) ?x) t1)\<lparr>tc_stack := []\<rparr>) = ?json" by auto
  have look: "look_up os rid n (cache_info_for os c f args kwargs (w_cache w)) ?v = (Inr None, ?w)"
    using look_up_from_cache [of os rid n c f args kwargs ?v] assms(5) by simp
  have not_running: False if "w' = store_run rid v" "w_tracker v = rt" for v
    using own_run_status [OF rt(2), of r] assms(9,10) that by simp
  show ?thesis
  proof (cases ?x)
    case (Inl e)
    have body: "node_body os c rid n f args kwargs ?v = (Inl e, [], ?w\<lparr>w_tracer := Some t1\<rparr>)"
      using tool Inl by (simp add: node_body_def look)
    obtain y w2 where y: "node_failed os rid e [] (?w\<lparr>w_tracer := Some t1\<rparr>) = (y, w2)" by force
    have res: "res = Inl y" "w' = store_run rid w2"
      using assms(1-3) rt(1) body y by (simp_all add: invoke_tool_with_cache_def)
    from node_failed_traces [OF y t1(1,2)] t1(3) Inl show ?thesis
      using not_running res(2) res assms(9) by (auto dest!: end_run_traces [OF _ rt(2) assms(4)])
  next
    case (Inr v)
    show ?thesis
    proof (cases "?fin v None (Some ?json) rt")
      case (Inl z)
      then have body: "node_body os c rid n f args kwargs ?v = (Inl z, ?json, ?w\<lparr>w_tracer := None\<rparr>)"
        using tool \<open>?x = Inr v\<close> by (simp add: node_body_def look)
      have "w' = store_run rid (?w\<lparr>w_tracer := None\<rparr>)"
        using assms(1-3) rt(1) body by (simp add: invoke_tool_with_cache_def node_failed_def pop_def)
      from not_running [OF this] show ?thesis by simp
    next
      case (Inr rt')
      obtain w1 where body: "node_body os c rid n f args kwargs ?v = (Inr v, ?json, w1)" "w_tracker w1 = rt'" "w_tracer w1 = None"
        using tool \<open>?x = Inr v\<close> Inr by (auto simp: node_body_def look Let_def split: option.split)
      have "res = Inr v" "w' = store_run rid w1"
        using assms(1-3) rt(1) body by (simp_all add: invoke_tool_with_cache_def)
      with end_run_traces [OF Inr rt(2) assms(4)] body assms(9) \<open>?x = Inr v\<close> show ?thesis by auto
    qed
  qed
qed

text \<open>And of one that was answered by the cache.\<close>

lemma cached_run:
  assumes "invoke_tool_with_cache os c f args kwargs w = (res, w')" "fc_current_node c = Some n"
    and "rid = generate_current_node_run_id (os_uuid os) n c" "map_of (rt_flow_runs (w_tracker w)) rid = None"
    and "from_cache os c n f args kwargs (w_cache w) = (Inr (Some cr), cm)" "w_tracer w = None"
    and "map_of (rt_node_runs (w_tracker w')) rid = Some r" "ri_status r \<noteq> Running"
  shows "res = Inr (cr_result cr) \<and> w_tracer w' = None \<and> ri_api_calls r = Some [] \<and>
    ri_cached_run_id r = Some (cr_cached_run_id cr) \<and> ri_cached_flow_run_id r = Some (cr_cached_flow_run_id cr)"
proof -
  let ?fin = "end_run (cd_env (os_codec os)) (cd_connections (os_codec os)) (os_end os) rid"
  obtain rt where rt: "open_run os c n rid (parse_all_args (tf_params (nt_function f)) args kwargs) (w_tracker w) = Inr rt"
    "own_run rid (node_name n) (w_tracker w) Running rt" using open_run_own by blast
  let ?rt1 = "change_run rid (\<lambda>r. r\<lparr>ri_cached_flow_run_id := Some (cr_cached_flow_run_id cr), ri_cached_run_id := Some (cr_cached_run_id cr)\<rparr>) rt"
  let ?w = "w\<lparr>w_tracker := rt\<rparr>" and ?w1 = "w\<lparr>w_cache := cm, w_tracker := ?rt1\<rparr>"
  from cached_run_own [OF rt(2) refl] obtain r1 where own: "own_run rid (node_name n) (w_tracker w) Running ?rt1" and
    r1: "map_of (rt_node_runs ?rt1) rid = Some r1" "ri_run_id r1 = rid"
      "ri_cached_flow_run_id r1 = Some (cr_cached_flow_run_id cr)" "ri_cached_run_id r1 = Some (cr_cached_run_id cr)" by blast
  have look: "look_up os rid n (cache_info_for os c f args kwargs (w_cache w)) ?w = (Inr (Some (cr_result cr)), ?w1)"
    using look_up_from_cache [of os rid n c f args kwargs ?w] assms(5) by simp
  show ?thesis
  proof (cases "?fin (cr_result cr) None (Some []) ?rt1")
    case (Inl z)
    then have body: "node_body os c rid n f args kwargs ?w = (Inl z, [], ?w1)" by (simp add: node_body_def look)
    have "w' = store_run rid ?w1"
      using assms(1-3,6) rt(1) body by (auto simp: invoke_tool_with_cache_def node_failed_def pop_def Let_def)
    then show ?thesis using own_run_status [OF own, of r] assms(7,8) by simp
  next
    case (Inr rt')
    then have body: "node_body os c rid n f args kwargs ?w = (Inr (cr_result cr), [], ?w1\<lparr>w_tracker := rt'\<rparr>)"
      by (simp add: node_body_def look)
    have res: "res = Inr (cr_result cr)" "w' = store_run rid (?w1\<lparr>w_tracker := rt'\<rparr>)"
      using assms(1-3) rt(1) body by (simp_all add: invoke_tool_with_cache_def)
    then have r: "map_of (rt_node_runs rt') rid = Some r" using assms(7) by simp
    have flow: "map_of (rt_flow_runs ?rt1) rid = None" using own assms(4) by (simp add: own_run_def)
    from end_run_cached_id [OF Inr flow r1(1,2) r] end_run_traces [OF Inr own assms(4)] r r1(3,4) res assms(6)
    show ?thesis by simp
  qed
qed

text \<open>C26. When the run of a node whose context had no tracer has ended, no tracer is left active. Where the cache answered, the
  result is the cached one, the tool was not called and there are no traces; the record names the run the result is from.
  Otherwise the result is that of the tool (an exception wrapped as the engine's) and the traces are one trace, that of the
  tool with the tree of all the calls it made, if every call inside the tool ended: a traced tool that returned, or a call of
  the API with an error that can be printed. (A traced tool that raises inside another leaves its trace open.)\<close>

theorem invoke_tool_traces:
  assumes "invoke_tool_with_cache os c f args kwargs w = (res, w')" "fc_current_node c = Some n"
    and "rid = generate_current_node_run_id (os_uuid os) n c" "map_of (rt_flow_runs (w_tracker w)) rid = None"
    and "w_tracer w = None" "fst (from_cache os c n f args kwargs (w_cache w)) = Inr hit"
    and "hit = None \<Longrightarrow> nt_run f args kwargs = (calls, result) \<and> list_all (call_ends (os_codec os)) calls"
    and "map_of (rt_node_runs (w_tracker w')) rid = Some r" "ri_status r \<noteq> Running"
  shows "w_tracer w' = None \<and> (case hit of
      Some cr \<Rightarrow> res = Inr (cr_result cr) \<and> ri_api_calls r = Some [] \<and>
        ri_cached_run_id r = Some (cr_cached_run_id cr) \<and> ri_cached_flow_run_id r = Some (cr_cached_flow_run_id cr)
    | None \<Rightarrow> res = map_sum (tool_failure (node_name n) (tf_module (nt_function f))) id result \<and>
        ri_api_calls r = Some [node_call_json (os_codec os) (node_name n) (nt_function f) args kwargs (os_push os) calls res (os_pop os)])"
proof (cases hit)
  case None
  obtain cm where "from_cache os c n f args kwargs (w_cache w) = (Inr None, cm)" using assms(6) None by (metis prod.collapse)
  from traced_run [OF assms(1-4) this assms(5) _ _ assms(8,9)] assms(7) [OF None] None show ?thesis by auto
next
  case (Some cr)
  obtain cm where "from_cache os c n f args kwargs (w_cache w) = (Inr (Some cr), cm)" using assms(6) Some by (metis prod.collapse)
  from cached_run [OF assms(1-4) this assms(5,8,9)] Some show ?thesis by simp
qed

text \<open>When the lookup in the cache raises (as it does for a run that cannot be read), the handler's pop
  finds no tracer: the node fails with an \<open>AttributeError\<close> that hides the exception, and its run is stored
  as still running.\<close>

theorem cache_failure_masked:
  assumes "fc_current_node c = Some n" "node_enable_cache n"
    and "map_of (rt_flow_runs (w_tracker w)) (generate_current_node_run_id (os_uuid os) n c) = None"
    and "cache_info_for os c f args kwargs (w_cache w) = Some info" "cached_result os info (w_cache w) = (Inl e, cm)" "w_tracer w = None"
  shows "\<exists>x w' r. invoke_tool_with_cache os c f args kwargs w = (Inl x, w') \<and>
    isinstance x (Py AttributeError) \<and> ex_context x = Some e \<and>
    rt_persisted (w_tracker w') = rt_persisted (w_tracker w) @ [NodeRun r] \<and> ri_status r = Running"
proof -
  let ?rid = "generate_current_node_run_id (os_uuid os) n c"
  let ?x = "during (no_tracer ''_pop'') e"
  obtain rt where rt: "open_run os c n ?rid (parse_all_args (tf_params (nt_function f)) args kwargs) (w_tracker w) = Inr rt"
    "own_run ?rid (node_name n) (w_tracker w) Running rt" using open_run_own by blast
  let ?v = "w\<lparr>w_tracker := rt\<rparr>" and ?w = "w\<lparr>w_cache := cm, w_tracker := rt\<rparr>"
  have body: "node_body os c ?rid n f args kwargs ?v = (Inl e, [], ?w)"
    using assms(2,4,5) by (simp add: node_body_def look_up_def)
  have failed: "node_failed os ?rid e [] ?w = (?x, ?w)"
    using assms(6) by (simp add: node_failed_def pop_def)
  have run: "invoke_tool_with_cache os c f args kwargs w = (Inl ?x, store_run ?rid ?w)"
    using assms(1) rt(1) body failed by (simp add: invoke_tool_with_cache_def)
  from rt(2) obtain r where r: "map_of (rt_node_runs rt) ?rid = Some r" "ri_status r = Running" "rt_persisted rt = rt_persisted (w_tracker w)"
    by (auto simp: own_run_def)
  have "isinstance ?x (Py AttributeError)" "ex_context ?x = Some e"
    by (simp_all add: during_def no_tracer_def isinstance_def py_exn_def mro_def numeral_eq_Suc)
  with run r show ?thesis by (auto simp: store_run_def persist_node_run_def)
qed

section \<open>Run ids\<close>

lemma split_last_underscore:
  assumes "x @ ''_'' @ s = y @ ''_'' @ t" "CHR ''_'' \<notin> set s" "CHR ''_'' \<notin> set t"
  shows "x = y \<and> s = t"
proof -
  have same: "us = []" if "u @ us = v @ ''_''" "CHR ''_'' \<notin> set us" for u v us :: string
    using that by (cases us rule: rev_cases) auto
  from assms(1) have "(x @ ''_'') @ s = (y @ ''_'') @ t" by simp
  from append_eq_append_conv2 [THEN iffD1, OF this] show ?thesis
  proof (elim exE disjE conjE)
    fix us assume us: "x @ ''_'' = (y @ ''_'') @ us" "us @ s = t"
    with same [of "y @ ''_''" us x] assms(3) have "us = []" by auto
    with us show ?thesis by simp
  next
    fix us assume us: "(x @ ''_'') @ us = y @ ''_''" "s = us @ t"
    with same [of "x @ ''_''" us y] assms(2) have "us = []" by auto
    with us show ?thesis by simp
  qed
qed

lemma int_str_no_underscore: "CHR ''_'' \<notin> set (int_str i)"
proof -
  have "CHR ''_'' \<notin> set (nat_str n)" for n
    using nat_str_digits [of n] by (auto simp: list_all_iff is_digit_def)
  then show ?thesis by (simp add: int_str_def)
qed

lemma int_str_not_reduce: "int_str i \<noteq> ''reduce''"
  using nat_str_head [of "nat i"] by (auto simp: int_str_def is_digit_def)

lemma node_run_id_not_line: "generate_current_node_run_id uuid n c \<noteq> parent_run_id c"
proof
  assume eq: "generate_current_node_run_id uuid n c = parent_run_id c"
  obtain i where i: "fc_line_number c = Some i"
    using eq by (cases "fc_line_number c") (auto simp: generate_current_node_run_id_def parent_run_id_def split: if_splits)
  then obtain t where "fc_run_id c @ ''_'' @ node_name n @ ''_'' @ t = fc_run_id c @ ''_'' @ int_str i"
    using eq by (auto simp: generate_current_node_run_id_def parent_run_id_def split: if_splits)
  then have "int_str i = node_name n @ ''_'' @ t" by simp
  then have "CHR ''_'' \<in> set (int_str i)" by simp
  with int_str_no_underscore show False by blast
qed

text \<open>In one bulk run the ids of the node runs differ unless they are of the same node and the same line
  (or of the same aggregation node), and none is the id of the run of a line.\<close>

theorem node_run_ids_apart:
  assumes "fc_run_id c = fc_run_id c'" "fc_line_number c = Some i" "fc_line_number c' = Some j"
  shows "(generate_current_node_run_id uuid n c = generate_current_node_run_id uuid' n' c' \<longleftrightarrow>
      node_name n = node_name n' \<and> node_aggregation n = node_aggregation n' \<and> (\<not> node_aggregation n \<longrightarrow> i = j)) \<and>
    generate_current_node_run_id uuid n c \<noteq> parent_run_id c'"
proof -
  let ?tail = "\<lambda>n i. if node_aggregation n then ''reduce'' else int_str i"
  have shape: "generate_current_node_run_id uuid n c = (fc_run_id c @ ''_'' @ node_name n) @ ''_'' @ ?tail n i"
    "generate_current_node_run_id uuid' n' c' = (fc_run_id c @ ''_'' @ node_name n') @ ''_'' @ ?tail n' j"
    using assms by (simp_all add: generate_current_node_run_id_def)
  have plain: "CHR ''_'' \<notin> set (?tail m k)" for m k using int_str_no_underscore by simp
  have tails: "?tail n i = ?tail n' j \<longleftrightarrow> node_aggregation n = node_aggregation n' \<and> (\<not> node_aggregation n \<longrightarrow> i = j)"
    using int_str_not_reduce [of i] int_str_not_reduce [of j] int_str_inject [of i j] by auto
  have "generate_current_node_run_id uuid n c = generate_current_node_run_id uuid' n' c' \<longleftrightarrow>
      node_name n = node_name n' \<and> ?tail n i = ?tail n' j"
  proof
    assume "generate_current_node_run_id uuid n c = generate_current_node_run_id uuid' n' c'"
    from split_last_underscore [OF this [unfolded shape] plain plain] show "node_name n = node_name n' \<and> ?tail n i = ?tail n' j" by simp
  qed (simp only: shape)
  moreover have "generate_current_node_run_id uuid n c \<noteq> parent_run_id c'"
  proof
    assume "generate_current_node_run_id uuid n c = parent_run_id c'"
    then have "node_name n @ ''_'' @ ?tail n i = int_str j"
      using assms by (simp add: generate_current_node_run_id_def parent_run_id_def split: if_splits)
    then have "CHR ''_'' \<in> set (int_str j)" by (metis append_Cons in_set_conv_decomp)
    with int_str_no_underscore show False by blast
  qed
  ultimately show ?thesis using tails by blast
qed

section \<open>Instances\<close>

definition demo_outside :: "(string \<Rightarrow> run_info res) \<Rightarrow> outside" where
  "demo_outside runs = \<lparr>os_codec = demo_codec, os_uuid = ''u'', os_start = 1, os_push = 2, os_pop = 8, os_end = 9,
     os_sha1 = id, os_get_node_run = runs, os_dataset = in_memory cc_run_id cache_column\<rparr>"

definition demo_context :: "bool \<Rightarrow> int \<Rightarrow> flow_context" where
  "demo_context cached line = set_current_node (Some ((demo_node ''n'' [])\<lparr>node_enable_cache := cached\<rparr>))
     (new_context (PStr ''flow'') ''run'' None (Some line) ''v'')"

definition demo_tool_of :: "call list \<times> pyval res \<Rightarrow> node_tool" where
  "demo_tool_of b = \<lparr>nt_function = \<lparr>tf_qualname = ''f'', tf_module = Some ''m'', tf_params = [''q'']\<rparr>,
     nt_cache_function = Some (\<lambda>args kwargs. Inr ''s''), nt_run = (\<lambda>args kwargs. b)\<rparr>"

definition demo_world :: "cache_manager \<Rightarrow> world" where
  "demo_world cm = \<lparr>w_tracker = new_run_tracker Test (new_log_manager False), w_tracer = None, w_cache = cm, w_operation = None\<rparr>"

lemma demo_current:
  "fc_current_node (demo_context b i) = Some ((demo_node ''n'' [])\<lparr>node_enable_cache := b\<rparr>)"
  "generate_current_node_run_id ''u'' ((demo_node ''n'' [])\<lparr>node_enable_cache := b\<rparr>) (demo_context b i) = ''run_n_'' @ int_str i"
  "map_of (rt_flow_runs (w_tracker (demo_world cm))) k = None" "w_tracer (demo_world cm) = None"
  by (simp_all add: demo_context_def set_current_node_def new_context_def demo_world_def new_run_tracker_def
      generate_current_node_run_id_def demo_node_def)

theorem invoke_tool_stores_run_witness:
  "\<exists>res w' r. invoke_tool_with_cache (demo_outside (\<lambda>k. Inl outside_model)) (demo_context False 0)
      (demo_tool_of ([], Inl (py_exn ValueError [PStr ''bad'']))) [PInt 1] [] (demo_world DummyCacheManager) = (res, w') \<and>
    rt_persisted (w_tracker w') = [NodeRun r] \<and> ri_run_id r = ''run_n_0'' \<and> (ri_status r = Completed \<longleftrightarrow> \<not> isl res)"
proof -
  obtain res w' where run: "invoke_tool_with_cache (demo_outside (\<lambda>k. Inl outside_model)) (demo_context False 0)
      (demo_tool_of ([], Inl (py_exn ValueError [PStr ''bad'']))) [PInt 1] [] (demo_world DummyCacheManager) = (res, w')"
    by force
  have "os_uuid (demo_outside (\<lambda>k. Inl outside_model)) = ''u''" "int_str 0 = ''0''" by (simp add: demo_outside_def, code_simp)
  with invoke_tool_stores_run [OF run demo_current(1) refl demo_current(3)] run demo_current(2) [of False 0]
  show ?thesis by (auto simp: demo_world_def new_run_tracker_def)
qed

theorem cache_failure_masked_witness:
  "\<exists>x w' r. invoke_tool_with_cache (demo_outside (\<lambda>k. Inl (py_exn AttributeError [PStr ''get_node_run'']))) (demo_context True 0)
      (demo_tool_of ([], Inr PNone)) [] [] (demo_world (CacheManager \<lparr>da_rows = [\<lparr>cc_run_id = ''r'', cc_hash_id = ''s'' @ other_cache_string ''run'' ''f'',
        cc_flow_run_id = ''f'', cc_flow_id = ''run'', cc_cache_string = [], cc_end_time = Some 1\<rparr>], da_time = 0\<rparr>)) = (Inl x, w') \<and>
    isinstance x (Py AttributeError) \<and> rt_persisted (w_tracker w') = [NodeRun r] \<and> ri_status r = Running"
proof -
  let ?os = "demo_outside (\<lambda>k. Inl (py_exn AttributeError [PStr ''get_node_run'']))" and ?c = "demo_context True 0"
  let ?f = "demo_tool_of ([], Inr PNone)"
  let ?row = "\<lparr>cc_run_id = ''r'', cc_hash_id = ''s'' @ other_cache_string ''run'' ''f'',
        cc_flow_run_id = ''f'', cc_flow_id = ''run'', cc_cache_string = [], cc_end_time = Some 1\<rparr>"
  let ?w = "demo_world (CacheManager \<lparr>da_rows = [?row], da_time = 0\<rparr>)"
  let ?t = "''s'' @ other_cache_string ''run'' ''f''"
  have info: "cache_info_for ?os ?c ?f [] [] (w_cache ?w) = Some \<lparr>ci_hash_id = ?t, ci_cache_string = ?t\<rparr>"
    by (simp add: cache_info_for_def calculate_cache_info_def demo_world_def demo_tool_of_def demo_outside_def demo_context_def
        set_current_node_def new_context_def Let_def)
  obtain e where e: "cached_result ?os \<lparr>ci_hash_id = ?t, ci_cache_string = ?t\<rparr> (w_cache ?w) = (Inl e, w_cache ?w)"
    by (simp add: cached_result_def demo_world_def get_cache_result_def get_cache_record_list_def client_get_by_field_def
        numeral_3_eq_3 in_memory_def cache_column_def cached_run_result_def latest_record_def demo_outside_def)
  have n: "node_enable_cache ((demo_node ''n'' [])\<lparr>node_enable_cache := True\<rparr>)" by simp
  from cache_failure_masked [OF demo_current(1) n demo_current(3) info e demo_current(4)] show ?thesis
    by (auto simp: demo_world_def new_run_tracker_def)
qed

theorem node_run_ids_apart_witness:
  "generate_current_node_run_id ''u'' (demo_node ''a'' []) (demo_context True 1) \<noteq>
     generate_current_node_run_id ''u'' (demo_node ''a_1'' []) (demo_context True 1) \<and>
   generate_current_node_run_id ''u'' (demo_node ''a'' []) (demo_context True 1) \<noteq> parent_run_id (demo_context True 1)"
proof -
  have "fc_run_id (demo_context True 1) = fc_run_id (demo_context True 1)" "fc_line_number (demo_context True 1) = Some 1"
    by (simp_all add: demo_context_def set_current_node_def new_context_def)
  from node_run_ids_apart [OF this this(2)] show ?thesis by (simp add: demo_node_def)
qed

theorem invoke_tool_traces_witness:
  "\<exists>w' r. invoke_tool_with_cache (demo_outside (\<lambda>k. Inl outside_model)) (demo_context False 0)
      (demo_tool_of (demo_calls, Inr (PStr ''ok''))) [PInt 1] [] (demo_world DummyCacheManager) = (Inr (PStr ''ok''), w') \<and>
    map_of (rt_node_runs (w_tracker w')) ''run_n_0'' = Some r \<and>
    ri_api_calls r = Some [node_call_json demo_codec ''n'' (nt_function (demo_tool_of (demo_calls, Inr (PStr ''ok'')))) [PInt 1] [] 2
      demo_calls (Inr (PStr ''ok'')) 8]"
proof -
  let ?os = "demo_outside (\<lambda>k. Inl outside_model)" and ?c = "demo_context False 0"
  let ?f = "demo_tool_of (demo_calls, Inr (PStr ''ok''))" and ?w = "demo_world DummyCacheManager"
  obtain res w' where run: "invoke_tool_with_cache ?os ?c ?f [PInt 1] [] ?w = (res, w')" by force
  have "map_option ri_status (map_of (rt_node_runs (w_tracker (snd (invoke_tool_with_cache ?os ?c ?f [PInt 1] [] ?w)))) ''run_n_0'') = Some Completed"
    by code_simp
  then obtain r where r: "map_of (rt_node_runs (w_tracker w')) ''run_n_0'' = Some r" "ri_status r \<noteq> Running" using run by auto
  have os: "os_uuid ?os = ''u''" "os_codec ?os = demo_codec" "os_push ?os = 2" "os_pop ?os = 8" by (simp_all add: demo_outside_def)
  have rid: "''run_n_0'' = generate_current_node_run_id (os_uuid ?os) ((demo_node ''n'' [])\<lparr>node_enable_cache := False\<rparr>) ?c"
    by (simp only: os demo_current(2)) code_simp
  have info: "fst (from_cache ?os ?c ((demo_node ''n'' [])\<lparr>node_enable_cache := False\<rparr>) ?f [PInt 1] [] (w_cache ?w)) = Inr None"
    by (simp add: from_cache_def cache_info_for_def demo_world_def)
  have t: "nt_run ?f [PInt 1] [] = (demo_calls, Inr (PStr ''ok''))" by (simp add: demo_tool_of_def)
  have ends: "list_all (call_ends (os_codec ?os)) demo_calls" by (simp only: os) code_simp
  from invoke_tool_traces [OF run demo_current(1) rid demo_current(3,4) info conjI [OF t ends] r]
  have "res = Inr (PStr ''ok'') \<and> ri_api_calls r = Some [node_call_json demo_codec ''n''
      (nt_function ?f) [PInt 1] [] 2 demo_calls (Inr (PStr ''ok'')) 8]"
    by (simp add: os demo_node_def)
  with run r(1) show ?thesis by blast
qed

end
