(* ===== verification/Executor.thy ===== *)
theory Executor imports Context FlowValidator begin

text \<open>
  Executing a flow (\<^verbatim>\<open>executor/flow_executor.py\<close>, \<^verbatim>\<open>executor/_result.py\<close>, parts of
  \<^verbatim>\<open>_utils/utils.py\<close>): one line, a batch of lines, and the aggregation nodes after a batch. What the
  scheduler makes of the nodes it is given, with what their tools leave in the run tracker, is the parameter
  \<open>run_nodes\<close>; the theory of the scheduler says which outcomes a run can have.
\<close>

section \<open>Columns and rows\<close>

definition transpose_rows :: "(string, pyval) dict list \<Rightarrow> string list \<Rightarrow> (string, pyval list) dict res" where
  "transpose_rows rows keys =
    bindr (if keys \<noteq> [] then Inr keys
           else (case rows of [] \<Rightarrow> Inl (py_exn IndexError [PStr ''list index out of range'']) | r # _ \<Rightarrow> Inr (dict_keys r)))
      (\<lambda>ks. Inr (dict_of (map (\<lambda>k. (k, map (\<lambda>r. dict_get r k PNone) rows)) ks)))"

definition put_value :: "string \<Rightarrow> pyval list \<Rightarrow> (string, pyval) dict list \<Rightarrow> (string, pyval) dict list" where
  "put_value k vs rows = map (\<lambda>(v, r). AList.update k v r) (zip vs rows)"

definition reverse_transpose :: "(string, pyval list) dict \<Rightarrow> (string, pyval) dict list res" where
  "reverse_transpose values =
    (case values of
       [] \<Rightarrow> Inl (py_exn IndexError [PStr ''list index out of range''])
     | (_, vs) # _ \<Rightarrow>
        if list_ex (\<lambda>(k, ws). length ws \<noteq> length vs) values
        then Inl (py_exn Exception [PStr ''Value list of each key must have same length''])
        else Inr (fold (\<lambda>(k, ws). put_value k ws) values (replicate (length vs) [])))"

definition collect_lines :: "nat list \<Rightarrow> (string, pyval list) dict \<Rightarrow> (string, pyval list) dict res" where
  "collect_lines indexes kvs =
     mapr (\<lambda>(k, v). bindr (mapr (\<lambda>i. if i < length v then Inr (v ! i)
         else Inl (py_exn IndexError [PStr ''list index out of range''])) indexes) (\<lambda>ws. Inr (k, ws))) kvs"

definition fill_lines :: "nat list \<Rightarrow> pyval list \<Rightarrow> nat \<Rightarrow> pyval list res" where
  "fill_lines idxes vs nlines =
     foldr_res (\<lambda>(i, v) result. if i < length result then Inr (result[i := v])
       else Inl (py_exn IndexError [PStr ''list assignment index out of range''])) (zip idxes vs) (replicate nlines PNone)"

section \<open>Results\<close>

record line_result =
  lr_output :: "(string, pyval) dict"
  lr_aggregation_inputs :: "(string, pyval) dict"
  lr_run_info :: flow_run_info
  lr_node_run_infos :: "(string, run_info) dict"

record aggregation_result =
  ar_output :: "(string, pyval) dict"
  ar_metrics :: "(string, pyval) dict"
  ar_node_run_infos :: "(string, run_info) dict"

record bulk_result =
  br_outputs :: "(string, pyval) dict list"
  br_metrics :: "(string, pyval) dict"
  br_line_results :: "line_result list"
  br_aggr_results :: aggregation_result

definition empty_aggregation :: aggregation_result where
  "empty_aggregation = \<lparr>ar_output = [], ar_metrics = [], ar_node_run_infos = []\<rparr>"

definition line_run_infos :: "bulk_result \<Rightarrow> run_info list" where
  "line_run_infos b = concat (map (\<lambda>l. dict_values (lr_node_run_infos l)) (br_line_results b))"

definition aggr_run_infos :: "bulk_result \<Rightarrow> run_info list" where
  "aggr_run_infos b = dict_values (ar_node_run_infos (br_aggr_results b))"

definition bulk_status_summary :: "bulk_result \<Rightarrow> (string, int) dict res" where
  "bulk_status_summary b =
    bindr (foldr_res (\<lambda>r (summary, lines). bindr (count_node_run r summary) (\<lambda>s.
        Inr (s, note_line (ri_index r) (ri_status r = Completed) lines))) (line_run_infos b) ([], [])) (\<lambda>(summary, lines).
      Inr (lines_summary lines (fold (\<lambda>r. AList.update (node_key (ri_node r) ''.completed'') (if ri_status r = Completed then 1 else 0))
        (aggr_run_infos b) summary)))"

definition bulk_openai_metrics :: "bulk_result \<Rightarrow> (string, pyval) dict res" where
  "bulk_openai_metrics b =
     foldr_res (\<lambda>r total. case ri_api_calls r of
         None \<Rightarrow> Inl (py_exn TypeError [PStr ''NoneType object is not iterable''])
       | Some cs \<Rightarrow> collect_openai_metrics cs total) (line_run_infos b @ aggr_run_infos b) []"

section \<open>The executor\<close>

record executor =
  fx_flow :: flow
  fx_flow_id :: string
  fx_references :: "string list"
  fx_worker_count :: int
  fx_raise_ex :: bool
  fx_line_timeout_sec :: int
  fx_node_concurrency :: pyval

definition aggregation_nodes :: "flow \<Rightarrow> string list" where
  "aggregation_nodes f = remdups (map node_name (filter node_aggregation (flow_nodes f)))"

text \<open>The references of the other nodes to normal nodes, as they are written.\<close>

definition get_aggregation_inputs_properties :: "pyenv \<Rightarrow> flow \<Rightarrow> string list" where
  "get_aggregation_inputs_properties env f =
    (let normal = filter (is_normal_node f) (map node_name (flow_nodes f)) in
     remdups (concat (map (\<lambda>n. if node_name n \<in> set normal then []
       else map (\<lambda>i. render env (reference_text i))
         (filter (\<lambda>i. ia_value_type i = NODE_REFERENCE \<and> (\<exists>k \<in> set normal. ia_value i = PStr k)) (dict_values (node_inputs n))))
       (flow_nodes f))))"

definition default_worker_count :: int where
  "default_worker_count = 16"

definition default_concurrency_bulk :: int where
  "default_concurrency_bulk = 2"

text \<open>\<open>PF_WORKER_COUNT\<close> of the environment, when no count is given.\<close>

definition worker_count :: "int option \<Rightarrow> string option \<Rightarrow> int" where
  "worker_count given env_value =
    (let n = (case given of
           Some w \<Rightarrow> w
         | None \<Rightarrow> (case env_value of
             None \<Rightarrow> default_worker_count
           | Some s \<Rightarrow> (case int_of_str s of Some w \<Rightarrow> w | None \<Rightarrow> default_worker_count)))
     in if n \<le> 0 then default_worker_count else n)"

definition new_executor ::
  "pyenv \<Rightarrow> string \<Rightarrow> int option \<Rightarrow> string option \<Rightarrow> bool \<Rightarrow> int \<Rightarrow> flow \<Rightarrow> executor" where
  "new_executor env fid given env_value raise_ex timeout f = \<lparr>fx_flow = f, fx_flow_id = fid,
     fx_references = get_aggregation_inputs_properties env f, fx_worker_count = worker_count given env_value,
     fx_raise_ex = raise_ex, fx_line_timeout_sec = timeout, fx_node_concurrency = PInt default_concurrency_bulk\<rparr>"

section \<open>The outputs of a line\<close>

definition extract_output ::
  "flow \<Rightarrow> (string, pyval) dict \<Rightarrow> (string, pyval) dict \<Rightarrow> string \<times> flow_output_definition \<Rightarrow>
     (string, pyval) dict \<Rightarrow> (string, pyval) dict res" where
  "extract_output f nodes_outputs fins kv outputs =
    (case kv of (name, od) \<Rightarrow>
      let r = fo_reference od in
      case ia_value_type r of
        LITERAL \<Rightarrow> Inr (AList.update name (ia_value r) outputs)
      | FLOW_INPUT \<Rightarrow>
         (case lookup_name fins (ia_value r) of
            None \<Rightarrow> Inl (py_exn KeyError [ia_value r])
          | Some (_, v) \<Rightarrow> Inr (AList.update name v outputs))
      | NODE_REFERENCE \<Rightarrow>
         (case find (\<lambda>n. PStr (node_name n) = ia_value r) (flow_nodes f) of
            None \<Rightarrow> Inl (py_exn ValueError [PStr ''Invalid node name '', ia_value r])
          | Some n \<Rightarrow>
              if node_aggregation n then Inr outputs
              else (case map_of nodes_outputs (node_name n) of
                  None \<Rightarrow> Inl (py_exn ValueError [PStr ''Node '', ia_value r, PStr '' not found in results.''])
                | Some v \<Rightarrow> bindr (parse_node_property (node_name n) v (ia_property r)) (\<lambda>w. Inr (AList.update name w outputs)))))"

definition extract_outputs ::
  "flow \<Rightarrow> (string, pyval) dict \<Rightarrow> (string, pyval) dict \<Rightarrow> (string, pyval) dict res" where
  "extract_outputs f nodes_outputs fins = foldr_res (extract_output f nodes_outputs fins) (flow_outputs f) []"

definition stringify_generator_output :: "pyenv \<Rightarrow> (string, pyval) dict \<Rightarrow> (string, pyval) dict" where
  "stringify_generator_output env outputs =
     map (\<lambda>(k, v). (k, case v of PGen vs \<Rightarrow> PStr (concat (map (py_str (obj_repr env)) vs)) | _ \<Rightarrow> v)) outputs"

definition extract_aggregation_input :: "(string, pyval) dict \<Rightarrow> string \<Rightarrow> pyval res" where
  "extract_aggregation_input nodes_outputs prop =
     bindr (ia_deserialize (PStr prop)) (\<lambda>assign. parse_value assign nodes_outputs [])"

definition extract_aggregation_inputs :: "string list \<Rightarrow> (string, pyval) dict \<Rightarrow> (string, pyval) dict res" where
  "extract_aggregation_inputs references nodes_outputs =
     mapr (\<lambda>p. bindr (extract_aggregation_input nodes_outputs p) (\<lambda>v. Inr (p, v))) references"

section \<open>One line\<close>

type_synonym run_nodes =
  "node list \<Rightarrow> (string, pyval) dict \<Rightarrow> run_tracker \<Rightarrow> (string, pyval) dict res \<times> run_tracker"

definition submit_to_scheduler ::
  "executor \<Rightarrow> run_nodes \<Rightarrow> (string, pyval) dict \<Rightarrow> node list \<Rightarrow> run_tracker \<Rightarrow> (string, pyval) dict res \<times> run_tracker" where
  "submit_to_scheduler x run inputs nodes rt =
    (case fx_node_concurrency x of
       PInt _ \<Rightarrow> run nodes inputs rt
     | PBool _ \<Rightarrow> run nodes inputs rt
     | _ \<Rightarrow> (Inl (pf_exn (Ex NodeConcurrencyNotFound) [PStr ''Need to set node concurrency as using flow executor.''] EXECUTOR), rt))"

definition batch_nodes :: "flow \<Rightarrow> node list" where
  "batch_nodes f = filter (\<lambda>n. \<not> node_aggregation n) (flow_nodes f)"

definition traverse_nodes ::
  "executor \<Rightarrow> run_nodes \<Rightarrow> (string, pyval) dict \<Rightarrow> run_tracker \<Rightarrow>
     ((string, pyval) dict \<times> (string, pyval) dict) res \<times> run_tracker" where
  "traverse_nodes x run inputs rt =
    (case submit_to_scheduler x run inputs (batch_nodes (fx_flow x)) rt of
       (Inl e, rt1) \<Rightarrow> (Inl e, rt1)
     | (Inr nodes_outputs, rt1) \<Rightarrow>
         (bindr (extract_outputs (fx_flow x) nodes_outputs inputs) (\<lambda>outputs. Inr (outputs, nodes_outputs)), rt1))"

text \<open>What a call of \<open>_exec\<close> is given; \<open>lc_start\<close> and \<open>lc_end\<close> are when the line starts and ends.\<close>

record line_call =
  lc_env :: pyenv
  lc_connections :: "string list"
  lc_run_id :: string
  lc_line_number :: "int option"
  lc_variant_id :: string
  lc_validate_inputs :: bool
  lc_allow_generator :: bool
  lc_start :: int
  lc_end :: int

definition line_run_id :: "line_call \<Rightarrow> string" where
  "line_run_id c = (case lc_line_number c of None \<Rightarrow> lc_run_id c | Some i \<Rightarrow> lc_run_id c @ ''_'' @ int_str i)"

definition index_value :: "int option \<Rightarrow> pyval" where
  "index_value i = (case i of None \<Rightarrow> PNone | Some n \<Rightarrow> PInt n)"

text \<open>The \<open>try\<close> block: the exception if it raised, and what \<open>output\<close> and \<open>aggregation_inputs\<close> are then.\<close>

definition line_body ::
  "executor \<Rightarrow> run_nodes \<Rightarrow> line_call \<Rightarrow> (string, pyval) dict \<Rightarrow> run_tracker \<Rightarrow>
     exn option \<times> (string, pyval) dict \<times> (string, pyval) dict \<times> run_tracker" where
  "line_body x run c inputs rt =
    (case (if lc_validate_inputs c then ensure_flow_inputs_type (lc_env c) (fx_flow x) inputs (index_value (lc_line_number c))
           else Inr inputs) of
       Inl e \<Rightarrow> (Some e, [], [], rt)
     | Inr ins \<Rightarrow>
        (case traverse_nodes x run ins rt of
           (Inl e, rt1) \<Rightarrow> (Some e, [], [], rt1)
         | (Inr (outputs, nodes_outputs), rt1) \<Rightarrow>
            (let output = (if lc_allow_generator c then outputs else stringify_generator_output (lc_env c) outputs);
                 rt2 = rt1\<lparr>rt_allow_generator_types := lc_allow_generator c\<rparr> in
             case end_run (lc_env c) (lc_connections c) (lc_end c) (line_run_id c) (PDict output) None None rt2 of
               Inl e \<Rightarrow> (Some e, output, [], rt2)
             | Inr rt3 \<Rightarrow>
                (case extract_aggregation_inputs (fx_references x) nodes_outputs of
                   Inl e \<Rightarrow> (Some e, output, [], rt3)
                 | Inr aggregation_inputs \<Rightarrow> (None, output, aggregation_inputs, rt3)))))"

text \<open>The \<open>finally\<close> block.\<close>

definition finish_line :: "string \<Rightarrow> run_tracker \<Rightarrow> run_tracker res" where
  "finish_line rid rt =
    bindr (update_flow_run_info_with_node_runs rid rt) (\<lambda>rt1.
      Inr (case map_of (rt_flow_runs rt1) rid of Some r \<Rightarrow> persist_flow_run r rt1 | None \<Rightarrow> rt1))"

definition line_tracker :: "run_tracker \<Rightarrow> run_tracker" where
  "line_tracker rt = (new_run_tracker (rt_run_mode rt) (rt_log_manager rt))
     \<lparr>rt_persisted := rt_persisted rt, rt_allow_generator_types := rt_allow_generator_types rt\<rparr>"

text \<open>The storage and the log manager are those of the executor's tracker.\<close>

definition back_to :: "run_tracker \<Rightarrow> run_tracker \<Rightarrow> run_tracker" where
  "back_to rt line_rt = rt\<lparr>rt_persisted := rt_persisted line_rt, rt_log_manager := rt_log_manager line_rt\<rparr>"

definition exec_flow ::
  "executor \<Rightarrow> run_nodes \<Rightarrow> line_call \<Rightarrow> (string, pyval) dict \<Rightarrow> run_tracker \<Rightarrow> line_result res \<times> run_tracker" where
  "exec_flow x run c inputs rt =
    (let rid = line_run_id c;
         (_, rt0) = start_flow_run (lc_start c) (PStr (fx_flow_id x)) (lc_run_id c) rid (lc_run_id c)
           (concat (map (\<lambda>(k, d). case map_of inputs k of Some v \<Rightarrow> [(k, v)] | None \<Rightarrow> []) (flow_inputs (fx_flow x))))
           (lc_line_number c) (lc_variant_id c) (line_tracker rt);
         (failure, output, aggregation_inputs, rt1) = line_body x run c inputs rt0;
         (raised, rt2) = (case failure of
             None \<Rightarrow> (None, rt1)
           | Some e \<Rightarrow>
              (case end_run (lc_env c) (lc_connections c) (lc_end c) rid PNone (Some e) None rt1 of
                 Inl y \<Rightarrow> (Some (during y e), rt1)
               | Inr rt' \<Rightarrow> (if fx_raise_ex x then Some e else None, rt')))
     in case finish_line rid rt2 of
          Inl y \<Rightarrow> (Inl y, back_to rt rt2)
        | Inr rt3 \<Rightarrow>
           (case raised of
              Some e \<Rightarrow> (Inl e, back_to rt rt3)
            | None \<Rightarrow>
               (case map_of (rt_flow_runs rt3) rid of
                  None \<Rightarrow> (Inl outside_model, back_to rt rt3)
                | Some r \<Rightarrow>
                   (Inr \<lparr>lr_output = output, lr_aggregation_inputs = aggregation_inputs, lr_run_info = r,
                      lr_node_run_infos = dict_of (map (\<lambda>q. (ri_node q, q)) (collect_child_node_runs rid rt3))\<rparr>,
                    back_to rt rt3))))"


section \<open>The nodes of a line in their context\<close>

text \<open>One node, in a copy of the context of the line; \<open>tools\<close> are the tools of the tools manager.\<close>

definition exec_node_in_context ::
  "(node \<Rightarrow> outside) \<Rightarrow> flow_context \<Rightarrow> (string \<Rightarrow> node_tool option) \<Rightarrow> (string, pyval) dict \<Rightarrow> (string, pyval) dict \<Rightarrow>
     node \<Rightarrow> world \<Rightarrow> pyval res \<times> world" where
  "exec_node_in_context os c tools fins nodes_outputs n w =
    (case (case node_skip n of
         None \<Rightarrow> Inr None
       | Some s \<Rightarrow>
           bindr (parse_value (sk_condition s) nodes_outputs fins) (\<lambda>v.
             if py_eq v (sk_condition_value s)
             then bindr (parse_value (sk_return_value s) nodes_outputs fins) (\<lambda>r. Inr (Some r))
             else Inr None)) of
       Inl e \<Rightarrow> (Inl e, w)
     | Inr (Some v) \<Rightarrow> (Inr v, w)
     | Inr None \<Rightarrow>
        (case parse_inputs (node_inputs n) nodes_outputs fins of
           Inl e \<Rightarrow> (Inl e, w)
         | Inr kwargs \<Rightarrow>
            (case tools (node_name n) of
               None \<Rightarrow> (Inl (py_exn ValueError [PStr ''Tool for '', PStr (node_name n), PStr '' is not loaded'']), w)
             | Some f \<Rightarrow> invoke_tool_with_cache (os n) (set_current_node (Some n) (copy_context c)) f [] kwargs w)))"

text \<open>What one worker thread does with nodes that come in topological order.\<close>

primrec run_in_context ::
  "(node \<Rightarrow> outside) \<Rightarrow> flow_context \<Rightarrow> (string \<Rightarrow> node_tool option) \<Rightarrow> (string, pyval) dict \<Rightarrow> node list \<Rightarrow>
     (string, pyval) dict \<Rightarrow> world \<Rightarrow> (string, pyval) dict res \<times> world" where
  "run_in_context os c tools fins [] nodes_outputs w = (Inr nodes_outputs, w)"
| "run_in_context os c tools fins (n # ns) nodes_outputs w =
    (case exec_node_in_context os c tools fins nodes_outputs n w of
       (Inl e, w') \<Rightarrow> (Inl e, w')
     | (Inr v, w') \<Rightarrow> run_in_context os c tools fins ns (AList.update (node_name n) v nodes_outputs) w')"

definition line_context :: "executor \<Rightarrow> line_call \<Rightarrow> flow_context" where
  "line_context x c = new_context (flow_name (fx_flow x)) (lc_run_id c) (Some (fx_flow_id x)) (lc_line_number c) (lc_variant_id c)"

definition run_line_nodes ::
  "(node \<Rightarrow> outside) \<Rightarrow> flow_context \<Rightarrow> (string \<Rightarrow> node_tool option) \<Rightarrow> world \<Rightarrow> run_nodes" where
  "run_line_nodes os c tools w ns fins rt =
    (case run_in_context os c tools fins ns [] (w\<lparr>w_tracker := rt, w_tracer := None\<rparr>) of (r, w') \<Rightarrow> (r, w_tracker w'))"

section \<open>Columns back to rows\<close>

lemma put_value_column:
  assumes "length vs = length rows" "\<forall>r\<in>set rows. k \<notin> fst ` set r"
  shows "put_value k vs rows = map (\<lambda>(v, r). r @ [(k, v)]) (zip vs rows)"
  unfolding put_value_def using assms(2) by (auto simp: update_new_key dest!: set_zip_rightD)

lemma put_columns:
  assumes "distinct ks" "length rows = length ds" "\<forall>r\<in>set rows. fst ` set r \<inter> set ks = {}"
  shows "fold (\<lambda>(k, ws). put_value k ws) (map (\<lambda>k. (k, map (\<lambda>d. dict_get d k PNone) ds)) ks) rows =
    map (\<lambda>(r, d). r @ map (\<lambda>k. (k, dict_get d k PNone)) ks) (zip rows ds)"
  using assms
proof (induction ks arbitrary: rows)
  case Nil
  then show ?case by (intro nth_equalityI) auto
next
  case (Cons k ks)
  let ?rows = "map (\<lambda>(v, r). r @ [(k, v)]) (zip (map (\<lambda>d. dict_get d k PNone) ds) rows)"
  have "put_value k (map (\<lambda>d. dict_get d k PNone) ds) rows = ?rows"
    using Cons.prems by (intro put_value_column) auto
  moreover have "\<forall>r\<in>set ?rows. fst ` set r \<inter> set ks = {}"
    using Cons.prems by (auto dest!: set_zip_rightD)
  moreover have "zip ?rows ds = map (\<lambda>(r, d). (r @ [(k, dict_get d k PNone)], d)) (zip rows ds)"
    using Cons.prems(2) by (intro nth_equalityI) auto
  ultimately show ?case using Cons.IH [of ?rows] Cons.prems by (auto simp: split_def comp_def)
qed

lemma dict_get_keys:
  assumes "distinct (dict_keys d)"
  shows "map (\<lambda>k. (k, dict_get d k v)) (dict_keys d) = d"
proof -
  have "(fst kv, dict_get d (fst kv) v) = kv" if "kv \<in> set d" for kv
  proof (cases kv)
    case (Pair k w)
    with that assms have "map_of d k = Some w" by simp
    with Pair show ?thesis by (simp add: dict_get_def)
  qed
  then show ?thesis by (simp add: comp_def map_idI)
qed

text \<open>Rows that all have the same keys survive being turned into columns and back.\<close>

theorem transpose_roundtrip:
  assumes "rows \<noteq> []" "ks \<noteq> []" "distinct ks" "\<forall>r\<in>set rows. dict_keys r = ks"
  shows "bindr (transpose_rows rows []) reverse_transpose = Inr rows \<and>
    bindr (transpose_rows rows ks) reverse_transpose = Inr rows"
proof -
  let ?cols = "map (\<lambda>k. (k, map (\<lambda>r. dict_get r k PNone) rows)) ks"
  have cols: "dict_of ?cols = ?cols" using assms(3) by (intro dict_of_distinct) (simp add: comp_def)
  have "fold (\<lambda>(k, ws). put_value k ws) ?cols (replicate (length rows) []) =
      map (\<lambda>(r, d). r @ map (\<lambda>k. (k, dict_get d k PNone)) ks) (zip (replicate (length rows) []) rows)"
    using assms(3) by (intro put_columns) auto
  also have "\<dots> = map (\<lambda>d. map (\<lambda>k. (k, dict_get d k PNone)) ks) rows"
    by (intro nth_equalityI) auto
  also have "\<dots> = rows" using assms(3,4) dict_get_keys by (intro map_idI) force
  finally have "reverse_transpose ?cols = Inr rows"
    using assms(2) by (cases ks) (auto simp: reverse_transpose_def list_ex_iff simp del: fold_simps)
  then show ?thesis using assms cols by (cases rows) (auto simp: transpose_rows_def)
qed

theorem transpose_roundtrip_witness:
  "bindr (transpose_rows [[(''a'', PInt 1), (''b'', PNone)], [(''a'', PInt 2), (''b'', PStr ''x'')]] []) reverse_transpose =
     Inr [[(''a'', PInt 1), (''b'', PNone)], [(''a'', PInt 2), (''b'', PStr ''x'')]]"
  using transpose_roundtrip [of "[[(''a'', PInt 1), (''b'', PNone)], [(''a'', PInt 2), (''b'', PStr ''x'')]]" "[''a'', ''b'']"]
  by simp

section \<open>What ending the run of a line does\<close>

definition same_line :: "flow_run_info \<Rightarrow> flow_run_info \<Rightarrow> bool" where
  "same_line r r' \<longleftrightarrow> fr_run_id r' = fr_run_id r \<and> fr_index r' = fr_index r \<and> fr_parent_run_id r' = fr_parent_run_id r \<and>
     fr_root_run_id r' = fr_root_run_id r \<and> fr_flow_id r' = fr_flow_id r \<and> fr_inputs r' = fr_inputs r \<and>
     fr_start_time r' = fr_start_time r \<and> fr_variant_id r' = fr_variant_id r"

lemma same_line_trans [trans]: "same_line a b \<Longrightarrow> same_line b c \<Longrightarrow> same_line a c"
  by (simp add: same_line_def)

lemma finish_flow_run_fields:
  assumes "finish_flow_run env now out e r = Inr r'"
  shows "same_line r r' \<and> fr_status r' = (if e = None then Completed else Failed) \<and>
    fr_output r' = (if out = PNone then fr_output r else out) \<and> fr_end_time r' = Some now"
  using assms by (auto simp: finish_flow_run_def res_simps Let_def same_line_def split: option.splits if_splits)

lemma flow_run_postprocess_fields:
  assumes "flow_run_postprocess env conns now rt out e r = Inr r'"
  shows "same_line r r' \<and> fr_status r' \<in> {Completed, Failed} \<and> (e \<noteq> None \<longrightarrow> fr_status r' = Failed) \<and>
    (fr_status r' = Completed \<longrightarrow> fr_output r' = (if out = PNone then fr_output r else out)) \<and> fr_end_time r' = Some now"
  using assms by (auto simp: flow_run_postprocess_def res_simps dest!: finish_flow_run_fields split: if_splits sum.splits)

lemma end_flow_run:
  assumes "end_run env conns now rid out e tr rt = Inr rt'" "map_of (rt_flow_runs rt) rid = Some r" "fr_run_id r = rid"
  obtains r' where "map_of (rt_flow_runs rt') = (map_of (rt_flow_runs rt))(rid \<mapsto> r')" "same_line r r'"
    "fr_status r' \<in> {Completed, Failed}" "e \<noteq> None \<Longrightarrow> fr_status r' = Failed"
    "fr_status r' = Completed \<Longrightarrow> fr_output r' = (if out = PNone then fr_output r else out)" "rt_node_runs rt' = rt_node_runs rt"
proof -
  from assms(1,2) obtain r' where post: "flow_run_postprocess env conns now rt out e r = Inr r'" and rt': "rt' = put_flow_run r' rt"
    by (auto simp: end_run_def res_simps)
  from flow_run_postprocess_fields [OF post] assms(3) that [of r'] rt' show thesis by (auto simp: put_flow_run_def same_line_def)
qed

lemma finish_line_fields:
  assumes "finish_line rid rt = Inr rt'" "map_of (rt_flow_runs rt) rid = Some r" "fr_run_id r = rid"
  obtains r' where "map_of (rt_flow_runs rt') rid = Some r'" "same_line r r'" "fr_status r' = fr_status r" "fr_output r' = fr_output r"
    "rt_persisted rt' = rt_persisted rt @ [FlowRun r']" "rt_node_runs rt' = rt_node_runs rt"
proof -
  from assms(1,2) obtain traces m where rt': "rt' = persist_flow_run (r\<lparr>fr_api_calls := Some traces, fr_system_metrics := m\<rparr>)
      (put_flow_run (r\<lparr>fr_api_calls := Some traces, fr_system_metrics := m\<rparr>) rt)"
    using assms(3) by (auto simp: finish_line_def update_flow_run_info_with_node_runs_def res_simps put_flow_run_def)
  show thesis by (rule that) (use assms(3) in \<open>auto simp: rt' persist_flow_run_def put_flow_run_def same_line_def\<close>)
qed

section \<open>The outputs of a line\<close>

definition kept_output :: "flow \<Rightarrow> flow_output_definition \<Rightarrow> bool" where
  "kept_output f od \<longleftrightarrow> \<not> (ia_value_type (fo_reference od) = NODE_REFERENCE \<and>
     (\<exists>n. find (\<lambda>n. PStr (node_name n) = ia_value (fo_reference od)) (flow_nodes f) = Some n \<and> node_aggregation n))"

text \<open>The value a reference reads; the engine's own reading checks the section too.\<close>

definition read_output :: "flow_output_definition \<Rightarrow> (string, pyval) dict \<Rightarrow> (string, pyval) dict \<Rightarrow> pyval res" where
  "read_output od nodes_outputs fins =
     parse_value ((fo_reference od)\<lparr>ia_section := ''output''\<rparr>) nodes_outputs fins"

lemma extract_output_Inr:
  assumes "extract_output f no fins (k, od) outs = Inr outs'"
  shows "if kept_output f od then \<exists>v. read_output od no fins = Inr v \<and> outs' = AList.update k v outs else outs' = outs"
proof (cases "ia_value_type (fo_reference od)")
  case NODE_REFERENCE
  with assms obtain n where n: "find (\<lambda>n. PStr (node_name n) = ia_value (fo_reference od)) (flow_nodes f) = Some n"
    by (auto simp: extract_output_def Let_def split: option.splits)
  then have "ia_value (fo_reference od) = PStr (node_name n)" by (auto simp: find_Some_iff)
  with assms n NODE_REFERENCE show ?thesis
    by (auto simp: extract_output_def read_output_def parse_value_def kept_output_def Let_def res_simps lookup_name_def
        split: option.splits if_splits)
qed (use assms in \<open>auto simp: extract_output_def read_output_def parse_value_def kept_output_def Let_def lookup_name_def
    split: option.splits\<close>)

lemma extract_outputs_from:
  assumes "foldr_res (extract_output f no fins) ods outs = Inr outs'" "distinct (map fst ods)" "fst ` set outs \<inter> fst ` set ods = {}"
  shows "\<exists>vs. outs' = outs @ zip (map fst (filter (\<lambda>(k, od). kept_output f od) ods)) vs \<and>
    list_all2 (\<lambda>(k, od) v. read_output od no fins = Inr v) (filter (\<lambda>(k, od). kept_output f od) ods) vs"
  using assms
proof (induction ods arbitrary: outs)
  case (Cons kd ods)
  obtain k od where kd: "kd = (k, od)" by force
  from Cons.prems(1) kd obtain o1 where o1: "extract_output f no fins (k, od) outs = Inr o1"
    and rest: "foldr_res (extract_output f no fins) ods o1 = Inr outs'" by (auto simp: res_simps)
  show ?case
  proof (cases "kept_output f od")
    case True
    with extract_output_Inr [OF o1] Cons.prems(3) kd obtain v where v: "read_output od no fins = Inr v" "o1 = outs @ [(k, v)]"
      by (auto simp: update_new_key)
    from Cons.IH [OF rest] Cons.prems kd v(2) obtain vs where
      "outs' = o1 @ zip (map fst (filter (\<lambda>(k, od). kept_output f od) ods)) vs"
      "list_all2 (\<lambda>(k, od) v. read_output od no fins = Inr v) (filter (\<lambda>(k, od). kept_output f od) ods) vs" by auto
    with v kd True show ?thesis by (intro exI [of _ "v # vs"]) simp
  next
    case False
    with extract_output_Inr [OF o1] have "o1 = outs" by simp
    with Cons.IH [OF rest] Cons.prems False kd show ?thesis by auto
  qed
qed simp

text \<open>What a completed line returns.\<close>

definition line_outcome ::
  "executor \<Rightarrow> run_nodes \<Rightarrow> line_call \<Rightarrow> (string, pyval) dict \<Rightarrow> (string, pyval) dict \<Rightarrow> (string, pyval) dict \<Rightarrow> bool" where
  "line_outcome x run c inputs output aggregation_inputs \<longleftrightarrow> (\<exists>ins nodes_outputs outs t.
     (if lc_validate_inputs c then ensure_flow_inputs_type (lc_env c) (fx_flow x) inputs (index_value (lc_line_number c)) = Inr ins
      else ins = inputs) \<and>
     fst (run (batch_nodes (fx_flow x)) ins t) = Inr nodes_outputs \<and> extract_outputs (fx_flow x) nodes_outputs ins = Inr outs \<and>
     output = (if lc_allow_generator c then outs else stringify_generator_output (lc_env c) outs) \<and>
     extract_aggregation_inputs (fx_references x) nodes_outputs = Inr aggregation_inputs)"

text \<open>What the executor needs of the nodes: while a line with the run \<open>rid\<close> is open, they leave its run alone.\<close>

locale line_runner =
  fixes run :: run_nodes and rid :: string
  assumes keeps_flow_runs: "dict_keys (rt_flow_runs rt) = [rid] \<Longrightarrow> rt_flow_runs (snd (run ns ins rt)) = rt_flow_runs rt"
begin

lemma traverse_keeps: "dict_keys (rt_flow_runs rt) = [rid] \<Longrightarrow> rt_flow_runs (snd (traverse_nodes x run ins rt)) = rt_flow_runs rt"
  using keeps_flow_runs [of rt "batch_nodes (fx_flow x)" ins]
  by (cases "run (batch_nodes (fx_flow x)) ins rt")
    (auto simp: traverse_nodes_def submit_to_scheduler_def split: sum.splits pyval.splits)

lemma traverse_outcome:
  assumes "traverse_nodes x run ins rt = (Inr (outs, no), rt1)"
  shows "fst (run (batch_nodes (fx_flow x)) ins rt) = Inr no \<and> extract_outputs (fx_flow x) no ins = Inr outs"
  using assms by (auto simp: traverse_nodes_def submit_to_scheduler_def res_simps split: prod.splits sum.splits pyval.splits)

lemma line_body_fields:
  assumes "line_body x run c inputs rt = (failure, output, ains, rt1)" "map_of (rt_flow_runs rt) (line_run_id c) = Some r"
    "fr_run_id r = line_run_id c" "dict_keys (rt_flow_runs rt) = [rid]"
  obtains r1 where "map_of (rt_flow_runs rt1) (line_run_id c) = Some r1" "same_line r r1"
    "failure = None \<longrightarrow> fr_status r1 \<in> {Completed, Failed} \<and> line_outcome x run c inputs output ains \<and>
       (fr_status r1 = Completed \<longrightarrow> fr_output r1 = PDict output)"
proof (cases "if lc_validate_inputs c then ensure_flow_inputs_type (lc_env c) (fx_flow x) inputs (index_value (lc_line_number c))
    else Inr inputs")
  case (Inl e)
  with assms that [of r] show thesis by (auto simp: line_body_def same_line_def)
next
  case (Inr ins)
  have ins: "if lc_validate_inputs c then ensure_flow_inputs_type (lc_env c) (fx_flow x) inputs (index_value (lc_line_number c)) = Inr ins
      else ins = inputs" using Inr by (auto split: if_splits)
  obtain res rt2 where t: "traverse_nodes x run ins rt = (res, rt2)" by force
  with traverse_keeps [of rt x ins] assms(4) have keep: "rt_flow_runs rt2 = rt_flow_runs rt" by simp
  show thesis
  proof (cases res)
    case (Inl e)
    with assms Inr t keep that [of r] show thesis by (auto simp: line_body_def same_line_def)
  next
    case (Inr on)
    obtain outs no where on: "on = (outs, no)" by force
    note outcome = traverse_outcome [OF t [unfolded Inr on]]
    let ?out = "if lc_allow_generator c then outs else stringify_generator_output (lc_env c) outs"
    let ?rt = "rt2\<lparr>rt_allow_generator_types := lc_allow_generator c\<rparr>"
    note body = assms(1) [unfolded line_body_def \<open>_ = Inr ins\<close>, simplified, simplified t Inr on, simplified Let_def, simplified]
    show thesis
    proof (cases "end_run (lc_env c) (lc_connections c) (lc_end c) (line_run_id c) (PDict ?out) None None ?rt")
      case (Inl e)
      with body assms keep that [of r] show thesis by (auto simp: same_line_def)
    next
      case ended: (Inr rt3)
      have open_line: "map_of (rt_flow_runs ?rt) (line_run_id c) = Some r" using assms(2) keep by simp
      obtain r1 where r1: "map_of (rt_flow_runs rt3) = (map_of (rt_flow_runs ?rt))(line_run_id c \<mapsto> r1)"
        "same_line r r1" "fr_status r1 \<in> {Completed, Failed}" "fr_status r1 = Completed \<Longrightarrow> fr_output r1 = PDict ?out"
        by (rule end_flow_run [OF ended open_line assms(3)]) auto
      show thesis
      proof (cases "extract_aggregation_inputs (fx_references x) no")
        case (Inl e)
        with body ended have "failure = Some e" "rt1 = rt3" by simp_all
        with r1 that [of r1] show thesis by simp
      next
        case (Inr ai)
        with body ended have "output = ?out" "ains = ai" "rt1 = rt3" by simp_all
        moreover have "line_outcome x run c inputs ?out ai"
          unfolding line_outcome_def using ins outcome Inr by blast
        ultimately show thesis using r1 that [of r1] by simp
      qed
    qed
  qed
qed

lemma exec_flow_outcome:
  assumes "exec_flow x run c inputs rt = (Inr res, rt')" "line_run_id c = rid"
  shows "fr_run_id (lr_run_info res) = line_run_id c \<and> fr_index (lr_run_info res) = lc_line_number c \<and>
    fr_parent_run_id (lr_run_info res) = lc_run_id c \<and> fr_root_run_id (lr_run_info res) = lc_run_id c \<and>
    fr_status (lr_run_info res) \<in> {Completed, Failed} \<and>
    (fr_status (lr_run_info res) = Completed \<longrightarrow> line_outcome x run c inputs (lr_output res) (lr_aggregation_inputs res) \<and>
       fr_output (lr_run_info res) = PDict (lr_output res)) \<and>
    (\<exists>ps. rt_persisted rt' = ps @ [FlowRun (lr_run_info res)])"
proof -
  let ?rid = "line_run_id c"
  obtain r0 rt0 where start: "start_flow_run (lc_start c) (PStr (fx_flow_id x)) (lc_run_id c) ?rid (lc_run_id c)
      (concat (map (\<lambda>(k, d). case map_of inputs k of Some v \<Rightarrow> [(k, v)] | None \<Rightarrow> []) (flow_inputs (fx_flow x))))
      (lc_line_number c) (lc_variant_id c) (line_tracker rt) = (r0, rt0)" by force
  then have r0: "map_of (rt_flow_runs rt0) ?rid = Some r0" "fr_run_id r0 = ?rid" "fr_index r0 = lc_line_number c"
    "fr_parent_run_id r0 = lc_run_id c" "fr_root_run_id r0 = lc_run_id c" "dict_keys (rt_flow_runs rt0) = [rid]"
    using assms(2) by (auto simp: line_tracker_def new_run_tracker_def start_flow_run_def Let_def put_flow_run_def persist_flow_run_def)
  obtain failure outp ains rt1 where body: "line_body x run c inputs rt0 = (failure, outp, ains, rt1)" by (metis prod_cases4)
  obtain r1 where r1: "map_of (rt_flow_runs rt1) ?rid = Some r1" "same_line r0 r1"
    "failure = None \<longrightarrow> fr_status r1 \<in> {Completed, Failed} \<and> line_outcome x run c inputs outp ains \<and>
       (fr_status r1 = Completed \<longrightarrow> fr_output r1 = PDict outp)"
    by (rule line_body_fields [OF body r0(1,2,6)])
  then have id1: "fr_run_id r1 = ?rid" using r0(2) by (simp add: same_line_def)
  let ?ended = "case failure of None \<Rightarrow> (None, rt1)
    | Some e \<Rightarrow> (case end_run (lc_env c) (lc_connections c) (lc_end c) ?rid PNone (Some e) None rt1 of
        Inl y \<Rightarrow> (Some (during y e), rt1) | Inr rt' \<Rightarrow> (if fx_raise_ex x then Some e else None, rt'))"
  obtain raised rt2 where ended: "?ended = (raised, rt2)" by force
  note whole = assms(1) [unfolded exec_flow_def Let_def start, simplified, simplified body, simplified, unfolded ended, simplified]
  from whole obtain rt3 where fin: "finish_line ?rid rt2 = Inr rt3" "raised = None" by (auto split: sum.splits option.splits)
  obtain r2 where r2: "map_of (rt_flow_runs rt2) ?rid = Some r2" "same_line r1 r2" "fr_status r2 \<in> {Completed, Failed}"
    "fr_status r2 = Completed \<Longrightarrow> line_outcome x run c inputs outp ains \<and> fr_output r2 = PDict outp"
  proof (cases failure)
    case None
    with ended r1 that [of r1] show thesis by (auto simp: same_line_def)
  next
    case (Some e)
    with ended fin(2) obtain rt' where e: "end_run (lc_env c) (lc_connections c) (lc_end c) ?rid PNone (Some e) None rt1 = Inr rt'" "rt2 = rt'"
      by (auto split: sum.splits)
    obtain r' where "map_of (rt_flow_runs rt') = (map_of (rt_flow_runs rt1))(?rid \<mapsto> r')" "same_line r1 r'" "fr_status r' = Failed"
      by (rule end_flow_run [OF e(1) r1(1) id1]) auto
    with e(2) that [of r'] show thesis by simp
  qed
  have id2: "fr_run_id r2 = ?rid" using r2(2) id1 by (simp add: same_line_def)
  obtain r3 where r3: "map_of (rt_flow_runs rt3) ?rid = Some r3" "same_line r2 r3" "fr_status r3 = fr_status r2" "fr_output r3 = fr_output r2"
    "rt_persisted rt3 = rt_persisted rt2 @ [FlowRun r3]"
    by (rule finish_line_fields [OF fin(1) r2(1) id2])
  have res: "lr_run_info res = r3" "lr_output res = outp" "lr_aggregation_inputs res = ains" "rt_persisted rt' = rt_persisted rt3"
    using whole fin r3(1) by (auto simp: back_to_def)
  have "same_line r0 r3" using r1(2) r2(2) r3(2) by (simp add: same_line_def)
  with r0 r2(3,4) r3(3-5) show ?thesis unfolding res by (auto simp: same_line_def)
qed

end

section \<open>Nodes run in their context\<close>

lemma exec_node_keeps:
  assumes "exec_node_in_context os c tools fins outs n w = (res, w')" "dict_keys (rt_flow_runs (w_tracker w)) = [parent_run_id c]"
  shows "rt_flow_runs (w_tracker w') = rt_flow_runs (w_tracker w)"
proof -
  let ?c = "set_current_node (Some n) (copy_context c)"
  have "parent_run_id ?c = parent_run_id c" by (auto simp: parent_run_id_def set_current_node_def copy_context_def new_context_def split: option.split)
  with node_run_id_not_line [of "os_uuid (os n)" n ?c]
  have "map_of (rt_flow_runs (w_tracker w)) (generate_current_node_run_id (os_uuid (os n)) n ?c) = None"
    using assms(2) by (auto simp: map_of_eq_None_iff simp flip: set_map)
  then have invoked: "rt_flow_runs (w_tracker w1) = rt_flow_runs (w_tracker w)"
    if "invoke_tool_with_cache (os n) ?c f [] kwargs w = (r, w1)" for f kwargs r w1
    using invoke_tool_effect [OF that, of n, OF _ refl] by (auto simp: set_current_node_def)
  from assms(1) show ?thesis
    by (auto simp: exec_node_in_context_def dest: invoked split: sum.splits option.splits)
qed

lemma run_in_context_keeps:
  assumes "run_in_context os c tools fins ns outs w = (res, w')" "dict_keys (rt_flow_runs (w_tracker w)) = [parent_run_id c]"
  shows "rt_flow_runs (w_tracker w') = rt_flow_runs (w_tracker w)"
  using assms
proof (induction ns arbitrary: outs w)
  case (Cons n ns)
  obtain r w1 where n: "exec_node_in_context os c tools fins outs n w = (r, w1)" by force
  from exec_node_keeps [OF n Cons.prems(2)] have "rt_flow_runs (w_tracker w1) = rt_flow_runs (w_tracker w)" .
  with Cons n show ?case by (cases r) auto
qed simp

interpretation line_nodes: line_runner "run_line_nodes os (line_context x c) tools w" "line_run_id c" for os x c tools w
proof
  fix rt :: run_tracker and ns ins
  assume one: "dict_keys (rt_flow_runs rt) = [line_run_id c]"
  obtain r w' where run: "run_in_context os (line_context x c) tools ins ns [] (w\<lparr>w_tracker := rt, w_tracer := None\<rparr>) = (r, w')" by force
  have "parent_run_id (line_context x c) = line_run_id c"
    by (simp add: parent_run_id_def line_context_def new_context_def line_run_id_def split: option.split)
  with run_in_context_keeps [OF run] one run
  show "rt_flow_runs (snd (run_line_nodes os (line_context x c) tools w ns ins rt)) = rt_flow_runs rt"
    by (simp add: run_line_nodes_def)
qed

text \<open>C6. A line whose run is recorded as completed has run all its nodes; its output has one entry for every
  flow output that is not of an aggregation node, in their order, with the value the reference of that output reads
  (generators turned to text unless they are allowed); its record has the number of the line and that output.\<close>

theorem completed_line_outputs:
  assumes "line_runner run (line_run_id c)" "exec_flow x run c inputs rt = (Inr res, rt')"
    and "distinct (dict_keys (flow_outputs (fx_flow x)))"
    and "ods = filter (\<lambda>(k, od). kept_output (fx_flow x) od) (flow_outputs (fx_flow x))"
  shows "fr_run_id (lr_run_info res) = line_run_id c \<and> fr_index (lr_run_info res) = lc_line_number c \<and>
    fr_status (lr_run_info res) \<in> {Completed, Failed} \<and>
    (fr_status (lr_run_info res) = Completed \<longrightarrow> (\<exists>ins nodes_outputs vs t.
       (if lc_validate_inputs c then ensure_flow_inputs_type (lc_env c) (fx_flow x) inputs (index_value (lc_line_number c)) = Inr ins
        else ins = inputs) \<and>
       fst (run (batch_nodes (fx_flow x)) ins t) = Inr nodes_outputs \<and>
       list_all2 (\<lambda>(k, od) v. read_output od nodes_outputs ins = Inr v) ods vs \<and>
       lr_output res = (if lc_allow_generator c then zip (map fst ods) vs
         else stringify_generator_output (lc_env c) (zip (map fst ods) vs)) \<and>
       fr_output (lr_run_info res) = PDict (lr_output res)))"
proof -
  note outcome = line_runner.exec_flow_outcome [OF assms(1,2) refl]
  show ?thesis
  proof (cases "fr_status (lr_run_info res) = Completed")
    case True
    with outcome obtain ins no outs t where ok:
      "if lc_validate_inputs c then ensure_flow_inputs_type (lc_env c) (fx_flow x) inputs (index_value (lc_line_number c)) = Inr ins
       else ins = inputs" "fst (run (batch_nodes (fx_flow x)) ins t) = Inr no" "extract_outputs (fx_flow x) no ins = Inr outs"
      "lr_output res = (if lc_allow_generator c then outs else stringify_generator_output (lc_env c) outs)"
      by (auto simp: line_outcome_def)
    from extract_outputs_from [OF ok(3) [unfolded extract_outputs_def] assms(3)] obtain vs where
      "outs = zip (map fst ods) vs" "list_all2 (\<lambda>(k, od) v. read_output od no ins = Inr v) ods vs"
      by (auto simp: assms(4))
    with ok outcome True show ?thesis by blast
  qed (use outcome in blast)
qed

definition demo_line_flow :: flow where
  "demo_line_flow = demo_out_flow\<lparr>flow_nodes := [demo_node ''a'' [(''q'', flow_input ''q'' ''flow.'')],
       demo_node ''b'' [(''x'', node_reference ''a'' ''output'' ''[0]'')],
       (demo_node ''g'' [(''all'', node_reference ''b'' ''output'' [])])\<lparr>node_aggregation := True\<rparr>],
     flow_inputs := [(''q'', \<lparr>fi_type = INT', fi_default = PNone, fi_description = PStr [], fi_enum = PList [],
       fi_is_chat_input = False\<rparr>)]\<rparr>"

definition demo_executor :: executor where
  "demo_executor = new_executor demo_env ''flow'' (Some 2) None False 10 demo_line_flow"

definition demo_line :: "int \<Rightarrow> line_call" where
  "demo_line i = \<lparr>lc_env = demo_env, lc_connections = [], lc_run_id = ''run'', lc_line_number = Some i, lc_variant_id = [],
     lc_validate_inputs = True, lc_allow_generator = False, lc_start = 1, lc_end = 9\<rparr>"

definition demo_run_nodes :: "int \<Rightarrow> run_nodes" where
  "demo_run_nodes i = run_line_nodes (\<lambda>n. demo_outside (\<lambda>k. Inl outside_model)) (line_context demo_executor (demo_line i))
     (\<lambda>name. Some (demo_tool_of ([], Inr (PList [PStr name])))) (demo_world DummyCacheManager)"

theorem completed_line_outputs_witness:
  "\<exists>res rt'. exec_flow demo_executor (demo_run_nodes 3) (demo_line 3) [(''q'', PInt 7)] (new_run_tracker Test (new_log_manager False)) = (Inr res, rt') \<and>
     fr_run_id (lr_run_info res) = ''run_3'' \<and> fr_status (lr_run_info res) = Completed \<and> lr_output res = [(''o'', PList [PStr ''b''])] \<and>
     fr_output (lr_run_info res) = PDict (lr_output res)"
proof -
  obtain r rt' where run: "exec_flow demo_executor (demo_run_nodes 3) (demo_line 3) [(''q'', PInt 7)] (new_run_tracker Test (new_log_manager False)) = (r, rt')"
    by force
  have "map_sum id (\<lambda>r. (fr_status (lr_run_info r), lr_output r)) (fst (exec_flow demo_executor (demo_run_nodes 3) (demo_line 3) [(''q'', PInt 7)]
      (new_run_tracker Test (new_log_manager False)))) = Inr (Completed, [(''o'', PList [PStr ''b''])])" by code_simp
  then obtain res where res: "r = Inr res" "fr_status (lr_run_info res) = Completed" "lr_output res = [(''o'', PList [PStr ''b''])]"
    using run by (cases r) auto
  have ok: "line_runner (demo_run_nodes 3) (line_run_id (demo_line 3))"
    unfolding demo_run_nodes_def by (rule line_nodes.line_runner_axioms)
  have "distinct (dict_keys (flow_outputs (fx_flow demo_executor)))" "line_run_id (demo_line 3) = ''run_3''" by code_simp+
  with completed_line_outputs [OF ok run [unfolded res(1)] _ refl] res run show ?thesis by auto
qed

end
