(* ===== verification/Bulk.thy ===== *)
theory Bulk imports Executor InputMapping begin

text \<open>
  Entry points of the executor (\<^verbatim>\<open>executor/flow_executor.py\<close>): one line, the aggregation nodes, a
  batch of lines and a single node, with the metric loggers of \<^verbatim>\<open>_core/metric_logger.py\<close>. The
  results of the lines of a batch come from the pool of processes, which has its own theory.
\<close>

section \<open>Metric loggers\<close>

text \<open>A logger is a name with the number of parameters of its signature; what it was called with is listed.\<close>

record metric_logger =
  ml_id :: nat
  ml_callable :: bool
  ml_params :: nat

record metric_loggers =
  mm_loggers :: "metric_logger list"
  mm_calls :: "(nat \<times> string \<times> pyval \<times> pyval option) list"

definition add_metric_logger :: "metric_logger \<Rightarrow> metric_loggers \<Rightarrow> metric_loggers" where
  "add_metric_logger l m =
    (if list_ex (\<lambda>k. ml_id k = ml_id l) (mm_loggers m) then m
     else if \<not> ml_callable l then m
     else if ml_params l \<notin> {2, 3} then m
     else m\<lparr>mm_loggers := mm_loggers m @ [l]\<rparr>)"

definition remove_metric_logger :: "metric_logger \<Rightarrow> metric_loggers \<Rightarrow> metric_loggers res" where
  "remove_metric_logger l m =
    (if l \<in> set (mm_loggers m) then Inr (m\<lparr>mm_loggers := remove1 l (mm_loggers m)\<rparr>)
     else Inl (py_exn ValueError [PStr ''list.remove(x): x not in list'']))"

definition log_metric :: "string \<Rightarrow> pyval \<Rightarrow> pyval \<Rightarrow> metric_loggers \<Rightarrow> metric_loggers" where
  "log_metric key v variant m = m\<lparr>mm_calls := mm_calls m @
     map (\<lambda>l. (ml_id l, key, v, if ml_params l = 2 then None else Some variant)) (mm_loggers m)\<rparr>"

text \<open>\<open>metrics[key] = value\<close>, for the calls of one logger.\<close>

definition logged_metrics :: "nat \<Rightarrow> metric_loggers \<Rightarrow> (string, pyval) dict" where
  "logged_metrics i m = dict_of (map (\<lambda>(_, k, v, _). (k, v)) (filter (\<lambda>(j, _). j = i) (mm_calls m)))"

section \<open>A line\<close>

definition line_operation_context :: "operation_context \<Rightarrow> operation_context" where
  "line_operation_context oc =
    (if truthy (dict_get oc ''run_mode'' PNone) then oc else AList.update ''run_mode'' (PStr ''Test'') oc)"

definition exec_line ::
  "executor \<Rightarrow> run_nodes \<Rightarrow> pyval \<Rightarrow> line_call \<Rightarrow> (string, pyval) dict \<Rightarrow> run_tracker \<Rightarrow> line_result res \<times> run_tracker" where
  "exec_line x run node_concurrency c inputs rt =
    (case exec_flow (x\<lparr>fx_node_concurrency := node_concurrency\<rparr>) run c inputs rt of
       (Inl e, rt') \<Rightarrow> (Inl e, rt')
     | (Inr r, rt') \<Rightarrow> (Inr (case lc_line_number c of
           None \<Rightarrow> r | Some i \<Rightarrow> r\<lparr>lr_output := AList.update line_number_key (PInt i) (lr_output r)\<rparr>), rt'))"

definition add_line_results :: "line_result list \<Rightarrow> run_tracker \<Rightarrow> run_tracker" where
  "add_line_results rs rt = rt\<lparr>
     rt_flow_runs := dict_updates (rt_flow_runs rt) (dict_of (map (\<lambda>r. (fr_run_id (lr_run_info r), lr_run_info r)) rs)),
     rt_node_runs := dict_updates (rt_node_runs rt)
       (dict_of (concat (map (\<lambda>r. map (\<lambda>q. (ri_run_id q, q)) (dict_values (lr_node_run_infos r))) rs)))\<rparr>"

text \<open>\<open>exec\<close>: the output of one line, whose records go to the executor's tracker.\<close>

definition exec_once ::
  "executor \<Rightarrow> run_nodes \<Rightarrow> pyval \<Rightarrow> line_call \<Rightarrow> (string, pyval) dict \<Rightarrow> run_tracker \<Rightarrow> (string, pyval) dict res \<times> run_tracker" where
  "exec_once x run node_concurrency c inputs rt =
    (case exec_flow (x\<lparr>fx_node_concurrency := node_concurrency\<rparr>) run (c\<lparr>lc_line_number := None, lc_variant_id := [], lc_validate_inputs := False, lc_allow_generator := False\<rparr>) inputs rt of
       (Inl e, rt') \<Rightarrow> (Inl e, rt')
     | (Inr r, rt') \<Rightarrow> (Inr (lr_output r), add_line_results [r] rt'))"

section \<open>Aggregation\<close>

definition try_get_aggregation_input :: "pyenv \<Rightarrow> (string, pyval) dict \<Rightarrow> input_assignment \<Rightarrow> input_assignment" where
  "try_get_aggregation_input env aggregation_inputs val =
    (if ia_value_type val \<noteq> NODE_REFERENCE then val
     else (case map_of aggregation_inputs (render env (reference_text val)) of
         None \<Rightarrow> val
       | Some v \<Rightarrow> literal v))"

definition aggregation_run_nodes :: "pyenv \<Rightarrow> flow \<Rightarrow> (string, pyval) dict \<Rightarrow> node list" where
  "aggregation_run_nodes env f aggregation_inputs =
     map (\<lambda>n. n\<lparr>node_inputs := map (\<lambda>(k, i). (k, try_get_aggregation_input env aggregation_inputs i)) (node_inputs n)\<rparr>)
       (filter node_aggregation (flow_nodes f))"

text \<open>
  The guard \<open>not self._flow.has_aggregation_node\<close> tests the method, not its value, and never holds.
  \<open>logged\<close> are the metrics the tools log while they run.
\<close>

definition exec_aggregation ::
  "pyenv \<Rightarrow> executor \<Rightarrow> run_nodes \<Rightarrow> (string \<times> pyval \<times> pyval) list \<Rightarrow> (string, pyval) dict \<Rightarrow> (string, pyval) dict \<Rightarrow>
     string \<Rightarrow> run_tracker \<times> metric_loggers \<Rightarrow> aggregation_result res \<times> run_tracker \<times> metric_loggers" where
  "exec_aggregation env x run logged inputs aggregation_inputs run_id st =
    (let (rt, mm) = st;
         l = \<lparr>ml_id = Suc (Max (set (0 # map ml_id (mm_loggers mm) @ map fst (mm_calls mm)))), ml_callable = True, ml_params = 2\<rparr>;
         (outputs, rt1) = submit_to_scheduler x run inputs (aggregation_run_nodes env (fx_flow x) aggregation_inputs) rt;
         mm1 = fold (\<lambda>(k, v, variant). log_metric k v variant) logged (add_metric_logger l mm)
     in case remove_metric_logger l mm1 of
          Inl y \<Rightarrow> (Inl y, rt1, mm1)
        | Inr mm2 \<Rightarrow>
           (bindr outputs (\<lambda>_. Inr \<lparr>ar_output = [], ar_metrics = logged_metrics (ml_id l) mm1,
              ar_node_run_infos = dict_of (map (\<lambda>q. (ri_node q, q)) (collect_child_node_runs run_id rt1))\<rparr>), rt1, mm2))"

definition succeeded_indexes :: "line_result list \<Rightarrow> nat list" where
  "succeeded_indexes rs = map fst (filter (\<lambda>(i, r). fr_status (lr_run_info r) = Completed) (List.enumerate 0 rs))"

definition aggregation_failure :: "pyenv \<Rightarrow> exn \<Rightarrow> exn" where
  "aggregation_failure env e =
    (if is_promptflow e then e
     else (case message env e of
         Inl y \<Rightarrow> during y e
       | Inr s \<Rightarrow> raise_from (py_exn Exception [PStr (''Failed to run aggregation nodes:'' @ [CHR 0x0A] @ '' '' @ s @ ''.'')]) e))"

definition exec_aggregation_with_bulk_results ::
  "pyenv \<Rightarrow> executor \<Rightarrow> run_nodes \<Rightarrow> (string \<times> pyval \<times> pyval) list \<Rightarrow> row list \<Rightarrow> line_result list \<Rightarrow>
     string \<Rightarrow> run_tracker \<times> metric_loggers \<Rightarrow> aggregation_result res \<times> run_tracker \<times> metric_loggers" where
  "exec_aggregation_with_bulk_results env x run logged batch_inputs results run_id st =
    (if aggregation_nodes (fx_flow x) = [] then (Inr empty_aggregation, st)
     else
       (let succeeded = succeeded_indexes results in
        case bindr (mapr (\<lambda>i. if i < length batch_inputs then Inr (batch_inputs ! i)
                 else Inl (py_exn IndexError [PStr ''list index out of range''])) succeeded) (\<lambda>succeeded_batch_inputs.
             bindr (mapr (\<lambda>r. ensure_flow_inputs_type env (fx_flow x) r PNone) succeeded_batch_inputs) (\<lambda>resolved.
             bindr (transpose_rows resolved (dict_keys (flow_inputs (fx_flow x)))) (\<lambda>succeeded_inputs.
             bindr (transpose_rows (map lr_aggregation_inputs results) (fx_references x)) (\<lambda>aggregation_inputs.
             bindr (collect_lines succeeded aggregation_inputs) (\<lambda>succeeded_aggregation_inputs.
               Inr (succeeded_inputs, succeeded_aggregation_inputs)))))) of
          Inl e \<Rightarrow> (Inl e, st)
        | Inr (ins, ains) \<Rightarrow>
           (case exec_aggregation env x run logged (map (\<lambda>(k, vs). (k, PList vs)) ins) (map (\<lambda>(k, vs). (k, PList vs)) ains) run_id st of
              (Inl e, st') \<Rightarrow> (Inl (aggregation_failure env e), st')
            | (Inr r, st') \<Rightarrow> (Inr r, st'))))"

section \<open>A batch of lines\<close>

text \<open>\<open>error["message"]\<close> of the first failed line.\<close>

definition failure_message :: "flow_run_info \<Rightarrow> pyval res" where
  "failure_message r = (case fr_error r of
     PDict d \<Rightarrow> get_item d ''message''
   | PNone \<Rightarrow> Inl (py_exn TypeError [PStr ''NoneType object is not subscriptable''])
   | _ \<Rightarrow> Inl (py_exn TypeError [PStr ''string indices must be integers'']))"

definition handle_line_failures :: "bool \<Rightarrow> flow_run_info list \<Rightarrow> unit res" where
  "handle_line_failures raise_on_line_failure infos =
    (case filter (\<lambda>r. fr_status r = Failed) infos of
       [] \<Rightarrow> Inr ()
     | r # _ \<Rightarrow> bindr (failure_message r) (\<lambda>m.
         if \<not> raise_on_line_failure then Inr ()
         else (case m of
             PStr s \<Rightarrow> Inl (py_exn Exception [PStr (''Flow run failed due to the error: '' @ s)])
           | _ \<Rightarrow> Inl (py_exn TypeError [PStr ''can only concatenate str to str'']))))"

text \<open>The lines as they are put in the queue. When only some rows have a number, \<open>zip\<close> pairs the numbers
  with the first rows and drops the others.\<close>

definition number_lines :: "row list \<Rightarrow> (int \<times> row) list res" where
  "number_lines batch_inputs =
    bindr (mapr line_of (filter has_line_number batch_inputs)) (\<lambda>line_number.
      let counted = map int [0..<length batch_inputs];
          with_default = (if line_number = [] then counted else line_number);
          numbers = (if distinct with_default then with_default else counted)
      in Inr (zip numbers batch_inputs))"

definition result_index :: "line_result \<Rightarrow> int" where
  "result_index r = (case fr_index (lr_run_info r) of Some i \<Rightarrow> i | None \<Rightarrow> 0)"

definition sort_results :: "line_result list \<Rightarrow> line_result list res" where
  "sort_results rs =
    (if length rs > 1 \<and> list_ex (\<lambda>r. fr_index (lr_run_info r) = None) rs
     then Inl (py_exn TypeError [PStr ''not supported between instances of NoneType''])
     else Inr (sort_key result_index rs))"

text \<open>The quotient of the available memory (30 percent of the total kept back) and that of one process, in bytes: the
  megabytes of the code cancel; the rounding of floats is left out.\<close>

definition available_max_worker_count :: "int \<Rightarrow> int \<Rightarrow> int \<Rightarrow> int" where
  "available_max_worker_count total_memory available_memory process_memory =
     max 1 ((10 * available_memory - 3 * total_memory) div (10 * process_memory))"

text \<open>Without \<open>fork\<close>, the memory bounds the number of processes too.\<close>

definition pool_size :: "executor \<Rightarrow> nat \<Rightarrow> int option \<Rightarrow> nat res" where
  "pool_size x nlines memory_limit =
    (let n = min (min (fx_worker_count x) (int nlines)) (case memory_limit of None \<Rightarrow> int nlines | Some a \<Rightarrow> a)
     in if n < 1 then Inl (py_exn ValueError [PStr ''Number of processes must be at least 1'']) else Inr (nat n))"

text \<open>\<open>pool n tasks\<close> is what a run of the pool with \<open>n\<close> workers leaves: the results, in the order they came,
  and the records it stored.\<close>

type_synonym pool_runs = "nat \<Rightarrow> (int \<times> row) list \<Rightarrow> line_result list \<times> persisted list"

definition exec_batch_with_threads ::
  "executor \<Rightarrow> pool_runs \<Rightarrow> int option \<Rightarrow> row list \<Rightarrow> run_tracker \<Rightarrow> line_result list res \<times> run_tracker" where
  "exec_batch_with_threads x pool memory_limit batch_inputs rt =
    (case bindr (number_lines batch_inputs) (\<lambda>tasks. bindr (pool_size x (length batch_inputs) memory_limit) (\<lambda>n. Inr (pool n tasks))) of
       Inl e \<Rightarrow> (Inl e, rt)
     | Inr (results, stored) \<Rightarrow> (sort_results results, rt\<lparr>rt_persisted := rt_persisted rt @ stored\<rparr>))"

definition bulk_outputs :: "line_result list \<Rightarrow> (string, pyval) dict list" where
  "bulk_outputs rs = map (\<lambda>r. dict_updates [(line_number_key, index_value (fr_index (lr_run_info r)))] (lr_output r))
     (filter (\<lambda>r. fr_status (lr_run_info r) = Completed) rs)"

definition exec_bulk ::
  "pyenv \<Rightarrow> executor \<Rightarrow> run_nodes \<Rightarrow> pool_runs \<Rightarrow> int option \<Rightarrow> (string \<times> pyval \<times> pyval) list \<Rightarrow> row list \<Rightarrow> string \<Rightarrow>
     bool \<Rightarrow> pyval \<Rightarrow> run_tracker \<times> metric_loggers \<Rightarrow> bulk_result res \<times> run_tracker \<times> metric_loggers" where
  "exec_bulk env x0 run pool memory_limit logged inputs run_id raise_on_line_failure node_concurrency st =
    (let x = x0\<lparr>fx_node_concurrency := node_concurrency\<rparr>; (rt, mm) = st in
     case exec_batch_with_threads x pool memory_limit inputs rt of
       (Inl e, rt1) \<Rightarrow> (Inl e, rt1, mm)
     | (Inr line_results, rt1) \<Rightarrow>
        (let rt2 = add_line_results line_results rt1 in
         case handle_line_failures raise_on_line_failure (map lr_run_info line_results) of
           Inl e \<Rightarrow> (Inl e, rt2, mm)
         | Inr _ \<Rightarrow>
            (case exec_aggregation_with_bulk_results env x run logged inputs line_results run_id (rt2, mm) of
               (Inl e, st') \<Rightarrow> (Inl e, st')
             | (Inr aggr, st') \<Rightarrow> (Inr \<lparr>br_outputs = bulk_outputs line_results, br_metrics = ar_metrics aggr,
                 br_line_results = line_results, br_aggr_results = aggr\<rparr>, st'))))"

end
