(* ===== verification/LinePool.thy ===== *)
theory LinePool imports Bulk "HOL-Library.Multiset" begin

text \<open>
  \<^verbatim>\<open>executor/_line_execution_process_pool.py\<close>: a queue of lines, threads that each own a process and
  hand it one line at a time, and what a process answers. A run of the pool is a sequence of steps of the
  threads; time is counted in the seconds a thread waits for an answer. The messages about the progress are left out.
\<close>

section \<open>A process\<close>

text \<open>What a process puts in its output queue: records to store and the result of the line.\<close>

datatype queue_message = Record persisted | Result line_result

definition create_executor_fork :: "pyenv \<Rightarrow> string \<Rightarrow> executor \<Rightarrow> executor" where
  "create_executor_fork env fid x =
     new_executor env fid (Some (fx_worker_count x)) None False (fx_line_timeout_sec x) (fx_flow x)"

definition process_tracker :: "run_tracker \<Rightarrow> run_tracker" where
  "process_tracker rt = new_run_tracker (rt_run_mode rt) (new_log_manager True)"

text \<open>
  \<open>_exec_line\<close> with the tracker of the process, whose storage is the output queue. The handler looks for
  the run in that tracker, and raises where it is not there; then the process ends without a result. Where the tracker has
  no run of a flow but a run of a node under the line's id, the node's record is put in the queue; the line result the
  source makes of that record is no line result of the model. The tracker of a process is empty before a line
  (\<open>process_state_empty\<close>), and then this does not happen (\<open>exec_line_in_process_cases\<close>).
\<close>

definition exec_line_in_process ::
  "executor \<Rightarrow> run_nodes \<Rightarrow> line_call \<Rightarrow> (string, pyval) dict \<Rightarrow> run_tracker \<Rightarrow> queue_message list \<times> run_tracker" where
  "exec_line_in_process x run c inputs rt =
    (case exec_line x run (PInt default_concurrency_bulk) c inputs (rt\<lparr>rt_persisted := []\<rparr>) of
       (Inr r, rt1) \<Rightarrow>
         (let r1 = r\<lparr>lr_output := AList.delete line_number_key (lr_output r)\<rparr>;
              r2 = (if fr_status (lr_run_info r1) = Failed then r1\<lparr>lr_output := []\<rparr> else r1)
          in (map Record (rt_persisted rt1) @ [Result r2], rt1))
     | (Inl e, rt1) \<Rightarrow>
        (case flow_run_list rt1 of
           ri # _ \<Rightarrow> (map Record (rt_persisted rt1) @ [Record (FlowRun ri),
               Result \<lparr>lr_output = [], lr_aggregation_inputs = [], lr_run_info = ri, lr_node_run_infos = []\<rparr>], rt1)
         | [] \<Rightarrow>
            (let rid = lc_run_id c @ ''_'' @ (case lc_line_number c of Some i \<Rightarrow> int_str i | None \<Rightarrow> ''None'') in
             case end_run (lc_env c) (lc_connections c) (lc_end c) rid PNone (Some e) None rt1 of
               Inl y \<Rightarrow> (map Record (rt_persisted rt1), rt1)
             | Inr rt2 \<Rightarrow> (map Record (rt_persisted rt1) @
                 (case map_of (rt_node_runs rt2) rid of Some r \<Rightarrow> [Record (NodeRun r)] | None \<Rightarrow> []), rt2))))"

section \<open>The threads of the pool\<close>

text \<open>A thread: its process is free, works on a line (with what the process still will put in the queue and the
  seconds since the line began), or the thread has ended.\<close>

datatype 'p worker = Idle 'p | Busy "int \<times> row" 'p "queue_message list" int | Gone

text \<open>\<open>process p t\<close> is what a process in the state \<open>p\<close> answers to the line \<open>t\<close>, with its state then.\<close>

record 'p pool_setup =
  ps_process :: "'p \<Rightarrow> int \<times> row \<Rightarrow> queue_message list \<times> 'p"
  ps_fresh :: 'p
  ps_timeout :: int
  ps_timeout_result :: "int \<times> row \<Rightarrow> line_result res"

record 'p pool =
  pl_queue :: "(int \<times> row) list"
  pl_workers :: "'p worker list"
  pl_results :: "line_result list"
  pl_stored :: "persisted list"

definition pool_start :: "'p pool_setup \<Rightarrow> nat \<Rightarrow> (int \<times> row) list \<Rightarrow> 'p pool" where
  "pool_start ps n tasks =
     \<lparr>pl_queue = tasks, pl_workers = replicate n (Idle (ps_fresh ps)), pl_results = [], pl_stored = []\<rparr>"

text \<open>A thread leaves when the queue of lines is empty. (The source asks the queue with a timeout of a second and leaves when
  none came; that a queue with lines gives none for that long is left out.)\<close>

inductive pool_step :: "'p pool_setup \<Rightarrow> 'p pool \<Rightarrow> 'p pool \<Rightarrow> bool" for ps where
  take_line: "i < length (pl_workers s) \<Longrightarrow> pl_workers s ! i = Idle p \<Longrightarrow> pl_queue s = t # ts \<Longrightarrow>
    ps_process ps p t = (ms, p') \<Longrightarrow>
    pool_step ps s (s\<lparr>pl_queue := ts, pl_workers := (pl_workers s)[i := Busy t p' ms 0]\<rparr>)"
| leave: "i < length (pl_workers s) \<Longrightarrow> pl_workers s ! i = Idle p \<Longrightarrow> pl_queue s = [] \<Longrightarrow>
    pool_step ps s (s\<lparr>pl_workers := (pl_workers s)[i := Gone]\<rparr>)"
| store: "i < length (pl_workers s) \<Longrightarrow> pl_workers s ! i = Busy t p (Record r # ms) k \<Longrightarrow> k \<le> ps_timeout ps \<Longrightarrow>
    pool_step ps s (s\<lparr>pl_workers := (pl_workers s)[i := Busy t p ms k], pl_stored := pl_stored s @ [r]\<rparr>)"
| finish: "i < length (pl_workers s) \<Longrightarrow> pl_workers s ! i = Busy t p (Result r # ms) k \<Longrightarrow> k \<le> ps_timeout ps \<Longrightarrow>
    pool_step ps s (s\<lparr>pl_workers := (pl_workers s)[i := Idle p], pl_results := pl_results s @ [r]\<rparr>)"
| wait: "i < length (pl_workers s) \<Longrightarrow> pl_workers s ! i = Busy t p ms k \<Longrightarrow> k \<le> ps_timeout ps \<Longrightarrow>
    pool_step ps s (s\<lparr>pl_workers := (pl_workers s)[i := Busy t p ms (k + 1)]\<rparr>)"
| time_out: "i < length (pl_workers s) \<Longrightarrow> pl_workers s ! i = Busy t p ms k \<Longrightarrow> k > ps_timeout ps \<Longrightarrow>
    ps_timeout_result ps t = Inr r \<Longrightarrow>
    pool_step ps s (s\<lparr>pl_workers := (pl_workers s)[i := Idle (ps_fresh ps)], pl_results := pl_results s @ [r],
      pl_stored := pl_stored s @ [FlowRun (lr_run_info r)]\<rparr>)"

inductive_cases pool_stepE: "pool_step ps s s'"

abbreviation pool_reach :: "'p pool_setup \<Rightarrow> 'p pool \<Rightarrow> 'p pool \<Rightarrow> bool" where
  "pool_reach ps \<equiv> (pool_step ps)\<^sup>*\<^sup>*"

definition pool_done :: "'p pool \<Rightarrow> bool" where
  "pool_done s \<longleftrightarrow> list_all (\<lambda>w. w = Gone) (pl_workers s)"

definition generate_line_result_for_exception ::
  "pyenv \<Rightarrow> executor \<Rightarrow> string \<Rightarrow> int \<Rightarrow> int \<Rightarrow> exn \<Rightarrow> int \<times> row \<Rightarrow> line_result res" where
  "generate_line_result_for_exception env x run_id start_time end_time e t =
    (case t of (line_number, inputs) \<Rightarrow>
      bindr (error_to_dict env True e) (\<lambda>d.
        Inr \<lparr>lr_output = [], lr_aggregation_inputs = [],
          lr_run_info = \<lparr>fr_run_id = run_id @ ''_'' @ int_str line_number, fr_status = Failed, fr_error = d, fr_inputs = inputs,
            fr_output = PNone, fr_parent_run_id = run_id, fr_root_run_id = run_id, fr_flow_id = PStr (fx_flow_id x),
            fr_start_time = start_time, fr_end_time = Some end_time, fr_index = Some line_number, fr_api_calls = None,
            fr_variant_id = [], fr_system_metrics = None, fr_result = PNone\<rparr>,
          lr_node_run_infos = []\<rparr>))"

text \<open>The pool of an executor: its processes are forked executors that run the nodes of a line with \<open>run\<close>.\<close>

definition pool_of ::
  "line_call \<Rightarrow> string \<Rightarrow> executor \<Rightarrow> (line_call \<Rightarrow> run_nodes) \<Rightarrow> run_tracker \<Rightarrow> run_tracker pool_setup" where
  "pool_of c fid x run rt = \<lparr>
     ps_process = (\<lambda>p t. let d = c\<lparr>lc_line_number := Some (fst t)\<rparr> in
       exec_line_in_process (create_executor_fork (lc_env c) fid x) (run d) d (snd t) p),
     ps_fresh = process_tracker rt,
     ps_timeout = fx_line_timeout_sec x,
     ps_timeout_result = (\<lambda>t. generate_line_result_for_exception (lc_env c) x (lc_run_id c) (lc_start c) (lc_end c)
       (line_timeout_error (PInt (fst t)) (fx_line_timeout_sec x)) t)\<rparr>"


section \<open>Every line is answered once\<close>

fun busy_line :: "'p worker \<Rightarrow> (int \<times> row) list" where
  "busy_line (Busy t p ms k) = [t]"
| "busy_line w = []"

text \<open>The states a process of the pool comes through.\<close>

inductive process_state :: "'p pool_setup \<Rightarrow> 'p \<Rightarrow> bool" for ps where
  fresh: "process_state ps (ps_fresh ps)"
| served: "process_state ps p \<Longrightarrow> ps_process ps p t = (ms, p') \<Longrightarrow> process_state ps p'"

definition answer_of :: "'p pool_setup \<Rightarrow> int \<times> row \<Rightarrow> line_result \<Rightarrow> bool" where
  "answer_of ps t r \<longleftrightarrow> ps_timeout_result ps t = Inr r \<or>
     (\<exists>p. process_state ps p \<and> Result r \<in> set (fst (ps_process ps p t)))"

text \<open>What a thread can be: the messages left are of an answer to its line, and it is gone only when no line is left.\<close>

definition worker_ok :: "'p pool_setup \<Rightarrow> (int \<times> row) list \<Rightarrow> 'p worker \<Rightarrow> bool" where
  "worker_ok ps queue w = (case w of
     Busy t p ms k \<Rightarrow> process_state ps p \<and> (\<exists>p0. process_state ps p0 \<and> set ms \<subseteq> set (fst (ps_process ps p0 t)))
   | Gone \<Rightarrow> queue = []
   | Idle p \<Rightarrow> process_state ps p)"

definition pool_inv :: "'p pool_setup \<Rightarrow> (int \<times> row) list \<Rightarrow> 'p pool \<Rightarrow> bool" where
  "pool_inv ps tasks s \<longleftrightarrow>
     (\<exists>answered. list_all2 (answer_of ps) answered (pl_results s) \<and>
        mset answered + mset (concat (map busy_line (pl_workers s))) + mset (pl_queue s) = mset tasks) \<and>
     list_all (worker_ok ps (pl_queue s)) (pl_workers s)"

lemma busy_lines_update:
  assumes "i < length ws"
  shows "mset (concat (map busy_line (ws[i := w]))) + mset (busy_line (ws ! i)) =
    mset (concat (map busy_line ws)) + mset (busy_line w)"
proof -
  have "ws = take i ws @ ws ! i # drop (Suc i) ws" using assms by (simp add: id_take_nth_drop)
  then have "concat (map busy_line ws) = concat (map busy_line (take i ws @ ws ! i # drop (Suc i) ws))" by (rule arg_cong)
  moreover have "ws[i := w] = take i ws @ w # drop (Suc i) ws" using assms by (simp add: upd_conv_take_nth_drop)
  ultimately show ?thesis by (simp add: ac_simps)
qed

lemma multiset_exchange:
  fixes a :: "'a multiset"
  assumes "c' + b = c + w" "t + w + q' = b + q"
  shows "a + t + c' + q' = a + c + q"
proof -
  have "a + t + c' + q' + b = a + t + (c' + b) + q'" by (simp add: ac_simps)
  also have "\<dots> = a + t + (c + w) + q'" by (simp only: assms(1))
  also have "\<dots> = a + c + (t + w + q')" by (simp add: ac_simps)
  also have "\<dots> = a + c + (b + q)" by (simp only: assms(2))
  finally show ?thesis by (simp add: ac_simps)
qed

lemma worker_ok_weaken: "worker_ok ps q w \<Longrightarrow> (q = [] \<Longrightarrow> q' = []) \<Longrightarrow> worker_ok ps q' w"
  by (auto simp: worker_ok_def split: worker.splits)

lemma list_all_update: "list_all P xs \<Longrightarrow> P x \<Longrightarrow> list_all P (xs[i := x])"
  by (auto simp: list_all_iff dest: set_update_subset_insert [THEN subsetD])

lemma pool_inv_replace:
  assumes "pool_inv ps tasks s" "i < length (pl_workers s)" "worker_ok ps (pl_queue s') w"
    and "pl_workers s' = (pl_workers s)[i := w]" "pl_results s' = pl_results s @ rs" "list_all2 (answer_of ps) ts rs"
    and "mset ts + mset (busy_line w) + mset (pl_queue s') = mset (busy_line (pl_workers s ! i)) + mset (pl_queue s)"
    and "pl_queue s = [] \<Longrightarrow> pl_queue s' = []"
  shows "pool_inv ps tasks s'"
proof -
  obtain answered where a: "list_all2 (answer_of ps) answered (pl_results s)"
    "mset answered + mset (concat (map busy_line (pl_workers s))) + mset (pl_queue s) = mset tasks"
    and ok: "list_all (worker_ok ps (pl_queue s)) (pl_workers s)" using assms(1) by (auto simp: pool_inv_def)
  have "mset (answered @ ts) + mset (concat (map busy_line (pl_workers s'))) + mset (pl_queue s') = mset tasks"
    using multiset_exchange [OF busy_lines_update [OF assms(2), of w] assms(7), of "mset answered"]
    by (simp add: assms(4) a(2) del: mset_concat)
  moreover have "list_all2 (answer_of ps) (answered @ ts) (pl_results s')"
    using a(1) assms(5,6) by (simp add: list_all2_appendI)
  moreover have "list_all (worker_ok ps (pl_queue s')) (pl_workers s)"
    using ok assms(8) by (auto simp: list_all_iff intro: worker_ok_weaken)
  then have "list_all (worker_ok ps (pl_queue s')) (pl_workers s')"
    unfolding assms(4) using assms(3) by (rule list_all_update)
  ultimately show ?thesis unfolding pool_inv_def by blast
qed

lemma pool_inv_worker:
  assumes "pool_inv ps tasks s" "i < length (pl_workers s)"
  shows "worker_ok ps (pl_queue s) (pl_workers s ! i)"
  using assms by (simp add: pool_inv_def list_all_length)

lemma pool_inv_step:
  assumes "pool_step ps s s'" "pool_inv ps tasks s"
  shows "pool_inv ps tasks s'"
  using assms(1)
proof cases
  case (take_line i p t ts ms p')
  with pool_inv_worker [OF assms(2) take_line(2)] have "process_state ps p" by (simp add: worker_ok_def)
  with take_line have "worker_ok ps ts (Busy t p' ms 0)" by (auto simp: worker_ok_def intro: process_state.served)
  with take_line show ?thesis
    by (intro pool_inv_replace [OF assms(2), where i = i and rs = "[]" and ts = "[]" and w = "Busy t p' ms 0"]) auto
next
  case (leave i p)
  with assms(2) show ?thesis
    by (intro pool_inv_replace [OF assms(2), where i = i and rs = "[]" and ts = "[]" and w = Gone]) (auto simp: worker_ok_def)
next
  case (store i t p r ms k)
  with pool_inv_worker [OF assms(2) store(2)] assms(2) show ?thesis
    by (intro pool_inv_replace [OF assms(2), where i = i and rs = "[]" and ts = "[]" and w = "Busy t p ms k"]) (auto simp: worker_ok_def)
next
  case (finish i t p r ms k)
  with pool_inv_worker [OF assms(2) finish(2)] have "answer_of ps t r" "process_state ps p" by (auto simp: worker_ok_def answer_of_def)
  with finish assms(2) show ?thesis
    by (intro pool_inv_replace [OF assms(2), where i = i and rs = "[r]" and ts = "[t]" and w = "Idle p"]) (auto simp: worker_ok_def)
next
  case (wait i t p ms k)
  with pool_inv_worker [OF assms(2) wait(2)] assms(2) show ?thesis
    by (intro pool_inv_replace [OF assms(2), where i = i and rs = "[]" and ts = "[]" and w = "Busy t p ms (k + 1)"]) (auto simp: worker_ok_def)
next
  case (time_out i t p ms k r)
  then have "answer_of ps t r" by (simp add: answer_of_def)
  moreover have "process_state ps (ps_fresh ps)" by (rule process_state.fresh)
  moreover note time_out assms(2)
  ultimately show ?thesis
    by (intro pool_inv_replace [OF assms(2), where i = i and rs = "[r]" and ts = "[t]" and w = "Idle (ps_fresh ps)"]) (auto simp: worker_ok_def)
qed

lemma pool_inv_reach:
  assumes "pool_reach ps (pool_start ps n tasks) s"
  shows "pool_inv ps tasks s \<and> length (pl_workers s) = n"
  using assms
proof induction
  case base
  have "map busy_line (replicate n (Idle (ps_fresh ps))) = replicate n []" by (simp add: map_replicate)
  then show ?case using process_state.fresh [of ps]
    by (auto simp: pool_inv_def pool_start_def worker_ok_def list_all_iff in_set_replicate)
next
  case (step s s')
  from step(2) have "length (pl_workers s') = length (pl_workers s)" by cases auto
  with step pool_inv_step show ?case by metis
qed

lemma pool_answers:
  assumes "pool_reach ps (pool_start ps n tasks) s" "pool_done s" "0 < n"
  obtains answered where "mset answered = mset tasks" "list_all2 (answer_of ps) answered (pl_results s)"
proof -
  have inv: "pool_inv ps tasks s" and len: "length (pl_workers s) = n" using pool_inv_reach [OF assms(1)] by auto
  have "pl_workers s ! 0 = Gone" using assms(2,3) len by (simp add: pool_done_def list_all_length)
  with pool_inv_worker [OF inv, of 0] assms(3) len have "pl_queue s = []" by (simp add: worker_ok_def)
  moreover have none: "concat (map busy_line (pl_workers s)) = []"
    using assms(2) by (auto simp: pool_done_def list_all_iff)
  moreover obtain answered where "list_all2 (answer_of ps) answered (pl_results s)"
    "mset answered + mset (concat (map busy_line (pl_workers s))) + mset (pl_queue s) = mset tasks"
    using inv by (auto simp: pool_inv_def)
  ultimately show thesis using that unfolding none by simp
qed

section \<open>The pool ends\<close>

fun worker_weight :: "int \<Rightarrow> 'p worker \<Rightarrow> nat" where
  "worker_weight timeout (Busy t p ms k) = 2 + length ms + nat (timeout + 1 - k)"
| "worker_weight timeout (Idle p) = 1"
| "worker_weight timeout Gone = 0"

definition pool_weight :: "'p pool_setup \<Rightarrow> 'p pool \<Rightarrow> nat \<times> nat" where
  "pool_weight ps s = (length (pl_queue s), sum_list (map (worker_weight (ps_timeout ps)) (pl_workers s)))"

lemma weight_update:
  fixes f :: "'a \<Rightarrow> nat"
  assumes "i < length ws" "f w < f (ws ! i)"
  shows "sum_list (map f (ws[i := w])) < sum_list (map f ws)"
  using assms by (induction ws arbitrary: i) (auto split: nat.splits simp: nth_Cons' less_Suc_eq_0_disj)

lemma pool_step_weight:
  "pool_step ps s s' \<Longrightarrow> (pool_weight ps s', pool_weight ps s) \<in> less_than <*lex*> less_than"
  by (erule pool_step.cases) (auto simp: pool_weight_def intro!: weight_update)

lemma pool_steps_wf: "wfP (\<lambda>s' s. pool_step ps s s')"
  unfolding wfp_def
  by (rule wf_subset [OF wf_inv_image [of "less_than <*lex*> less_than" "pool_weight ps"]])
    (auto simp: inv_image_def pool_step_weight)

lemma pool_progress:
  assumes "\<not> pool_done s" "\<And>t. \<exists>r. ps_timeout_result ps t = Inr r"
  shows "\<exists>s'. pool_step ps s s'"
proof -
  obtain i where i: "i < length (pl_workers s)" "pl_workers s ! i \<noteq> Gone"
    using assms(1) by (auto simp: pool_done_def list_all_length)
  show ?thesis
  proof (cases "pl_workers s ! i")
    case (Idle p)
    then show ?thesis using pool_step.leave [OF i(1) Idle] pool_step.take_line [OF i(1) Idle]
      by (cases "pl_queue s") (auto, metis surj_pair)
  next
    case (Busy t p ms k)
    with assms(2) [of t] show ?thesis using pool_step.wait [OF i(1) Busy] pool_step.time_out [OF i(1) Busy] by (cases "k \<le> ps_timeout ps") (auto simp: not_le)
  next
    case Gone
    with i show ?thesis by simp
  qed
qed


section \<open>What a process answers\<close>

lemma timeout_message: "\<exists>s. message env (line_timeout_error v k) = Inr s"
  unfolding line_timeout_error_def pf_exception_def Exceptions.message.simps
  by (simp add: isinstance_def mro_def numeral_eq_Suc Let_def message_format_def)

lemma timeout_debug: "\<exists>d. build_debug_info env (line_timeout_error v k) = Inr d"
  using timeout_message [of env v k] by (auto simp: line_timeout_error_def pf_exception_def)

lemma timeout_result_ok: "\<exists>r. ps_timeout_result (pool_of c fid x run rt) t = Inr r"
proof -
  let ?e = "line_timeout_error (PInt (fst t)) (fx_line_timeout_sec x)"
  have plain: "is_promptflow ?e" "\<not> isinstance ?e (Co ToolExecutionError)"
      "\<not> isinstance ?e (Me PythonLoadError)" "ex_error ?e = None" "ex_kwargs (ex ?e) = []"
    by (simp_all add: line_timeout_error_def pf_exception_def isinstance_def mro_def numeral_eq_Suc)
  obtain s d where "message (lc_env c) ?e = Inr s" "build_debug_info (lc_env c) ?e = Inr d"
    using timeout_message timeout_debug by metis
  with plain have "\<exists>d. error_to_dict (lc_env c) True ?e = Inr d"
    by (simp add: error_to_dict_def promptflow_to_dict_def promptflow_dict_def base_message_parameters_def Let_def with_debug_def
        serializable_message_parameters_def additional_info_def)
  then show ?thesis
    by (auto simp: pool_of_def generate_line_result_for_exception_def split: prod.split)
qed

lemma timeout_result_index:
  "ps_timeout_result (pool_of c fid x run rt) t = Inr r \<Longrightarrow>
     fr_index (lr_run_info r) = Some (fst t) \<and> fr_run_id (lr_run_info r) = lc_run_id c @ ''_'' @ int_str (fst t) \<and>
     fr_status (lr_run_info r) = Failed \<and> lr_output r = []"
  by (cases t) (auto simp: pool_of_def generate_line_result_for_exception_def res_simps)

lemma exec_flow_tracker:
  "exec_flow x run c inputs rt = (r, rt') \<Longrightarrow> rt_flow_runs rt' = rt_flow_runs rt \<and> rt_node_runs rt' = rt_node_runs rt"
  by (auto simp: exec_flow_def back_to_def Let_def split: prod.splits sum.splits option.splits)

lemma exec_line_tracker:
  "exec_line x run k c inputs rt = (r, rt') \<Longrightarrow> rt_flow_runs rt' = rt_flow_runs rt \<and> rt_node_runs rt' = rt_node_runs rt"
  by (auto simp: exec_line_def dest: exec_flow_tracker split: prod.splits sum.splits)

definition tracker_empty :: "run_tracker \<Rightarrow> bool" where
  "tracker_empty rt \<longleftrightarrow> rt_flow_runs rt = [] \<and> rt_node_runs rt = []"

definition cleaned :: "line_result \<Rightarrow> line_result" where
  "cleaned r = r\<lparr>lr_output := (if fr_status (lr_run_info r) = Failed then [] else AList.delete line_number_key (lr_output r))\<rparr>"

lemma exec_line_in_process_cases:
  assumes "tracker_empty p" "exec_line_in_process x run c inputs p = (ms, p')"
    and "exec_line x run (PInt default_concurrency_bulk) c inputs (p\<lparr>rt_persisted := []\<rparr>) = (r, rt1)"
  shows "tracker_empty p' \<and> ms = map Record (rt_persisted rt1) @ (case r of Inl e \<Rightarrow> [] | Inr res \<Rightarrow> [Result (cleaned res)])"
proof -
  from exec_line_tracker [OF assms(3)] assms(1) have rt1: "tracker_empty rt1" by (simp add: tracker_empty_def)
  show ?thesis
  proof (cases r)
    case (Inr res)
    with assms(2,3) rt1 show ?thesis by (auto simp: exec_line_in_process_def cleaned_def Let_def)
  next
    case (Inl e)
    with assms(2,3) rt1 show ?thesis
      by (auto simp: exec_line_in_process_def tracker_empty_def flow_run_list_def end_run_def)
  qed
qed

lemma process_state_empty:
  assumes "process_state (pool_of c fid x run rt) p"
  shows "tracker_empty p"
  using assms
proof induction
  case fresh
  then show ?case by (simp add: pool_of_def process_tracker_def new_run_tracker_def tracker_empty_def)
next
  case (served p t ms p')
  let ?d = "c\<lparr>lc_line_number := Some (fst t)\<rparr>"
  obtain r rt1 where "exec_line (create_executor_fork (lc_env c) fid x) (run ?d) (PInt default_concurrency_bulk) ?d (snd t) (p\<lparr>rt_persisted := []\<rparr>) = (r, rt1)"
    by force
  from exec_line_in_process_cases [OF served(3) _ this] served(2) show ?case by (simp add: pool_of_def Let_def)
qed

lemma exec_line_index:
  assumes "exec_line x run k c inputs rt = (Inr res, rt')" "line_runner run (line_run_id c)"
  shows "fr_index (lr_run_info res) = lc_line_number c \<and> fr_run_id (lr_run_info res) = line_run_id c"
proof -
  from assms(1) obtain r where "exec_flow (x\<lparr>fx_node_concurrency := k\<rparr>) run c inputs rt = (Inr r, rt')" "lr_run_info res = lr_run_info r"
    by (auto simp: exec_line_def split: prod.splits sum.splits option.splits)
  with line_runner.exec_flow_outcome [OF assms(2) this(1) refl] show ?thesis by simp
qed

text \<open>The answer of a process to a line, in terms of \<open>exec_line\<close>.\<close>

definition line_answer :: "line_call \<Rightarrow> string \<Rightarrow> executor \<Rightarrow> (line_call \<Rightarrow> run_nodes) \<Rightarrow> int \<times> row \<Rightarrow> line_result \<Rightarrow> bool" where
  "line_answer c fid x run t r \<longleftrightarrow>
     (let d = c\<lparr>lc_line_number := Some (fst t)\<rparr> in
      \<exists>p res rt1. exec_line (create_executor_fork (lc_env c) fid x) (run d) (PInt default_concurrency_bulk) d (snd t) p = (Inr res, rt1) \<and>
        r = cleaned res)"

lemma pool_answer_cases:
  assumes "answer_of (pool_of c fid x run rt) t r"
  shows "ps_timeout_result (pool_of c fid x run rt) t = Inr r \<or> line_answer c fid x run t r"
proof (cases "ps_timeout_result (pool_of c fid x run rt) t = Inr r")
  case False
  with assms obtain p where p: "process_state (pool_of c fid x run rt) p" "Result r \<in> set (fst (ps_process (pool_of c fid x run rt) p t))"
    by (auto simp: answer_of_def)
  let ?d = "c\<lparr>lc_line_number := Some (fst t)\<rparr>"
  let ?x = "create_executor_fork (lc_env c) fid x"
  obtain a rt1 where e: "exec_line ?x (run ?d) (PInt default_concurrency_bulk) ?d (snd t) (p\<lparr>rt_persisted := []\<rparr>) = (a, rt1)" by force
  obtain ms p' where ms: "exec_line_in_process ?x (run ?d) ?d (snd t) p = (ms, p')" by force
  from exec_line_in_process_cases [OF process_state_empty [OF p(1)] ms e] p(2) ms
  have "\<exists>res. a = Inr res \<and> r = cleaned res" by (auto simp: pool_of_def Let_def split: sum.splits)
  with e show ?thesis by (auto simp: line_answer_def Let_def)
qed simp

lemma pool_answer_index:
  assumes "answer_of (pool_of c fid x run rt) t r"
    and "\<And>i. line_runner (run (c\<lparr>lc_line_number := Some i\<rparr>)) (line_run_id (c\<lparr>lc_line_number := Some i\<rparr>))"
  shows "fr_index (lr_run_info r) = Some (fst t) \<and> fr_run_id (lr_run_info r) = lc_run_id c @ ''_'' @ int_str (fst t)"
  using pool_answer_cases [OF assms(1)]
proof
  assume "line_answer c fid x run t r"
  then obtain p res rt1 where "exec_line (create_executor_fork (lc_env c) fid x) (run (c\<lparr>lc_line_number := Some (fst t)\<rparr>))
      (PInt default_concurrency_bulk) (c\<lparr>lc_line_number := Some (fst t)\<rparr>) (snd t) p = (Inr res, rt1)" "r = cleaned res"
    by (auto simp: line_answer_def Let_def)
  with exec_line_index [OF this(1) assms(2)] show ?thesis by (simp add: cleaned_def line_run_id_def)
qed (simp add: timeout_result_index)

lemma sort_results_indexed:
  assumes "\<And>r. r \<in> set rs \<Longrightarrow> fr_index (lr_run_info r) \<noteq> None"
  shows "sort_results rs = Inr (sort_key result_index rs)"
    "map (\<lambda>r. fr_index (lr_run_info r)) (sort_key result_index rs) = map Some (sort (map result_index rs))"
proof -
  show "sort_results rs = Inr (sort_key result_index rs)"
    using assms by (auto simp: sort_results_def list_ex_iff)
  have "map result_index (sort_key result_index rs) = sort (map result_index rs)"
    by (rule properties_for_sort [symmetric]) simp_all
  moreover have "map (\<lambda>r. fr_index (lr_run_info r)) (sort_key result_index rs) = map (Some \<circ> result_index) (sort_key result_index rs)"
    using assms by (auto simp: result_index_def split: option.split)
  ultimately show "map (\<lambda>r. fr_index (lr_run_info r)) (sort_key result_index rs) = map Some (sort (map result_index rs))"
    by (metis map_map)
qed

lemma pool_results_sorted:
  assumes "pool_reach (pool_of c fid x run rt) (pool_start (pool_of c fid x run rt) n tasks) s" "pool_done s" "0 < n"
    and "\<And>i. line_runner (run (c\<lparr>lc_line_number := Some i\<rparr>)) (line_run_id (c\<lparr>lc_line_number := Some i\<rparr>))"
  shows "\<exists>rs. sort_results (pl_results s) = Inr rs \<and> map (\<lambda>r. fr_index (lr_run_info r)) rs = map Some (sort (map fst tasks)) \<and>
    (\<forall>r\<in>set rs. \<exists>t\<in>set tasks. fr_run_id (lr_run_info r) = lc_run_id c @ ''_'' @ int_str (fst t) \<and>
       (line_answer c fid x run t r \<or> ps_timeout_result (pool_of c fid x run rt) t = Inr r))"
proof -
  let ?ps = "pool_of c fid x run rt"
  obtain answered where a: "mset answered = mset tasks" "list_all2 (answer_of ?ps) answered (pl_results s)"
    by (rule pool_answers [OF assms(1-3)])
  have index: "\<exists>t\<in>set tasks. answer_of ?ps t r \<and> fr_index (lr_run_info r) = Some (fst t)" if "r \<in> set (pl_results s)" for r
  proof -
    from a(2) that obtain t where "t \<in> set answered" "answer_of ?ps t r"
      by (metis in_set_conv_nth list_all2_conv_all_nth)
    with pool_answer_index [OF this(2) assms(4)] a(1) show ?thesis by (metis set_mset_mset)
  qed
  have "list_all2 (\<lambda>t r. result_index r = fst t) answered (pl_results s)"
    using a(2) pool_answer_index [OF _ assms(4)] by (auto simp: result_index_def elim!: list_all2_mono)
  then have "map result_index (pl_results s) = map fst answered" by (induction rule: list_all2_induct) auto
  moreover have "mset (map fst answered) = mset (map fst tasks)" using a(1) by (metis mset_map)
  ultimately have "sort (map result_index (pl_results s)) = sort (map fst tasks)"
    by (intro properties_for_sort) simp_all
  moreover have "fr_index (lr_run_info r) \<noteq> None" if "r \<in> set (pl_results s)" for r using index [OF that] by auto
  note sort_results_indexed [OF this]
  moreover have "\<exists>t\<in>set tasks. fr_run_id (lr_run_info r) = lc_run_id c @ ''_'' @ int_str (fst t) \<and>
      (line_answer c fid x run t r \<or> ps_timeout_result ?ps t = Inr r)" if "r \<in> set (pl_results s)" for r
    using index [OF that] pool_answer_index [OF _ assms(4)] pool_answer_cases by blast
  ultimately show ?thesis by (intro exI [of _ "sort_key result_index (pl_results s)"]) simp
qed

text \<open>C7. However the threads of the pool interleave, when they have all ended there is exactly one result for
  every line, and sorting puts the results in the order of the line numbers; each is what executing its line
  returned (without an output when it failed) or the error of its time-out.\<close>

theorem pool_answers_lines:
  assumes "pool_reach (pool_of c fid x run rt) (pool_start (pool_of c fid x run rt) n tasks) s" "pool_done s" "0 < n"
    and "\<And>i. line_runner (run (c\<lparr>lc_line_number := Some i\<rparr>)) (line_run_id (c\<lparr>lc_line_number := Some i\<rparr>))"
  shows "\<exists>rs. sort_results (pl_results s) = Inr rs \<and> map (\<lambda>r. fr_index (lr_run_info r)) rs = map Some (sort (map fst tasks)) \<and>
    (\<forall>r\<in>set rs. \<exists>t\<in>set tasks. fr_run_id (lr_run_info r) = lc_run_id c @ ''_'' @ int_str (fst t) \<and>
       (line_answer c fid x run t r \<or> ps_timeout_result (pool_of c fid x run rt) t = Inr r))"
  by (rule pool_results_sorted [OF assms])

lemma pool_can_finish:
  assumes "\<And>t. \<exists>r. ps_timeout_result ps t = Inr r"
  shows "\<exists>s'. pool_reach ps s s' \<and> pool_done s'"
  using pool_steps_wf [of ps]
proof (induction s rule: wfp_induct_rule)
  case (less s)
  show ?case
  proof (cases "pool_done s")
    case False
    from pool_progress [OF this assms] obtain s1 where "pool_step ps s s1" by blast
    with less show ?thesis by (meson converse_rtranclp_into_rtranclp)
  qed blast
qed

text \<open>A line that is answered in time.\<close>

lemma serve_records:
  assumes "k \<le> ps_timeout ps" "i < length (pl_workers s)" "pl_workers s ! i = Busy t p (map Record rs @ ms) k"
  shows "pool_reach ps s (s\<lparr>pl_workers := (pl_workers s)[i := Busy t p ms k], pl_stored := pl_stored s @ rs\<rparr>)"
  using assms
proof (induction rs arbitrary: s)
  case Nil
  then have "(pl_workers s)[i := Busy t p ms k] = pl_workers s" by (metis append_Nil list.map(1) list_update_id)
  then show ?case by simp
next
  case (Cons r rs)
  let ?s = "s\<lparr>pl_workers := (pl_workers s)[i := Busy t p (map Record rs @ ms) k], pl_stored := pl_stored s @ [r]\<rparr>"
  have "pool_step ps s ?s" using Cons.prems by (intro pool_step.store) auto
  moreover have "pool_reach ps ?s (?s\<lparr>pl_workers := (pl_workers ?s)[i := Busy t p ms k], pl_stored := pl_stored ?s @ rs\<rparr>)"
    using Cons.prems by (intro Cons.IH) auto
  ultimately show ?case by (simp add: converse_rtranclp_into_rtranclp)
qed

lemma serve_line:
  assumes "0 \<le> ps_timeout ps" "i < length (pl_workers s)" "pl_workers s ! i = Idle p" "pl_queue s = t # ts"
    and "ps_process ps p t = (map Record rs @ [Result r], p')"
  shows "pool_reach ps s (s\<lparr>pl_queue := ts, pl_workers := (pl_workers s)[i := Idle p'], pl_results := pl_results s @ [r],
    pl_stored := pl_stored s @ rs\<rparr>)"
proof -
  let ?s1 = "s\<lparr>pl_queue := ts, pl_workers := (pl_workers s)[i := Busy t p' (map Record rs @ [Result r]) 0]\<rparr>"
  let ?s2 = "?s1\<lparr>pl_workers := (pl_workers ?s1)[i := Busy t p' [Result r] 0], pl_stored := pl_stored ?s1 @ rs\<rparr>"
  have "pool_step ps s ?s1" using assms(2-5) by (intro pool_step.take_line) auto
  moreover have "pool_reach ps ?s1 ?s2" using assms(1,2) by (intro serve_records) auto
  moreover have "pool_step ps ?s2 (?s2\<lparr>pl_workers := (pl_workers ?s2)[i := Idle p'], pl_results := pl_results ?s2 @ [r]\<rparr>)"
    using assms(1,2) by (intro pool_step.finish) auto
  ultimately have "pool_reach ps s (?s2\<lparr>pl_workers := (pl_workers ?s2)[i := Idle p'], pl_results := pl_results ?s2 @ [r]\<rparr>)" by auto
  then show ?thesis by (cases s) simp
qed

lemma serve_one_line:
  assumes "0 \<le> ps_timeout ps" "ps_process ps (ps_fresh ps) t = (map Record rs @ [Result r], p')"
  shows "pool_reach ps (pool_start ps 1 [t]) \<lparr>pl_queue = [], pl_workers = [Gone], pl_results = [r], pl_stored = rs\<rparr>"
proof -
  have "pool_reach ps (pool_start ps 1 [t]) \<lparr>pl_queue = [], pl_workers = [Idle p'], pl_results = [r], pl_stored = rs\<rparr>"
    using serve_line [of ps 0 "pool_start ps 1 [t]", OF assms(1) _ _ _ assms(2)] by (simp add: pool_start_def)
  moreover have "pool_step ps \<lparr>pl_queue = [], pl_workers = [Idle p'], pl_results = [r], pl_stored = rs\<rparr>
      \<lparr>pl_queue = [], pl_workers = [Gone], pl_results = [r], pl_stored = rs\<rparr>"
    using pool_step.leave [of 0 "\<lparr>pl_queue = [], pl_workers = [Idle p'], pl_results = [r], pl_stored = rs\<rparr>" p' ps] by simp
  ultimately show ?thesis by simp
qed

text \<open>C8. The pool ends: it takes no infinite run of steps, a thread that has not ended can always take one
  (the wait for an answer is bounded by the time-out), and from every state the threads can all come to their end.\<close>

theorem pool_ends:
  "(\<nexists>f. \<forall>i. pool_step (pool_of c fid x run rt) (f i) (f (Suc i))) \<and>
   (pool_done s \<or> (\<exists>s'. pool_step (pool_of c fid x run rt) s s')) \<and>
   (\<exists>s'. pool_reach (pool_of c fid x run rt) s s' \<and> pool_done s')"
  using pool_steps_wf [of "pool_of c fid x run rt"] pool_progress [where s = s, OF _ timeout_result_ok]
    pool_can_finish [where s = s, OF timeout_result_ok]
  by (fastforce simp: wfp_def wf_iff_no_infinite_down_chain)

definition demo_runs :: "(node \<Rightarrow> outside) \<Rightarrow> world \<Rightarrow> line_call \<Rightarrow> run_nodes" where
  "demo_runs os w c = run_line_nodes os (line_context demo_executor c) (\<lambda>name. Some (demo_tool_of ([], Inr (PList [PStr name])))) w"

lemma demo_runs_ok: "line_runner (demo_runs os w c) (line_run_id c)"
  unfolding demo_runs_def by (rule line_nodes.line_runner_axioms)

theorem pool_answers_lines_witness:
  "\<exists>s rs. pool_reach (pool_of (demo_line 0) ''f'' demo_executor (demo_runs (\<lambda>n. demo_outside (\<lambda>k. Inl outside_model)) (demo_world DummyCacheManager)) demo_tracker)
      (pool_start (pool_of (demo_line 0) ''f'' demo_executor (demo_runs (\<lambda>n. demo_outside (\<lambda>k. Inl outside_model)) (demo_world DummyCacheManager)) demo_tracker) 2
         [(5, [(''q'', PInt 7)]), (3, [(''q'', PInt 8)])]) s \<and>
    pool_done s \<and> sort_results (pl_results s) = Inr rs \<and> map (\<lambda>r. fr_index (lr_run_info r)) rs = [Some 3, Some 5]"
proof -
  let ?ps = "pool_of (demo_line 0) ''f'' demo_executor (demo_runs (\<lambda>n. demo_outside (\<lambda>k. Inl outside_model)) (demo_world DummyCacheManager)) demo_tracker"
  let ?tasks = "[(5, [(''q'', PInt 7)]), (3, [(''q'', PInt 8)])] :: (int \<times> row) list"
  obtain s where s: "pool_reach ?ps (pool_start ?ps 2 ?tasks) s" "pool_done s"
    using pool_can_finish [OF timeout_result_ok] by metis
  have "sort (map fst ?tasks) = [3, 5]" by simp
  with pool_answers_lines [OF s _ demo_runs_ok] s show ?thesis by fastforce
qed

text \<open>When executing a line raises in a process, the handler looks for the run in the tracker of the process,
  which has none, and raises again: the process stores the records of the line and ends without a result, and the
  only result the line can get is the time-out.\<close>

theorem failed_line_unanswered:
  assumes "process_state (pool_of c fid x run rt) p" "d = c\<lparr>lc_line_number := Some (fst t)\<rparr>"
    and "exec_line (create_executor_fork (lc_env c) fid x) (run d) (PInt default_concurrency_bulk) d (snd t) (p\<lparr>rt_persisted := []\<rparr>) = (Inl e, rt1)"
  shows "fst (ps_process (pool_of c fid x run rt) p t) = map Record (rt_persisted rt1)"
proof -
  obtain ms p' where "exec_line_in_process (create_executor_fork (lc_env c) fid x) (run d) d (snd t) p = (ms, p')" by force
  from exec_line_in_process_cases [OF process_state_empty [OF assms(1)] this assms(3)] this assms(2)
  show ?thesis by (simp add: pool_of_def Let_def)
qed

definition demo_cached_executor :: executor where
  "demo_cached_executor = new_executor demo_env ''flow'' (Some 2) None False 10
     (demo_line_flow\<lparr>flow_nodes := [(demo_node ''a'' [(''q'', flow_input ''q'' ''flow.'')])\<lparr>node_enable_cache := True\<rparr>]\<rparr>)"

definition demo_bad_cache :: world where
  "demo_bad_cache = demo_world (CacheManager \<lparr>da_rows = [\<lparr>cc_run_id = ''r'', cc_hash_id = ''s'' @ other_cache_string ''flow'' ''f'',
        cc_flow_run_id = ''f'', cc_flow_id = ''flow'', cc_cache_string = [], cc_end_time = Some 1\<rparr>], da_time = 0\<rparr>)"

definition demo_storage :: "node \<Rightarrow> outside" where
  "demo_storage n = demo_outside (\<lambda>k. Inl (py_exn AttributeError [PStr ''get_node_run'']))"

text \<open>A cache record whose run cannot be read (\<^verbatim>\<open>_core/cache_manager.py\<close>) takes the process down.\<close>

theorem failed_line_unanswered_witness:
  "\<exists>rs. fst (ps_process (pool_of (demo_line 0) ''f'' demo_cached_executor (demo_runs demo_storage demo_bad_cache) demo_tracker)
     (process_tracker demo_tracker) (3, [(''q'', PInt 7)])) = map Record rs"
proof -
  let ?x = "create_executor_fork demo_env ''f'' demo_cached_executor"
  let ?run = "exec_line ?x (demo_runs demo_storage demo_bad_cache (demo_line 3)) (PInt default_concurrency_bulk) (demo_line 3) [(''q'', PInt 7)]
     (process_tracker demo_tracker\<lparr>rt_persisted := []\<rparr>)"
  have line: "demo_line 0\<lparr>lc_line_number := Some 3\<rparr> = demo_line 3" "lc_env (demo_line 0) = demo_env" by (simp_all add: demo_line_def)
  have "isl (fst ?run)" by code_simp
  then obtain e rt1 where run: "?run = (Inl e, rt1)" by (cases ?run) (auto simp: isl_def)
  have "process_state (pool_of (demo_line 0) ''f'' demo_cached_executor (demo_runs demo_storage demo_bad_cache) demo_tracker) (process_tracker demo_tracker)"
    using process_state.fresh [of "pool_of (demo_line 0) ''f'' demo_cached_executor (demo_runs demo_storage demo_bad_cache) demo_tracker"]
    by (simp add: pool_of_def)
  from failed_line_unanswered [OF this refl, of "(3, [(''q'', PInt 7)])" e rt1] show ?thesis
    by (auto simp: line run)
qed

end
