(* ===== verification/BulkRuns.thy ===== *)
theory BulkRuns imports LinePool begin

text \<open>
  What a bulk run returns: the lines in the order of their numbers, the outputs of the completed ones, and what the
  aggregation nodes are given.
\<close>

section \<open>Numbering the lines\<close>

lemma number_lines_Inr:
  assumes "mapr line_of (filter has_line_number rows) = Inr ks"
  shows "number_lines rows = Inr (zip (if ks \<noteq> [] \<and> distinct ks then ks else map int [0..<length rows]) rows)"
  using assms by (auto simp: number_lines_def Let_def distinct_map)

lemma numbers_length:
  "mapr line_of (filter has_line_number rows) = Inr ks \<Longrightarrow> length ks = length (filter has_line_number rows)"
  by (rule mapr_Inr_length)

text \<open>Lines get the numbers their rows carry when all rows carry one and no two are the same, and count from
  0 when none does or two are the same. When only some rows carry a number, the numbers go to the first rows of the
  batch, whichever rows carried them, and the rows after those are not run at all.\<close>

theorem number_lines_cases:
  assumes "mapr line_of (filter has_line_number rows) = Inr ks"
  shows "\<exists>tasks. number_lines rows = Inr tasks \<and> distinct (map fst tasks) \<and>
    (if ks \<noteq> [] \<and> distinct ks
     then map fst tasks = ks \<and> map snd tasks = take (length (filter has_line_number rows)) rows \<and>
       (list_all has_line_number rows \<longrightarrow> list_all (\<lambda>(i, r). line_of r = Inr i) tasks)
     else tasks = zip (map int [0..<length rows]) rows)"
proof -
  let ?ns = "if ks \<noteq> [] \<and> distinct ks then ks else map int [0..<length rows]"
  have len: "length ks \<le> length rows" using numbers_length [OF assms] by simp
  then have nums: "map fst (zip ?ns rows) = ?ns" by (simp add: map_fst_zip_take)
  have rows: "map snd (zip ks rows) = take (length (filter has_line_number rows)) rows"
    using numbers_length [OF assms] by (simp add: map_snd_zip_take)
  have own: "list_all (\<lambda>(i, r). line_of r = Inr i) (zip ks rows)" if "list_all has_line_number rows"
  proof -
    from that have "filter has_line_number rows = rows" by (simp add: filter_id_conv list_all_iff)
    with assms show ?thesis by (auto simp: mapr_Inr_iff list_all2_conv_all_nth list_all_length)
  qed
  have "distinct ?ns" by (auto simp: distinct_map)
  with nums rows own number_lines_Inr [OF assms] show ?thesis by (intro exI [of _ "zip ?ns rows"]) auto
qed

text \<open>The second of three rows carries the number 7: the first row runs as line 7 and nothing else runs.\<close>

theorem number_lines_cases_witness:
  "number_lines [[(''q'', PInt 0)], [(''q'', PInt 1), (line_number_key, PInt 7)], [(''q'', PInt 2)]] = Inr [(7, [(''q'', PInt 0)])]"
proof -
  let ?rows = "[[(''q'', PInt 0)], [(''q'', PInt 1), (line_number_key, PInt 7)], [(''q'', PInt 2)]]"
  have "filter has_line_number ?rows = [[(''q'', PInt 1), (line_number_key, PInt 7)]]"
    by (simp add: has_line_number_def dict_has_def line_number_key_def)
  then have "mapr line_of (filter has_line_number ?rows) = Inr [7]" "length (filter has_line_number ?rows) = 1"
    by (simp_all add: line_of_def line_number_key_def)
  with number_lines_cases [OF this(1)] show ?thesis by (auto simp: zip_map_fst_snd [symmetric])
qed

section \<open>The rows of the aggregation nodes\<close>

lemma succeeded_filter:
  "map ((!) rs) (succeeded_indexes rs) = filter (\<lambda>r. fr_status (lr_run_info r) = Completed) rs \<and>
   (\<forall>i\<in>set (succeeded_indexes rs). i < length rs)"
proof -
  let ?P = "\<lambda>r. fr_status (lr_run_info r) = Completed"
  have "List.enumerate 0 rs = map (\<lambda>i. (i, rs ! i)) [0..<length rs]"
    by (rule nth_equalityI) (simp_all add: nth_enumerate_eq)
  then have succ: "succeeded_indexes rs = filter (\<lambda>i. ?P (rs ! i)) [0..<length rs]"
    by (simp add: succeeded_indexes_def filter_map comp_def)
  have "filter ?P rs = filter ?P (map ((!) rs) [0..<length rs])" by (simp add: map_nth)
  also have "\<dots> = map ((!) rs) (succeeded_indexes rs)" by (simp add: succ filter_map comp_def)
  finally show ?thesis by (auto simp: succ)
qed

lemma column_of:
  "k \<in> set ks \<Longrightarrow> map_of (dict_of (map (\<lambda>k. (k, f k)) ks)) k = Some (f k)"
  by (simp add: map_of_dict_of rev_map map_of_map_restrict)

lemma transpose_column:
  assumes "transpose_rows rows ks = Inr cols" "k \<in> set ks"
  shows "map_of cols k = Some (map (\<lambda>r. dict_get r k PNone) rows)"
proof -
  from assms(2) have "ks \<noteq> []" by auto
  with assms(1) have "cols = dict_of (map (\<lambda>k. (k, map (\<lambda>r. dict_get r k PNone) rows)) ks)" by (auto simp: transpose_rows_def)
  with assms(2) show ?thesis by (simp add: column_of)
qed

lemma collect_column:
  assumes "collect_lines idxs kvs = Inr kvs'" "map_of kvs k = Some vs"
  shows "map_of kvs' k = Some (map ((!) vs) idxs)"
  using assms
proof (induction kvs arbitrary: kvs')
  case (Cons kv kvs)
  obtain a v where kv: "kv = (a, v)" by force
  from Cons.prems(1) kv obtain ws rest where ws: "mapr (\<lambda>i. if i < length v then Inr (v ! i)
      else Inl (py_exn IndexError [PStr ''list index out of range''])) idxs = Inr ws"
    and rest: "collect_lines idxs kvs = Inr rest" and kvs': "kvs' = (a, ws) # rest"
    by (auto simp: collect_lines_def res_simps)
  have "ws = map ((!) v) idxs" using ws
    by (auto simp: mapr_Inr_iff list_all2_conv_all_nth intro!: nth_equalityI split: if_splits)
  with Cons.IH [OF rest] Cons.prems(2) kv kvs' show ?case by (auto split: if_splits)
qed simp

text \<open>C10. When the rows of a batch are in ascending order of their numbers, the aggregation nodes get for every
  completed line, in order, the checked inputs of the row of that line beside the values its nodes left for
  them.\<close>

theorem aggregation_lines_aligned:
  assumes "fst (exec_aggregation_with_bulk_results env x run logged rows results run_id st) = Inr r" "aggregation_nodes (fx_flow x) \<noteq> []"
    and "mapr line_of rows = Inr ks" "sorted ks" "map (\<lambda>r. fr_index (lr_run_info r)) results = map Some (sort ks)"
    and "done_lines = filter (\<lambda>r. fr_status (lr_run_info r) = Completed) results"
  shows "\<exists>ins ains. fst (exec_aggregation env x run logged ins ains run_id st) = Inr r \<and>
    (\<forall>k\<in>set (dict_keys (flow_inputs (fx_flow x))). \<exists>vs. map_of ins k = Some (PList vs) \<and>
       list_all2 (\<lambda>res v. \<exists>row\<in>set rows. line_of row = Inr (result_index res) \<and>
         (\<exists>d. ensure_flow_inputs_type env (fx_flow x) row PNone = Inr d \<and> v = dict_get d k PNone)) done_lines vs) \<and>
    (\<forall>p\<in>set (fx_references x). map_of ains p =
       Some (PList (map (\<lambda>res. dict_get (lr_aggregation_inputs res) p PNone) done_lines)))"
proof -
  let ?is = "succeeded_indexes results"
  have done_lines: "done_lines = map ((!) results) ?is" "\<forall>i\<in>set ?is. i < length results"
    using succeeded_filter assms(6) by auto
  have len: "length results = length ks" "length ks = length rows"
    using assms(5) mapr_Inr_length [OF assms(3)] by (metis length_map length_sort, simp)
  have numbered: "line_of (rows ! i) = Inr (result_index (results ! i))" if "i < length rows" for i
  proof -
    have "map (\<lambda>r. fr_index (lr_run_info r)) results ! i = map Some ks ! i"
      using assms(4,5) by (simp only: sorted_sort_id)
    with that len have "result_index (results ! i) = ks ! i" by (simp add: result_index_def)
    with that assms(3) show ?thesis by (auto simp: mapr_Inr_iff list_all2_conv_all_nth)
  qed
  from assms(1,2) obtain chosen resolved ins all_ains ains where steps:
    "mapr (\<lambda>i. if i < length rows then Inr (rows ! i) else Inl (py_exn IndexError [PStr ''list index out of range''])) ?is = Inr chosen"
    "mapr (\<lambda>r. ensure_flow_inputs_type env (fx_flow x) r PNone) chosen = Inr resolved"
    "transpose_rows resolved (dict_keys (flow_inputs (fx_flow x))) = Inr ins"
    "transpose_rows (map lr_aggregation_inputs results) (fx_references x) = Inr all_ains" "collect_lines ?is all_ains = Inr ains"
    "fst (exec_aggregation env x run logged (map (\<lambda>(k, vs). (k, PList vs)) ins) (map (\<lambda>(k, vs). (k, PList vs)) ains) run_id st) = Inr r"
    by (auto simp: exec_aggregation_with_bulk_results_def Let_def bindr_Inr_iff split: sum.splits prod.splits if_splits)
  have chosen: "chosen = map ((!) rows) ?is"
    using steps(1) by (auto simp: mapr_Inr_iff list_all2_conv_all_nth intro!: nth_equalityI split: if_splits)
  have all: "length ?is = length resolved" "\<And>i. i < length ?is \<Longrightarrow> ensure_flow_inputs_type env (fx_flow x) (rows ! (?is ! i)) PNone = Inr (resolved ! i)"
    using steps(2) by (auto simp: chosen mapr_Inr_iff list_all2_conv_all_nth)
  have "\<exists>row\<in>set rows. line_of row = Inr (result_index (done_lines ! i)) \<and> ensure_flow_inputs_type env (fx_flow x) row PNone = Inr (resolved ! i)"
    if i: "i < length ?is" for i
  proof -
    have j: "?is ! i < length rows" using done_lines(2) len nth_mem [OF i] by simp
    have "done_lines ! i = results ! (?is ! i)" using i by (simp add: done_lines(1))
    with numbered [OF j] all(2) [OF i] nth_mem [OF j] show ?thesis by auto
  qed
  then have "list_all2 (\<lambda>res d. \<exists>row\<in>set rows. line_of row = Inr (result_index res) \<and> ensure_flow_inputs_type env (fx_flow x) row PNone = Inr d)
      done_lines resolved"
    using all(1) by (simp add: done_lines(1) list_all2_conv_all_nth)
  then have rows_of: "list_all2 (\<lambda>res v. \<exists>row\<in>set rows. line_of row = Inr (result_index res) \<and>
      (\<exists>d. ensure_flow_inputs_type env (fx_flow x) row PNone = Inr d \<and> v = dict_get d k PNone)) done_lines (map (\<lambda>d. dict_get d k PNone) resolved)" for k
    by (auto simp: list_all2_map2 elim!: list_all2_mono)
  have "map_of (map (\<lambda>(k, vs). (k, PList vs)) d) k = map_option PList (map_of d k)" for d :: "(string, pyval list) dict" and k
    by (induction d) auto
  note lift = this
  have first: "map_of (map (\<lambda>(k, vs). (k, PList vs)) ins) k = Some (PList (map (\<lambda>d. dict_get d k PNone) resolved))"
    if "k \<in> set (dict_keys (flow_inputs (fx_flow x)))" for k
    unfolding lift transpose_column [OF steps(3) that] by simp
  have second: "map_of (map (\<lambda>(k, vs). (k, PList vs)) ains) p =
      Some (PList (map (\<lambda>res. dict_get (lr_aggregation_inputs res) p PNone) done_lines))" if "p \<in> set (fx_references x)" for p
    unfolding lift collect_column [OF steps(5) transpose_column [OF steps(4) that]] using done_lines by (auto simp: comp_def)
  show ?thesis by (rule exI, rule exI, rule conjI [OF steps(6)]) (use first rows_of second in blast)
qed

definition demo_result :: "int \<Rightarrow> status \<Rightarrow> line_result" where
  "demo_result i st = \<lparr>lr_output = [(''o'', PInt i)], lr_aggregation_inputs = [(''${b.output}'', PInt (10 * i))],
     lr_run_info = (fst (start_flow_run 1 (PStr ''flow'') ''run'' (''run_'' @ int_str i) ''run'' [] (Some i) [] demo_tracker))\<lparr>fr_status := st\<rparr>,
     lr_node_run_infos = []\<rparr>"

definition demo_rows :: "row list" where
  "demo_rows = map (\<lambda>i. [(''q'', PInt (i + 4)), (line_number_key, PInt i)]) [3, 4, 5]"

theorem aggregation_lines_aligned_witness:
  "\<exists>ains r. fst (exec_aggregation_with_bulk_results demo_env demo_executor (\<lambda>ns ins rt. (Inr [], rt)) [] demo_rows
      [demo_result 3 Completed, demo_result 4 Failed, demo_result 5 Completed] ''run'' (demo_tracker, \<lparr>mm_loggers = [], mm_calls = []\<rparr>)) = Inr r \<and>
    map_of ains ''${b.output}'' = Some (PList [PInt 30, PInt 50])"
proof -
  let ?rs = "[demo_result 3 Completed, demo_result 4 Failed, demo_result 5 Completed]"
  let ?run = "fst (exec_aggregation_with_bulk_results demo_env demo_executor (\<lambda>ns ins rt. (Inr [], rt)) [] demo_rows ?rs ''run''
    (demo_tracker, \<lparr>mm_loggers = [], mm_calls = []\<rparr>))"
  have "\<not> isl ?run" by code_simp
  then obtain r where r: "?run = Inr r" by (cases ?run) auto
  have h: "aggregation_nodes (fx_flow demo_executor) \<noteq> []" "mapr line_of demo_rows = Inr [3, 4, 5]" by code_simp+
  have idx: "map (\<lambda>r. fr_index (lr_run_info r)) ?rs = map Some (sort [3, 4, 5])"
    by (simp add: demo_result_def start_flow_run_def Let_def)
  have fin: "filter (\<lambda>r. fr_status (lr_run_info r) = Completed) ?rs = [demo_result 3 Completed, demo_result 5 Completed]"
    by (simp add: demo_result_def)
  have "''${b.output}'' \<in> set (fx_references demo_executor)" by code_simp
  moreover have "sorted [3, 4, 5 :: int]" by simp
  note aggregation_lines_aligned [OF r h this idx fin [symmetric]]
  ultimately obtain ains where "map_of ains ''${b.output}'' =
      Some (PList (map (\<lambda>res. dict_get (lr_aggregation_inputs res) ''${b.output}'' PNone) [demo_result 3 Completed, demo_result 5 Completed]))"
    by blast
  then have "map_of ains ''${b.output}'' = Some (PList [PInt 30, PInt 50])" by (simp add: demo_result_def dict_get_def)
  with r show ?thesis by blast
qed

section \<open>The size of the pool\<close>

lemma worker_count_pos: "0 < worker_count given env_value"
  by (simp add: worker_count_def default_worker_count_def Let_def)

lemma worker_memory:
  assumes "0 < process_memory" "1 < n" "n \<le> available_max_worker_count mem avail process_memory"
  shows "10 * n * process_memory + 3 * mem \<le> 10 * avail"
proof -
  let ?q = "(10 * avail - 3 * mem) div (10 * process_memory)"
  from assms(2,3) have "n \<le> ?q" by (simp add: available_max_worker_count_def split: if_splits)
  then have "n * (10 * process_memory) \<le> ?q * (10 * process_memory)" using assms(1) by (intro mult_right_mono) auto
  also have "\<dots> \<le> 10 * avail - 3 * mem"
    using div_mult_mod_eq [of "10 * avail - 3 * mem" "10 * process_memory"] assms(1)
      pos_mod_sign [of "10 * process_memory" "10 * avail - 3 * mem"] by linarith
  finally show ?thesis by (simp add: algebra_simps)
qed

lemma worker_memory_used:
  assumes "0 < process_memory"
  shows "10 * avail < 10 * (available_max_worker_count mem avail process_memory + 1) * process_memory + 3 * mem"
proof -
  let ?q = "(10 * avail - 3 * mem) div (10 * process_memory)"
  have "10 * avail - 3 * mem < ?q * (10 * process_memory) + 10 * process_memory"
    using div_mult_mod_eq [of "10 * avail - 3 * mem" "10 * process_memory"] assms
      pos_mod_bound [of "10 * process_memory" "10 * avail - 3 * mem"] by linarith
  also have "\<dots> = (?q + 1) * (10 * process_memory)" by (simp add: algebra_simps)
  also have "\<dots> \<le> (available_max_worker_count mem avail process_memory + 1) * (10 * process_memory)"
    using assms by (intro mult_right_mono) (auto simp: available_max_worker_count_def)
  finally show ?thesis by (simp add: algebra_simps)
qed

text \<open>C11. Whatever worker count is configured, a batch of at least one line gets at least one process. Where processes are
  not forked it gets at most one for each line, no more than configured and, however little memory is left, no more than one
  unless all of them together fit into the available memory beside the 30 percent of the total kept back; it gets as many as
  these three bounds allow. Where processes are forked the memory is not looked at: it gets one for each line up to the count
  configured. A batch of no lines gets no pool: it is an error.\<close>

theorem pool_size_bounds:
  assumes "0 < process_memory" "0 < lines"
    and "x = new_executor env fid given env_value raise_ex timeout f"
    and "limit = available_max_worker_count mem avail process_memory"
  shows "(\<exists>n. pool_size x lines (Some limit) = Inr n \<and> 1 \<le> n \<and> n \<le> lines \<and> int n \<le> worker_count given env_value \<and>
      (1 < n \<longrightarrow> 10 * int n * process_memory + 3 * mem \<le> 10 * avail) \<and>
      (n = lines \<or> int n = worker_count given env_value \<or> 10 * avail < 10 * (int n + 1) * process_memory + 3 * mem)) \<and>
    (\<exists>n. pool_size x lines None = Inr n \<and> 1 \<le> n \<and> int n = min (worker_count given env_value) (int lines)) \<and>
    isl (pool_size x 0 memory_limit)"
proof -
  let ?w = "worker_count given env_value"
  let ?m = "min (min ?w (int lines)) limit"
  have count: "fx_worker_count x = ?w" by (simp add: assms(3) new_executor_def)
  have "1 \<le> limit" by (simp add: assms(4) available_max_worker_count_def)
  with worker_count_pos [of given env_value] assms(2) have pos: "1 \<le> ?m" "1 \<le> min ?w (int lines)" by linarith+
  then have size: "pool_size x lines (Some limit) = Inr (nat ?m)" "pool_size x lines None = Inr (nat (min ?w (int lines)))"
    by (auto simp: pool_size_def count Let_def)
  have "10 * int (nat ?m) * process_memory + 3 * mem \<le> 10 * avail" if "1 < nat ?m"
    using that pos assms(4) by (intro worker_memory [OF assms(1)]) auto
  moreover have "1 \<le> nat ?m" "nat ?m \<le> lines" "int (nat ?m) \<le> ?w" using pos by linarith+
  moreover have "nat ?m = lines \<or> int (nat ?m) = ?w \<or> int (nat ?m) = limit" using pos by linarith
  moreover note worker_memory_used [OF assms(1), of avail mem, folded assms(4)]
  ultimately have "\<exists>n. pool_size x lines (Some limit) = Inr n \<and> 1 \<le> n \<and> n \<le> lines \<and> int n \<le> ?w \<and>
      (1 < n \<longrightarrow> 10 * int n * process_memory + 3 * mem \<le> 10 * avail) \<and>
      (n = lines \<or> int n = ?w \<or> 10 * avail < 10 * (int n + 1) * process_memory + 3 * mem)"
    using size(1) by (intro exI [of _ "nat ?m"]) auto
  moreover have "isl (pool_size x 0 memory_limit)" by (auto simp: pool_size_def Let_def split: option.splits)
  moreover have "\<exists>n. pool_size x lines None = Inr n \<and> 1 \<le> n \<and> int n = min ?w (int lines)"
    using size(2) pos(2) by (intro exI [of _ "nat (min ?w (int lines))"]) auto
  ultimately show ?thesis by blast
qed

theorem pool_size_bounds_witness:
  "(\<exists>n. pool_size (new_executor demo_env ''flow'' (Some (-4)) None False 10 demo_line_flow) 100
     (Some (available_max_worker_count 16000 10000 500)) = Inr n \<and> 1 \<le> n \<and> n \<le> 100) \<and>
   (\<exists>n. pool_size (new_executor demo_env ''flow'' (Some (-4)) None False 10 demo_line_flow) 100 None = Inr n \<and> 1 \<le> n)"
  using pool_size_bounds [of 500 100, OF _ _ refl refl, of demo_env "''flow''" "Some (-4)" None False 10 demo_line_flow 16000 10000 None]
  by auto

section \<open>A bulk run\<close>

lemma exec_bulk_steps:
  assumes "exec_bulk env x run pool limit logged rows run_id raise_ex k (rt, mm) = (Inr b, st')"
  obtains tasks n where "number_lines rows = Inr tasks" "0 < n" "pool_size x (length rows) limit = Inr n" "sort_results (fst (pool n tasks)) = Inr (br_line_results b)"
    "handle_line_failures raise_ex (map lr_run_info (br_line_results b)) = Inr ()" "br_outputs b = bulk_outputs (br_line_results b)"
proof -
  from assms obtain rs rt1 where batch: "exec_batch_with_threads (x\<lparr>fx_node_concurrency := k\<rparr>) pool limit rows rt = (Inr rs, rt1)"
    "br_line_results b = rs" "br_outputs b = bulk_outputs rs" "handle_line_failures raise_ex (map lr_run_info rs) = Inr ()"
    by (auto simp: exec_bulk_def Let_def split: prod.splits sum.splits)
  then obtain tasks n where "number_lines rows = Inr tasks" "pool_size (x\<lparr>fx_node_concurrency := k\<rparr>) (length rows) limit = Inr n"
    "sort_results (fst (pool n tasks)) = Inr rs"
    by (auto simp: exec_batch_with_threads_def bindr_Inr_iff split: sum.splits prod.splits)
  moreover from this(2) have "0 < n" "pool_size x (length rows) limit = Inr n" by (auto simp: pool_size_def Let_def split: if_splits)
  ultimately show thesis using batch that by metis
qed

lemma extract_outputs_distinct:
  "foldr_res (extract_output f no ins) ods acc = Inr outs \<Longrightarrow> distinct (dict_keys acc) \<Longrightarrow> distinct (dict_keys outs)"
proof (induction ods arbitrary: acc)
  case (Cons kd ods)
  obtain k od where kd: "kd = (k, od)" by force
  with Cons.prems(1) obtain acc' where acc: "extract_output f no ins (k, od) acc = Inr acc'"
    "foldr_res (extract_output f no ins) ods acc' = Inr outs" by (auto simp: res_simps)
  from extract_output_Inr [OF acc(1)] Cons.prems(2) have "distinct (dict_keys acc')"
    by (auto simp: distinct_update split: if_splits)
  with Cons.IH [OF acc(2)] show ?case by blast
qed simp

text \<open>What a completed line leaves in the pool: an output with distinct names, none of them that of the line number.\<close>

lemma line_answer_output:
  assumes "line_answer c fid x run t r" "fr_status (lr_run_info r) = Completed"
    and "\<And>i. line_runner (run (c\<lparr>lc_line_number := Some i\<rparr>)) (line_run_id (c\<lparr>lc_line_number := Some i\<rparr>))"
  shows "distinct (dict_keys (lr_output r)) \<and> line_number_key \<notin> fst ` set (lr_output r) \<and> fr_index (lr_run_info r) = Some (fst t)"
proof -
  let ?d = "c\<lparr>lc_line_number := Some (fst t)\<rparr>"
  from assms(1) obtain p res rt1 where e: "exec_line (create_executor_fork (lc_env c) fid x) (run ?d)
      (PInt default_concurrency_bulk) ?d (snd t) p = (Inr res, rt1)" "r = cleaned res"
    by (auto simp: line_answer_def Let_def)
  from exec_line_index [OF e(1) assms(3)] e(2) have "fr_index (lr_run_info r) = Some (fst t)" by (simp add: cleaned_def)
  from e(1) obtain l where l: "exec_flow ((create_executor_fork (lc_env c) fid x)\<lparr>fx_node_concurrency := PInt default_concurrency_bulk\<rparr>)
      (run ?d) ?d (snd t) p = (Inr l, rt1)" "res = l\<lparr>lr_output := AList.update line_number_key (PInt (fst t)) (lr_output l)\<rparr>"
    by (auto simp: exec_line_def split: prod.splits sum.splits)
  from line_runner.exec_flow_outcome [OF assms(3) l(1) refl] l(2) e(2) assms(2) have "distinct (dict_keys (lr_output l))"
    by (auto simp: cleaned_def line_outcome_def extract_outputs_def stringify_generator_output_def comp_def split_beta
        dest!: extract_outputs_distinct)
  then have "distinct (dict_keys (lr_output r))" using e(2) l(2) by (simp add: cleaned_def distinct_delete distinct_update)
  moreover have "line_number_key \<notin> fst ` set (lr_output r)" using e(2) by (auto simp: cleaned_def AList.delete_eq)
  ultimately show ?thesis using \<open>fr_index _ = _\<close> by blast
qed

text \<open>C9. A bulk run that returns has one result for every numbered line, in ascending order of the numbers; its
  outputs are those of the completed lines, in that order: of each the number of the line and, after it, exactly the output
  that executing a row of that number returned; and when failures are to be raised, no line failed.\<close>

theorem bulk_run_outputs:
  assumes "exec_bulk env x run pool limit logged rows run_id raise_ex k (rt, mm) = (Inr b, st')" "number_lines rows = Inr tasks"
    and "pool_size x (length rows) limit = Inr n"
    and "pool_reach (pool_of c fid x runs rt) (pool_start (pool_of c fid x runs rt) n tasks) s" "pool_done s"
    and "pool n tasks = (pl_results s, pl_stored s)"
    and "\<And>i. line_runner (runs (c\<lparr>lc_line_number := Some i\<rparr>)) (line_run_id (c\<lparr>lc_line_number := Some i\<rparr>))"
  shows "map (\<lambda>r. fr_index (lr_run_info r)) (br_line_results b) = map Some (sort (map fst tasks)) \<and>
    list_all2 (\<lambda>r out. \<exists>t\<in>set tasks. line_answer c fid x runs t r \<and> out = (line_number_key, PInt (fst t)) # lr_output r)
      (filter (\<lambda>r. fr_status (lr_run_info r) = Completed) (br_line_results b)) (br_outputs b) \<and>
    (raise_ex \<longrightarrow> (\<forall>r\<in>set (br_line_results b). fr_status (lr_run_info r) \<noteq> Failed))"
proof -
  have steps: "0 < n" "sort_results (pl_results s) = Inr (br_line_results b)"
    "handle_line_failures raise_ex (map lr_run_info (br_line_results b)) = Inr ()" "br_outputs b = bulk_outputs (br_line_results b)"
    using exec_bulk_steps [OF assms(1)] assms(2,3,6) by (metis Inr_inject fst_conv)+
  have lines: "map (\<lambda>r. fr_index (lr_run_info r)) (br_line_results b) = map Some (sort (map fst tasks))"
    and answers: "\<And>r. r \<in> set (br_line_results b) \<Longrightarrow>
      \<exists>t\<in>set tasks. line_answer c fid x runs t r \<or> ps_timeout_result (pool_of c fid x runs rt) t = Inr r"
    using pool_results_sorted [OF assms(4,5) steps(1) assms(7)] steps(2) by (simp, metis Inr_inject)
  have out: "\<exists>t\<in>set tasks. line_answer c fid x runs t r \<and>
      dict_updates [(line_number_key, index_value (fr_index (lr_run_info r)))] (lr_output r) = (line_number_key, PInt (fst t)) # lr_output r"
    if "r \<in> set (br_line_results b)" and done': "fr_status (lr_run_info r) = Completed" for r
  proof -
    from answers [OF that(1)] done' obtain t where t: "t \<in> set tasks" "line_answer c fid x runs t r"
      by (auto dest: timeout_result_index)
    from line_answer_output [OF t(2) done' assms(7)]
    have "distinct (dict_keys (lr_output r))" "line_number_key \<notin> fst ` set (lr_output r)" "fr_index (lr_run_info r) = Some (fst t)" by auto
    with t show ?thesis by (intro bexI [of _ t] conjI) (simp_all add: dict_updates_append_new index_value_def)
  qed
  have "raise_ex \<longrightarrow> (\<forall>r\<in>set (br_line_results b). fr_status (lr_run_info r) \<noteq> Failed)"
    using steps(3) by (auto simp: handle_line_failures_def bindr_Inr_iff filter_empty_conv split: list.splits if_splits pyval.splits)
  moreover have "list_all2 (\<lambda>r out. \<exists>t\<in>set tasks. line_answer c fid x runs t r \<and> out = (line_number_key, PInt (fst t)) # lr_output r)
      (filter (\<lambda>r. fr_status (lr_run_info r) = Completed) (br_line_results b)) (br_outputs b)"
    unfolding steps(4) bulk_outputs_def list_all2_map2 by (rule list.rel_refl_strong) (use out in auto)
  ultimately show ?thesis using lines by blast
qed

definition demo_pool :: pool_runs where
  "demo_pool n ts = (let ms = fst (ps_process (pool_of (demo_line 0) ''f'' demo_executor
       (demo_runs (\<lambda>n. demo_outside (\<lambda>k. Inl outside_model)) (demo_world DummyCacheManager)) demo_tracker) (process_tracker demo_tracker) (hd ts))
     in (concat (map (\<lambda>m. case m of Result r \<Rightarrow> [r] | Record _ \<Rightarrow> []) ms), concat (map (\<lambda>m. case m of Record r \<Rightarrow> [r] | Result _ \<Rightarrow> []) ms)))"

definition demo_bulk :: "bulk_result res" where
  "demo_bulk = fst (exec_bulk demo_env demo_executor (\<lambda>ns ins rt. (Inr [], rt)) demo_pool None [] [[(''q'', PInt 7)]] ''run'' True
     (PInt default_concurrency_bulk) (demo_tracker, \<lparr>mm_loggers = [], mm_calls = []\<rparr>))"

fun is_record :: "queue_message \<Rightarrow> bool" where
  "is_record (Record r) = True"
| "is_record (Result r) = False"

lemma is_record_iff: "is_record m = (\<exists>r. m = Record r)" "(\<not> is_record m) = (\<exists>r. m = Result r)"
  by (cases m; simp)+

theorem bulk_run_outputs_witness:
  "\<exists>b. demo_bulk = Inr b \<and> map (\<lambda>r. fr_index (lr_run_info r)) (br_line_results b) = [Some 0] \<and>
     br_outputs b = [[(line_number_key, PInt 0), (''o'', PList [PStr ''b''])]] \<and> (\<forall>r\<in>set (br_line_results b). fr_status (lr_run_info r) \<noteq> Failed)"
proof -
  let ?runs = "demo_runs (\<lambda>n. demo_outside (\<lambda>k. Inl outside_model)) (demo_world DummyCacheManager)"
  let ?ps = "pool_of (demo_line 0) ''f'' demo_executor ?runs demo_tracker"
  let ?t = "(0, [(''q'', PInt 7)]) :: int \<times> row"
  let ?ms = "fst (ps_process ?ps (ps_fresh ?ps) ?t)"
  have outs: "map_sum id br_outputs demo_bulk = Inr [[(line_number_key, PInt 0), (''o'', PList [PStr ''b''])]]" by code_simp
  have "\<exists>b. y = Inr b \<and> f b = c" if "map_sum id f y = Inr c" for y :: "bulk_result res" and f :: "bulk_result \<Rightarrow> 'c" and c
    using that by (cases y) auto
  from this [OF outs] obtain b where b: "demo_bulk = Inr b" "br_outputs b = [[(line_number_key, PInt 0), (''o'', PList [PStr ''b''])]]" by blast
  obtain st' where run: "exec_bulk demo_env demo_executor (\<lambda>ns ins rt. (Inr [], rt)) demo_pool None [] [[(''q'', PInt 7)]] ''run'' True
     (PInt default_concurrency_bulk) (demo_tracker, \<lparr>mm_loggers = [], mm_calls = []\<rparr>) = (Inr b, st')"
    using b(1) by (metis demo_bulk_def prod.collapse)
  have tasks: "number_lines [[(''q'', PInt 7)]] = Inr [?t]" "pool_size demo_executor (length [[(''q'', PInt 7)]]) None = Inr 1" by code_simp+
  have "map is_record ?ms = [True, True, True, True, False]" by code_simp
  then obtain a1 a2 a3 a4 r where ms: "?ms = map Record [a1, a2, a3, a4] @ [Result r]"
    by (auto simp: map_eq_Cons_conv is_record_iff) (metis queue_message.exhaust)
  have timeout: "0 \<le> ps_timeout ?ps" by code_simp
  have fresh: "ps_fresh ?ps = process_tracker demo_tracker" by (simp add: pool_of_def)
  obtain p' where "ps_process ?ps (ps_fresh ?ps) ?t = (map Record [a1, a2, a3, a4] @ [Result r], p')" using ms by (metis prod.collapse)
  note reach = serve_one_line [OF timeout this]
  have "demo_pool 1 [?t] = ([r], [a1, a2, a3, a4])" using ms fresh by (simp add: demo_pool_def Let_def)
  then have "demo_pool 1 [?t] = (pl_results \<lparr>pl_queue = [], pl_workers = [Gone :: run_tracker worker], pl_results = [r], pl_stored = [a1, a2, a3, a4]\<rparr>,
      pl_stored \<lparr>pl_queue = [], pl_workers = [Gone :: run_tracker worker], pl_results = [r], pl_stored = [a1, a2, a3, a4]\<rparr>)" by simp
  note all = bulk_run_outputs [OF run tasks reach _ this demo_runs_ok, simplified pool_done_def, simplified]
  then have "map (\<lambda>r. fr_index (lr_run_info r)) (br_line_results b) = [Some 0]" "\<forall>r\<in>set (br_line_results b). fr_status (lr_run_info r) \<noteq> Failed"
    by simp_all
  with b show ?thesis by (intro exI [of _ b] conjI)
qed

end
