(* ===== verification/ToolInterface.thy ===== *)
theory ToolInterface imports InputParser ErrorPresenter "HOL-Library.Multiset" begin

text \<open>
  The interfaces of tools: signatures of Python functions and the input definitions made of them
  (\<^verbatim>\<open>_utils/tool_utils.py\<close>), tool classes (\<^verbatim>\<open>_core/tool.py\<close>), the registries filled while packages are
  imported (\<^verbatim>\<open>_core/tools_manager.py\<close>), and the tools read from a file or a prompt template
  (\<^verbatim>\<open>_core/tool_meta_generator.py\<close>). A function, a class and a module are what \<^verbatim>\<open>inspect\<close> shows of them.
  Reading files, executing Python code and parsing jinja templates are fields of the record \<open>tool_env\<close>.
\<close>

section \<open>Signatures\<close>

text \<open>
  A class is one of the built-in types or a class known by its name, or an enumeration with the values of its
  members. A union has its members as \<open>typing\<close> keeps them, \<open>NoneType\<close> among them for an optional type.
\<close>

datatype py_class = Cls pytype | EnumCls string "pyval list"

datatype annotation = NoAnnotation | Annotated py_class | UnionOf "py_class list"

text \<open>A default value is a member of an enumeration or any other value.\<close>

datatype py_default = NoDefault | EnumMember py_class pyval | Default pyval

datatype param_kind = POSITIONAL_ONLY | POSITIONAL_OR_KEYWORD | VAR_POSITIONAL | KEYWORD_ONLY | VAR_KEYWORD

record param =
  pa_default :: py_default
  pa_annotation :: annotation
  pa_kind :: param_kind

definition none_type :: py_class where
  "none_type = Cls (TyClass ''NoneType'')"

definition value_to_str :: "pyenv \<Rightarrow> py_default \<Rightarrow> pyval" where
  "value_to_str env d =
    (case d of
       NoDefault \<Rightarrow> PNone
     | EnumMember c v \<Rightarrow> v
     | Default v \<Rightarrow> if v = PNone then PStr [] else PStr (py_str (obj_repr env) v))"

definition resolve_annotation :: "annotation \<Rightarrow> annotation" where
  "resolve_annotation a =
    (case a of
       UnionOf cs \<Rightarrow> (case filter (\<lambda>c. c \<noteq> none_type) cs of [c] \<Rightarrow> Annotated c | ds \<Rightarrow> UnionOf ds)
     | _ \<Rightarrow> a)"

text \<open>\<open>ConnectionType.is_connection_value\<close> of a class; a registered class is known by its name.\<close>

definition is_connection_class :: "string list \<Rightarrow> py_class \<Rightarrow> bool" where
  "is_connection_class conns c = (case c of Cls (TyClass n) \<Rightarrow> n \<in> set conns | _ \<Rightarrow> False)"

fun pytype_name :: "pytype \<Rightarrow> string" where
  "pytype_name TyInt = ''int''"
| "pytype_name TyFloat = ''float''"
| "pytype_name TyBool = ''bool''"
| "pytype_name TyStr = ''str''"
| "pytype_name TyList = ''list''"
| "pytype_name TySecret = ''Secret''"
| "pytype_name TyPromptTemplate = ''PromptTemplate''"
| "pytype_name (TyClass c) = c"

fun py_class_name :: "py_class \<Rightarrow> string" where
  "py_class_name (Cls t) = pytype_name t"
| "py_class_name (EnumCls n vs) = n"

text \<open>\<open>ValueType.from_type\<close> of a class.\<close>

fun class_value_type :: "py_class \<Rightarrow> value_type" where
  "class_value_type (Cls t) = from_type t"
| "class_value_type (EnumCls n vs) = OBJECT"

text \<open>The annotation, or else the class of the default; an enumeration becomes a string with its values.\<close>

definition param_class :: "param \<Rightarrow> annotation" where
  "param_class p =
    (case (resolve_annotation (pa_annotation p), pa_default p) of
       (NoAnnotation, EnumMember c v) \<Rightarrow> Annotated c
     | (NoAnnotation, Default v) \<Rightarrow> Annotated (Cls (type_of v))
     | (a, _) \<Rightarrow> a)"

definition param_types :: "string list \<Rightarrow> annotation \<Rightarrow> input_type list \<times> bool" where
  "param_types conns a =
    (case a of
       Annotated c \<Rightarrow> if is_connection_class conns c then ([Inr (py_class_name c)], True) else ([Inl (class_value_type c)], False)
     | UnionOf cs \<Rightarrow> if list_all (is_connection_class conns) cs then (map (\<lambda>c. Inr (py_class_name c)) cs, True) else ([Inl OBJECT], False)
     | NoAnnotation \<Rightarrow> ([Inl OBJECT], False))"

definition param_to_definition :: "pyenv \<Rightarrow> string list \<Rightarrow> param \<Rightarrow> input_definition \<times> bool" where
  "param_to_definition env conns p =
    (let (a, enum) = (case param_class p of
           Annotated (EnumCls n vs) \<Rightarrow> (Annotated (Cls TyStr), PList (map (\<lambda>v. PStr (py_str (obj_repr env) v)) vs))
         | b \<Rightarrow> (b, PNone));
         (ts, conn) = param_types conns a
     in (\<lparr>in_type = ts, in_default = value_to_str env (pa_default p), in_description = PNone, in_enum = enum\<rparr>, conn))"

section \<open>Functions\<close>

text \<open>
  \<open>@tool\<close> wraps a function in one of the same name, module, documentation and signature, whose attribute \<open>__tool\<close>
  is \<open>None\<close> until the function is registered.
\<close>

datatype tool_attr = NoToolAttr | ToolUnset | ToolSet tool_def

record py_function =
  fn_name :: string
  fn_qualname :: string
  fn_module :: string
  fn_doc :: "string option"
  fn_params :: "(string, param) dict"
  fn_return :: annotation
  fn_tool :: tool_attr

definition decorate :: "py_function \<Rightarrow> py_function" where
  "decorate f = f\<lparr>fn_tool := ToolUnset\<rparr>"

definition plain_param :: "string \<times> param \<Rightarrow> bool" where
  "plain_param kp = (fst kp \<noteq> ''self'' \<and> pa_kind (snd kp) \<noteq> VAR_KEYWORD \<and> pa_kind (snd kp) \<noteq> VAR_POSITIONAL)"

definition function_to_interface ::
  "pyenv \<Rightarrow> string list \<Rightarrow> py_function \<Rightarrow> (string, param) dict \<Rightarrow>
     ((string, input_definition) dict \<times> (string, output_definition) dict \<times> input_type list list) res" where
  "function_to_interface env conns f init =
    (if list_ex (\<lambda>k. k \<noteq> [] \<and> dict_has k (fn_params f)) (dict_keys init)
     then Inl (py_exn Exception [PStr (''Duplicate inputs found from '' @ squote (fn_name f) @ '' and ''), PStr ''__init__()!''])
     else (let all_inputs = dict_updates init (filter plain_param (fn_params f));
               defs = map (\<lambda>(k, p). (k, param_to_definition env conns p)) all_inputs
           in Inr (map (\<lambda>(k, d, c). (k, d)) defs, [], map (\<lambda>(k, d, c). in_type d) (filter (\<lambda>(k, d, c). c) defs))))"

definition function_class_name :: "py_function \<Rightarrow> pyval" where
  "function_class_name f =
    (if CHR ''.'' \<in> set (fn_qualname f) then PStr (replace_all (''.'' @ fn_name f) [] (fn_qualname f)) else PNone)"

definition function_to_tool_definition ::
  "pyenv \<Rightarrow> string list \<Rightarrow> py_function \<Rightarrow> tool_type \<Rightarrow> (string, param) dict \<Rightarrow> tool_def res" where
  "function_to_tool_definition env conns f ty init =
    bindr (function_to_interface env conns f init) (\<lambda>(inputs, outputs, _).
      Inr \<lparr>tool_name = PStr (fn_qualname f), tool_type_of = Inl ty, tool_inputs = inputs, tool_outputs = outputs,
           tool_description = (case fn_doc f of Some d \<Rightarrow> if d = [] then PNone else PStr d | None \<Rightarrow> PNone),
           tool_module = PStr (fn_module f), tool_class_name = function_class_name f, tool_source = PNone,
           tool_code = PNone, tool_function = PStr (fn_name f), tool_connection_type = PNone,
           tool_is_builtin = PBool True, tool_stage = PStr ''test''\<rparr>)"

text \<open>The first parameter, or the result, annotated as a prompt template.\<close>

definition get_prompt_param_name_from_func :: "py_function \<Rightarrow> string option" where
  "get_prompt_param_name_from_func f =
     map_option fst (find (\<lambda>(k, a). a = Annotated (Cls TyPromptTemplate))
       (map (\<lambda>(k, p). (k, pa_annotation p)) (fn_params f) @ [(''return'', fn_return f)]))"

section \<open>Tool classes\<close>

text \<open>
  \<open>tc_bases\<close> are the classes after it in the method resolution order. The initialisation inputs are kept in a
  class attribute, \<open>_initialize_inputs\<close>: reading it finds the one of a base class when the class has none of its
  own. The caches below hold the attribute of each class that has one.
\<close>

record tool_class =
  tc_name :: string
  tc_module :: string
  tc_bases :: "string list"
  tc_provider :: bool
  tc_init :: "(string, param) dict"
  tc_attrs :: "(string \<times> py_function) list"

type_synonym input_cache = "(string, (string, param) dict) dict"

definition class_attribute :: "tool_class \<Rightarrow> input_cache \<Rightarrow> (string, param) dict" where
  "class_attribute c cache =
    (case find (\<lambda>k. dict_has k cache) (tc_name c # tc_bases c) of Some k \<Rightarrow> dict_get cache k [] | None \<Rightarrow> [])"

definition own_inputs :: "tool_class \<Rightarrow> (string, param) dict" where
  "own_inputs c = filter (\<lambda>(k, p). k \<noteq> ''self'') (tc_init c)"

definition own_required_inputs :: "tool_class \<Rightarrow> (string, param) dict" where
  "own_required_inputs c = filter (\<lambda>(k, p). k \<noteq> ''self'' \<and> pa_default p = NoDefault) (tc_init c)"

definition cached_inputs ::
  "(tool_class \<Rightarrow> (string, param) dict) \<Rightarrow> tool_class \<Rightarrow> input_cache \<Rightarrow> (string, param) dict \<times> input_cache" where
  "cached_inputs own c cache =
    (let d = class_attribute c cache
     in if d = [] then (own c, AList.update (tc_name c) (own c) cache) else (d, cache))"

definition get_initialize_inputs :: "tool_class \<Rightarrow> input_cache \<Rightarrow> (string, param) dict \<times> input_cache" where
  "get_initialize_inputs = cached_inputs own_inputs"

definition get_required_initialize_inputs :: "tool_class \<Rightarrow> input_cache \<Rightarrow> (string, param) dict \<times> input_cache" where
  "get_required_initialize_inputs = cached_inputs own_required_inputs"

section \<open>The registries\<close>

record registry =
  rg_builtins :: "(string, tool_def) dict"
  rg_apis :: "(string, tool_def) dict"
  rg_connections :: "string list"
  rg_type_to_api :: "(string, string) dict"
  rg_reserved :: "string list"
  rg_inputs :: input_cache
  rg_required :: input_cache

text \<open>
  The tools of a class, registered under their qualified names. The tool made of a function is its attribute
  \<open>__tool\<close> from then on (\<open>ToolSet\<close>). A registration that raises ends the import of its module.
\<close>

definition register_tools ::
  "pyenv \<Rightarrow> string list \<Rightarrow> tool_type \<Rightarrow> (string, param) dict \<Rightarrow> (string \<times> py_function) list \<Rightarrow>
     (string, tool_def) dict \<Rightarrow> (string, tool_def) dict res" where
  "register_tools env conns ty init attrs collection =
     foldr_res (\<lambda>(name, f) coll.
       if fn_tool f = NoToolAttr then Inr coll
       else bindr (function_to_tool_definition env conns f ty init) (\<lambda>t. Inr (AList.update (fn_qualname f) t coll)))
     attrs collection"

text \<open>\<open>__name__\<close> of an annotation; unions have none before Python 3.10 and are outside the model.\<close>

definition annotation_name :: "annotation \<Rightarrow> string res" where
  "annotation_name a =
    (case a of NoAnnotation \<Rightarrow> Inr ''_empty'' | Annotated c \<Rightarrow> Inr (py_class_name c) | UnionOf cs \<Rightarrow> Inl outside_model)"

fun connection_input :: "string list \<Rightarrow> param list \<Rightarrow> string option res" where
  "connection_input conns [] = Inr None"
| "connection_input conns (p # ps) =
     bindr (annotation_name (pa_annotation p)) (\<lambda>n. if n \<in> set conns then Inr (Some n) else connection_input conns ps)"

definition register_class ::
  "pyenv \<Rightarrow> tool_class \<Rightarrow> tool_type \<Rightarrow> (string, tool_def) dict \<Rightarrow> registry \<Rightarrow> ((string, tool_def) dict \<times> registry) res" where
  "register_class env c ty collection rg =
    (if \<not> tc_provider c
     then Inl (py_exn Exception [PStr (''Class '' @ squote (tc_name c) @ '' must be a subclass of promptflow.ToolProvider.'')])
     else (let (init, cache) = get_initialize_inputs c (rg_inputs rg) in
       bindr (register_tools env (rg_connections rg) ty init (tc_attrs c) collection) (\<lambda>coll.
       bindr (connection_input (rg_connections rg) (dict_values init)) (\<lambda>found.
         Inr (coll, rg\<lparr>rg_inputs := cache,
           rg_type_to_api := (case found of Some n \<Rightarrow> AList.update n (tc_name c) (rg_type_to_api rg) | None \<Rightarrow> rg_type_to_api rg)\<rparr>)))))"

definition register_method ::
  "pyenv \<Rightarrow> py_function \<Rightarrow> tool_type \<Rightarrow> (string, tool_def) dict \<Rightarrow> registry \<Rightarrow> (string, tool_def) dict res" where
  "register_method env f ty collection rg =
     bindr (function_to_tool_definition env (rg_connections rg) f ty []) (\<lambda>t. Inr (AList.update (fn_qualname f) t collection))"

definition get_llm_reserved_keys :: "registry \<Rightarrow> string list" where
  "get_llm_reserved_keys rg = remdups (concat (map (\<lambda>t. dict_keys (tool_inputs t)) (dict_values (rg_apis rg))))"

definition register_builtins :: "pyenv \<Rightarrow> tool_class \<Rightarrow> registry \<Rightarrow> registry res" where
  "register_builtins env c rg =
     bindr (register_class env c PYTHON (rg_builtins rg) rg) (\<lambda>(coll, rg'). Inr (rg'\<lparr>rg_builtins := coll\<rparr>))"

definition register_apis :: "pyenv \<Rightarrow> tool_class \<Rightarrow> registry \<Rightarrow> registry res" where
  "register_apis env c rg =
     bindr (register_class env c ACTION (rg_apis rg) rg) (\<lambda>(coll, rg').
       let rg'' = rg'\<lparr>rg_apis := coll\<rparr> in Inr (rg''\<lparr>rg_reserved := get_llm_reserved_keys rg''\<rparr>))"

definition register_builtin_method :: "pyenv \<Rightarrow> py_function \<Rightarrow> registry \<Rightarrow> registry res" where
  "register_builtin_method env f rg =
     bindr (register_method env f PYTHON (rg_builtins rg) rg) (\<lambda>coll. Inr (rg\<lparr>rg_builtins := coll\<rparr>))"

definition register_api_method :: "pyenv \<Rightarrow> py_function \<Rightarrow> registry \<Rightarrow> registry res" where
  "register_api_method env f rg =
     bindr (register_method env f ACTION (rg_apis rg) rg) (\<lambda>coll. Inr (rg\<lparr>rg_apis := coll\<rparr>))"

definition register_connections :: "string list \<Rightarrow> registry \<Rightarrow> registry" where
  "register_connections cs rg = rg\<lparr>rg_connections := remdups (rg_connections rg @ cs)\<rparr>"

section \<open>Tools of files\<close>

text \<open>What a module shows: its functions and classes in the order of \<open>inspect.getmembers\<close>.\<close>

datatype module_member = FunctionMember py_function | ClassMember tool_class "py_function list" | OtherMember

record py_module =
  md_name :: string
  md_members :: "(string \<times> module_member) list"

text \<open>
  The files and the interpreter. \<open>te_spec\<close> is the loader of a source file (\<open>None\<close> when there is none) with what
  executing the file gives, \<open>te_exec\<close> executes source text, \<open>te_import\<close> imports a module by name, and
  \<open>te_undeclared\<close> lists the undeclared variables of a jinja template, in no particular order.
\<close>

record tool_env =
  te_env :: pyenv
  te_resolve :: "string \<Rightarrow> string"
  te_exists :: "string \<Rightarrow> bool"
  te_is_file :: "string \<Rightarrow> bool"
  te_read :: "string \<Rightarrow> string res"
  te_stem :: "string \<Rightarrow> string"
  te_spec :: "string \<Rightarrow> py_module res option"
  te_exec :: "string \<Rightarrow> py_module res"
  te_import :: "string \<Rightarrow> py_module res"
  te_undeclared :: "string \<Rightarrow> string list res"

definition meta_error :: "meta_class \<Rightarrow> msg \<Rightarrow> exn" where
  "meta_error c m = pf_exn (Me c) m TOOL"

definition is_tool :: "py_function \<Rightarrow> bool" where
  "is_tool f = (fn_tool f \<noteq> NoToolAttr)"

definition collect_tool_functions_in_module :: "py_module \<Rightarrow> py_function list" where
  "collect_tool_functions_in_module m =
     concat (map (\<lambda>(_, obj). case obj of
       FunctionMember f \<Rightarrow> if is_tool f \<and> fn_module f = md_name m then [f] else [] | _ \<Rightarrow> []) (md_members m))"

definition collect_tool_methods_in_module :: "py_module \<Rightarrow> py_function list" where
  "collect_tool_methods_in_module m =
     concat (map (\<lambda>(_, obj). case obj of
       ClassMember c methods \<Rightarrow> if tc_provider c \<and> tc_module c = md_name m then filter is_tool methods else []
     | _ \<Rightarrow> []) (md_members m))"

definition parse_tool_from_function :: "pyenv \<Rightarrow> string list \<Rightarrow> py_function \<Rightarrow> tool_def res" where
  "parse_tool_from_function env conns f =
    (case fn_tool f of
       ToolSet t \<Rightarrow> Inr t
     | _ \<Rightarrow>
        (case function_to_interface env conns f [] of
           Inl e \<Rightarrow> bindr (message env e) (\<lambda>s. Inl (raise_from (meta_error BadFunctionInterface
             [PStr (''Failed to parse interface for tool '' @ fn_name f @ '', reason: '' @ s)]) e))
         | Inr (inputs, _, _) \<Rightarrow>
            Inr \<lparr>tool_name = PStr (fn_qualname f), tool_type_of = Inl PYTHON, tool_inputs = inputs, tool_outputs = [],
                 tool_description = none_or_str (fn_doc f), tool_module = PStr (fn_module f),
                 tool_class_name = function_class_name f, tool_source = PNone, tool_code = PNone,
                 tool_function = PStr (fn_name f), tool_connection_type = PNone, tool_is_builtin = PNone,
                 tool_stage = PNone\<rparr>))"

definition generate_python_tools_in_module :: "pyenv \<Rightarrow> string list \<Rightarrow> py_module \<Rightarrow> tool_def list res" where
  "generate_python_tools_in_module env conns m =
     mapr (parse_tool_from_function env conns) (collect_tool_functions_in_module m @ collect_tool_methods_in_module m)"

definition collect_tool_function_in_module :: "py_module \<Rightarrow> py_function res" where
  "collect_tool_function_in_module m =
    (case collect_tool_functions_in_module m of
       [] \<Rightarrow> Inl (meta_error NoToolDefined [PStr ''No tool found in the python script.''])
     | [f] \<Rightarrow> Inr f
     | fs \<Rightarrow> Inl (meta_error MultipleToolsDefined
         [PStr ''Expected 1 but collected '', PInt (int (length fs)), PStr '' tools: '', PStr (join '', '' (map fn_name fs)), PStr ''.'']))"

definition load_python_module_from_file :: "tool_env \<Rightarrow> string \<Rightarrow> py_module res" where
  "load_python_module_from_file te src_file =
    (let f = te_resolve te src_file in
     case te_spec te f of
       None \<Rightarrow> Inl (meta_error PythonLoaderNotFound
         [PStr (''Failed to load python file '' @ squote f @ '', please make sure it is a valid .py file.'')])
     | Some (Inr m) \<Rightarrow> Inr m
     | Some (Inl e) \<Rightarrow> bindr (message (te_env te) e) (\<lambda>s. Inl (raise_from (meta_error PythonLoadError
         [PStr (''Failed to load python module from file '' @ squote f @ '', reason: '' @ s @ ''.'')]) e)))"

definition load_python_module :: "tool_env \<Rightarrow> string \<Rightarrow> string option \<Rightarrow> py_module res" where
  "load_python_module te content source =
    (if source \<noteq> None \<and> te_exists te (the source) then load_python_module_from_file te (the source)
     else (case te_exec te content of
         Inr m \<Rightarrow> Inr m
       | Inl e \<Rightarrow> bindr (message (te_env te) e) (\<lambda>s. Inl (raise_from (meta_error PythonParsingError
           [PStr (''Parsing python got exception: '' @ s)]) e))))"

text \<open>The tool of a file belongs to no module; it has the source or the text of the file.\<close>

definition generate_python_tool :: "tool_env \<Rightarrow> string list \<Rightarrow> string option \<Rightarrow> string \<Rightarrow> string option \<Rightarrow> tool_def res" where
  "generate_python_tool te conns name content source =
    bindr (load_python_module te content source) (\<lambda>m.
    bindr (collect_tool_function_in_module m) (\<lambda>f.
    bindr (parse_tool_from_function (te_env te) conns f) (\<lambda>t.
      let t1 = t\<lparr>tool_module := PNone\<rparr>;
          t2 = (case name of Some n \<Rightarrow> t1\<lparr>tool_name := PStr n\<rparr> | None \<Rightarrow> t1)
      in Inr (case source of None \<Rightarrow> t2\<lparr>tool_code := PStr content\<rparr> | Some f \<Rightarrow> t2\<lparr>tool_source := PStr f\<rparr>))))"

section \<open>Prompt templates\<close>

text \<open>\<open>s.find(x)\<close>\<close>

fun str_find_from :: "int \<Rightarrow> string \<Rightarrow> string \<Rightarrow> int" where
  "str_find_from i s x =
    (if startswith s x then i else (case s of [] \<Rightarrow> - 1 | c # t \<Rightarrow> str_find_from (i + 1) t x))"

declare str_find_from.simps [simp del]

definition str_find :: "string \<Rightarrow> string \<Rightarrow> int" where
  "str_find = str_find_from 0"

definition get_inputs_for_prompt_template :: "tool_env \<Rightarrow> string \<Rightarrow> string list res" where
  "get_inputs_for_prompt_template te tpl =
     bindr (te_undeclared te tpl) (\<lambda>vs. Inr (sort_key (str_find tpl) vs))"

text \<open>
  The comment a template starts with, as the regular expression of the source reads it: to the first end of a
  comment, within one line.
\<close>

fun comment_body :: "string \<Rightarrow> string option" where
  "comment_body [] = None"
| "comment_body (c # s) =
    (if startswith (c # s) ''#}'' then Some []
     else if c = CHR 0x0A then None
     else map_option (Cons c) (comment_body s))"

definition template_comment :: "string \<Rightarrow> string option" where
  "template_comment content = (if startswith content ''{#'' then comment_body (drop 2 content) else None)"

definition string_input :: input_definition where
  "string_input = \<lparr>in_type = [Inl STRING], in_default = PNone, in_description = PNone, in_enum = PNone\<rparr>"

definition generate_prompt_tool ::
  "tool_env \<Rightarrow> string list \<Rightarrow> pyval \<Rightarrow> string \<Rightarrow> bool \<Rightarrow> string option \<Rightarrow> tool_def res" where
  "generate_prompt_tool te reserved name content prompt_only source =
    (let ty = (if prompt_only then PROMPT else LLM); to_raise = (if prompt_only then [''template''] else reserved) in
     case get_inputs_for_prompt_template te content of
       Inl e \<Rightarrow> bindr (message (te_env te) e) (\<lambda>s.
         Inl (raise_from (meta_error JinjaParsingError [PStr (''Parsing jinja got exception: '' @ s)]) e))
     | Inr inputs \<Rightarrow>
        (case find (\<lambda>i. i \<in> set to_raise) inputs of
           Some i \<Rightarrow> Inl (meta_error ReservedVariableCannotBeUsed
             [PStr (''Parsing jinja got exception: Variable name '' @ i @ '' is reserved by '' @ tool_type_value ty @ '' tool.''),
              PStr '' Please change another name.''])
         | None \<Rightarrow> Inr \<lparr>tool_name = name, tool_type_of = Inl ty, tool_inputs = dict_of (map (\<lambda>i. (i, string_input)) inputs),
             tool_outputs = [], tool_description = none_or_str (map_option strip (template_comment content)),
             tool_module = PNone, tool_class_name = PNone,
             tool_source = none_or_str source, tool_code = (if source = None then PStr content else PNone),
             tool_function = PNone, tool_connection_type = PNone, tool_is_builtin = PNone, tool_stage = PNone\<rparr>))"

section \<open>Tool dictionaries\<close>

text \<open>\<open>asdict\<close> with the fields that are not falsy, in the definitions inside the tool too.\<close>

definition input_definition_meta :: "input_definition \<Rightarrow> pyval" where
  "input_definition_meta i = PDict (keep_truthy
     [(''type'', PList (map input_type_pyval (in_type i))), (''default'', in_default i),
      (''description'', in_description i), (''enum'', in_enum i)])"

definition output_definition_meta :: "output_definition \<Rightarrow> pyval" where
  "output_definition_meta od = PDict (keep_truthy
     [(''type'', PList (map (\<lambda>t. PStr (value_type_value t)) (out_type od))), (''description'', out_description od),
      (''is_property'', out_is_property od)])"

definition asdict_without_none :: "tool_def \<Rightarrow> (string, pyval) dict" where
  "asdict_without_none t = keep_truthy
    [(''name'', tool_name t),
     (''type'', PStr (case tool_type_of t of Inl ty \<Rightarrow> tool_type_value ty | Inr s \<Rightarrow> s)),
     (''inputs'', PDict (map (\<lambda>(k, i). (k, input_definition_meta i)) (tool_inputs t))),
     (''outputs'', PDict (map (\<lambda>(k, d). (k, output_definition_meta d)) (tool_outputs t))),
     (''description'', tool_description t), (''module'', tool_module t),
     (''class_name'', tool_class_name t), (''source'', tool_source t), (''code'', tool_code t),
     (''function'', tool_function t), (''connection_type'', tool_connection_type t),
     (''is_builtin'', tool_is_builtin t), (''stage'', tool_stage t)]"

definition generate_prompt_meta_dict ::
  "tool_env \<Rightarrow> string list \<Rightarrow> pyval \<Rightarrow> string \<Rightarrow> bool \<Rightarrow> string option \<Rightarrow> (string, pyval) dict res" where
  "generate_prompt_meta_dict te reserved name content prompt_only source =
     bindr (generate_prompt_tool te reserved name content prompt_only source) (\<lambda>t. Inr (asdict_without_none t))"

definition generate_python_meta_dict ::
  "tool_env \<Rightarrow> string list \<Rightarrow> string option \<Rightarrow> string \<Rightarrow> string option \<Rightarrow> (string, pyval) dict res" where
  "generate_python_meta_dict te conns name content source =
     bindr (generate_python_tool te conns name content source) (\<lambda>t. Inr (asdict_without_none t))"

text \<open>The name of a tool in the dictionary of its module; both parts are strings.\<close>

definition tool_key :: "pyenv \<Rightarrow> tool_def \<Rightarrow> string" where
  "tool_key env t = render env [tool_module t, PStr ''.'', tool_name t]"

definition generate_python_tools_in_module_as_dict ::
  "pyenv \<Rightarrow> string list \<Rightarrow> py_module \<Rightarrow> (string, pyval) dict res" where
  "generate_python_tools_in_module_as_dict env conns m =
     bindr (generate_python_tools_in_module env conns m) (\<lambda>ts.
       Inr (dict_of (map (\<lambda>t. (tool_key env t, PDict (asdict_without_none t))) ts)))"

definition meta_file_error :: "core_class \<Rightarrow> string \<Rightarrow> (string, pyval) dict \<Rightarrow> exn" where
  "meta_file_error c fmt kwargs = pf_exception (Co c) [] fmt EXECUTOR None kwargs None"

definition generate_tool_meta_dict_by_file ::
  "tool_env \<Rightarrow> string list \<Rightarrow> string list \<Rightarrow> string \<Rightarrow> pyval \<Rightarrow> (string, pyval) dict res" where
  "generate_tool_meta_dict_by_file te conns reserved path ty =
    bindr (tool_type_call ty) (\<lambda>t.
      let file = te_resolve te path; type_value = PStr (tool_type_value t); q = [CHR 0x27] in
      if \<not> te_is_file te file
      then Inl (meta_file_error MetaFileNotFound
        (''Meta file not found, path '' @ q @ ''{file_path}'' @ q @ '', type '' @ q @ ''{tool_type}'' @ q @ ''.'')
        [(''file_path'', PStr file), (''tool_type'', type_value)])
      else (case te_read te file of
          Inl e \<Rightarrow> bindr (message (te_env te) e) (\<lambda>s. Inl (raise_from (meta_file_error MetaFileReadError
            (''Reading meta file failed, path '' @ q @ ''{file_path}'' @ q @ '', type '' @ q @ ''{tool_type}'' @ q @ '', exception {exception}.'')
            [(''file_path'', PStr file), (''tool_type'', type_value), (''exception'', PStr s)]) e))
        | Inr content \<Rightarrow>
           (case t of
              PYTHON \<Rightarrow> generate_python_meta_dict te conns (Some (te_stem te file)) content (Some path)
            | LLM \<Rightarrow> generate_prompt_meta_dict te reserved (PStr (te_stem te file)) content False (Some path)
            | PROMPT \<Rightarrow> generate_prompt_meta_dict te reserved (PStr (te_stem te file)) content True (Some path)
            | _ \<Rightarrow> Inl (py_exn ValueError [PStr (''Unsupported tool type '' @ tool_type_value t @ ''.'')]))))"

section \<open>The inputs of a tool\<close>

text \<open>\<open>typing\<close> keeps at least two different members in a union.\<close>

definition annotation_wf :: "annotation \<Rightarrow> bool" where
  "annotation_wf a = (case a of UnionOf cs \<Rightarrow> 2 \<le> length cs \<and> distinct cs | _ \<Rightarrow> True)"

text \<open>The types of an input: one type of values, or the names of registered connection classes.\<close>

definition input_types_ok :: "string list \<Rightarrow> input_type list \<Rightarrow> bool" where
  "input_types_ok conns ts \<longleftrightarrow> (\<exists>t. ts = [Inl t]) \<or> (\<exists>cs. cs \<noteq> [] \<and> set cs \<subseteq> set conns \<and> ts = map Inr cs)"

lemma resolved_union:
  assumes "annotation_wf a" "resolve_annotation a = UnionOf ds"
  shows "ds \<noteq> []"
proof
  assume "ds = []"
  with assms obtain cs where cs: "a = UnionOf cs" "filter (\<lambda>c. c \<noteq> none_type) cs = []"
    by (auto simp: resolve_annotation_def split: annotation.splits list.splits)
  then have "set cs \<subseteq> {none_type}" by (auto simp: filter_empty_conv)
  moreover from cs assms(1) have "2 \<le> card (set cs)" by (simp add: annotation_wf_def distinct_card)
  ultimately show False using card_mono [of "{none_type}" "set cs"] by simp
qed

lemma connection_class_name: "is_connection_class conns c \<Longrightarrow> py_class_name c \<in> set conns"
  by (cases c) (auto simp: is_connection_class_def split: pytype.splits)

lemma param_types_ok:
  assumes "a \<noteq> UnionOf []"
  shows "input_types_ok conns (fst (param_types conns a)) \<and> (snd (param_types conns a) \<longleftrightarrow> \<not> isl (hd (fst (param_types conns a))))"
proof (cases a)
  case (UnionOf cs)
  then have "hd (map (\<lambda>c. Inr (py_class_name c) :: input_type) cs) = Inr (py_class_name (hd cs))"
    using assms by (cases cs) auto
  moreover have "input_types_ok conns (map (\<lambda>c. Inr (py_class_name c)) cs)" if "list_all (is_connection_class conns) cs"
    unfolding input_types_ok_def using that UnionOf assms
    by (intro disjI2 exI [of _ "map py_class_name cs"]) (auto simp: list_all_iff connection_class_name)
  ultimately show ?thesis using UnionOf by (auto simp: param_types_def input_types_ok_def)
qed (auto simp: param_types_def input_types_ok_def dest!: connection_class_name intro!: exI [of _ "[x]" for x])

lemma param_definition_types:
  assumes "param_to_definition env conns p = (d, c)"
  shows "\<exists>a. (a = param_class p \<or> a = Annotated (Cls TyStr)) \<and> in_type d = fst (param_types conns a) \<and> c = snd (param_types conns a)"
proof (cases "\<exists>n vs. param_class p = Annotated (EnumCls n vs)")
  case True
  with assms have "in_type d = fst (param_types conns (Annotated (Cls TyStr))) \<and> c = snd (param_types conns (Annotated (Cls TyStr)))"
    by (auto simp: param_to_definition_def split: prod.splits)
  then show ?thesis by blast
next
  case False
  with assms have "in_type d = fst (param_types conns (param_class p)) \<and> c = snd (param_types conns (param_class p))"
    by (auto simp: param_to_definition_def split: prod.splits annotation.splits py_class.splits)
  then show ?thesis by blast
qed

lemma param_definition_ok:
  assumes "annotation_wf (pa_annotation p)" "param_to_definition env conns p = (d, c)"
  shows "input_types_ok conns (in_type d) \<and> (c \<longleftrightarrow> \<not> isl (hd (in_type d)))"
proof -
  have "param_class p \<noteq> UnionOf []"
    using resolved_union [OF assms(1)] by (auto simp: param_class_def split: annotation.splits py_default.splits)
  with param_definition_types [OF assms(2)] obtain a where
    "a \<noteq> UnionOf []" "in_type d = fst (param_types conns a)" "c = snd (param_types conns a)" by auto
  with param_types_ok [of a conns] show ?thesis by simp
qed

lemma drop_third: "(k, d) \<in> set (map (\<lambda>(k, d, c). (k, d)) xs) \<Longrightarrow> \<exists>c. (k, d, c) \<in> set xs"
  by auto

lemma plain_params_distinct: "distinct (dict_keys ps) \<Longrightarrow> distinct (dict_keys (filter plain_param ps))"
  by (rule distinct_map_filter)

lemma filter_connections:
  assumes "\<And>k d c. (k, d, c) \<in> set defs \<Longrightarrow> c \<longleftrightarrow> \<not> isl (hd (in_type d))"
  shows "map (\<lambda>(k, d, c). in_type d) (filter (\<lambda>(k, d, c). c) defs) =
    filter (\<lambda>ts. \<not> isl (hd ts)) (map (\<lambda>(k, d, c). in_type d) defs)"
  using assms
proof (induction defs)
  case (Cons x defs)
  obtain k d c where x: "x = (k, d, c)" by (cases x)
  from Cons.prems [of k d c] have "c \<longleftrightarrow> \<not> isl (hd (in_type d))" by (simp add: x)
  moreover have "map (\<lambda>(k, d, c). in_type d) (filter (\<lambda>(k, d, c). c) defs) =
      filter (\<lambda>ts. \<not> isl (hd ts)) (map (\<lambda>(k, d, c). in_type d) defs)"
    using Cons.prems by (intro Cons.IH) auto
  ultimately show ?case by (simp add: x)
qed simp

text \<open>C25. A tool made of a function has the initialisation inputs of its class and then the parameters of the function,
  each once and in order, without \<open>self\<close> and the collecting parameters. Every input has one type of values or a list of
  registered connection classes, and the connection types reported are those of the latter, in order.\<close>

theorem tool_inputs_typed:
  assumes "function_to_interface env conns f init = Inr (ins, outs, cts)"
    and "distinct (dict_keys (fn_params f))" "distinct (dict_keys init)" "[] \<notin> set (dict_keys init)"
    and "\<forall>(k, p)\<in>set init \<union> set (fn_params f). annotation_wf (pa_annotation p)"
  shows "dict_keys ins = dict_keys init @ dict_keys (filter plain_param (fn_params f)) \<and> distinct (dict_keys ins) \<and>
    (\<forall>(k, d)\<in>set ins. input_types_ok conns (in_type d)) \<and>
    cts = filter (\<lambda>ts. \<not> isl (hd ts)) (map (\<lambda>(k, d). in_type d) ins)"
proof -
  let ?ps = "filter plain_param (fn_params f)"
  let ?defs = "map (\<lambda>(k, p). (k, param_to_definition env conns p)) (dict_updates init ?ps)"
  have apart: "fst ` set init \<inter> fst ` set (fn_params f) = {}"
  proof (rule ccontr)
    assume "fst ` set init \<inter> fst ` set (fn_params f) \<noteq> {}"
    then obtain k where "k \<in> set (dict_keys init)" "dict_has k (fn_params f)" by (auto simp: dict_simps)
    moreover from this assms(4) have "k \<noteq> []" by metis
    ultimately have "list_ex (\<lambda>k. k \<noteq> [] \<and> dict_has k (fn_params f)) (dict_keys init)" unfolding list_ex_iff by blast
    with assms(1) show False by (simp add: function_to_interface_def)
  qed
  have ins: "ins = map (\<lambda>(k, d, c). (k, d)) ?defs" and cts: "cts = map (\<lambda>(k, d, c). in_type d) (filter (\<lambda>(k, d, c). c) ?defs)"
    using assms(1) by (simp_all add: function_to_interface_def Let_def split: if_splits)
  have all: "dict_updates init ?ps = init @ ?ps"
    using apart by (intro dict_updates_append_new plain_params_distinct assms(2)) auto
  have keys: "dict_keys ins = dict_keys init @ dict_keys ?ps" by (simp add: ins all comp_def split_beta)
  have ok: "input_types_ok conns (in_type d) \<and> (c \<longleftrightarrow> \<not> isl (hd (in_type d)))" if "(k, d, c) \<in> set ?defs" for k d c
    using that assms(5) param_definition_ok [of _ env conns d c] by (fastforce simp: all)
  then have "cts = filter (\<lambda>ts. \<not> isl (hd ts)) (map (\<lambda>(k, d, c). in_type d) ?defs)"
    unfolding cts by (intro filter_connections) blast
  moreover have "map (\<lambda>(k, d, c). in_type d) ?defs = map (\<lambda>(k, d). in_type d) ins" by (simp add: ins split_beta comp_def)
  moreover have "input_types_ok conns (in_type d)" if "(k, d) \<in> set ins" for k d
  proof -
    from drop_third [OF that [unfolded ins]] obtain c where "(k, d, c) \<in> set ?defs" by blast
    with ok show ?thesis by blast
  qed
  moreover have "distinct (dict_keys ins)" using assms(2,3) apart by (auto simp: keys plain_params_distinct)
  ultimately show ?thesis using keys by auto
qed

text \<open>A function with a connection, an optional number and collecting parameters, in a class with one input.\<close>

definition demo_param :: "annotation \<Rightarrow> py_default \<Rightarrow> param" where
  "demo_param a d = \<lparr>pa_default = d, pa_annotation = a, pa_kind = POSITIONAL_OR_KEYWORD\<rparr>"

definition demo_function :: py_function where
  "demo_function = \<lparr>fn_name = ''chat'', fn_qualname = ''Api.chat'', fn_module = ''m'', fn_doc = Some ''Chat.'',
     fn_params = [(''self'', demo_param NoAnnotation NoDefault),
       (''prompt'', demo_param (Annotated (Cls TyPromptTemplate)) NoDefault),
       (''n'', demo_param (UnionOf [Cls TyInt, none_type]) (Default PNone)),
       (''mode'', demo_param NoAnnotation (EnumMember (EnumCls ''Mode'' [PStr ''a'', PStr ''b'']) (PStr ''a''))),
       (''kwargs'', (demo_param NoAnnotation NoDefault)\<lparr>pa_kind := VAR_KEYWORD\<rparr>)],
     fn_return = NoAnnotation, fn_tool = ToolUnset\<rparr>"

definition demo_init :: "(string, param) dict" where
  "demo_init = [(''connection'', demo_param (Annotated (Cls (TyClass ''Conn''))) NoDefault)]"

theorem tool_inputs_typed_witness:
  "\<exists>ins outs cts. function_to_interface demo_env [''Conn''] demo_function demo_init = Inr (ins, outs, cts) \<and>
     dict_keys ins = [''connection'', ''prompt'', ''n'', ''mode''] \<and> cts = [[Inr ''Conn'']] \<and>
     (\<forall>(k, d)\<in>set ins. input_types_ok [''Conn''] (in_type d))"
proof -
  have types: "map_sum (\<lambda>e. ()) (\<lambda>(i, u, c). c) (function_to_interface demo_env [''Conn''] demo_function demo_init) = Inr [[Inr ''Conn'']]"
    by code_simp
  then obtain ins outs cts where run: "function_to_interface demo_env [''Conn''] demo_function demo_init = Inr (ins, outs, cts)"
    by (cases "function_to_interface demo_env [''Conn''] demo_function demo_init") auto
  have wf: "\<forall>(k, p)\<in>set demo_init \<union> set (fn_params demo_function). annotation_wf (pa_annotation p)"
    by (simp add: demo_init_def demo_function_def demo_param_def annotation_wf_def none_type_def)
  have "distinct (dict_keys (fn_params demo_function))" "distinct (dict_keys demo_init)" "[] \<notin> set (dict_keys demo_init)"
    by (simp_all add: demo_init_def demo_function_def)
  note typed = tool_inputs_typed [OF run this wf]
  have keys: "dict_keys demo_init @ dict_keys (filter plain_param (fn_params demo_function)) = [''connection'', ''prompt'', ''n'', ''mode'']"
    by code_simp
  from types run have "cts = [[Inr ''Conn'']]" by simp
  with typed keys run show ?thesis by auto
qed

section \<open>The initialisation inputs of a class\<close>

lemma cached_inputs_own:
  assumes "list_all (\<lambda>k. \<not> dict_has k cache) (tc_bases c)" "dict_get cache (tc_name c) [] \<in> {[], own c}"
  shows "fst (cached_inputs own c cache) = own c \<and> dict_get (snd (cached_inputs own c cache)) (tc_name c) [] = own c"
proof -
  have none: "find (\<lambda>k. dict_has k cache) (tc_bases c) = None"
    using assms(1) by (auto simp: find_None_iff list_all_iff)
  have attr: "class_attribute c cache = dict_get cache (tc_name c) []"
    by (cases "dict_has (tc_name c) cache") (simp_all add: class_attribute_def none, simp add: dict_has_def dict_get_def)
  show ?thesis using assms(2) by (auto simp: cached_inputs_def attr Let_def) (simp_all add: dict_get_def)
qed

lemma cached_inputs_inherited:
  assumes "cached_inputs own b cache = (d, cache')" "d \<noteq> []" "tc_bases c = tc_name b # tc_bases b" "\<not> dict_has (tc_name c) cache'"
  shows "cached_inputs own c cache' = (d, cache')"
proof -
  have "class_attribute b cache' = d \<and> (dict_has (tc_name b) cache' \<or> (\<exists>k\<in>set (tc_bases b). dict_has k cache'))"
  proof (cases "class_attribute b cache = []")
    case True
    with assms(1) have "d = own b" "cache' = AList.update (tc_name b) (own b) cache" by (auto simp: cached_inputs_def)
    then show ?thesis by (simp add: class_attribute_def dict_has_def dict_get_def)
  next
    case False
    with assms(1) have "d = class_attribute b cache" "cache' = cache" by (auto simp: cached_inputs_def Let_def)
    with False show ?thesis
      by (auto simp: class_attribute_def find_None_iff split: option.splits if_splits) (metis find_Some_iff nth_mem)
  qed
  then have "class_attribute c cache' = d" using assms(3,4) by (simp add: class_attribute_def)
  then show ?thesis using assms(2) by (simp add: cached_inputs_def)
qed

text \<open>The first class asked gets the parameters of its own constructor. The answer is kept in a class attribute
  that derived classes inherit: once a class with inputs has been asked, every class derived from it that was not asked
  before gets the inputs of the base, whatever the parameters of its own constructor.\<close>

theorem initialize_inputs_inherited:
  assumes "get_initialize_inputs b cache = (d, cache')" "d \<noteq> []" "tc_bases c = tc_name b # tc_bases b"
    and "\<not> dict_has (tc_name c) cache'"
  shows "fst (get_initialize_inputs c cache') = d \<and>
    (list_all (\<lambda>k. \<not> dict_has k cache0) (tc_bases c) \<and> \<not> dict_has (tc_name c) cache0 \<longrightarrow>
       fst (get_initialize_inputs c cache0) = own_inputs c)"
  using cached_inputs_inherited [OF assms(1) [unfolded get_initialize_inputs_def] assms(2-4)]
    cached_inputs_own [of cache0 c own_inputs]
  by (simp add: get_initialize_inputs_def dict_has_def dict_get_def)

definition demo_class :: "string \<Rightarrow> string list \<Rightarrow> (string, param) dict \<Rightarrow> tool_class" where
  "demo_class name bases init = \<lparr>tc_name = name, tc_module = ''m'', tc_bases = bases, tc_provider = True,
     tc_init = (''self'', demo_param NoAnnotation NoDefault) # init, tc_attrs = [(''chat'', demo_function)]\<rparr>"

theorem initialize_inputs_inherited_witness:
  "let base = demo_class ''Base'' [] demo_init; derived = demo_class ''Derived'' [''Base''] [(''key'', demo_param NoAnnotation NoDefault)];
     cache = snd (get_initialize_inputs base [])
   in dict_keys (own_inputs derived) = [''key''] \<and> fst (get_initialize_inputs derived cache) = demo_init"
proof -
  let ?b = "demo_class ''Base'' [] demo_init" and ?c = "demo_class ''Derived'' [''Base''] [(''key'', demo_param NoAnnotation NoDefault)]"
  have b: "get_initialize_inputs ?b [] = (demo_init, [(''Base'', demo_init)])"
    by (simp add: get_initialize_inputs_def cached_inputs_def class_attribute_def own_inputs_def demo_class_def demo_init_def dict_has_def)
  have "demo_init \<noteq> []" "tc_bases ?c = tc_name ?b # tc_bases ?b" "\<not> dict_has (tc_name ?c) [(''Base'', demo_init)]"
    by (simp_all add: demo_init_def demo_class_def dict_has_def)
  note inherited = initialize_inputs_inherited [OF b this]
  have "snd (get_initialize_inputs ?b []) = [(''Base'', demo_init)]" by (simp only: b snd_conv)
  moreover have "dict_keys (own_inputs ?c) = [''key'']" by (simp add: own_inputs_def demo_class_def)
  ultimately show ?thesis unfolding Let_def using inherited by simp
qed

section \<open>The inputs of a prompt\<close>

text \<open>A prompt tool has the undeclared variables of its template as inputs, in the order of their first occurrence;
  it exists exactly when none of them is reserved.\<close>

lemma prompt_tool_inputs:
  assumes "te_undeclared te content = Inr vs" "distinct vs" "to_raise = (if prompt_only then [''template''] else reserved)"
  shows "(\<exists>t. generate_prompt_tool te reserved name content prompt_only source = Inr t) \<longleftrightarrow> set vs \<inter> set to_raise = {}"
    and "generate_prompt_tool te reserved name content prompt_only source = Inr t \<Longrightarrow>
      mset (dict_keys (tool_inputs t)) = mset vs \<and> sorted (map (str_find content) (dict_keys (tool_inputs t))) \<and>
      dict_values (tool_inputs t) = replicate (length vs) string_input"
proof -
  let ?vs = "sort_key (str_find content) vs"
  have ins: "get_inputs_for_prompt_template te content = Inr ?vs" by (simp add: get_inputs_for_prompt_template_def assms(1))
  have found: "find (\<lambda>i. i \<in> set to_raise) ?vs = None \<longleftrightarrow> set vs \<inter> set to_raise = {}" by (auto simp: find_None_iff)
  show "(\<exists>t. generate_prompt_tool te reserved name content prompt_only source = Inr t) \<longleftrightarrow> set vs \<inter> set to_raise = {}"
    unfolding found [symmetric] by (simp add: generate_prompt_tool_def ins assms(3) Let_def split: option.split)
  assume "generate_prompt_tool te reserved name content prompt_only source = Inr t"
  then have "tool_inputs t = dict_of (map (\<lambda>i. (i, string_input)) ?vs)"
    by (auto simp: generate_prompt_tool_def ins Let_def split: option.splits)
  moreover have "dict_of (map (\<lambda>i. (i, string_input)) ?vs) = map (\<lambda>i. (i, string_input)) ?vs"
    using assms(2) by (intro dict_of_distinct) (simp add: comp_def)
  ultimately have "tool_inputs t = map (\<lambda>i. (i, string_input)) ?vs" by simp
  then show "mset (dict_keys (tool_inputs t)) = mset vs \<and> sorted (map (str_find content) (dict_keys (tool_inputs t))) \<and>
      dict_values (tool_inputs t) = replicate (length vs) string_input"
    by (simp add: comp_def map_replicate_const sorted_sort_key)
qed

end
