(* ===== verification/Json.thy ===== *)
theory Json imports Cache begin

text \<open>
  \<open>json.dumps\<close> of the standard library on plain data, and the proof that \<open>json.loads\<close> reads it back: what the local
  store of connections rests on.
\<close>

fun json_write :: "pyval \<Rightarrow> string" where
  "json_write PNone = ''null''"
| "json_write (PBool b) = (if b then ''true'' else ''false'')"
| "json_write (PInt i) = int_str i"
| "json_write (PFloat f) = (case f of Inf neg \<Rightarrow> if neg then ''-Infinity'' else ''Infinity'' | NaN \<Rightarrow> ''NaN'' | _ \<Rightarrow> repr_float f)"
| "json_write (PStr s) = [CHR 0x22] @ json_text s @ [CHR 0x22]"
| "json_write (PSecret s) = [CHR 0x22] @ json_text s @ [CHR 0x22]"
| "json_write (PPrompt s) = [CHR 0x22] @ json_text s @ [CHR 0x22]"
| "json_write (PList vs) = ''['' @ join '', '' (map json_write vs) @ '']''"
| "json_write (PTuple vs) = ''['' @ join '', '' (map json_write vs) @ '']''"
| "json_write (PDict d) =
    [CHR 0x7B] @ join '', '' (map (\<lambda>kv. [CHR 0x22] @ json_text (fst kv) @ [CHR 0x22] @ '': '' @ json_write (snd kv)) d) @ [CHR 0x7D]"
| "json_write _ = []"

definition json_dumps :: "pyval \<Rightarrow> string res" where
  "json_dumps v =
    (if json_ok v then Inr (json_write v) else Inl (py_exn TypeError [PStr ''Object is not JSON serializable'']))"

text \<open>The values that come back as they were: texts, integers, truth values, and lists and dictionaries of them.\<close>

fun json_plain :: "pyval \<Rightarrow> bool" where
  "json_plain PNone = True"
| "json_plain (PBool b) = True"
| "json_plain (PInt i) = True"
| "json_plain (PStr s) = True"
| "json_plain (PList vs) = list_all json_plain vs"
| "json_plain (PDict d) = (distinct (map fst d) \<and> list_all (\<lambda>kv. json_plain (snd kv)) d)"
| "json_plain _ = False"

lemma json_plain_ok: "json_plain v \<Longrightarrow> json_ok v"
  by (induction v) (auto simp: list_all_iff)

section \<open>Reading numbers back\<close>

text \<open>What follows a value inside a list or a dictionary.\<close>

definition stop :: "string \<Rightarrow> bool" where
  "stop s \<longleftrightarrow> s = [] \<or> hd s \<in> {CHR '','', CHR '']'', CHR 0x7D}"

lemma stop_simps [simp]: "stop []" "stop (CHR '','' # s)" "stop (CHR '']'' # s)" "stop (CHR 0x7D # s)"
  by (simp_all add: stop_def)

lemma nat_str_zero: "hd (nat_str n) = CHR ''0'' \<longleftrightarrow> n = 0"
proof (induction n rule: nat_str.induct)
  case (1 n)
  have digit: "digit_char d = CHR ''0'' \<longleftrightarrow> d = 0" if "d < 10" for d
  proof -
    have "digit_char 0 = CHR ''0''" "digit_val (CHR ''0'') = 0" by code_simp+
    then show ?thesis using digit_char_inverse [OF that] by metis
  qed
  show ?case
  proof (cases "n < 10")
    case True
    then show ?thesis by (simp add: nat_str.simps [of n] digit)
  next
    case False
    with 1 have "hd (nat_str (n div 10)) \<noteq> CHR ''0''" by simp
    then show ?thesis using False nat_str_digits [of "n div 10"] by (simp add: nat_str.simps [of n])
  qed
qed

lemma read_digits:
  assumes "stop rest"
  shows "takeWhile is_digit (nat_str n @ rest) = nat_str n" "dropWhile is_digit (nat_str n @ rest) = rest"
proof -
  have "rest = [] \<or> \<not> is_digit (hd rest)" using assms by (auto simp: stop_def is_digit_def)
  from takeWhile_all_then [of is_digit "nat_str n", OF _ this] nat_str_digits [of n]
  show "takeWhile is_digit (nat_str n @ rest) = nat_str n" "dropWhile is_digit (nat_str n @ rest) = rest" by simp_all
qed

lemma no_fraction: "stop rest \<Longrightarrow> (case rest of c # d # r \<Rightarrow> if c = CHR ''.'' \<and> is_digit d then A d r else B | _ \<Rightarrow> B) = B"
  by (auto simp: stop_def split: list.split)

lemma no_exponent: "stop rest \<Longrightarrow> (case rest of c # r \<Rightarrow> if c = CHR ''e'' \<or> c = CHR ''E'' then A r else B | [] \<Rightarrow> B) = B"
  by (auto simp: stop_def split: list.split)

lemma json_number_nat:
  assumes "stop rest"
  shows "json_number (nat_str n @ rest) = Some (PInt (int n), rest)"
    and "json_number (CHR ''-'' # nat_str n @ rest) = Some (PInt (- int n), rest)"
proof -
  obtain c cs where s: "nat_str n = c # cs" "is_digit c" using nat_str_head by blast
  then have sign: "(case nat_str n @ rest of c # r \<Rightarrow> if c = CHR ''-'' then (- 1, r) else (1, nat_str n @ rest)
      | [] \<Rightarrow> (1 :: int, nat_str n @ rest)) = (1, nat_str n @ rest)" by auto
  have zero: "\<not> (nat_str n = [] \<or> hd (nat_str n) = CHR ''0'' \<and> tl (nat_str n) \<noteq> [])"
    using nat_str_zero [of n] s(1) by (auto simp: nat_str.simps [of 0])
  note parts = read_digits [OF assms, of n] no_fraction [OF assms] no_exponent [OF assms] zero
  show "json_number (nat_str n @ rest) = Some (PInt (int n), rest)"
    unfolding json_number_def sign by (simp only: Let_def prod.case parts) simp
  show "json_number (CHR ''-'' # nat_str n @ rest) = Some (PInt (- int n), rest)"
    unfolding json_number_def by (simp only: Let_def prod.case parts list.case if_True simp_thms) (simp add: parts)
qed

section \<open>Reading values back\<close>

definition no_space :: "string \<Rightarrow> bool" where
  "no_space s \<longleftrightarrow> s \<noteq> [] \<and> (of_char (hd s) :: nat) > 32"

lemma skip_ws_none: "no_space s \<Longrightarrow> skip_ws (s @ r) = s @ r"
  by (cases s) (auto simp: no_space_def skip_ws_def)

lemma skip_ws_simps [simp]:
  "skip_ws (CHR '' '' # s) = skip_ws s" "skip_ws (CHR '','' # s) = CHR '','' # s" "skip_ws (CHR '']'' # s) = CHR '']'' # s"
  "skip_ws (CHR 0x7D # s) = CHR 0x7D # s" "skip_ws (CHR 0x22 # s) = CHR 0x22 # s" "skip_ws (CHR '':'' # s) = CHR '':'' # s"
  "skip_ws [] = []"
  by (simp_all add: skip_ws_def)

lemma int_str_head: "\<exists>c cs. int_str i = c # cs \<and> (is_digit c \<or> c = CHR ''-'')"
  using nat_str_head [of "nat i"] by (auto simp: int_str_def)

lemma write_no_space: "json_plain v \<Longrightarrow> no_space (json_write v) \<and> hd (json_write v) \<noteq> CHR '']''"
proof (cases v)
  case (PInt i)
  obtain c cs where "int_str i = c # cs" "is_digit c \<or> c = CHR ''-''" using int_str_head by blast
  with PInt show ?thesis by (auto simp: no_space_def is_digit_def Let_def)
qed (auto simp: no_space_def)

lemma json_value_number:
  assumes "c = CHR ''-'' \<and> (\<exists>d r'. r = d # r' \<and> is_digit d) \<or> is_digit c"
  shows "json_value (Suc n) (c # r) = json_number (c # r)"
  using assms
proof
  assume "is_digit c"
  then have "c \<noteq> CHR 0x22 \<and> c \<noteq> CHR ''['' \<and> c \<noteq> CHR 0x7B \<and> c \<noteq> CHR ''n'' \<and> c \<noteq> CHR ''t'' \<and> c \<noteq> CHR ''f'' \<and>
      c \<noteq> CHR ''N'' \<and> c \<noteq> CHR ''I'' \<and> c \<noteq> CHR ''-''" by (auto simp: is_digit_def)
  then show ?thesis by simp
next
  assume "c = CHR ''-'' \<and> (\<exists>d r'. r = d # r' \<and> is_digit d)"
  then obtain d r' where c: "c = CHR ''-''" "r = d # r'" "is_digit d" by blast
  then have "d \<noteq> CHR ''I''" by (auto simp: is_digit_def)
  with c(1,2) show ?thesis by simp
qed

lemma json_value_int:
  assumes "stop rest"
  shows "json_value (Suc n) (int_str i @ rest) = Some (PInt i, rest)"
proof -
  obtain c cs where s: "nat_str (nat (if i < 0 then - i else i)) = c # cs" "is_digit c" using nat_str_head by blast
  show ?thesis
  proof (cases "i < 0")
    case True
    with s have "json_value (Suc n) (int_str i @ rest) = json_number (CHR ''-'' # nat_str (nat (- i)) @ rest)"
      unfolding int_str_def by (simp only: if_True append_Cons, intro json_value_number) simp
    with True show ?thesis by (simp add: json_number_nat [OF assms])
  next
    case False
    with s have "json_value (Suc n) (int_str i @ rest) = json_number (nat_str (nat i) @ rest)"
      unfolding int_str_def by (simp only: if_False append_Cons, intro json_value_number) simp
    with False show ?thesis by (simp add: json_number_nat [OF assms])
  qed
qed

text \<open>Items and members, given that each value is read back with the length of its text as fuel.\<close>

definition reads_back :: "pyval \<Rightarrow> bool" where
  "reads_back v \<longleftrightarrow> no_space (json_write v) \<and>
     (\<forall>rest n. stop rest \<longrightarrow> length (json_write v) \<le> n \<longrightarrow> json_value n (json_write v @ rest) = Some (v, rest))"

lemma json_items_write:
  assumes "vs \<noteq> []" "\<forall>v\<in>set vs. reads_back v" "length (join '', '' (map json_write vs)) < n"
  shows "json_items n (join '', '' (map json_write vs) @ CHR '']'' # rest) = Some (vs, rest)"
  using assms
proof (induction vs arbitrary: n)
  case (Cons v vs)
  obtain m where n: "n = Suc m" using Cons.prems(3) by (cases n) auto
  show ?case
  proof (cases vs)
    case Nil
    with Cons.prems n show ?thesis by (simp add: reads_back_def)
  next
    case (Cons v' vs')
    let ?tail = "join '', '' (map json_write vs)"
    have v: "json_value m (json_write v @ CHR '','' # CHR '' '' # ?tail @ CHR '']'' # rest) = Some (v, CHR '','' # CHR '' '' # ?tail @ CHR '']'' # rest)"
      using Cons.prems n Cons by (simp add: reads_back_def)
    have "no_space ?tail" using Cons.prems(2) Cons by (cases vs') (auto simp: reads_back_def no_space_def)
    then have ws: "skip_ws (?tail @ CHR '']'' # rest) = ?tail @ CHR '']'' # rest" by (rule skip_ws_none)
    have "json_items m (?tail @ CHR '']'' # rest) = Some (vs, rest)"
      using Cons.prems n Cons by (intro Cons.IH) auto
    then show ?thesis using v ws n Cons by simp
  qed
qed simp

lemma json_members_write:
  assumes "d \<noteq> []" "\<forall>kv\<in>set d. reads_back (snd kv)"
    and "m = (\<lambda>kv. [CHR 0x22] @ json_text (fst kv) @ [CHR 0x22] @ '': '' @ json_write (snd kv))" "length (join '', '' (map m d)) < n"
  shows "json_members n (join '', '' (map m d) @ CHR 0x7D # rest) = Some (d, rest)"
  using assms(1,2,4)
proof (induction d arbitrary: n)
  case (Cons kv d)
  obtain k v where kv: "kv = (k, v)" by force
  obtain l where n: "n = Suc l" using Cons.prems(3) by (cases n) auto
  have reread: "json_value l (json_write v @ r) = Some (v, r)" if "stop r" for r
    using Cons.prems n that by (cases d) (auto simp: reads_back_def kv assms(3))
  have ws: "skip_ws (json_write v @ r) = json_write v @ r" for r
    using Cons.prems(2) by (intro skip_ws_none) (simp add: kv reads_back_def)
  show ?case
  proof (cases d)
    case Nil
    then show ?thesis by (simp add: n kv assms(3) json_string_text reread ws)
  next
    case (Cons kv' d')
    have "json_members l (join '', '' (map m d) @ CHR 0x7D # rest) = Some (d, rest)"
      using Cons.prems n Cons by (intro Cons.IH) auto
    moreover have "no_space (join '', '' (map m d))" using Cons by (cases d') (auto simp: no_space_def assms(3))
    then have "skip_ws (join '', '' (map m d) @ CHR 0x7D # rest) = join '', '' (map m d) @ CHR 0x7D # rest" by (rule skip_ws_none)
    moreover have "join '', '' (map m (kv # d)) = CHR 0x22 # json_text k @ CHR 0x22 # CHR '':'' # CHR '' '' # json_write v @ '', '' @ join '', '' (map m d)"
      using Cons by (simp add: kv assms(3))
    ultimately show ?thesis by (simp add: n kv json_string_text reread ws)
  qed
qed simp

lemma write_reads_back: "json_plain v \<Longrightarrow> reads_back v"
proof (induction v)
  case (PList vs)
  have head: "no_space (json_write (PList vs))" by (simp add: no_space_def)
  have "json_value n (json_write (PList vs) @ rest) = Some (PList vs, rest)" if n: "length (json_write (PList vs)) \<le> n" for rest n
  proof (cases vs)
    case Nil
    with n show ?thesis by (cases n) simp_all
  next
    case (Cons v vs')
    let ?s = "join '', '' (map json_write vs)"
    obtain m where m: "n = Suc m" "length ?s < m" using n by (cases n) auto
    have ok: "\<forall>v\<in>set vs. reads_back v" using PList by (auto simp: list_all_iff)
    then have "no_space ?s" using Cons by (cases vs') (auto simp: reads_back_def no_space_def)
    then have ws: "skip_ws (?s @ CHR '']'' # rest) = ?s @ CHR '']'' # rest" by (rule skip_ws_none)
    have "hd (json_write v) \<noteq> CHR '']''" "json_write v \<noteq> []"
      using PList.prems Cons write_no_space [of v] by (auto simp: no_space_def)
    then have "hd (?s @ CHR '']'' # rest) \<noteq> CHR '']''" using Cons by (cases vs') (auto simp: hd_append)
    with m ws json_items_write [OF _ ok m(2), of rest] Cons show ?thesis by simp
  qed
  with head show ?case by (simp add: reads_back_def)
next
  case (PDict d)
  let ?m = "\<lambda>kv. [CHR 0x22] @ json_text (fst kv) @ [CHR 0x22] @ '': '' @ json_write (snd kv)"
  have head: "no_space (json_write (PDict d))" by (simp add: no_space_def)
  have "json_value n (json_write (PDict d) @ rest) = Some (PDict d, rest)" if n: "length (json_write (PDict d)) \<le> n" for rest n
  proof (cases d)
    case Nil
    with n show ?thesis by (cases n) simp_all
  next
    case (Cons kv d')
    let ?s = "join '', '' (map ?m d)"
    obtain m where m: "n = Suc m" "length ?s < m" using n by (cases n) auto
    have ok: "\<forall>kv\<in>set d. reads_back (snd kv)" using PDict by (fastforce simp: list_all_iff)
    have first: "no_space ?s" "hd ?s = CHR 0x22" using Cons by (cases d'; simp add: no_space_def)+
    have ws: "skip_ws (?s @ CHR 0x7D # rest) = ?s @ CHR 0x7D # rest" using first(1) by (rule skip_ws_none)
    have "hd (?s @ CHR 0x7D # rest) \<noteq> CHR 0x7D" using first by (simp add: hd_append no_space_def)
    moreover have "dict_of d = d" using PDict.prems by (intro dict_of_distinct) simp
    ultimately show ?thesis using m ws json_members_write [OF _ ok refl m(2), of rest] Cons by simp
  qed
  with head show ?case by (simp add: reads_back_def)
next
  case (PStr s)
  have "json_value n (json_write (PStr s) @ rest) = Some (PStr s, rest)" if "length (json_write (PStr s)) \<le> n" for rest n
    using that by (cases n) (simp_all add: json_string_text)
  then show ?case by (simp add: reads_back_def no_space_def)
next
  case (PInt i)
  have "json_value n (int_str i @ rest) = Some (PInt i, rest)" if "stop rest" "length (int_str i) \<le> n" for rest n
    using that int_str_head [of i] json_value_int [OF that(1)] by (cases n) auto
  then show ?case using write_no_space [of "PInt i"] by (simp add: reads_back_def)
next
  case PNone
  have "json_value n (''null'' @ rest) = Some (PNone, rest)" if "4 \<le> n" for rest n using that by (cases n) auto
  then show ?case by (simp add: reads_back_def no_space_def)
next
  case (PBool b)
  have "json_value n (''true'' @ rest) = Some (PBool True, rest)" "json_value n (''false'' @ rest) = Some (PBool False, rest)"
    if "4 \<le> n" for rest n using that by (cases n; auto)+
  then show ?case by (simp add: reads_back_def no_space_def)
qed simp_all

theorem json_roundtrip:
  assumes "json_plain v"
  shows "bindr (json_dumps v) json_loads = Inr v"
proof -
  have r: "reads_back v" using assms by (rule write_reads_back)
  have "stop []" "length (json_write v) \<le> 2 * length (json_write v) + 2" by simp_all
  with r have "json_value (2 * length (json_write v) + 2) (json_write v @ []) = Some (v, [])" unfolding reads_back_def by blast
  moreover have "skip_ws (json_write v) = json_write v" using r skip_ws_none [of "json_write v" "[]"] by (simp add: reads_back_def)
  ultimately show ?thesis using json_plain_ok [OF assms] by (simp add: json_dumps_def json_loads_def del: json_value.simps)
qed

end
