(* ===== verification/Connections.thy ===== *)
theory Connections imports Json ToolInterface begin

text \<open>
  Connections of the SDK (\<^verbatim>\<open>_sdk/entities/_connection.py\<close>): their classes and constructors, the dictionary the executor
  gets, the key that encrypts secrets (\<^verbatim>\<open>_sdk/_utils.py\<close>), and the local store (\<^verbatim>\<open>_sdk/_orm/connection.py\<close>,
  \<^verbatim>\<open>_sdk/operations/_connection_operations.py\<close>). The cipher and the keyring of the operating system are parameters.
\<close>

section \<open>The encryption key\<close>

definition sdk_error :: "string \<Rightarrow> msg \<Rightarrow> exn" where
  "sdk_error name m = pf_exn (UserClass name (Pf PromptflowException)) m UNKNOWN"

text \<open>
  The two globals that hold a key, and whether the process holds the file lock. The keyring is shared by all
  processes: what it answers the first and the second time can differ. \<open>kr_set\<close> is what storing a key gives.
\<close>

record key_state =
  ks_customized :: "string option"
  ks_in_key_ring :: "string option"
  ks_locked :: bool

record keyring =
  kr_first :: "string option res"
  kr_second :: "string option res"
  kr_generated :: string
  kr_set :: "unit res"

definition set_customized_key :: "string option \<Rightarrow> key_state \<Rightarrow> key_state" where
  "set_customized_key k st = st\<lparr>ks_customized := k\<rparr>"

text \<open>A body that runs with a customized key. Nothing resets the key when the body raises.\<close>

definition use_customized_encryption_key ::
  "string option \<Rightarrow> (key_state \<Rightarrow> 'a res \<times> key_state) \<Rightarrow> key_state \<Rightarrow> 'a res \<times> key_state" where
  "use_customized_encryption_key k body st =
    (case body (set_customized_key k st) of
       (Inl e, st') \<Rightarrow> (Inl e, st')
     | (Inr x, st') \<Rightarrow> (Inr x, set_customized_key None st'))"

definition no_keyring :: "exn \<Rightarrow> bool" where
  "no_keyring e = (case ex_class (ex e) of UserClass n b \<Rightarrow> n = ''NoKeyringError'' | _ \<Rightarrow> False)"

definition keyring_missing :: string where
  "keyring_missing = ''System keyring backend service not found in your operating system. '' @
     ''See https://pypi.org/project/keyring/ to install requirement for different operating system, '' @
     ''or 'pip install keyrings.alt' to use the third-party backend. Reach more detail about this error at'' @
     ''https://microsoft.github.io/promptflow/how-to-guides/faq.html#connection-creation-failed-with-storeconnectionencryptionkeyerror''"

definition get_from_keyring :: "string option res \<Rightarrow> string option res" where
  "get_from_keyring answer =
    (case answer of
       Inr k \<Rightarrow> Inr k
     | Inl e \<Rightarrow> if no_keyring e
         then Inl (raise_from (sdk_error ''StoreConnectionEncryptionKeyError''
           [PStr keyring_missing]) e)
         else Inl e)"

definition get_encryption_key :: "keyring \<Rightarrow> bool \<Rightarrow> key_state \<Rightarrow> string option res \<times> key_state" where
  "get_encryption_key kr generate st =
    (if ks_customized st \<noteq> None then (Inr (ks_customized st), st)
     else if ks_in_key_ring st \<noteq> None then (Inr (ks_in_key_ring st), st)
     else (case get_from_keyring (kr_first kr) of
         Inl e \<Rightarrow> (Inl e, st)
       | Inr k \<Rightarrow>
          if k \<noteq> None \<or> \<not> generate then (Inr k, st\<lparr>ks_in_key_ring := k\<rparr>)
          else (let st1 = st\<lparr>ks_in_key_ring := k, ks_locked := True\<rparr> in
            case get_from_keyring (kr_second kr) of
              Inl e \<Rightarrow> (Inl e, st1)
            | Inr k2 \<Rightarrow>
               if k2 \<noteq> None then (Inr k2, st1\<lparr>ks_in_key_ring := k2\<rparr>)
               else (let st2 = st1\<lparr>ks_in_key_ring := Some (kr_generated kr), ks_locked := False\<rparr> in
                 case kr_set kr of
                   Inl e \<Rightarrow> (Inl e, st2)
                 | Inr _ \<Rightarrow> (Inr (Some (kr_generated kr)), st2)))))"

text \<open>The cipher: taking a key, which raises for a malformed one, and encrypting or decrypting a text with it.\<close>

record cipher =
  ci_open :: "string \<Rightarrow> unit res"
  ci_encrypt :: "string \<Rightarrow> string \<Rightarrow> string res"
  ci_decrypt :: "string \<Rightarrow> string \<Rightarrow> string res"

text \<open>
  Encrypting looks up the key each time. A lookup that has returned a key returns it again without changing the
  state (\<open>encryption_key_stable\<close>), so the key is looked up once for the secrets of one connection below.
\<close>

definition encode_utf8 :: "pyval \<Rightarrow> string res" where
  "encode_utf8 v = (case as_str v of Some s \<Rightarrow> Inr s | None \<Rightarrow> Inl (py_exn AttributeError [PStr ''encode'']))"

definition encrypt_secret_value :: "cipher \<Rightarrow> string \<Rightarrow> pyval \<Rightarrow> pyval res" where
  "encrypt_secret_value ci key v =
     bindr (ci_open ci key) (\<lambda>_. bindr (encode_utf8 v) (\<lambda>s. bindr (ci_encrypt ci key s) (\<lambda>t. Inr (PStr t))))"

definition py_len :: "pyval \<Rightarrow> nat res" where
  "py_len v = (case v of
       PList xs \<Rightarrow> Inr (length xs)
     | PDict d \<Rightarrow> Inr (length d)
     | _ \<Rightarrow> (case as_str v of Some s \<Rightarrow> Inr (length s) | None \<Rightarrow> Inl (py_exn TypeError [PStr ''object has no len()''])))"

definition decrypt_secret_value :: "pyenv \<Rightarrow> cipher \<Rightarrow> string option \<Rightarrow> pyval \<Rightarrow> pyval \<Rightarrow> pyval res" where
  "decrypt_secret_value env ci key name v =
    (case key of
       None \<Rightarrow> Inl (py_exn Exception [PStr ''Encryption key not found in keyring.''])
     | Some k \<Rightarrow> bindr (ci_open ci k) (\<lambda>_.
         (case bindr (encode_utf8 v) (ci_decrypt ci k) of
            Inr s \<Rightarrow> Inr (PStr s)
          | Inl e \<Rightarrow> bindr (py_len v) (\<lambda>n.
             if n < 57 then Inl (sdk_error ''UnsecureConnectionError''
               [PStr ''Please delete and re-create connection '', name, PStr '' due to a security issue in the old sdk version.''])
             else bindr (message env e) (\<lambda>s. Inl (sdk_error ''DecryptConnectionError''
               [PStr ''Decrypt connection '', name, PStr '' secret failed: '', PStr s,
                PStr ''. If you have ever changed your encryption key manually, '',
                PStr ''please revert it back to the original one, or delete all connections and re-create them.'']))))))"

section \<open>Connection types\<close>

datatype connection_type =
  NOT_SET | AZURE_OPEN_AI | OPEN_AI | QDRANT | COGNITIVE_SEARCH | SERP | AZURE_CONTENT_SAFETY | FORM_RECOGNIZER
  | WEAVIATE | CUSTOM

fun connection_type_value :: "connection_type \<Rightarrow> string" where
  "connection_type_value NOT_SET = ''NotSet''"
| "connection_type_value AZURE_OPEN_AI = ''AzureOpenAI''"
| "connection_type_value OPEN_AI = ''OpenAI''"
| "connection_type_value QDRANT = ''Qdrant''"
| "connection_type_value COGNITIVE_SEARCH = ''CognitiveSearch''"
| "connection_type_value SERP = ''Serp''"
| "connection_type_value AZURE_CONTENT_SAFETY = ''AzureContentSafety''"
| "connection_type_value FORM_RECOGNIZER = ''FormRecognizer''"
| "connection_type_value WEAVIATE = ''Weaviate''"
| "connection_type_value CUSTOM = ''Custom''"

definition supported_types :: "connection_type list" where
  "supported_types = [AZURE_OPEN_AI, OPEN_AI, SERP, QDRANT, WEAVIATE, COGNITIVE_SEARCH, AZURE_CONTENT_SAFETY,
     FORM_RECOGNIZER, CUSTOM]"

definition is_lower :: "char \<Rightarrow> bool" where
  "is_lower c = (let n = (of_char c :: nat) in 97 \<le> n \<and> n \<le> 122)"

definition upper_char :: "char \<Rightarrow> char" where
  "upper_char c = char_of ((of_char c :: nat) - 32)"

fun camel_rest :: "string \<Rightarrow> string" where
  "camel_rest (c # d # s) = (if c = CHR ''_'' \<and> is_lower d then upper_char d # camel_rest s else c # camel_rest (d # s))"
| "camel_rest s = s"

definition snake_to_camel :: "string \<Rightarrow> string" where
  "snake_to_camel s = (case s of c # r \<Rightarrow> if is_lower c then upper_char c # camel_rest r else camel_rest s | [] \<Rightarrow> [])"

definition casting_type :: "string \<Rightarrow> string" where
  "casting_type s =
    (if s = ''azure_open_ai'' then connection_type_value AZURE_OPEN_AI
     else if s = ''open_ai'' then connection_type_value OPEN_AI else snake_to_camel s)"

definition find_type_in_override :: "(string, pyval) dict list \<Rightarrow> pyval" where
  "find_type_in_override overrides =
    (case find (dict_has ''type'') overrides of Some d \<Rightarrow> dict_get d ''type'' PNone | None \<Rightarrow> PNone)"

definition resolve_cls_and_type ::
  "(string, pyval) dict \<Rightarrow> (string, pyval) dict list \<Rightarrow> connection_type res" where
  "resolve_cls_and_type data overrides =
    (case py_or (find_type_in_override overrides) (dict_get data ''type'' PNone) of
       PNone \<Rightarrow> Inl (py_exn ValueError [PStr ''type is required for connection.''])
     | v \<Rightarrow> (case as_str v of
         None \<Rightarrow> Inl outside_model
       | Some s \<Rightarrow> (case find (\<lambda>t. connection_type_value t = casting_type s) supported_types of
           Some t \<Rightarrow> Inr t
         | None \<Rightarrow> Inl (py_exn ValueError [PStr ''connection_type '', PStr (repr_str (casting_type s)), PStr '' is not supported. Supported types are: '',
             PList (map (\<lambda>t. PStr (connection_type_value t)) supported_types)]))))"

section \<open>Constructors\<close>

record connection =
  cn_type :: connection_type
  cn_name :: pyval
  cn_module :: pyval
  cn_configs :: "(string, pyval) dict"
  cn_secrets :: "(string, pyval) dict"
  cn_unscrubbed :: "(string, pyval) dict"
  cn_expiry_time :: pyval
  cn_created_date :: pyval
  cn_last_modified_date :: pyval

definition cn_class_name :: "connection \<Rightarrow> string" where
  "cn_class_name c = connection_type_value (cn_type c) @ ''Connection''"

text \<open>The parameters that become the configs of a strongly typed connection, with their defaults.\<close>

type_synonym params = "(string \<times> pyval option) list"

definition azure_open_ai_params :: params where
  "azure_open_ai_params = [(''api_base'', None), (''api_type'', Some (PStr ''azure'')),
     (''api_version'', Some (PStr ''2023-07-01-preview''))]"

definition open_ai_params :: params where
  "open_ai_params = [(''organization'', Some PNone)]"

definition embedding_store_params :: params where
  "embedding_store_params = [(''api_base'', None)]"

definition cognitive_search_params :: params where
  "cognitive_search_params = [(''api_base'', None), (''api_version'', Some (PStr ''2023-07-01-Preview''))]"

definition content_safety_params :: params where
  "content_safety_params = [(''endpoint'', None), (''api_version'', Some (PStr ''2023-04-30-preview'')),
     (''api_type'', Some (PStr ''Content Safety''))]"

definition form_recognizer_params :: params where
  "form_recognizer_params = [(''endpoint'', None), (''api_version'', Some (PStr ''2023-07-31'')),
     (''api_type'', Some (PStr ''Form Recognizer''))]"

lemmas params_defs = azure_open_ai_params_def open_ai_params_def embedding_store_params_def cognitive_search_params_def
  content_safety_params_def form_recognizer_params_def

fun strong_params :: "connection_type \<Rightarrow> params" where
  "strong_params AZURE_OPEN_AI = azure_open_ai_params"
| "strong_params OPEN_AI = open_ai_params"
| "strong_params SERP = []"
| "strong_params QDRANT = embedding_store_params"
| "strong_params WEAVIATE = embedding_store_params"
| "strong_params COGNITIVE_SEARCH = cognitive_search_params"
| "strong_params AZURE_CONTENT_SAFETY = content_safety_params"
| "strong_params FORM_RECOGNIZER = form_recognizer_params"
| "strong_params _ = []"

definition take_args :: "(string \<times> pyval option) list \<Rightarrow> (string, pyval) dict \<Rightarrow> (string, pyval) dict res" where
  "take_args params kwargs =
     mapr (\<lambda>(k, dflt). case map_of kwargs k of
         Some v \<Rightarrow> Inr (k, v)
       | None \<Rightarrow> (case dflt of Some v \<Rightarrow> Inr (k, v)
           | None \<Rightarrow> Inl (py_exn TypeError [PStr (''missing 1 required positional argument: '' @ k)]))) params"

text \<open>\<open>_Connection.__init__\<close> with the arguments its subclass passes and the keywords it hands on.\<close>

definition dict_or_empty :: "pyval \<Rightarrow> (string, pyval) dict res" where
  "dict_or_empty v = (if truthy v then (case v of PDict d \<Rightarrow> Inr d | _ \<Rightarrow> Inl outside_model) else Inr [])"

definition base_connection ::
  "connection_type \<Rightarrow> (string, pyval) dict \<Rightarrow> (string, pyval) dict \<Rightarrow> connection res" where
  "base_connection t explicit kwargs =
    (if list_ex (\<lambda>k. dict_has k explicit) (dict_keys kwargs)
     then Inl (py_exn TypeError [PStr ''got multiple values for keyword argument''])
     else (let kw = explicit @ kwargs in
       bindr (dict_or_empty (dict_get kw ''configs'' PNone)) (\<lambda>configs.
       bindr (dict_or_empty (dict_get kw ''secrets'' PNone)) (\<lambda>secrets.
         Inr \<lparr>cn_type = t, cn_name = dict_get kw ''name'' (PStr ''default_connection''),
              cn_module = dict_get kw ''module'' (PStr ''promptflow.connections''), cn_configs = configs,
              cn_secrets = secrets, cn_unscrubbed = secrets, cn_expiry_time = dict_get kw ''expiry_time'' PNone,
              cn_created_date = dict_get kw ''created_date'' PNone,
              cn_last_modified_date = dict_get kw ''last_modified_date'' PNone\<rparr>))))"

definition embedding_module :: "connection_type \<Rightarrow> (string, pyval) dict" where
  "embedding_module t = (if t \<in> {QDRANT, WEAVIATE} then [(''module'', PStr ''promptflow_vectordb.connections'')] else [])"

definition strong_connection :: "connection_type \<Rightarrow> (string, pyval) dict \<Rightarrow> connection res" where
  "strong_connection t kwargs =
    bindr (take_args [(''api_key'', None)] kwargs) (\<lambda>secrets.
    bindr (take_args (strong_params t) kwargs) (\<lambda>configs.
      base_connection t
        (embedding_module t @ (if t = SERP then [] else [(''configs'', PDict configs)]) @ [(''secrets'', PDict secrets)])
        (filter (\<lambda>(k, v). k \<noteq> ''api_key'' \<and> k \<notin> set (dict_keys configs)) kwargs)))"

definition custom_connection :: "(string, pyval) dict \<Rightarrow> connection res" where
  "custom_connection kwargs =
    bindr (take_args [(''secrets'', None), (''configs'', Some PNone)] kwargs) (\<lambda>explicit.
      if \<not> truthy (dict_get explicit ''secrets'' PNone)
      then Inl (py_exn ValueError [PStr ''Secrets is required for custom connection, please use CustomConnection(configs={key1: val1}, secrets={key2: val2}) to initialize custom connection.''])
      else base_connection CUSTOM explicit (filter (\<lambda>(k, v). k \<notin> {''secrets'', ''configs''}) kwargs))"

definition new_connection :: "connection_type \<Rightarrow> (string, pyval) dict \<Rightarrow> connection res" where
  "new_connection t kwargs =
    (case t of NOT_SET \<Rightarrow> Inl outside_model | CUSTOM \<Rightarrow> custom_connection kwargs | _ \<Rightarrow> strong_connection t kwargs)"

section \<open>Reading a connection\<close>

text \<open>A value as a message quotes it: other parts than texts are quoted by the formatting itself.\<close>

definition repr_part :: "pyval \<Rightarrow> pyval" where
  "repr_part v = (case as_str v of Some s \<Rightarrow> PStr (repr_str s) | None \<Rightarrow> v)"

definition connection_keys :: "connection \<Rightarrow> string list" where
  "connection_keys c = dict_keys (cn_configs c) @ dict_keys (cn_secrets c)"

definition connection_item :: "connection \<Rightarrow> string \<Rightarrow> pyval res" where
  "connection_item c item =
    (if dict_has item (cn_secrets c) then get_item (cn_secrets c) item
     else if dict_has item (cn_configs c) then get_item (cn_configs c) item
     else Inl (py_exn KeyError [PStr (''Key '' @ repr_str item @ '' not found in connection ''), repr_part (cn_name c), PStr ''.'']))"

section \<open>Secrets\<close>

definition scrubbed_value :: string where
  "scrubbed_value = ''******''"

definition is_scrubbed_value :: "pyval \<Rightarrow> bool" where
  "is_scrubbed_value v =
    (\<not> truthy v \<or> (case as_str v of
       Some s \<Rightarrow> list_all (\<lambda>c. c = CHR ''*'') s \<or> s = ''<no-change>'' | None \<Rightarrow> False))"

definition is_user_input_value :: "pyval \<Rightarrow> bool" where
  "is_user_input_value v = (as_str v = Some ''<user-input>'')"

text \<open>A scrubbed secret stands for the value the connection was made with. Secrets are texts or empty; the test of any other
  value, which goes through its elements, is not modelled.\<close>

definition secret_text :: "pyval \<Rightarrow> bool" where
  "secret_text v = (\<not> truthy v \<or> as_str v \<noteq> None)"

definition effective_secret :: "connection \<Rightarrow> string \<Rightarrow> pyval \<Rightarrow> pyval" where
  "effective_secret c k v = (if is_scrubbed_value v then dict_get (cn_unscrubbed c) k PNone else v)"

definition invalid_secret :: "pyval \<Rightarrow> bool" where
  "invalid_secret v = (is_scrubbed_value v \<or> is_user_input_value v)"

fun encrypt_secret ::
  "cipher \<Rightarrow> string \<Rightarrow> connection \<Rightarrow> string \<times> pyval \<Rightarrow> (string, pyval) dict \<times> string list \<Rightarrow> ((string, pyval) dict \<times> string list) res" where
  "encrypt_secret ci key c (k, v) (encrypted, invalid) =
    (let w = effective_secret c k v in
     if \<not> secret_text v \<or> \<not> secret_text w then Inl outside_model
     else if invalid_secret w then Inr (encrypted, invalid @ [k])
     else bindr (encrypt_secret_value ci key w) (\<lambda>t. Inr (AList.update k t encrypted, invalid)))"

definition validate_and_encrypt_secrets :: "cipher \<Rightarrow> string \<Rightarrow> connection \<Rightarrow> (string, pyval) dict res" where
  "validate_and_encrypt_secrets ci key c =
    bindr (foldr_res (encrypt_secret ci key c) (cn_secrets c) ([], [])) (\<lambda>(encrypted, invalid).
      if invalid \<noteq> []
      then Inl (py_exn ValueError [PStr ''Connection '', repr_part (cn_name c), PStr '' secrets '', PList (map PStr invalid),
        PStr '' value invalid, please fill them.''])
      else Inr encrypted)"

section \<open>Rows of the local database\<close>

record orm_connection =
  orm_name :: pyval
  orm_type :: string
  orm_configs :: string
  orm_custom_configs :: string
  orm_expiry_time :: pyval
  orm_created_date :: pyval
  orm_last_modified_date :: pyval

definition orm_row :: "connection \<Rightarrow> string \<Rightarrow> string \<Rightarrow> orm_connection" where
  "orm_row c configs custom = \<lparr>orm_name = cn_name c, orm_type = connection_type_value (cn_type c), orm_configs = configs,
     orm_custom_configs = custom, orm_expiry_time = cn_expiry_time c, orm_created_date = cn_created_date c,
     orm_last_modified_date = cn_last_modified_date c\<rparr>"

definition typed_config :: "string \<Rightarrow> pyval \<Rightarrow> pyval" where
  "typed_config ty v = PDict [(''configValueType'', PStr ty), (''value'', v)]"

definition to_orm_object :: "cipher \<Rightarrow> string \<Rightarrow> connection \<Rightarrow> orm_connection res" where
  "to_orm_object ci key c =
    bindr (validate_and_encrypt_secrets ci key c) (\<lambda>secrets.
      if cn_type c = CUSTOM then
        bindr (json_dumps (PDict (dict_updates (map (\<lambda>(k, v). (k, typed_config ''String'' v)) (cn_configs c))
            (map (\<lambda>(k, v). (k, typed_config ''Secret'' v)) secrets)))) (\<lambda>custom. Inr (orm_row c ''{}'' custom))
      else bindr (json_dumps (PDict (dict_updates (cn_configs c) secrets))) (\<lambda>configs. Inr (orm_row c configs ''{}'')))"

definition orm_keywords :: "orm_connection \<Rightarrow> (string, pyval) dict" where
  "orm_keywords row = [(''name'', orm_name row), (''expiry_time'', orm_expiry_time row),
     (''created_date'', orm_created_date row), (''last_modified_date'', orm_last_modified_date row)]"

text \<open>Keywords and an unpacked dictionary may not overlap.\<close>

definition call_with :: "(string, pyval) dict \<Rightarrow> (string, pyval) dict \<Rightarrow> ((string, pyval) dict \<Rightarrow> 'a res) \<Rightarrow> 'a res" where
  "call_with kwargs unpacked f =
    (if list_ex (\<lambda>k. dict_has k kwargs) (dict_keys unpacked)
     then Inl (py_exn TypeError [PStr ''got multiple values for keyword argument'']) else f (kwargs @ unpacked))"

definition strong_from_orm :: "pyenv \<Rightarrow> cipher \<Rightarrow> string option \<Rightarrow> connection_type \<Rightarrow> orm_connection \<Rightarrow> connection res" where
  "strong_from_orm env ci key t row =
    bindr (json_loads (orm_configs row)) (\<lambda>v.
    bindr (expect_dict v) (\<lambda>configs.
    bindr (call_with (orm_keywords row) configs (new_connection t)) (\<lambda>c.
    bindr (mapr (\<lambda>(k, v). bindr (decrypt_secret_value env ci key (cn_name c) v) (\<lambda>w. Inr (k, w))) (cn_secrets c)) (\<lambda>secrets.
      Inr (c\<lparr>cn_secrets := secrets, cn_unscrubbed := secrets\<rparr>)))))"

definition config_value_type :: "pyval \<Rightarrow> string res" where
  "config_value_type v = bindr (expect_dict v) (\<lambda>d. bindr (get_item d ''configValueType'') req_string)"

definition config_value :: "pyval \<Rightarrow> pyval res" where
  "config_value v = bindr (expect_dict v) (\<lambda>d. get_item d ''value'')"

definition read_config :: "string \<times> pyval \<Rightarrow> (string \<times> pyval) list res" where
  "read_config kv = bindr (config_value_type (snd kv)) (\<lambda>ty.
     if ty = ''String'' then bindr (config_value (snd kv)) (\<lambda>v. Inr [(fst kv, v)]) else Inr [])"

text \<open>Old secrets were not encrypted; they are taken as they are.\<close>

definition is_unsecure :: "exn \<Rightarrow> bool" where
  "is_unsecure e = (ex_class (ex e) = UserClass ''UnsecureConnectionError'' (Pf PromptflowException))"

definition read_secret :: "pyenv \<Rightarrow> cipher \<Rightarrow> string option \<Rightarrow> pyval \<Rightarrow> string \<times> pyval \<Rightarrow> (string \<times> pyval) list res" where
  "read_secret env ci key name kv = bindr (config_value_type (snd kv)) (\<lambda>ty.
     if ty \<noteq> ''Secret'' then Inr []
     else bindr (config_value (snd kv)) (\<lambda>v.
       case decrypt_secret_value env ci key name v of
         Inr w \<Rightarrow> Inr [(fst kv, w)]
       | Inl e \<Rightarrow> if is_unsecure e then Inr [(fst kv, v)] else Inl e))"

definition custom_from_orm :: "pyenv \<Rightarrow> cipher \<Rightarrow> string option \<Rightarrow> orm_connection \<Rightarrow> connection res" where
  "custom_from_orm env ci key row =
    bindr (json_loads (orm_custom_configs row)) (\<lambda>v.
    bindr (expect_dict v) (\<lambda>d.
    bindr (mapr read_config d) (\<lambda>configs.
    bindr (mapr (read_secret env ci key (orm_name row)) d) (\<lambda>secrets.
      new_connection CUSTOM ((''configs'', PDict (concat configs)) # (''secrets'', PDict (concat secrets)) # orm_keywords row)))))"

definition from_orm_object_with_secrets :: "pyenv \<Rightarrow> cipher \<Rightarrow> string option \<Rightarrow> orm_connection \<Rightarrow> connection res" where
  "from_orm_object_with_secrets env ci key row =
    bindr (resolve_cls_and_type [(''type'', PStr (orm_type row))] []) (\<lambda>t.
      if t = CUSTOM then custom_from_orm env ci key row else strong_from_orm env ci key t row)"

definition from_orm_object :: "pyenv \<Rightarrow> cipher \<Rightarrow> string option \<Rightarrow> orm_connection \<Rightarrow> connection res" where
  "from_orm_object env ci key row =
    bindr (from_orm_object_with_secrets env ci key row) (\<lambda>c.
      Inr (c\<lparr>cn_secrets := map (\<lambda>(k, v). (k, PStr scrubbed_value)) (cn_secrets c)\<rparr>))"

section \<open>The dictionary of the executor\<close>

definition to_execution_connection_dict :: "connection \<Rightarrow> (string, pyval) dict" where
  "to_execution_connection_dict c =
    [(''type'', PStr (cn_class_name c)), (''module'', cn_module c),
     (''value'', PDict (dict_updates (cn_configs c) (cn_secrets c))),
     (''secret_keys'', PList (map PStr (dict_keys (cn_secrets c))))]"

text \<open>The secrets and the configs of a custom connection.\<close>

definition split_custom :: "(string, pyval) dict \<Rightarrow> pyval list \<Rightarrow> (string, pyval) dict \<times> (string, pyval) dict" where
  "split_custom d secret_keys =
    (let secrets = filter (\<lambda>(k, v). list_ex (py_eq (PStr k)) secret_keys) d
     in (filter (\<lambda>(k, v). \<not> dict_has k secrets) d, secrets))"

definition from_execution_connection_dict :: "pyval \<Rightarrow> (string, pyval) dict \<Rightarrow> connection res" where
  "from_execution_connection_dict name data =
    (case as_str (dict_get data ''type'' PNone) of
       None \<Rightarrow> Inl (py_exn TypeError [PStr ''object is not subscriptable''])
     | Some s \<Rightarrow>
        bindr (resolve_cls_and_type [(''type'', PStr (take (length s - length ''Connection'') s))] []) (\<lambda>t.
        bindr (expect_dict (dict_get data ''value'' (PDict []))) (\<lambda>d.
          if t = CUSTOM then
            bindr (expect_list (dict_get data ''secret_keys'' (PList []))) (\<lambda>ks.
              let (configs, secrets) = split_custom d ks
              in new_connection CUSTOM [(''name'', name), (''configs'', PDict configs), (''secrets'', PDict secrets)])
          else call_with [(''name'', name)] d (new_connection t))))"

section \<open>The local store\<close>

text \<open>The table as its rows in the order of their insertion; names are the primary key.\<close>

definition orm_get :: "pyval \<Rightarrow> bool \<Rightarrow> orm_connection list \<Rightarrow> orm_connection option res" where
  "orm_get name raise_error rows =
    (case find (\<lambda>r. orm_name r = name) rows of
       None \<Rightarrow> if raise_error
         then Inl (sdk_error ''ConnectionNotFoundError'' [PStr ''Connection '', repr_part name, PStr '' is not found.'']) else Inr None
     | Some r \<Rightarrow> Inr (Some r))"

text \<open>A name that is taken keeps its creation date; every other column is overwritten.\<close>

definition orm_create_or_update :: "orm_connection \<Rightarrow> orm_connection list \<Rightarrow> orm_connection list" where
  "orm_create_or_update row rows =
    (if list_ex (\<lambda>r. orm_name r = orm_name row) rows
     then map (\<lambda>r. if orm_name r = orm_name row then row\<lparr>orm_created_date := orm_created_date r\<rparr> else r) rows
     else rows @ [row])"

interpretation saved: keyed_table orm_name "\<lambda>name rows. find (\<lambda>r. orm_name r = name) rows" orm_create_or_update
  "\<lambda>old row. case old of Some r \<Rightarrow> row\<lparr>orm_created_date := orm_created_date r\<rparr> | None \<Rightarrow> row"
  by (unfold_locales, unfold orm_create_or_update_def, subst find_put_row) (auto split: option.splits)

definition orm_delete :: "pyval \<Rightarrow> orm_connection list \<Rightarrow> orm_connection list" where
  "orm_delete name rows = filter (\<lambda>r. orm_name r \<noteq> name) rows"

definition orm_list :: "nat option \<Rightarrow> bool \<Rightarrow> orm_connection list \<Rightarrow> orm_connection list" where
  "orm_list max_results all_results rows =
    (if all_results then rows else (case max_results of Some n \<Rightarrow> take n rows | None \<Rightarrow> rows))"

definition connection_get ::
  "pyenv \<Rightarrow> cipher \<Rightarrow> string option \<Rightarrow> pyval \<Rightarrow> bool \<Rightarrow> bool \<Rightarrow> orm_connection list \<Rightarrow> connection option res" where
  "connection_get env ci key name with_secrets raise_error rows =
    bindr (orm_get name raise_error rows) (\<lambda>found.
      case found of
        None \<Rightarrow> Inr None
      | Some row \<Rightarrow> bindr (if with_secrets then from_orm_object_with_secrets env ci key row else from_orm_object env ci key row)
          (\<lambda>c. Inr (Some c)))"

text \<open>Rows that cannot be read are skipped with a message.\<close>

definition connection_list ::
  "pyenv \<Rightarrow> cipher \<Rightarrow> string option \<Rightarrow> nat option \<Rightarrow> bool \<Rightarrow> orm_connection list \<Rightarrow> connection list" where
  "connection_list env ci key max_results all_results rows =
     concat (map (\<lambda>r. case from_orm_object env ci key r of Inr c \<Rightarrow> [c] | Inl e \<Rightarrow> []) (orm_list max_results all_results rows))"

definition dated_row :: "pyval \<Rightarrow> orm_connection \<Rightarrow> orm_connection" where
  "dated_row now row = (if orm_created_date row = PNone then row\<lparr>orm_created_date := now\<rparr> else row)\<lparr>orm_last_modified_date := now\<rparr>"

definition connection_create_or_update ::
  "pyenv \<Rightarrow> cipher \<Rightarrow> string \<Rightarrow> pyval \<Rightarrow> connection \<Rightarrow> orm_connection list \<Rightarrow> connection option res \<times> orm_connection list" where
  "connection_create_or_update env ci key now c rows =
    (case to_orm_object ci key c of
       Inl e \<Rightarrow> (Inl e, rows)
     | Inr row \<Rightarrow>
        (let rows' = orm_create_or_update (dated_row now row) rows
         in (connection_get env ci (Some key) (cn_name c) False True rows', rows')))"

section \<open>The key is looked up once\<close>

lemma encryption_key_stable:
  "get_encryption_key kr generate st = (Inr (Some k), st') \<Longrightarrow> get_encryption_key kr' generate' st' = (Inr (Some k), st')"
  by (auto simp: get_encryption_key_def Let_def split: if_splits sum.splits)

text \<open>A body that raises under a customized key leaves that key in place for all later lookups.\<close>

lemma customized_key_stays:
  assumes "body (set_customized_key (Some k) st) = (Inl e, st')" "ks_customized st' = Some k"
  shows "get_encryption_key kr generate (snd (use_customized_encryption_key (Some k) body st)) = (Inr (Some k), st')"
  using assms by (simp add: use_customized_encryption_key_def get_encryption_key_def)

text \<open>C23. A lookup of the encryption key that returns one returns it from then on and leaves the state alone. The file
  lock is still held afterwards exactly when a key was to be generated and the second look into the keyring, under the
  lock, found one or raised. When the new key cannot be stored the lookup raises, but the next one returns that key.\<close>

theorem encryption_key_lookup:
  assumes "get_encryption_key kr generate st = (r, st')" "\<not> ks_locked st"
  shows "(\<forall>k. r = Inr (Some k) \<longrightarrow> (\<forall>kr' g. get_encryption_key kr' g st' = (Inr (Some k), st'))) \<and>
    (ks_locked st' \<longleftrightarrow> generate \<and> ks_customized st = None \<and> ks_in_key_ring st = None \<and>
       get_from_keyring (kr_first kr) = Inr None \<and> get_from_keyring (kr_second kr) \<noteq> Inr None) \<and>
    (generate \<and> ks_customized st = None \<and> ks_in_key_ring st = None \<and> kr_first kr = Inr None \<and> kr_second kr = Inr None \<longrightarrow>
       (\<forall>e. kr_set kr = Inl e \<longrightarrow> r = Inl e \<and> (\<forall>kr' g. get_encryption_key kr' g st' = (Inr (Some (kr_generated kr)), st'))))"
proof -
  have "ks_locked st' \<longleftrightarrow> generate \<and> ks_customized st = None \<and> ks_in_key_ring st = None \<and>
       get_from_keyring (kr_first kr) = Inr None \<and> get_from_keyring (kr_second kr) \<noteq> Inr None"
    using assms by (auto simp: get_encryption_key_def Let_def split: if_splits sum.splits)
  moreover have "\<forall>k. r = Inr (Some k) \<longrightarrow> (\<forall>kr' g. get_encryption_key kr' g st' = (Inr (Some k), st'))"
    using assms(1) encryption_key_stable by blast
  moreover have "r = Inl e \<and> (\<forall>kr' g. get_encryption_key kr' g st' = (Inr (Some (kr_generated kr)), st'))"
    if "generate" "ks_customized st = None" "ks_in_key_ring st = None" "kr_first kr = Inr None" "kr_second kr = Inr None"
      "kr_set kr = Inl e" for e
    using assms(1) that by (auto simp: get_encryption_key_def get_from_keyring_def Let_def)
  ultimately show ?thesis by blast
qed

text \<open>Another process stores its key between the two looks: the lock stays taken.\<close>

definition demo_keyring :: keyring where
  "demo_keyring = \<lparr>kr_first = Inr None, kr_second = Inr (Some ''k2''), kr_generated = ''k1'', kr_set = Inr ()\<rparr>"

theorem encryption_key_lookup_witness:
  "let st = \<lparr>ks_customized = None, ks_in_key_ring = None, ks_locked = False\<rparr>; (r, st') = get_encryption_key demo_keyring True st
   in r = Inr (Some ''k2'') \<and> ks_locked st' \<and> get_encryption_key demo_keyring False st' = (Inr (Some ''k2''), st')"
proof -
  let ?st = "\<lparr>ks_customized = None, ks_in_key_ring = None, ks_locked = False\<rparr>"
  have run: "get_encryption_key demo_keyring True ?st = (Inr (Some ''k2''), \<lparr>ks_customized = None, ks_in_key_ring = Some ''k2'', ks_locked = True\<rparr>)"
    by (simp add: get_encryption_key_def demo_keyring_def get_from_keyring_def)
  from encryption_key_lookup [OF run] run show ?thesis by simp
qed

section \<open>Storing and reading a connection\<close>

lemma resolve_supported:
  "t \<in> set supported_types \<Longrightarrow> resolve_cls_and_type [(''type'', PStr (connection_type_value t))] [] = Inr t"
proof -
  have "list_all (\<lambda>t. resolve_cls_and_type [(''type'', PStr (connection_type_value t))] [] = Inr t) supported_types" by code_simp
  then show "t \<in> set supported_types \<Longrightarrow> resolve_cls_and_type [(''type'', PStr (connection_type_value t))] [] = Inr t"
    by (simp add: list_all_iff)
qed

text \<open>What the constructors establish, for values that are data.\<close>

definition default_module :: "connection_type \<Rightarrow> pyval" where
  "default_module t = dict_get (embedding_module t) ''module'' (PStr ''promptflow.connections'')"

definition connection_ok :: "connection \<Rightarrow> bool" where
  "connection_ok c \<longleftrightarrow> cn_type c \<in> set supported_types \<and>
     list_all json_plain (dict_values (cn_configs c)) \<and> distinct (dict_keys (cn_configs c) @ dict_keys (cn_secrets c)) \<and>
     cn_secrets c \<noteq> [] \<and>
     (cn_type c \<noteq> CUSTOM \<longrightarrow> dict_keys (cn_configs c) = map fst (strong_params (cn_type c)) \<and> dict_keys (cn_secrets c) = [''api_key''])"

text \<open>The secrets as they are used, which must be texts to be encrypted.\<close>

definition effective_secrets :: "connection \<Rightarrow> (string, pyval) dict" where
  "effective_secrets c = map (\<lambda>(k, v). (k, effective_secret c k v)) (cn_secrets c)"

text \<open>What the row of a connection holds of it. The table has no column for the module: a connection that names one of its own
  is made again with the module of its class.\<close>

definition plain_connection :: "connection \<Rightarrow> connection" where
  "plain_connection c = c\<lparr>cn_module := default_module (cn_type c), cn_secrets := effective_secrets c, cn_unscrubbed := effective_secrets c\<rparr>"

definition encrypts :: "cipher \<Rightarrow> string \<Rightarrow> string \<times> pyval \<Rightarrow> string \<times> pyval \<Rightarrow> bool" where
  "encrypts ci key kv kt \<longleftrightarrow> fst kt = fst kv \<and> (\<exists>s t. as_str (snd kv) = Some s \<and> ci_open ci key = Inr () \<and> ci_encrypt ci key s = Inr t \<and> snd kt = PStr t)"

lemma encrypted_loop:
  assumes "foldr_res (encrypt_secret ci key c) kvs (enc, bad) = Inr (enc', bad')"
    and "bad' = []" "distinct (map fst kvs)" "fst ` set enc \<inter> fst ` set kvs = {}"
  shows "bad = [] \<and> (\<exists>ts. enc' = enc @ ts \<and> list_all2 (encrypts ci key) (map (\<lambda>(k, v). (k, effective_secret c k v)) kvs) ts)"
  using assms
proof (induction kvs arbitrary: enc bad)
  case (Cons kv kvs)
  obtain k v where kv: "kv = (k, v)" by force
  let ?w = "effective_secret c k v"
  have texts: "secret_text v" "secret_text ?w" using Cons.prems(1) by (auto simp: kv Let_def split: if_splits)
  show ?case
  proof (cases "invalid_secret ?w")
    case True
    with Cons.prems Cons.IH [of enc "bad @ [k]"] show ?thesis by (auto simp: kv Let_def texts)
  next
    case False
    with Cons.prems(1) texts obtain t where t: "encrypt_secret_value ci key ?w = Inr t" and
      rest: "foldr_res (encrypt_secret ci key c) kvs (AList.update k t enc, bad) = Inr (enc', bad')"
      by (auto simp: kv Let_def res_simps)
    have new: "AList.update k t enc = enc @ [(k, t)]" using Cons.prems(4) by (intro update_new_key) (auto simp: kv)
    from Cons.IH [OF rest Cons.prems(2)] Cons.prems(3,4) obtain ts where
      "bad = []" "enc' = (enc @ [(k, t)]) @ ts" "list_all2 (encrypts ci key) (map (\<lambda>(k, v). (k, effective_secret c k v)) kvs) ts"
      by (auto simp: kv new)
    moreover have "encrypts ci key (k, ?w) (k, t)"
      using t by (auto simp: encrypts_def encrypt_secret_value_def encode_utf8_def res_simps split: option.splits)
    ultimately have "bad = [] \<and> enc' = enc @ (k, t) # ts \<and>
        list_all2 (encrypts ci key) (map (\<lambda>(k, v). (k, effective_secret c k v)) (kv # kvs)) ((k, t) # ts)" by (simp add: kv)
    then show ?thesis by blast
  qed
qed simp

lemma encrypted_secrets:
  assumes "validate_and_encrypt_secrets ci key c = Inr ts" "distinct (dict_keys (cn_secrets c))"
  shows "list_all2 (encrypts ci key) (effective_secrets c) ts"
proof -
  from assms(1) obtain bad where "foldr_res (encrypt_secret ci key c) (cn_secrets c) ([], []) = Inr (ts, bad)"
    "bad = []" by (auto simp: validate_and_encrypt_secrets_def res_simps split: if_splits)
  from encrypted_loop [OF this assms(2)] show ?thesis by (auto simp: effective_secrets_def)
qed

lemma encrypted_shape:
  assumes "list_all2 (encrypts ci key) es ts"
  shows "map fst ts = map fst es \<and> list_all json_plain (map snd ts) \<and> length ts = length es"
  using assms by (induction rule: list_all2_induct) (auto simp: encrypts_def)

lemma take_args_exact:
  assumes "map fst params = map fst d" "\<And>k v. (k, v) \<in> set d \<Longrightarrow> map_of kwargs k = Some v"
  shows "take_args params kwargs = Inr d"
  using assms
proof (induction d arbitrary: params)
  case (Cons kv d)
  then obtain k v dflt ps where kv: "kv = (k, v)" "params = (k, dflt) # ps" "map fst ps = map fst d"
    by (cases kv; cases params) auto
  have "map_of kwargs k = Some v" "take_args ps kwargs = Inr d"
    using Cons.IH [OF kv(3)] Cons.prems(2) kv by auto
  with kv show ?case by (simp add: take_args_def)
qed (simp add: take_args_def)

lemma mapr_append: "mapr f (xs @ ys) = bindr (mapr f xs) (\<lambda>us. bindr (mapr f ys) (\<lambda>vs. Inr (us @ vs)))"
proof (induction xs)
  case (Cons x xs)
  show ?case
  proof (cases "f x")
    case (Inr y)
    with Cons show ?thesis by (cases "mapr f xs"; cases "mapr f ys") simp_all
  qed simp
next
  case Nil
  show ?case by (cases "mapr f ys") simp_all
qed

text \<open>The cipher reads what it wrote.\<close>

definition reads_own_tokens :: "cipher \<Rightarrow> string \<Rightarrow> bool" where
  "reads_own_tokens ci key \<longleftrightarrow> (\<forall>s t. ci_encrypt ci key s = Inr t \<longrightarrow> ci_decrypt ci key t = Inr s)"

lemma decrypt_encrypted:
  assumes "reads_own_tokens ci key" "encrypts ci key (k, PStr s) (k', t)"
  shows "k' = k \<and> decrypt_secret_value env ci (Some key) name t = Inr (PStr s)"
  using assms by (auto simp: reads_own_tokens_def encrypts_def decrypt_secret_value_def encode_utf8_def)

definition text_secrets :: "(string, pyval) dict \<Rightarrow> bool" where
  "text_secrets es \<longleftrightarrow> (\<forall>(k, v)\<in>set es. \<exists>s. v = PStr s)"

lemma decrypt_all:
  assumes "reads_own_tokens ci key" "list_all2 (encrypts ci key) es ts" "text_secrets es"
  shows "mapr (\<lambda>(k, v). bindr (decrypt_secret_value env ci (Some key) name v) (\<lambda>w. Inr (k, w))) ts = Inr es"
  using assms(2,3)
proof (induction rule: list_all2_induct)
  case (Cons e es t ts)
  obtain k v k' t' where e: "e = (k, v)" "t = (k', t')" by force
  with Cons.prems obtain s where s: "v = PStr s" by (auto simp: text_secrets_def)
  have "k' = k \<and> decrypt_secret_value env ci (Some key) name t' = Inr (PStr s)"
    using decrypt_encrypted [OF assms(1), of k s k' t'] Cons.hyps(1) e s by simp
  moreover have "text_secrets es" using Cons.prems by (simp add: text_secrets_def)
  ultimately show ?case using Cons.IH e s by simp
qed simp

text \<open>A strongly typed connection made of the keywords of a row and its configs with the api key.\<close>

lemma strong_keywords_apart:
  "t \<in> set supported_types \<Longrightarrow> t \<noteq> CUSTOM \<Longrightarrow>
    \<not> list_ex (\<lambda>k. dict_has k (orm_keywords row)) (map fst (strong_params t) @ [''api_key'']) \<and> distinct (map fst (strong_params t) @ [''api_key''])"
  by (cases t) (auto simp: orm_keywords_def dict_has_def supported_types_def params_defs)

lemma strong_connection_row:
  assumes "t \<in> set supported_types" "t \<noteq> CUSTOM" "map fst configs = map fst (strong_params t)"
  shows "call_with (orm_keywords row) (configs @ [(''api_key'', v)]) (new_connection t) =
    Inr \<lparr>cn_type = t, cn_name = orm_name row, cn_module = default_module t, cn_configs = configs,
      cn_secrets = [(''api_key'', v)], cn_unscrubbed = [(''api_key'', v)], cn_expiry_time = orm_expiry_time row,
      cn_created_date = orm_created_date row, cn_last_modified_date = orm_last_modified_date row\<rparr>"
proof -
  let ?kw = "orm_keywords row @ configs @ [(''api_key'', v)]"
  note apart = strong_keywords_apart [OF assms(1,2), of row, folded assms(3)]
  then have no: "\<not> list_ex (\<lambda>k. dict_has k (orm_keywords row)) (dict_keys (configs @ [(''api_key'', v)]))" by simp
  have dist: "distinct (map fst ?kw)" using apart
    by (auto simp: orm_keywords_def dict_has_iff list_ex_iff)
  have key: "take_args [(''api_key'', None)] ?kw = Inr [(''api_key'', v)]"
    by (rule take_args_exact) (use map_of_is_SomeI [OF dist] in auto)
  have args: "take_args (strong_params t) ?kw = Inr configs"
    by (rule take_args_exact) (use assms(3) map_of_is_SomeI [OF dist] in auto)
  have rest: "filter (\<lambda>(k, w). k \<noteq> ''api_key'' \<and> k \<notin> set (dict_keys configs)) ?kw = orm_keywords row"
  proof -
    have "filter (\<lambda>(k, w). k \<noteq> ''api_key'' \<and> k \<notin> set (dict_keys configs)) (orm_keywords row) = orm_keywords row"
      using dist by (intro filter_True) (auto simp: orm_keywords_def)
    moreover have "filter (\<lambda>(k, w). k \<noteq> ''api_key'' \<and> k \<notin> set (dict_keys configs)) (configs @ [(''api_key'', v)]) = []"
      by (auto simp: filter_empty_conv intro: rev_image_eqI)
    ultimately show ?thesis by simp
  qed
  have "new_connection t ?kw = strong_connection t ?kw" using assms(1,2) by (cases t) (auto simp: new_connection_def supported_types_def)
  then have base: "call_with (orm_keywords row) (configs @ [(''api_key'', v)]) (new_connection t) =
      base_connection t (embedding_module t @ (if t = SERP then [] else [(''configs'', PDict configs)]) @ [(''secrets'', PDict [(''api_key'', v)])])
        (orm_keywords row)"
    unfolding call_with_def using no by (simp only: if_False append_assoc strong_connection_def key args rest bindr.simps)
  have "configs = []" if "t = SERP" using assms(3) that by simp
  then show ?thesis unfolding base
    by (auto simp: base_connection_def embedding_module_def default_module_def orm_keywords_def dict_has_def dict_get_def
        dict_or_empty_def Let_def)
qed

lemma strong_store:
  assumes "connection_ok c" "cn_type c \<noteq> CUSTOM" "reads_own_tokens ci key" "text_secrets (effective_secrets c)"
    and "to_orm_object ci key c = Inr row"
  shows "strong_from_orm env ci (Some key) (cn_type c) row = Inr (plain_connection c)"
proof -
  from assms(1,2) have ok: "cn_type c \<in> set supported_types" "map fst (cn_configs c) = map fst (strong_params (cn_type c))"
    "list_all json_plain (dict_values (cn_configs c))" "distinct (dict_keys (cn_configs c) @ dict_keys (cn_secrets c))"
    "dict_keys (cn_secrets c) = [''api_key'']"
    unfolding connection_ok_def by blast+
  from assms(5,2) obtain ts where ts: "validate_and_encrypt_secrets ci key c = Inr ts"
    and row: "row = orm_row c (json_write (PDict (dict_updates (cn_configs c) ts))) ''{}''"
    by (auto simp: to_orm_object_def res_simps json_dumps_def split: if_splits)
  have enc: "list_all2 (encrypts ci key) (effective_secrets c) ts" using encrypted_secrets [OF ts] ok(4) by simp
  note shape = encrypted_shape [OF enc]
  then have keys: "dict_keys ts = [''api_key'']" using ok(5) by (simp add: effective_secrets_def split_beta comp_def)
  then obtain v where v: "ts = [(''api_key'', v)]" by (cases ts) auto
  have apart: "''api_key'' \<notin> fst ` set (cn_configs c)" using ok(4) unfolding ok(5) by simp
  have upd: "dict_updates (cn_configs c) ts = cn_configs c @ ts"
    using apart by (intro dict_updates_append_new) (simp_all add: v)
  from shape have "json_plain v" by (simp add: v)
  then have "json_plain (PDict (cn_configs c @ ts))" using ok(3,4) apart by (simp add: v list_all_iff)
  from json_roundtrip [OF this] json_plain_ok [OF this]
  have load: "json_loads (orm_configs row) = Inr (PDict (cn_configs c @ ts))" by (simp add: row orm_row_def upd json_dumps_def)
  note new = strong_connection_row [OF ok(1) assms(2) ok(2), of row v]
  have "mapr (\<lambda>(k, v). bindr (decrypt_secret_value env ci (Some key) (cn_name c) v) (\<lambda>w. Inr (k, w))) ts = Inr (effective_secrets c)"
    by (rule decrypt_all [OF assms(3) enc assms(4)])
  with load new show ?thesis
    by (simp add: strong_from_orm_def expect_dict_def v plain_connection_def row orm_row_def)
qed

lemma concat_singletons: "concat (map (\<lambda>x. [x]) xs) = xs"
  by (induction xs) auto

lemma read_typed:
  "read_config (k, typed_config ''String'' v) = Inr [(k, v)]" "read_config (k, typed_config ''Secret'' v) = Inr []"
  "read_secret env ci key name (k, typed_config ''String'' v) = Inr []"
  by (simp_all add: read_config_def read_secret_def typed_config_def config_value_type_def config_value_def expect_dict_def
      get_item_def req_string_def)

lemma read_typed_configs:
  "mapr read_config (map (\<lambda>(k, v). (k, typed_config ''String'' v)) cs @ map (\<lambda>(k, v). (k, typed_config ''Secret'' v)) ts) =
     Inr (map (\<lambda>x. [x]) cs @ map (\<lambda>x. []) ts)"
proof -
  have "mapr read_config (map (\<lambda>(k, v). (k, typed_config ''String'' v)) cs) = Inr (map (\<lambda>x. [x]) cs)"
    by (induction cs) (auto simp: read_typed)
  moreover have "mapr read_config (map (\<lambda>(k, v). (k, typed_config ''Secret'' v)) ts) = Inr (map (\<lambda>x. []) ts)"
    by (induction ts) (auto simp: read_typed)
  ultimately show ?thesis by (simp add: mapr_append)
qed

lemma read_typed_secrets:
  assumes "reads_own_tokens ci key" "list_all2 (encrypts ci key) es ts" "text_secrets es"
  shows "mapr (read_secret env ci (Some key) name)
      (map (\<lambda>(k, v). (k, typed_config ''String'' v)) cs @ map (\<lambda>(k, v). (k, typed_config ''Secret'' v)) ts) =
    Inr (map (\<lambda>x. []) cs @ map (\<lambda>x. [x]) es)"
proof -
  have "mapr (read_secret env ci (Some key) name) (map (\<lambda>(k, v). (k, typed_config ''String'' v)) cs) = Inr (map (\<lambda>x. []) cs)"
    by (induction cs) (auto simp: read_typed)
  moreover have "mapr (read_secret env ci (Some key) name) (map (\<lambda>(k, v). (k, typed_config ''Secret'' v)) ts) = Inr (map (\<lambda>x. [x]) es)"
    using assms(2,3)
  proof (induction rule: list_all2_induct)
    case (Cons e es t ts)
    obtain k v k' t' where e: "e = (k, v)" "t = (k', t')" by force
    with Cons.prems obtain s where s: "v = PStr s" by (auto simp: text_secrets_def)
    have "k' = k \<and> decrypt_secret_value env ci (Some key) name t' = Inr (PStr s)"
      using decrypt_encrypted [OF assms(1), of k s k' t'] Cons.hyps(1) e s by simp
    then have "read_secret env ci (Some key) name (k', typed_config ''Secret'' t') = Inr [(k, PStr s)]"
      by (simp add: read_secret_def typed_config_def config_value_type_def config_value_def expect_dict_def get_item_def req_string_def)
    moreover have "text_secrets es" using Cons.prems by (simp add: text_secrets_def)
    ultimately show ?case using Cons.IH e s by simp
  qed simp
  ultimately show ?thesis by (simp add: mapr_append)
qed

lemma custom_store:
  assumes "connection_ok c" "cn_type c = CUSTOM" "reads_own_tokens ci key" "text_secrets (effective_secrets c)"
    and "to_orm_object ci key c = Inr row"
  shows "custom_from_orm env ci (Some key) row = Inr (plain_connection c)"
proof -
  have ok: "list_all json_plain (dict_values (cn_configs c))" "distinct (dict_keys (cn_configs c) @ dict_keys (cn_secrets c))"
    "cn_secrets c \<noteq> []" "default_module (cn_type c) = PStr ''promptflow.connections''"
    using assms(1,2) unfolding connection_ok_def by (simp_all add: default_module_def embedding_module_def dict_get_def)
  let ?cs = "map (\<lambda>(k, v). (k, typed_config ''String'' v)) (cn_configs c)"
  let ?ss = "map (\<lambda>(k, v). (k, typed_config ''Secret'' v))"
  from assms(5,2) obtain ts where ts: "validate_and_encrypt_secrets ci key c = Inr ts"
    and row: "row = orm_row c ''{}'' (json_write (PDict (dict_updates ?cs (?ss ts))))"
    by (auto simp: to_orm_object_def res_simps json_dumps_def split: if_splits)
  have enc: "list_all2 (encrypts ci key) (effective_secrets c) ts" using encrypted_secrets [OF ts] ok(2) by simp
  have secret_keys: "map fst (effective_secrets c) = map fst (cn_secrets c)" by (simp add: effective_secrets_def split_beta comp_def)
  then have keys: "map fst ts = map fst (cn_secrets c)" using encrypted_shape [OF enc] by simp
  then have key_set: "fst ` set ts = fst ` set (cn_secrets c)" by (metis list.set_map)
  have cs_keys: "map fst ?cs = map fst (cn_configs c)" "map fst (?ss ts) = map fst ts" by (simp_all add: split_beta comp_def)
  then have cs_sets: "fst ` set ?cs = fst ` set (cn_configs c)" "fst ` set (?ss ts) = fst ` set ts" by (metis list.set_map)+
  have dist: "distinct (map fst (cn_secrets c))" "fst ` set (cn_configs c) \<inter> fst ` set (cn_secrets c) = {}" "distinct (map fst (cn_configs c))"
    using ok(2) by simp_all
  have upd: "dict_updates ?cs (?ss ts) = ?cs @ ?ss ts"
    by (rule dict_updates_append_new) (simp_all only: cs_keys cs_sets keys key_set dist)
  have "distinct (map fst (?cs @ ?ss ts))" unfolding map_append cs_keys keys by (rule ok(2))
  moreover have "list_all (\<lambda>kv. json_plain (snd kv)) (?cs @ ?ss ts)"
    using ok(1) encrypted_shape [OF enc] by (auto simp: list_all_iff typed_config_def)
  ultimately have plain: "json_plain (PDict (?cs @ ?ss ts))" by simp
  from json_roundtrip [OF plain] json_plain_ok [OF plain]
  have load: "json_loads (orm_custom_configs row) = Inr (PDict (?cs @ ?ss ts))" by (simp add: row orm_row_def upd json_dumps_def)
  have nonempty: "effective_secrets c \<noteq> []" using ok(3) by (simp add: effective_secrets_def)
  have new: "new_connection CUSTOM ((''configs'', PDict (cn_configs c)) # (''secrets'', PDict (effective_secrets c)) # orm_keywords row) =
      Inr (plain_connection c)"
    using nonempty ok(4) assms(2) by (cases "cn_configs c") (auto simp: new_connection_def custom_connection_def take_args_def base_connection_def
        orm_keywords_def row orm_row_def dict_get_def dict_has_def dict_or_empty_def plain_connection_def Let_def)
  have empties: "concat (map (\<lambda>x. []) xs) = []" for xs :: "(string \<times> pyval) list" by (induction xs) auto
  show ?thesis
    using new load by (simp add: custom_from_orm_def expect_dict_def read_typed_configs
        read_typed_secrets [OF assms(3) enc assms(4)] concat_singletons empties)
qed

lemma stored_type:
  assumes "connection_ok c" "to_orm_object ci key c = Inr row"
  shows "resolve_cls_and_type [(''type'', PStr (orm_type row))] [] = Inr (cn_type c)"
proof -
  have "orm_type row = connection_type_value (cn_type c)"
    using assms(2) by (auto simp: to_orm_object_def res_simps orm_row_def split: if_splits)
  then show ?thesis using assms(1) by (simp add: connection_ok_def resolve_supported)
qed

lemma stored_connection:
  assumes "connection_ok c" "reads_own_tokens ci key" "text_secrets (effective_secrets c)" "to_orm_object ci key c = Inr row"
  shows "from_orm_object_with_secrets env ci (Some key) row = Inr (plain_connection c)"
proof (cases "cn_type c = CUSTOM")
  case True
  from custom_store [OF assms(1) this assms(2-4)] stored_type [OF assms(1,4)] show ?thesis
    by (simp add: from_orm_object_with_secrets_def True)
next
  case False
  from strong_store [OF assms(1) this assms(2-4)] stored_type [OF assms(1,4)] False show ?thesis
    by (simp add: from_orm_object_with_secrets_def)
qed

end
