(* ===== verification/ConnectionStore.thy ===== *)
theory ConnectionStore imports Connections begin

text \<open>
  The local connections of a flow and the references to them: \<^verbatim>\<open>${connection.key}\<close> in an environment variable and
  \<^verbatim>\<open>${env:NAME}\<close> in a connection (\<^verbatim>\<open>_sdk/_utils.py\<close>, \<^verbatim>\<open>_sdk/entities/_flow.py\<close>,
  \<^verbatim>\<open>_sdk/operations/_run_submitter.py\<close>, \<^verbatim>\<open>_sdk/_serving/app.py\<close>), with what the store of connections promises.
\<close>

section \<open>References\<close>

definition strip_value :: "pyval \<Rightarrow> string res" where
  "strip_value v = (case as_str v of Some s \<Rightarrow> Inr (strip s) | None \<Rightarrow> Inl (py_exn AttributeError [PStr ''strip'']))"

text \<open>What stands between \<open>opening\<close> and a closing brace at the end of the text.\<close>

definition between_braces :: "string \<Rightarrow> string \<Rightarrow> string option" where
  "between_braces opening s =
    (if take (length opening) s = opening \<and> length opening < length s \<and> last s = CHR ''}''
     then Some (butlast (drop (length opening) s)) else None)"

definition match_reference :: "pyval \<Rightarrow> (string \<times> string) option res" where
  "match_reference v = bindr (strip_value v) (\<lambda>s. Inr (case between_braces ''${'' s of
       None \<Rightarrow> None
     | Some inner \<Rightarrow> (case split_on (CHR ''.'') inner of
         [name, key] \<Rightarrow> if name \<noteq> [] \<and> key \<noteq> [] then Some (name, key) else None
       | _ \<Rightarrow> None)))"

definition match_env_reference :: "pyval \<Rightarrow> string option res" where
  "match_env_reference v = bindr (strip_value v) (\<lambda>s. Inr (case between_braces ''${env:'' s of
       None \<Rightarrow> None
     | Some name \<Rightarrow> if name \<noteq> [] \<and> CHR 0x0A \<notin> set name then Some name else None))"

definition used_connection_names :: "(string, pyval) dict \<Rightarrow> string list res" where
  "used_connection_names d =
     bindr (mapr (\<lambda>(k, v). match_reference v) d) (\<lambda>refs. Inr (remdups (concat (map (\<lambda>r. case r of Some (n, k) \<Rightarrow> [n] | None \<Rightarrow> []) refs))))"

text \<open>Built connections are execution dictionaries by name.\<close>

type_synonym built_connections = "(string, (string, pyval) dict) dict"

definition built_value :: "(string, pyval) dict \<Rightarrow> (string, pyval) dict res" where
  "built_value c = bindr (get_item c ''value'') expect_dict"

definition referenced_value :: "built_connections \<Rightarrow> pyval \<Rightarrow> pyval res" where
  "referenced_value built v = bindr (match_reference v) (\<lambda>r. case r of
       None \<Rightarrow> Inr v
     | Some (name, key) \<Rightarrow> (case map_of built name of
         None \<Rightarrow> Inr v
       | Some c \<Rightarrow> bindr (built_value c) (\<lambda>d. Inr (dict_get d key v))))"

text \<open>The dictionary is updated in place; what an error leaves in it is not modelled, its callers let the error through.\<close>

definition update_dict_value_with_connections :: "built_connections \<Rightarrow> (string, pyval) dict \<Rightarrow> (string, pyval) dict res" where
  "update_dict_value_with_connections built d = mapr (\<lambda>(k, v). bindr (referenced_value built v) (\<lambda>w. Inr (k, w))) d"

definition resolve_env_value :: "(string \<Rightarrow> string option) \<Rightarrow> pyval \<Rightarrow> pyval res" where
  "resolve_env_value environ v = bindr (match_env_reference v) (\<lambda>r. case r of
       None \<Rightarrow> Inr v
     | Some name \<Rightarrow> (case environ name of
         None \<Rightarrow> Inl (py_exn Exception [PStr (''Environment variable '' @ name @ '' is not found.'')])
       | Some s \<Rightarrow> Inr (PStr s)))"

definition resolve_connection_env :: "(string \<Rightarrow> string option) \<Rightarrow> (string, pyval) dict \<Rightarrow> (string, pyval) dict res" where
  "resolve_connection_env environ c =
    (case map_of c ''value'' of
       None \<Rightarrow> Inr c
     | Some v \<Rightarrow> bindr (expect_dict v) (\<lambda>d.
         bindr (mapr (\<lambda>(k, w). bindr (resolve_env_value environ w) (\<lambda>u. Inr (k, u))) d) (\<lambda>d'.
           Inr (AList.update ''value'' (PDict d') c))))"

definition resolve_connections_environment_variable_reference ::
  "(string \<Rightarrow> string option) \<Rightarrow> built_connections \<Rightarrow> built_connections res" where
  "resolve_connections_environment_variable_reference environ built =
     mapr (\<lambda>(n, c). bindr (resolve_connection_env environ c) (\<lambda>c'. Inr (n, c'))) built"

section \<open>The connections of a flow\<close>

definition is_not_found :: "exn \<Rightarrow> bool" where
  "is_not_found e = (ex_class (ex e) = UserClass ''ConnectionNotFoundError'' (Pf PromptflowException))"

definition local_connection :: "pyenv \<Rightarrow> cipher \<Rightarrow> string option \<Rightarrow> orm_connection list \<Rightarrow> string \<Rightarrow> (string, pyval) dict res" where
  "local_connection env ci key rows n =
     bindr (connection_get env ci key (PStr n) True True rows) (\<lambda>c. case c of
       Some c \<Rightarrow> Inr (to_execution_connection_dict c)
     | None \<Rightarrow> Inl (py_exn AttributeError [PStr ''to_execution_connection_dict'']))"

definition get_local_connections ::
  "pyenv \<Rightarrow> cipher \<Rightarrow> string option \<Rightarrow> orm_connection list \<Rightarrow> string \<Rightarrow> string list \<Rightarrow> built_connections res" where
  "get_local_connections env ci key rows flow names =
     mapr (\<lambda>n. case local_connection env ci key rows n of
         Inr d \<Rightarrow> Inr (n, d)
       | Inl e \<Rightarrow> if is_not_found e
           then Inl (py_exn Exception [PStr (''Connection '' @ repr_str n @ '' required for flow '' @ repr_str flow @ '' is not found.'')])
           else Inl e) names"

text \<open>The submitter takes the connections it can get.\<close>

definition resolve_connection_names ::
  "pyenv \<Rightarrow> cipher \<Rightarrow> string option \<Rightarrow> orm_connection list \<Rightarrow> bool \<Rightarrow> string list \<Rightarrow> built_connections res" where
  "resolve_connection_names env ci key rows raise_error names =
     bindr (mapr (\<lambda>n. case local_connection env ci key rows n of
         Inr d \<Rightarrow> Inr [(n, d)]
       | Inl e \<Rightarrow> if raise_error then Inl e else Inr []) names) (\<lambda>ds. Inr (concat ds))"

definition resolve_environment_variables ::
  "pyenv \<Rightarrow> cipher \<Rightarrow> string option \<Rightarrow> orm_connection list \<Rightarrow> (string, pyval) dict \<Rightarrow> (string, pyval) dict res" where
  "resolve_environment_variables env ci key rows variables =
    (if variables = [] then Inr [] else
       bindr (used_connection_names variables) (\<lambda>names.
       bindr (resolve_connection_names env ci key rows False names) (\<lambda>built.
         update_dict_value_with_connections built variables)))"

section \<open>What is stored is read back\<close>

text \<open>A cipher that works with a key: every text has a token that decrypts to it.\<close>

definition cipher_ok :: "cipher \<Rightarrow> string \<Rightarrow> bool" where
  "cipher_ok ci key \<longleftrightarrow> ci_open ci key = Inr () \<and> (\<forall>s. \<exists>t. ci_encrypt ci key s = Inr t \<and> ci_decrypt ci key t = Inr s)"

lemma cipher_ok_reads: "cipher_ok ci key \<Longrightarrow> reads_own_tokens ci key"
  unfolding cipher_ok_def reads_own_tokens_def by (metis sum.inject(2))

definition fillable :: "connection \<Rightarrow> bool" where
  "fillable c \<longleftrightarrow> list_all (\<lambda>kv. \<not> invalid_secret (snd kv)) (effective_secrets c)"

definition text_connection :: "connection \<Rightarrow> bool" where
  "text_connection c \<longleftrightarrow> list_all (\<lambda>kv. secret_text (snd kv)) (cn_secrets c) \<and>
     list_all (\<lambda>kv. secret_text (snd kv)) (cn_unscrubbed c)"

lemma text_effective:
  assumes "text_connection c" "(k, v) \<in> set (cn_secrets c)"
  shows "secret_text v \<and> secret_text (effective_secret c k v)"
proof -
  have "secret_text (dict_get (cn_unscrubbed c) k PNone)"
    using assms(1) by (auto simp: text_connection_def dict_get_def list_all_iff secret_text_def split: option.splits dest!: map_of_SomeD)
  with assms show ?thesis by (auto simp: effective_secret_def text_connection_def list_all_iff)
qed

lemma encrypt_loop_total:
  assumes "cipher_ok ci key" "\<And>k v. (k, v) \<in> set kvs \<Longrightarrow> secret_text v \<and> secret_text (effective_secret c k v)"
  shows "\<exists>enc'. foldr_res (encrypt_secret ci key c) kvs (enc, bad) =
    Inr (enc', bad @ map fst (filter (\<lambda>(k, v). invalid_secret (effective_secret c k v)) kvs))"
  using assms(2)
proof (induction kvs arbitrary: enc bad)
  case (Cons kv kvs)
  obtain k v where kv: "kv = (k, v)" by force
  note texts = Cons.prems [of k v, unfolded kv, simplified]
  show ?case
  proof (cases "invalid_secret (effective_secret c k v)")
    case True
    with Cons.IH [of enc "bad @ [k]"] Cons.prems texts show ?thesis by (auto simp: kv Let_def)
  next
    case False
    then have "as_str (effective_secret c k v) \<noteq> None"
      using texts by (auto simp: secret_text_def invalid_secret_def is_scrubbed_value_def)
    then obtain t where "encrypt_secret_value ci key (effective_secret c k v) = Inr t"
      using assms(1) by (fastforce simp: encrypt_secret_value_def encode_utf8_def cipher_ok_def res_simps)
    with Cons.IH [of "AList.update k t enc" bad] Cons.prems texts False show ?thesis by (auto simp: kv Let_def)
  qed
qed simp

lemma encrypted_when_fillable:
  assumes "cipher_ok ci key" "text_connection c"
  shows "(\<exists>ts. validate_and_encrypt_secrets ci key c = Inr ts) \<longleftrightarrow> fillable c"
proof -
  let ?bad = "map fst (filter (\<lambda>(k, v). invalid_secret (effective_secret c k v)) (cn_secrets c))"
  from encrypt_loop_total [OF assms(1) text_effective [OF assms(2)], of "cn_secrets c" "[]" "[]"] obtain enc where
    run: "foldr_res (encrypt_secret ci key c) (cn_secrets c) ([], []) = Inr (enc, ?bad)" by auto
  have "?bad = [] \<longleftrightarrow> fillable c"
    by (auto simp: fillable_def effective_secrets_def list_all_iff filter_empty_conv)
  with run show ?thesis by (auto simp: validate_and_encrypt_secrets_def)
qed

lemma set_update_subset: "set (AList.update k v d) \<subseteq> insert (k, v) (set d)"
  by (induction d) auto

lemma set_dict_updates_subset: "set (dict_updates d d') \<subseteq> set d \<union> set d'"
proof (induction d' arbitrary: d)
  case (Cons kv d')
  obtain k v where kv: "kv = (k, v)" by force
  have "set (dict_updates d (kv # d')) \<subseteq> set (AList.update k v d) \<union> set d'"
    using Cons.IH [of "AList.update k v d"] by (simp add: dict_updates_def kv)
  with set_update_subset [of k v d] show ?case by (auto simp: kv)
qed (simp add: dict_updates_def)

lemma plain_dict_updates:
  assumes "distinct (map fst d)" "list_all (\<lambda>kv. json_plain (snd kv)) d" "list_all (\<lambda>kv. json_plain (snd kv)) d'"
  shows "json_ok (PDict (dict_updates d d'))"
proof (rule json_plain_ok)
  have "list_all (\<lambda>kv. json_plain (snd kv)) (dict_updates d d')"
    using assms(2,3) set_dict_updates_subset [of d d'] unfolding list_all_iff by blast
  with distinct_dict_updates [OF assms(1)] show "json_plain (PDict (dict_updates d d'))" by simp
qed

lemma to_orm_total:
  assumes "connection_ok c" "validate_and_encrypt_secrets ci key c = Inr ts"
  shows "\<exists>configs custom. to_orm_object ci key c = Inr (orm_row c configs custom)"
proof -
  have ok: "list_all json_plain (dict_values (cn_configs c))" "distinct (map fst (cn_configs c))" "distinct (dict_keys (cn_secrets c))"
    using assms(1) unfolding connection_ok_def by auto
  from encrypted_shape [OF encrypted_secrets [OF assms(2) ok(3)]] have ts: "list_all (\<lambda>kv. json_plain (snd kv)) ts"
    by (simp add: list_all_iff)
  have "json_ok (PDict (dict_updates (cn_configs c) ts))"
    by (rule plain_dict_updates) (use ok ts in \<open>auto simp: list_all_iff\<close>)
  moreover have "json_ok (PDict (dict_updates (map (\<lambda>(k, v). (k, typed_config ''String'' v)) (cn_configs c))
      (map (\<lambda>(k, v). (k, typed_config ''Secret'' v)) ts)))"
    by (rule plain_dict_updates) (use ok ts in \<open>auto simp: list_all_iff typed_config_def split_beta comp_def\<close>)
  ultimately show ?thesis using assms(2) by (simp add: to_orm_object_def json_dumps_def del: json_ok.simps json_write.simps) blast
qed

section \<open>The store\<close>

definition with_dates :: "pyval \<Rightarrow> pyval \<Rightarrow> connection \<Rightarrow> connection" where
  "with_dates created modified c = c\<lparr>cn_created_date := created, cn_last_modified_date := modified\<rparr>"

definition scrubbed :: "connection \<Rightarrow> connection" where
  "scrubbed c = c\<lparr>cn_secrets := map (\<lambda>(k, v). (k, PStr scrubbed_value)) (cn_secrets c)\<rparr>"

lemma with_dates_fields:
  "cn_type (with_dates a b c) = cn_type c" "cn_name (with_dates a b c) = cn_name c" "cn_module (with_dates a b c) = cn_module c"
  "cn_configs (with_dates a b c) = cn_configs c" "cn_secrets (with_dates a b c) = cn_secrets c"
  "cn_unscrubbed (with_dates a b c) = cn_unscrubbed c" "cn_expiry_time (with_dates a b c) = cn_expiry_time c"
  "cn_created_date (with_dates a b c) = a" "cn_last_modified_date (with_dates a b c) = b"
  by (simp_all add: with_dates_def)

text \<open>The dates of a connection go into its row and nothing else depends on them.\<close>

lemma to_orm_dated:
  assumes "to_orm_object ci key c = Inr row"
  shows "to_orm_object ci key (with_dates a b c) = Inr (row\<lparr>orm_created_date := a, orm_last_modified_date := b\<rparr>)"
proof -
  have "effective_secret (with_dates a b c) = effective_secret c" by (simp add: fun_eq_iff effective_secret_def with_dates_fields cong: if_cong)
  then have "encrypt_secret ci key (with_dates a b c) = encrypt_secret ci key c" by (simp add: fun_eq_iff)
  then have "validate_and_encrypt_secrets ci key (with_dates a b c) = validate_and_encrypt_secrets ci key c"
    unfolding validate_and_encrypt_secrets_def with_dates_fields by simp
  moreover have "orm_row (with_dates a b c) x y = (orm_row c x y)\<lparr>orm_created_date := a, orm_last_modified_date := b\<rparr>" for x y
    by (simp add: orm_row_def with_dates_fields)
  ultimately show ?thesis using assms unfolding to_orm_object_def with_dates_fields
    by (auto simp: res_simps split: if_splits)
qed

lemma dated_facts:
  "connection_ok (with_dates a b c) = connection_ok c" "effective_secrets (with_dates a b c) = effective_secrets c"
  "plain_connection (with_dates a b c) = with_dates a b (plain_connection c)" "cn_name (with_dates a b c) = cn_name c"
proof -
  show ok: "connection_ok (with_dates a b c) = connection_ok c" unfolding connection_ok_def with_dates_fields by (rule refl)
  show secrets: "effective_secrets (with_dates a b c) = effective_secrets c"
    unfolding effective_secrets_def effective_secret_def with_dates_fields by (rule refl)
  show "plain_connection (with_dates a b c) = with_dates a b (plain_connection c)"
    unfolding plain_connection_def secrets by (simp add: with_dates_def)
qed (rule with_dates_fields)

lemma read_dated_row:
  assumes "connection_ok c" "reads_own_tokens ci key" "text_secrets (effective_secrets c)" "to_orm_object ci key c = Inr row"
  shows "from_orm_object_with_secrets env ci (Some key) (row\<lparr>orm_created_date := a, orm_last_modified_date := b\<rparr>) =
    Inr (with_dates a b (plain_connection c))"
  using stored_connection [OF _ assms(2) _ to_orm_dated [OF assms(4)]] assms(1,3) by (simp add: dated_facts)

lemma orm_get_saved:
  "orm_get name re (orm_create_or_update row rows) =
    (if name \<noteq> orm_name row then orm_get name re rows
     else Inr (Some (case find (\<lambda>r. orm_name r = orm_name row) rows of
       Some r \<Rightarrow> row\<lparr>orm_created_date := orm_created_date r\<rparr> | None \<Rightarrow> row)))"
  by (auto simp: orm_get_def saved.lookup_put)

text \<open>What is stored under the name of a connection once it has been created or updated.\<close>

definition stored_as :: "pyval \<Rightarrow> connection \<Rightarrow> orm_connection list \<Rightarrow> connection" where
  "stored_as now c rows = with_dates
     (case find (\<lambda>r. orm_name r = cn_name c) rows of
        Some r \<Rightarrow> orm_created_date r | None \<Rightarrow> if cn_created_date c = PNone then now else cn_created_date c)
     now (plain_connection c)"

text \<open>C22. A connection whose secrets can all be filled is stored, and is then read back under its name with its type, its
  configs, its expiry time and its real secrets (a scrubbed one replaced by the value the connection was made with); a name
  that was taken keeps its creation date. The module is not stored: whatever module the connection named, it comes back with
  that of its class. Without asking for secrets every one reads as asterisks. Other names read as before. A connection with a
  secret that cannot be filled is refused and the store is left alone.\<close>

theorem connection_store_roundtrip:
  assumes "connection_ok c" "cipher_ok ci key" "text_connection c" "text_secrets (filter (\<lambda>(k, v). \<not> invalid_secret v) (effective_secrets c))"
    and "connection_create_or_update env ci key now c rows = (r, rows')"
  shows "if fillable c
    then r = Inr (Some (scrubbed (stored_as now c rows))) \<and>
      connection_get env ci (Some key) (cn_name c) True re rows' = Inr (Some (stored_as now c rows)) \<and>
      cn_module (stored_as now c rows) = default_module (cn_type c) \<and>
      (\<forall>name key' secrets re. name \<noteq> cn_name c \<longrightarrow>
         connection_get env ci key' name secrets re rows' = connection_get env ci key' name secrets re rows)
    else (\<exists>e. r = Inl e) \<and> rows' = rows"
proof (cases "fillable c")
  case True
  with encrypted_when_fillable [OF assms(2,3)] to_orm_total [OF assms(1)] obtain x y where
    row: "to_orm_object ci key c = Inr (orm_row c x y)" by blast
  have plain: "text_secrets (effective_secrets c)"
    using assms(4) True by (fastforce simp: text_secrets_def fillable_def list_all_iff)
  let ?row = "dated_row now (orm_row c x y)"
  from assms(5) row have rows': "rows' = orm_create_or_update ?row rows" and
    r: "r = connection_get env ci (Some key) (cn_name c) False True rows'"
    by (auto simp: connection_create_or_update_def Let_def)
  have name: "orm_name (orm_row c x y) = cn_name c" "orm_name ?row = cn_name c" by (simp_all add: dated_row_def orm_row_def)
  have dates: "?row = (orm_row c x y)\<lparr>orm_created_date := (if cn_created_date c = PNone then now else cn_created_date c),
      orm_last_modified_date := now\<rparr>" by (simp add: dated_row_def orm_row_def)
  have swap: "(orm_row c x y)\<lparr>orm_last_modified_date := b, orm_created_date := a\<rparr> =
      (orm_row c x y)\<lparr>orm_created_date := a, orm_last_modified_date := b\<rparr>" for a b by simp
  have got: "\<exists>row. orm_get (cn_name c) re rows' = Inr (Some row) \<and>
      from_orm_object_with_secrets env ci (Some key) row = Inr (stored_as now c rows)" for re
    using read_dated_row [OF assms(1) cipher_ok_reads [OF assms(2)] plain row]
    by (cases "find (\<lambda>r. orm_name r = cn_name c) rows") (simp_all add: rows' orm_get_saved name dates stored_as_def swap)
  have "r = Inr (Some (scrubbed (stored_as now c rows)))" using got [of True]
    by (auto simp: r connection_get_def from_orm_object_def scrubbed_def)
  moreover have "connection_get env ci (Some key) (cn_name c) True re rows' = Inr (Some (stored_as now c rows))"
    using got [of re] by (auto simp: connection_get_def)
  moreover have "connection_get env ci key' n secrets re rows' = connection_get env ci key' n secrets re rows"
    if "n \<noteq> cn_name c" for n key' secrets re
    using that by (simp add: connection_get_def rows' orm_get_saved name)
  moreover have "cn_module (stored_as now c rows) = default_module (cn_type c)"
    by (simp add: stored_as_def with_dates_fields plain_connection_def)
  ultimately show ?thesis using True by simp
next
  case False
  with encrypted_when_fillable [OF assms(2,3)] have "\<forall>ts. validate_and_encrypt_secrets ci key c \<noteq> Inr ts" by blast
  then obtain e where "to_orm_object ci key c = Inl e"
    by (cases "validate_and_encrypt_secrets ci key c") (auto simp: to_orm_object_def)
  with assms(5) False show ?thesis by (auto simp: connection_create_or_update_def)
qed

text \<open>A connection of the user whose secret was scrubbed, saved over an older row of its name.\<close>

definition demo_cipher :: cipher where
  "demo_cipher = \<lparr>ci_open = (\<lambda>k. Inr ()), ci_encrypt = (\<lambda>k s. Inr (k @ s)), ci_decrypt = (\<lambda>k t. Inr (drop (length k) t))\<rparr>"

definition demo_connection :: connection where
  "demo_connection = \<lparr>cn_type = CUSTOM, cn_name = PStr ''c'', cn_module = PStr ''my.connections'',
     cn_configs = [(''url'', PStr ''u'')], cn_secrets = [(''pw'', PStr ''******''), (''pin'', PStr ''12'')],
     cn_unscrubbed = [(''pw'', PStr ''s3''), (''pin'', PStr ''11'')], cn_expiry_time = PNone, cn_created_date = PNone,
     cn_last_modified_date = PNone\<rparr>"

definition demo_row :: orm_connection where
  "demo_row = (orm_row demo_connection ''{}'' ''{}'')\<lparr>orm_created_date := PStr ''monday''\<rparr>"

theorem connection_store_roundtrip_witness:
  "fillable demo_connection \<and> (\<exists>rows'. connection_get demo_env demo_cipher (Some ''k'') (PStr ''c'') True True rows' =
     Inr (Some (demo_connection\<lparr>cn_module := PStr ''promptflow.connections'', cn_secrets := [(''pw'', PStr ''s3''), (''pin'', PStr ''12'')],
       cn_unscrubbed := [(''pw'', PStr ''s3''), (''pin'', PStr ''12'')], cn_created_date := PStr ''monday'',
       cn_last_modified_date := PStr ''today''\<rparr>)))"
proof -
  obtain r rows' where run: "connection_create_or_update demo_env demo_cipher ''k'' (PStr ''today'') demo_connection [demo_row] = (r, rows')"
    by force
  have ok: "connection_ok demo_connection" "text_connection demo_connection" "fillable demo_connection"
    "text_secrets (filter (\<lambda>(k, v). \<not> invalid_secret v) (effective_secrets demo_connection))"
    unfolding text_secrets_def
    by (simp_all add: connection_ok_def demo_connection_def supported_types_def default_module_def embedding_module_def dict_get_def
        text_connection_def secret_text_def fillable_def effective_secrets_def effective_secret_def invalid_secret_def
        is_scrubbed_value_def is_user_input_value_def)
  have cipher: "cipher_ok demo_cipher ''k''" by (simp add: cipher_ok_def demo_cipher_def)
  from connection_store_roundtrip [OF ok(1) cipher ok(2,4) run] ok(3)
  have "connection_get demo_env demo_cipher (Some ''k'') (cn_name demo_connection) True True rows' =
      Inr (Some (stored_as (PStr ''today'') demo_connection [demo_row]))" by simp
  moreover have "stored_as (PStr ''today'') demo_connection [demo_row] = demo_connection\<lparr>cn_module := PStr ''promptflow.connections'', cn_secrets := [(''pw'', PStr ''s3''), (''pin'', PStr ''12'')],
       cn_unscrubbed := [(''pw'', PStr ''s3''), (''pin'', PStr ''12'')], cn_created_date := PStr ''monday'',
       cn_last_modified_date := PStr ''today''\<rparr>"
    by (simp add: stored_as_def demo_row_def orm_row_def with_dates_def plain_connection_def effective_secrets_def effective_secret_def
        demo_connection_def is_scrubbed_value_def dict_get_def default_module_def embedding_module_def)
  ultimately show ?thesis using ok(3) by (auto simp: demo_connection_def)
qed

section \<open>References to connections\<close>

lemma between_braces_around: "between_braces opening (opening @ s @ ''}'') = Some s"
  by (simp add: between_braces_def butlast_append flip: append_assoc)

text \<open>A reference reads as the name and the key it was made of.\<close>

lemma match_reference_made:
  assumes "name \<noteq> []" "key \<noteq> []" "CHR ''.'' \<notin> set name" "CHR ''.'' \<notin> set key"
  shows "match_reference (PStr (''${'' @ name @ ''.'' @ key @ ''}'')) = Inr (Some (name, key))"
proof -
  let ?s = "''${'' @ (name @ ''.'' @ key) @ ''}''"
  have "strip ?s = ?s" by (simp add: strip_def is_space_def)
  moreover have "split_on (CHR ''.'') key = [key]" using assms(4) by (induction key) auto
  then have "split_on (CHR ''.'') (name @ ''.'' @ key) = [name, key]" using assms(3) by (induction name) auto
  ultimately show ?thesis using assms(1,2) between_braces_around [of "''${''" "name @ ''.'' @ key"]
    by (simp add: match_reference_def strip_value_def)
qed

lemma used_names:
  assumes "used_connection_names d = Inr names" "(k, v) \<in> set d" "match_reference v = Inr (Some (n, key))"
  shows "n \<in> set names"
proof -
  from assms(1) obtain refs where refs: "mapr (\<lambda>(k, v). match_reference v) d = Inr refs" and
    names: "names = remdups (concat (map (\<lambda>r. case r of Some (n, k) \<Rightarrow> [n] | None \<Rightarrow> []) refs))"
    by (auto simp: used_connection_names_def res_simps)
  from refs assms(2,3) have "Some (n, key) \<in> set refs"
    by (fastforce simp: mapr_Inr_iff list_all2_conv_all_nth in_set_conv_nth)
  then show ?thesis by (force simp: names)
qed

lemma referenced_value_restrict:
  assumes "\<And>n key. match_reference v = Inr (Some (n, key)) \<Longrightarrow> P n"
  shows "referenced_value (filter (\<lambda>(n, c). P n) built) v = referenced_value built v"
  using assms by (cases "match_reference v") (auto simp: referenced_value_def map_of_filter_key split: option.splits)

text \<open>Where a reference leads, if anywhere.\<close>

definition reference_target :: "built_connections \<Rightarrow> pyval \<Rightarrow> pyval option" where
  "reference_target built v =
    (case match_reference v of
       Inr (Some (name, key)) \<Rightarrow> (case map_of built name of
         Some c \<Rightarrow> (case map_of c ''value'' of Some (PDict d) \<Rightarrow> map_of d key | _ \<Rightarrow> None)
       | None \<Rightarrow> None)
     | _ \<Rightarrow> None)"

definition well_built :: "built_connections \<Rightarrow> bool" where
  "well_built built = list_all (\<lambda>(n, c). case map_of c ''value'' of Some (PDict d) \<Rightarrow> True | _ \<Rightarrow> False) built"

lemma execution_dict_well_built: "well_built (map (\<lambda>(n, c). (n, to_execution_connection_dict c)) cs)"
  by (auto simp: well_built_def list_all_iff to_execution_connection_dict_def)

lemma referenced_value_target:
  assumes "well_built built" "match_reference v = Inr r"
  shows "referenced_value built v = Inr (case reference_target built v of Some w \<Rightarrow> w | None \<Rightarrow> v)"
proof (cases r)
  case (Some nk)
  obtain n key where nk: "nk = (n, key)" by force
  show ?thesis
  proof (cases "map_of built n")
    case (Some c)
    then have "(n, c) \<in> set built" by (rule map_of_SomeD)
    with assms(1) obtain x where "map_of c ''value'' = Some (PDict x)"
      by (cases "map_of c ''value''"; cases "the (map_of c ''value'')") (auto simp: well_built_def list_all_iff)
    with Some assms(2) \<open>r = Some nk\<close> nk show ?thesis
      by (simp add: referenced_value_def reference_target_def built_value_def get_item_def expect_dict_def dict_get_def)
  qed (use assms(2) \<open>r = Some nk\<close> nk in \<open>simp add: referenced_value_def reference_target_def\<close>)
qed (use assms(2) in \<open>simp add: referenced_value_def reference_target_def\<close>)

text \<open>Replacing the references in a dictionary of settings whose names could be collected succeeds: a value that refers to
  a key of a known connection becomes that connection's value, and every other value stays. The connections that the
  search for used names finds are enough: with those alone the result is the same.\<close>

theorem references_need_used_names:
  assumes "used_connection_names d = Inr names" "well_built built"
  shows "update_dict_value_with_connections built d =
      Inr (map (\<lambda>(k, v). (k, case reference_target built v of Some w \<Rightarrow> w | None \<Rightarrow> v)) d) \<and>
    update_dict_value_with_connections (filter (\<lambda>(n, c). n \<in> set names) built) d = update_dict_value_with_connections built d"
proof
  have "\<exists>r. match_reference v = Inr r" if "(k, v) \<in> set d" for k v
    using assms(1) that by (fastforce simp: used_connection_names_def res_simps mapr_Inr_iff list_all2_conv_all_nth in_set_conv_nth)
  then show "update_dict_value_with_connections built d =
      Inr (map (\<lambda>(k, v). (k, case reference_target built v of Some w \<Rightarrow> w | None \<Rightarrow> v)) d)"
    unfolding update_dict_value_with_connections_def
    by (intro mapr_Inr_map) (fastforce simp: referenced_value_target [OF assms(2)])
  have "referenced_value (filter (\<lambda>(n, c). n \<in> set names) built) v = referenced_value built v" if "(k, v) \<in> set d" for k v
    by (rule referenced_value_restrict) (rule used_names [OF assms(1) that])
  then show "update_dict_value_with_connections (filter (\<lambda>(n, c). n \<in> set names) built) d = update_dict_value_with_connections built d"
    unfolding update_dict_value_with_connections_def by (intro mapr_cong) auto
qed

theorem references_need_used_names_witness:
  "update_dict_value_with_connections [(''a'', [(''value'', PDict [(''key'', PStr ''s'')])]), (''b'', [(''value'', PDict [])])]
     [(''X'', PStr '' ${a.key} ''), (''Y'', PStr ''${b.key}''), (''Z'', PStr ''z'')] =
   Inr [(''X'', PStr ''s''), (''Y'', PStr ''${b.key}''), (''Z'', PStr ''z'')]"
proof -
  let ?built = "[(''a'', [(''value'', PDict [(''key'', PStr ''s'')])]), (''b'', [(''value'', PDict [])])]"
  let ?d = "[(''X'', PStr '' ${a.key} ''), (''Y'', PStr ''${b.key}''), (''Z'', PStr ''z'')]"
  have "used_connection_names ?d = Inr [''a'', ''b'']" by code_simp
  moreover have "well_built ?built" by code_simp
  ultimately have "update_dict_value_with_connections ?built ?d =
      Inr (map (\<lambda>(k, v). (k, case reference_target ?built v of Some w \<Rightarrow> w | None \<Rightarrow> v)) ?d)"
    by (rule references_need_used_names [THEN conjunct1])
  also have "map (\<lambda>(k, v). (k, case reference_target ?built v of Some w \<Rightarrow> w | None \<Rightarrow> v)) ?d =
      [(''X'', PStr ''s''), (''Y'', PStr ''${b.key}''), (''Z'', PStr ''z'')]" by code_simp
  finally show ?thesis .
qed

section \<open>References to the environment\<close>

lemma base_connection_parts:
  assumes "base_connection t explicit kwargs = Inr c" "map_of explicit ''configs'' = Some (PDict configs)"
    "map_of explicit ''secrets'' = Some (PDict secrets)"
  shows "cn_configs c = configs \<and> cn_secrets c = secrets"
proof -
  have empty: "dict_or_empty (PDict d) = Inr d" for d by (cases d) (simp_all add: dict_or_empty_def)
  have "dict_get (explicit @ kwargs) ''configs'' PNone = PDict configs" "dict_get (explicit @ kwargs) ''secrets'' PNone = PDict secrets"
    using assms(2,3) by (simp_all add: dict_get_def)
  with assms(1) show ?thesis by (auto simp: base_connection_def Let_def empty split: if_splits)
qed

lemma openai_connection_parts:
  assumes "new_connection OPEN_AI kwargs = Inr c"
  shows "\<exists>api. map_of kwargs ''api_key'' = Some api \<and> cn_secrets c = [(''api_key'', api)] \<and>
    cn_configs c = [(''organization'', dict_get kwargs ''organization'' PNone)]"
proof -
  from assms obtain secrets where s: "take_args [(''api_key'', None)] kwargs = Inr secrets"
    by (auto simp: new_connection_def strong_connection_def res_simps)
  then obtain api where api: "map_of kwargs ''api_key'' = Some api" "secrets = [(''api_key'', api)]"
    by (auto simp: take_args_def res_simps split: option.splits)
  have o: "take_args (strong_params OPEN_AI) kwargs = Inr [(''organization'', dict_get kwargs ''organization'' PNone)]"
    by (simp add: take_args_def open_ai_params_def dict_get_def split: option.splits)
  from assms obtain explicit kw where base: "base_connection OPEN_AI explicit kw = Inr c" and
    explicit: "explicit = embedding_module OPEN_AI @ [(''configs'', PDict [(''organization'', dict_get kwargs ''organization'' PNone)]),
      (''secrets'', PDict [(''api_key'', api)])]"
    unfolding new_connection_def by (simp add: strong_connection_def s o api del: strong_params.simps)
  from base_connection_parts [OF base] explicit api show ?thesis by (simp add: embedding_module_def)
qed

text \<open>A connection made for OpenAI without an organization, as its constructor allows, keeps \<open>None\<close> among its configs; the
  step of the serving application that resolves \<^verbatim>\<open>${env:NAME}\<close> in connections then raises, whatever the other
  connections and the environment are. An organization that is a text without reference passes.\<close>

theorem openai_connection_served:
  assumes "new_connection OPEN_AI kwargs = Inr c"
  shows "(dict_get kwargs ''organization'' PNone = PNone \<longrightarrow>
      (\<exists>e. resolve_connections_environment_variable_reference environ (pre @ (n, to_execution_connection_dict c) # post) = Inl e)) \<and>
    (\<forall>org api. dict_get kwargs ''organization'' PNone = PStr org \<and> map_of kwargs ''api_key'' = Some (PStr api) \<and>
        match_env_reference (PStr org) = Inr None \<and> match_env_reference (PStr api) = Inr None \<longrightarrow>
      resolve_connections_environment_variable_reference environ [(n, to_execution_connection_dict c)] =
        Inr [(n, to_execution_connection_dict c)])"
proof -
  let ?org = "dict_get kwargs ''organization'' PNone"
  from openai_connection_parts [OF assms] obtain api where api: "map_of kwargs ''api_key'' = Some api" and
    c: "cn_configs c = [(''organization'', ?org)]" "cn_secrets c = [(''api_key'', api)]" by blast
  have d: "map_of (to_execution_connection_dict c) ''value'' = Some (PDict [(''organization'', ?org), (''api_key'', api)])"
    by (simp add: to_execution_connection_dict_def c dict_updates_def)
  have "\<exists>e. resolve_connection_env environ (to_execution_connection_dict c) = Inl e" if "?org = PNone"
    using that by (simp add: resolve_connection_env_def d expect_dict_def resolve_env_value_def match_env_reference_def strip_value_def)
  then have "\<exists>e. resolve_connections_environment_variable_reference environ (pre @ (n, to_execution_connection_dict c) # post) = Inl e"
    if "?org = PNone"
    using that by (cases "mapr (\<lambda>(n, c). bindr (resolve_connection_env environ c) (\<lambda>c'. Inr (n, c'))) pre")
      (auto simp: resolve_connections_environment_variable_reference_def mapr_append)
  moreover have "resolve_connections_environment_variable_reference environ [(n, to_execution_connection_dict c)] =
        Inr [(n, to_execution_connection_dict c)]"
    if "?org = PStr org" "api = PStr a" "match_env_reference (PStr org) = Inr None" "match_env_reference (PStr a) = Inr None" for org a
    using that d by (simp add: resolve_connections_environment_variable_reference_def resolve_connection_env_def expect_dict_def
        resolve_env_value_def to_execution_connection_dict_def)
  ultimately show ?thesis using api by auto
qed

theorem openai_connection_served_witness:
  "\<exists>c e. new_connection OPEN_AI [(''api_key'', PStr ''k'')] = Inr c \<and>
     resolve_connections_environment_variable_reference (\<lambda>n. None) [(''openai'', to_execution_connection_dict c)] = Inl e"
proof -
  have new: "\<exists>c. new_connection OPEN_AI [(''api_key'', PStr ''k'')] = Inr c"
    by (simp add: new_connection_def strong_connection_def take_args_def open_ai_params_def base_connection_def dict_get_def dict_has_def
        dict_or_empty_def embedding_module_def Let_def)
  then obtain c where c: "new_connection OPEN_AI [(''api_key'', PStr ''k'')] = Inr c" by blast
  from openai_connection_served [OF c, of "\<lambda>n. None" "[]" "''openai''" "[]"] c show ?thesis by (auto simp: dict_get_def)
qed

end
