(* ===== verification/ConnectionManager.thy ===== *)
theory ConnectionManager imports ConnectionStore begin

text \<open>
  The connections of an execution (\<^verbatim>\<open>_core/connection_manager.py\<close>): the objects built from execution
  dictionaries, what their attributes read, and the list of secrets for scrubbing logs. Which classes are registered
  once the modules of the connections are imported is a parameter.
\<close>

section \<open>Classes and objects\<close>

text \<open>A registered class is one of the SDK or a dataclass; a field has a name, whether it is a \<open>Secret\<close>, and its default.\<close>

datatype conn_class = EntityClass connection_type | DataClass "(string \<times> bool \<times> pyval option) list"

datatype conn_object = Entity connection | DataObject string "(string, pyval) dict"

record managed =
  mg_object :: conn_object
  mg_secret_keys :: "pyval list"
  mg_name :: string

definition data_object :: "string \<Rightarrow> (string \<times> bool \<times> pyval option) list \<Rightarrow> (string, pyval) dict \<Rightarrow> conn_object res" where
  "data_object cls flds d =
     bindr (mapr (\<lambda>(f, _, dflt). case map_of d f of
         Some v \<Rightarrow> Inr (f, v)
       | None \<Rightarrow> (case dflt of Some v \<Rightarrow> Inr (f, v)
           | None \<Rightarrow> Inl (py_exn TypeError [PStr (''missing 1 required positional argument: '' @ f)]))) flds)
       (\<lambda>attrs. Inr (DataObject cls attrs))"

section \<open>Building\<close>

definition build_connection :: "(string, conn_class) dict \<Rightarrow> string \<Rightarrow> (string, pyval) dict \<Rightarrow> managed res" where
  "build_connection classes key c =
    (let typ = dict_get c ''type'' PNone in
     if \<not> hashable typ then Inl (py_exn TypeError [PStr ''unhashable type''])
     else case as_str typ of
       None \<Rightarrow> Inl (py_exn ValueError [PStr (''Unknown connection '' @ repr_str key @ '' type ''), typ, PStr '', supported are '',
         PList (map PStr (dict_keys classes)), PStr ''.''])
     | Some name \<Rightarrow> (case map_of classes name of
         None \<Rightarrow> Inl (py_exn ValueError [PStr (''Unknown connection '' @ repr_str key @ '' type '' @ repr_str name @ '', supported are ''),
           PList (map PStr (dict_keys classes)), PStr ''.''])
       | Some cls \<Rightarrow>
          bindr (expect_dict (dict_get c ''value'' (PDict []))) (\<lambda>d.
            case cls of
              EntityClass CUSTOM \<Rightarrow>
                bindr (expect_list (dict_get c ''secret_keys'' (PList []))) (\<lambda>ks.
                  let (configs, secrets) = split_custom d ks in
                  bindr (new_connection CUSTOM [(''configs'', PDict configs), (''secrets'', PDict secrets)]) (\<lambda>x.
                    Inr \<lparr>mg_object = Entity x, mg_secret_keys = ks, mg_name = key\<rparr>))
            | EntityClass t \<Rightarrow>
                bindr (new_connection t d) (\<lambda>x.
                  Inr \<lparr>mg_object = Entity x, mg_secret_keys = map PStr (dict_keys (cn_secrets x)), mg_name = key\<rparr>)
            | DataClass flds \<Rightarrow>
                bindr (data_object name flds d) (\<lambda>x.
                  Inr \<lparr>mg_object = x, mg_secret_keys = map (\<lambda>(f, _, _). PStr f) (filter (\<lambda>(_, secret, _). secret) flds),
                       mg_name = key\<rparr>))))"

definition build_connections :: "(string, conn_class) dict \<Rightarrow> built_connections \<Rightarrow> (string, managed) dict res" where
  "build_connections classes d = mapr (\<lambda>(key, c). bindr (build_connection classes key c) (\<lambda>m. Inr (key, m))) d"

text \<open>The modules to import, each once, in no particular order.\<close>

definition connection_modules :: "built_connections \<Rightarrow> string list res" where
  "connection_modules d =
     bindr (mapr (\<lambda>(key, c). let m = dict_get c ''module'' PNone in
         if truthy m then (case as_str m of Some s \<Rightarrow> Inr [s] | None \<Rightarrow> Inl outside_model) else Inr []) d)
       (\<lambda>ms. Inr (remdups (concat ms)))"

record manager =
  cm_dict :: built_connections
  cm_connections :: "(string, managed) dict"

text \<open>
  \<open>test_file\<close> is what the file named by \<^verbatim>\<open>PROMPTFLOW_CONNECTIONS\<close> holds, when the variable is set; \<open>imports\<close> gives the
  registered classes after modules have been imported, where an \<open>ImportError\<close> is only logged.
\<close>

definition new_manager ::
  "(string list \<Rightarrow> (string, conn_class) dict res) \<Rightarrow> built_connections res option \<Rightarrow> built_connections option \<Rightarrow> manager res" where
  "new_manager imports test_file given =
    bindr (case given of Some d \<Rightarrow> Inr d | None \<Rightarrow> (case test_file of Some r \<Rightarrow> r | None \<Rightarrow> Inr [])) (\<lambda>d.
    bindr (connection_modules d) (\<lambda>ms.
    bindr (imports ms) (\<lambda>classes.
    bindr (build_connections classes d) (\<lambda>cs. Inr \<lparr>cm_dict = d, cm_connections = cs\<rparr>))))"

definition is_legacy_connections :: "(string, pyval) dict \<Rightarrow> bool" where
  "is_legacy_connections d = (\<not> list_ex (\<lambda>(k, v). case v of PDict c \<Rightarrow> dict_has ''module'' c | _ \<Rightarrow> False) d)"

section \<open>Attributes\<close>

text \<open>The two attributes the manager sets, and those of an instance of an SDK class.\<close>

definition manager_attrs :: "managed \<Rightarrow> (string, pyval) dict" where
  "manager_attrs m = [(''__secret_keys'', PList (mg_secret_keys m)), (connection_name_property, PStr (mg_name m))]"

definition entity_attrs :: "connection \<Rightarrow> (string, pyval) dict" where
  "entity_attrs c = [(''name'', cn_name c), (''type'', PStr (connection_type_value (cn_type c))), (''class_name'', PStr (cn_class_name c)),
     (''configs'', PDict (cn_configs c)), (''module'', cn_module c), (''secrets'', PDict (cn_secrets c)),
     (''_secrets'', PDict (cn_unscrubbed c)), (''expiry_time'', cn_expiry_time c), (''created_date'', cn_created_date c),
     (''last_modified_date'', cn_last_modified_date c)]"

text \<open>The names Python gives every class of a connection and its instances, and those the classes define.\<close>

definition object_names :: "string list" where
  "object_names = [''__class__'', ''__doc__'', ''__module__'', ''__dict__'', ''__weakref__'', ''__annotations__'', ''__slots__'',
     ''__abstractmethods__'', ''_abc_impl'', ''__init__'', ''__new__'', ''__repr__'', ''__str__'', ''__hash__'', ''__eq__'', ''__ne__'',
     ''__lt__'', ''__le__'', ''__gt__'', ''__ge__'', ''__getattribute__'', ''__getattr__'', ''__setattr__'', ''__delattr__'', ''__dir__'',
     ''__format__'', ''__reduce__'', ''__reduce_ex__'', ''__sizeof__'', ''__subclasshook__'', ''__init_subclass__'']"

definition entity_methods :: "connection_type \<Rightarrow> string list" where
  "entity_methods t = [''TYPE'', ''keys'', ''_casting_type'', ''_is_scrubbed_value'', ''_is_user_input_value'',
     ''_validate_and_encrypt_secrets'', ''_load_from_dict'', ''_to_dict'', ''_resolve_cls_and_type'', ''_to_orm_object'',
     ''_from_orm_object_with_secrets'', ''_from_orm_object'', ''_load'', ''to_execution_connection_dict'',
     ''from_execution_connection_dict'', ''_get_schema_cls'', ''_to_yaml''] @ (if t = CUSTOM then [''is_secret''] else []) @ object_names"

definition no_attribute :: "string \<Rightarrow> string \<Rightarrow> pyval res" where
  "no_attribute cls a = Inl (py_exn AttributeError [PStr (squote cls @ '' object has no attribute '' @ squote a)])"

text \<open>The properties of a strongly typed connection, and the fallback of a custom one to its secrets and configs.\<close>

definition entity_fallback :: "connection \<Rightarrow> string \<Rightarrow> pyval res" where
  "entity_fallback c a =
    (if cn_type c = CUSTOM then
       (if dict_has a (cn_secrets c) then get_item (cn_secrets c) a
        else if dict_has a (cn_configs c) then get_item (cn_configs c) a
        else no_attribute (cn_class_name c) a)
     else if a = ''api_key'' then Inr (dict_get (cn_secrets c) ''api_key'' (PStr ''***''))
     else if a \<in> set (dict_keys (strong_params (cn_type c))) then Inr (dict_get (cn_configs c) a PNone)
     else no_attribute (cn_class_name c) a)"

definition conn_attr :: "managed \<Rightarrow> string \<Rightarrow> pyval res" where
  "conn_attr m a =
    (case mg_object m of
       DataObject cls attrs \<Rightarrow> (case map_of (attrs @ manager_attrs m) a of Some v \<Rightarrow> Inr v | None \<Rightarrow> no_attribute cls a)
     | Entity c \<Rightarrow> (case map_of (entity_attrs c @ manager_attrs m) a of
           Some v \<Rightarrow> Inr v
         | None \<Rightarrow> if a \<in> set (entity_methods (cn_type c)) then Inr (PObj ''method'' [(''__name__'', PStr a)])
             else entity_fallback c a))"

section \<open>Looking up\<close>

definition managed_class :: "managed \<Rightarrow> string" where
  "managed_class m = (case mg_object m of Entity c \<Rightarrow> cn_class_name c | DataObject cls attrs \<Rightarrow> cls)"

definition managed_value :: "managed \<Rightarrow> pyval" where
  "managed_value m = PObj (managed_class m)
     ((case mg_object m of Entity c \<Rightarrow> entity_attrs c | DataObject cls attrs \<Rightarrow> attrs) @ manager_attrs m)"

definition manager_get :: "string list \<Rightarrow> manager \<Rightarrow> pyval \<Rightarrow> pyval option" where
  "manager_get conns mgr info =
    (case as_str info of
       Some name \<Rightarrow> map_option managed_value (map_of (cm_connections mgr) name)
     | None \<Rightarrow> if is_connection_value conns info then Some info else None)"

definition get_secret_list :: "manager \<Rightarrow> pyval list res" where
  "get_secret_list mgr =
     bindr (mapr (\<lambda>(key, m). mapr (\<lambda>k. case as_str k of
         None \<Rightarrow> Inl (py_exn TypeError [PStr ''attribute name must be string''])
       | Some a \<Rightarrow> conn_attr m a) (mg_secret_keys m)) (cm_connections mgr)) (\<lambda>vs. Inr (concat vs))"

section \<open>The list of secrets\<close>

lemma base_connection_secrets:
  assumes "base_connection t explicit kwargs = Inr c" "map_of explicit ''secrets'' = Some (PDict secrets)"
  shows "cn_secrets c = secrets \<and> cn_type c = t"
proof -
  have "dict_or_empty (PDict d) = Inr d" for d by (cases d) (simp_all add: dict_or_empty_def)
  moreover have "dict_get (explicit @ kwargs) ''secrets'' PNone = PDict secrets" using assms(2) by (simp add: dict_get_def)
  ultimately show ?thesis using assms(1) by (auto simp: base_connection_def Let_def res_simps split: if_splits)
qed

lemma strong_connection_secrets:
  assumes "strong_connection t kwargs = Inr c"
  shows "cn_type c = t \<and> (\<exists>api. cn_secrets c = [(''api_key'', api)])"
proof -
  from assms obtain secrets configs kw where s: "take_args [(''api_key'', None)] kwargs = Inr secrets" and
    base: "base_connection t (embedding_module t @ (if t = SERP then [] else [(''configs'', PDict configs)]) @ [(''secrets'', PDict secrets)]) kw = Inr c"
    by (auto simp: strong_connection_def res_simps)
  from s obtain api where "secrets = [(''api_key'', api)]" by (auto simp: take_args_def res_simps split: option.splits)
  with base_connection_secrets [OF base, of secrets] show ?thesis by (auto simp: embedding_module_def)
qed

lemma custom_connection_secrets:
  assumes "new_connection CUSTOM [(''configs'', PDict configs), (''secrets'', PDict secrets)] = Inr c"
  shows "cn_type c = CUSTOM \<and> cn_secrets c = secrets"
proof -
  have "take_args [(''secrets'', None), (''configs'', Some PNone)] [(''configs'', PDict configs), (''secrets'', PDict secrets)] =
      Inr [(''secrets'', PDict secrets), (''configs'', PDict configs)]" by (simp add: take_args_def)
  with assms obtain kw where base: "base_connection CUSTOM [(''secrets'', PDict secrets), (''configs'', PDict configs)] kw = Inr c"
    by (auto simp: new_connection_def custom_connection_def split: if_splits)
  from base_connection_secrets [OF base, of secrets] show ?thesis by simp
qed

lemma new_connection_secrets:
  assumes "new_connection t d = Inr c" "t \<noteq> CUSTOM"
  shows "cn_type c = t \<and> (\<exists>api. cn_secrets c = [(''api_key'', api)])"
  using assms strong_connection_secrets by (cases t) (auto simp: new_connection_def)

text \<open>The secrets an object has, and the names that its class or its instances define themselves.\<close>

definition managed_secrets :: "managed \<Rightarrow> (string, pyval) dict" where
  "managed_secrets m = (case mg_object m of
     Entity c \<Rightarrow> cn_secrets c | DataObject cls attrs \<Rightarrow> filter (\<lambda>(k, v). PStr k \<in> set (mg_secret_keys m)) attrs)"

definition own_names :: "managed \<Rightarrow> string list" where
  "own_names m = (case mg_object m of
     Entity c \<Rightarrow> if cn_type c = CUSTOM then dict_keys (entity_attrs c @ manager_attrs m) @ entity_methods CUSTOM else []
   | DataObject cls attrs \<Rightarrow> [])"

text \<open>How the manager makes an object: its secret keys cover its secrets.\<close>

definition managed_ok :: "managed \<Rightarrow> bool" where
  "managed_ok m \<longleftrightarrow> (\<forall>k \<in> fst ` set (managed_secrets m). \<exists>x \<in> set (mg_secret_keys m). as_str x = Some k) \<and>
     (case mg_object m of
        Entity c \<Rightarrow> cn_type c \<noteq> CUSTOM \<longrightarrow> fst ` set (cn_secrets c) \<subseteq> {''api_key''} | DataObject cls attrs \<Rightarrow> True)"

lemma py_eq_text: "py_eq (PStr k) x \<Longrightarrow> as_str x = Some k"
  by (cases x) (auto simp: py_eq.simps)

lemma built_connection_ok:
  assumes "build_connection classes key c = Inr m"
  shows "managed_ok m"
proof -
  from assms obtain name cls d where cls: "map_of classes name = Some cls" and
    m: "(case cls of
          EntityClass CUSTOM \<Rightarrow>
            bindr (expect_list (dict_get c ''secret_keys'' (PList []))) (\<lambda>ks.
              let (configs, secrets) = split_custom d ks in
              bindr (new_connection CUSTOM [(''configs'', PDict configs), (''secrets'', PDict secrets)]) (\<lambda>x.
                Inr \<lparr>mg_object = Entity x, mg_secret_keys = ks, mg_name = key\<rparr>))
        | EntityClass t \<Rightarrow>
            bindr (new_connection t d) (\<lambda>x.
              Inr \<lparr>mg_object = Entity x, mg_secret_keys = map PStr (dict_keys (cn_secrets x)), mg_name = key\<rparr>)
        | DataClass flds \<Rightarrow>
            bindr (data_object name flds d) (\<lambda>x.
              Inr \<lparr>mg_object = x, mg_secret_keys = map (\<lambda>(f, _, _). PStr f) (filter (\<lambda>(_, secret, _). secret) flds),
                   mg_name = key\<rparr>)) = Inr m"
    unfolding build_connection_def Let_def by (auto simp: res_simps split: if_splits option.splits)
  show ?thesis
  proof (cases cls)
    case (DataClass flds)
    with m show ?thesis by (auto simp: res_simps managed_ok_def managed_secrets_def data_object_def image_iff)
  next
    case (EntityClass t)
    show ?thesis
    proof (cases "t = CUSTOM")
      case True
      with m EntityClass obtain ks where run: "(case split_custom d ks of (configs, secrets) \<Rightarrow>
          bindr (new_connection CUSTOM [(''configs'', PDict configs), (''secrets'', PDict secrets)]) (\<lambda>x.
            Inr \<lparr>mg_object = Entity x, mg_secret_keys = ks, mg_name = key\<rparr>)) = Inr m"
        by (auto simp: res_simps Let_def)
      obtain configs secrets where split: "split_custom d ks = (configs, secrets)" by force
      with run obtain x where
        new: "new_connection CUSTOM [(''configs'', PDict configs), (''secrets'', PDict secrets)] = Inr x" and
        mm: "m = \<lparr>mg_object = Entity x, mg_secret_keys = ks, mg_name = key\<rparr>" by (auto simp: res_simps)
      from split have "secrets = filter (\<lambda>(k, v). list_ex (py_eq (PStr k)) ks) d" by (auto simp: split_custom_def Let_def)
      then have "\<exists>x \<in> set ks. as_str x = Some k" if "k \<in> fst ` set secrets" for k
        using that py_eq_text by (fastforce simp: list_ex_iff)
      with custom_connection_secrets [OF new] show ?thesis by (simp add: managed_ok_def managed_secrets_def mm)
    next
      case False
      with m EntityClass obtain x where new: "new_connection t d = Inr x" and
        mm: "m = \<lparr>mg_object = Entity x, mg_secret_keys = map PStr (dict_keys (cn_secrets x)), mg_name = key\<rparr>"
        by (cases t) (auto simp: res_simps)
      from new_connection_secrets [OF new False] show ?thesis by (auto simp: managed_ok_def managed_secrets_def mm)
    qed
  qed
qed

lemma secret_attribute:
  assumes "managed_ok m" "(k, v) \<in> set (managed_secrets m)" "distinct (dict_keys (managed_secrets m))" "k \<notin> set (own_names m)"
  shows "conn_attr m k = Inr v"
proof (cases "mg_object m")
  case (DataObject cls attrs)
  let ?P = "\<lambda>k. PStr k \<in> set (mg_secret_keys m)"
  from assms(2,3) DataObject have "map_of (filter (\<lambda>(k, v). ?P k) attrs) k = Some v" "?P k"
    by (auto simp: managed_secrets_def intro: map_of_is_SomeI)
  then have "map_of attrs k = Some v" by (simp add: map_of_filter_key)
  then show ?thesis by (simp add: conn_attr_def DataObject)
next
  case (Entity c)
  from assms(2,3) Entity have v: "map_of (cn_secrets c) k = Some v" by (simp add: managed_secrets_def)
  have "map_of (entity_attrs c @ manager_attrs m) k = None \<and> k \<notin> set (entity_methods (cn_type c)) \<and> entity_fallback c k = Inr v"
  proof (cases "cn_type c = CUSTOM")
    case True
    with assms(4) Entity v show ?thesis
      by (auto simp: own_names_def map_of_eq_None_iff entity_fallback_def dict_has_def get_item_def)
  next
    case False
    with assms(1,2) Entity have "k = ''api_key''" by (auto simp: managed_ok_def managed_secrets_def)
    with False v show ?thesis
      by (simp add: entity_attrs_def manager_attrs_def connection_name_property_def entity_methods_def object_names_def entity_fallback_def dict_get_def)
  qed
  then show ?thesis by (simp add: conn_attr_def Entity del: map_of_append)
qed

text \<open>C21. When the secrets of the connections of an execution can be listed, every secret of every connection is in the list,
  whatever the class of the connection, but for a secret of a custom connection that has the name of an attribute or method
  of its class: for that the list has the attribute (\<open>secret_behind_attribute\<close>).\<close>

theorem secret_list_complete:
  assumes "build_connections classes d = Inr ms" "get_secret_list \<lparr>cm_dict = d, cm_connections = ms\<rparr> = Inr listed"
    and "(n, m) \<in> set ms" "(k, v) \<in> set (managed_secrets m)" "distinct (dict_keys (managed_secrets m))" "k \<notin> set (own_names m)"
  shows "v \<in> set listed"
proof -
  from assms(1,3) obtain c where "build_connection classes n c = Inr m"
    by (auto simp: build_connections_def res_simps dest!: mapr_source)
  then have ok: "managed_ok m" by (rule built_connection_ok)
  with assms(4) obtain x where x: "x \<in> set (mg_secret_keys m)" "as_str x = Some k" by (force simp: managed_ok_def)
  let ?read = "\<lambda>k. case as_str k of None \<Rightarrow> Inl (py_exn TypeError [PStr ''attribute name must be string'']) | Some a \<Rightarrow> conn_attr m a"
  from assms(2) obtain vs where vs: "mapr (\<lambda>(key, m). mapr (\<lambda>k. case as_str k of
         None \<Rightarrow> Inl (py_exn TypeError [PStr ''attribute name must be string''])
       | Some a \<Rightarrow> conn_attr m a) (mg_secret_keys m)) ms = Inr vs" "listed = concat vs"
    by (auto simp: get_secret_list_def res_simps)
  with assms(3) obtain us where us: "us \<in> set vs" "mapr ?read (mg_secret_keys m) = Inr us"
    using mapr_image [OF vs(1)] by fastforce
  with x have "\<exists>u \<in> set us. ?read x = Inr u" using mapr_image [OF us(2)] by blast
  with x(2) secret_attribute [OF ok assms(4-6)] have "v \<in> set us" by auto
  with us(1) vs(2) show ?thesis by auto
qed

text \<open>A custom connection and a dataclass of a package.\<close>

definition demo_classes :: "(string, conn_class) dict" where
  "demo_classes = [(''CustomConnection'', EntityClass CUSTOM), (''OpenAIConnection'', EntityClass OPEN_AI),
     (''BingConnection'', DataClass [(''api_key'', True, None), (''url'', False, Some (PStr ''bing''))])]"

definition demo_connections :: "string \<Rightarrow> built_connections" where
  "demo_connections k = [(''c'', [(''type'', PStr ''CustomConnection''), (''value'', PDict [(''url'', PStr ''u''), (k, PStr ''s3'')]),
       (''secret_keys'', PList [PStr k])]),
     (''b'', [(''type'', PStr ''BingConnection''), (''value'', PDict [(''api_key'', PStr ''s4'')])])]"

definition demo_managed :: "string \<Rightarrow> managed" where
  "demo_managed k = \<lparr>mg_object = Entity \<lparr>cn_type = CUSTOM, cn_name = PStr ''default_connection'', cn_module = PStr ''promptflow.connections'',
     cn_configs = [(''url'', PStr ''u'')], cn_secrets = [(k, PStr ''s3'')], cn_unscrubbed = [(k, PStr ''s3'')],
     cn_expiry_time = PNone, cn_created_date = PNone, cn_last_modified_date = PNone\<rparr>, mg_secret_keys = [PStr k], mg_name = ''c''\<rparr>"

definition demo_bing :: managed where
  "demo_bing = \<lparr>mg_object = DataObject ''BingConnection'' [(''api_key'', PStr ''s4''), (''url'', PStr ''bing'')],
     mg_secret_keys = [PStr ''api_key''], mg_name = ''b''\<rparr>"

lemma demo_built:
  assumes "k \<noteq> ''url''"
  shows "build_connections demo_classes (demo_connections k) = Inr [(''c'', demo_managed k), (''b'', demo_bing)]"
  using assms by (simp add: build_connections_def build_connection_def demo_classes_def demo_connections_def demo_managed_def demo_bing_def
      dict_get_def expect_dict_def expect_list_def split_custom_def new_connection_def custom_connection_def take_args_def
      base_connection_def dict_or_empty_def dict_has_def data_object_def Let_def)

theorem secret_list_complete_witness:
  "\<exists>listed. get_secret_list \<lparr>cm_dict = demo_connections ''pw'', cm_connections = [(''c'', demo_managed ''pw''), (''b'', demo_bing)]\<rparr> = Inr listed \<and>
     PStr ''s3'' \<in> set listed"
proof -
  let ?ms = "[(''c'', demo_managed ''pw''), (''b'', demo_bing)]"
  have built: "build_connections demo_classes (demo_connections ''pw'') = Inr ?ms" by (rule demo_built) simp
  have names: "''pw'' \<notin> set (own_names (demo_managed ''pw''))"
    by (simp add: own_names_def demo_managed_def entity_attrs_def manager_attrs_def connection_name_property_def entity_methods_def object_names_def)
  obtain listed where listed: "get_secret_list \<lparr>cm_dict = demo_connections ''pw'', cm_connections = ?ms\<rparr> = Inr listed"
    using secret_attribute [OF built_connection_ok, of demo_classes "''c''" _ "demo_managed ''pw''" "''pw''"]
    by (simp add: get_secret_list_def demo_managed_def demo_bing_def conn_attr_def entity_attrs_def manager_attrs_def
        connection_name_property_def entity_methods_def object_names_def entity_fallback_def dict_has_def get_item_def)
  from secret_list_complete [OF built listed, of "''c''" "demo_managed ''pw''" "''pw''" "PStr ''s3''"] names listed
  show ?thesis by (simp add: managed_secrets_def demo_managed_def)
qed

text \<open>A secret called \<open>name\<close> is not in the list: the name of the connection is in its place.\<close>

lemma secret_behind_attribute:
  "get_secret_list \<lparr>cm_dict = demo_connections ''name'', cm_connections = [(''c'', demo_managed ''name'')]\<rparr> =
     Inr [PStr ''default_connection'']"
  by (simp add: get_secret_list_def demo_managed_def conn_attr_def entity_attrs_def)

end
