(* ===== verification/ToolResolver.thy ===== *)
theory ToolResolver imports ConnectionManager begin

text \<open>
  From the nodes of a flow to the functions that run them: loading tools of packages and of files
  (\<^verbatim>\<open>_core/tools_manager.py\<close>), and the resolver that converts the literal inputs of a node and finds its callable
  (\<^verbatim>\<open>executor/_tool_resolver.py\<close>). The record \<open>resolver\<close> has what the process offers: the files and modules, the
  entry points of installed packages, and whether an instance of a tool class can be made. The modules that are imported
  have registered their tools in the \<open>registry\<close> before.
\<close>

section \<open>Package tools\<close>

record entry_point =
  ep_project :: string
  ep_version :: string
  ep_tools :: "(string, pyval) dict res"

definition import_named :: "tool_env \<Rightarrow> pyval \<Rightarrow> py_module res" where
  "import_named te m = (case as_str m of Some s \<Rightarrow> te_import te s | None \<Rightarrow> Inl (py_exn AttributeError [PStr ''startswith'']))"

text \<open>The first tool that cannot be read ends the loop over the tools of its package; those before it are kept.\<close>

fun collect_from_package ::
  "tool_env \<Rightarrow> string list option \<Rightarrow> entry_point \<Rightarrow> (string \<times> pyval) list \<Rightarrow> (string, pyval) dict \<Rightarrow> (string, pyval) dict" where
  "collect_from_package te keys ep [] acc = acc"
| "collect_from_package te keys ep ((k, t) # ts) acc =
    (if keys \<noteq> None \<and> k \<notin> set (the keys) then collect_from_package te keys ep ts acc
     else case bindr (expect_dict t) (\<lambda>d. bindr (get_item d ''module'') (\<lambda>m. bindr (import_named te m) (\<lambda>_. Inr d))) of
         Inl e \<Rightarrow> acc
       | Inr d \<Rightarrow> collect_from_package te keys ep ts (AList.update k
           (PDict (AList.update ''package_version'' (PStr (ep_version ep)) (AList.update ''package'' (PStr (ep_project ep)) d))) acc))"

definition collect_package_tools :: "tool_env \<Rightarrow> entry_point list \<Rightarrow> string list option \<Rightarrow> (string, pyval) dict" where
  "collect_package_tools te eps keys =
     fold (\<lambda>ep acc. case ep_tools ep of Inr ts \<Rightarrow> collect_from_package te keys ep ts acc | Inl e \<Rightarrow> acc) eps []"

definition package_tool_not_found :: "tool_env \<Rightarrow> entry_point list \<Rightarrow> string option \<Rightarrow> exn" where
  "package_tool_not_found te eps name = pf_exn (Co PackageToolNotFoundError)
     [PStr (''Package tool '' @ [CHR 0x27]), none_or_str name, PStr ([CHR 0x27] @ '' is not found in the current environment. ''),
      PStr ''All available package tools are: '', PList (map PStr (dict_keys (collect_package_tools te eps None))), PStr ''.''] EXECUTOR"

definition gen_tool_by_source ::
  "tool_env \<Rightarrow> entry_point list \<Rightarrow> registry \<Rightarrow> (string \<Rightarrow> string) \<Rightarrow> string \<Rightarrow> tool_source \<Rightarrow> tool_type \<Rightarrow> tool_def res" where
  "gen_tool_by_source te eps rg join_path name source ty =
    (if ts_type source = tool_source_type_value Package then
       (let package_tools = collect_package_tools te eps None in
        case ts_tool source of
          None \<Rightarrow> Inl (package_tool_not_found te eps None)
        | Some t \<Rightarrow> (case map_of package_tools t of
            Some d \<Rightarrow> tool_deserialize d
          | None \<Rightarrow> Inl (package_tool_not_found te eps (Some t))))
     else (case ts_path source of
         None \<Rightarrow> Inl (pf_exception (Ot NodeSourcePathEmpty) []
           ''The source path of node {node_name} is not defined. Please check your flow.'' EXECUTOR None [(''node_name'', PStr name)] None)
       | Some path \<Rightarrow>
          if path = [] then Inl (pf_exception (Ot NodeSourcePathEmpty) []
             ''The source path of node {node_name} is not defined. Please check your flow.'' EXECUTOR None [(''node_name'', PStr name)] None)
          else bindr (te_read te (join_path path)) (\<lambda>content.
            case ty of
              PYTHON \<Rightarrow> generate_python_tool te (rg_connections rg) (Some name) content (Some (join_path path))
            | PROMPT \<Rightarrow> generate_prompt_tool te (rg_reserved rg) (PStr name) content True None
            | LLM \<Rightarrow> generate_prompt_tool te (rg_reserved rg) (PStr name) content False None
            | _ \<Rightarrow> Inl (py_exn NotImplementedError [PStr ''Tool type '', PStr (tool_type_value ty), PStr '' is not supported yet.'']))))"

section \<open>Callables\<close>

text \<open>A function, the instance it is a method of (with the arguments that made it), and the arguments already given.\<close>

record callable =
  cb_function :: py_function
  cb_self :: "(tool_class \<times> (string, pyval) dict) option"
  cb_bound :: "(string, pyval) dict"

definition bind_argument :: "string \<Rightarrow> pyval \<Rightarrow> callable \<Rightarrow> callable" where
  "bind_argument k v c = c\<lparr>cb_bound := AList.update k v (cb_bound c)\<rparr>"

definition no_member :: "string \<Rightarrow> 'a res" where
  "no_member a = Inl (py_exn AttributeError [PStr ''no attribute '', PStr (squote a)])"

definition module_function :: "py_module \<Rightarrow> string \<Rightarrow> callable res" where
  "module_function m name =
    (case map_of (md_members m) name of
       Some (FunctionMember f) \<Rightarrow> Inr \<lparr>cb_function = f, cb_self = None, cb_bound = []\<rparr>
     | Some _ \<Rightarrow> Inl outside_model
     | None \<Rightarrow> no_member name)"

text \<open>A value that names something: a string of the tool's dictionary.\<close>

definition name_of :: "pyval \<Rightarrow> string res" where
  "name_of v = (case as_str v of Some s \<Rightarrow> Inr s | None \<Rightarrow> Inl (py_exn TypeError [PStr ''name must be a string'']))"

section \<open>Loading a tool of a package\<close>

record resolver =
  rv_te :: tool_env
  rv_classes :: "(string, conn_class) dict"
  rv_join :: "string \<Rightarrow> string"
  rv_manager :: manager
  rv_package_tools :: "(string, pyval) dict"
  rv_entry_points :: "entry_point list"
  rv_instantiate :: "tool_class \<Rightarrow> (string, pyval) dict \<Rightarrow> unit res"

abbreviation rv_env :: "resolver \<Rightarrow> pyenv" where
  "rv_env rv \<equiv> te_env (rv_te rv)"

abbreviation rv_conns :: "resolver \<Rightarrow> string list" where
  "rv_conns rv \<equiv> dict_keys (rv_classes rv)"

definition load_llm_api :: "registry \<Rightarrow> string \<Rightarrow> tool_def res" where
  "load_llm_api rg api_name =
    (case map_of (rg_apis rg) api_name of
       Some t \<Rightarrow> Inr t
     | None \<Rightarrow> Inl (pf_exn (Ot APINotFound) [PStr (''The API '' @ squote api_name @ '' is not found.'')] EXECUTOR))"

text \<open>The values of the inputs that initialise the class: literals only.\<close>

definition init_value :: "resolver \<Rightarrow> pyval \<Rightarrow> string \<times> input_assignment \<Rightarrow> (string \<times> pyval) res" where
  "init_value rv tname kv =
    (if ia_value_type (snd kv) \<noteq> LITERAL
     then bindr (ia_serialize (rv_env rv) (rv_conns rv) (snd kv)) (\<lambda>s.
       Inl (py_exn ValueError [PStr (''Input '' @ repr_str (fst kv) @ '' for tool '' @ [CHR 0x27]), tname,
         PStr ([CHR 0x27] @ '' only supports literal values for initialization, got ''), repr_part s]))
     else Inr (fst kv, ia_value (snd kv)))"

definition load_class_method ::
  "resolver \<Rightarrow> pyval \<Rightarrow> tool_class \<Rightarrow> py_function list \<Rightarrow> string \<Rightarrow> (string, input_assignment) dict \<Rightarrow> registry \<Rightarrow>
     (callable \<times> (string, param) dict) res \<times> registry" where
  "load_class_method rv tname c methods method_name inputs rg =
    (if \<not> tc_provider c then (no_member ''get_initialize_inputs'', rg)
     else (let (init, cache) = get_initialize_inputs c (rg_inputs rg); rg1 = rg\<lparr>rg_inputs := cache\<rparr> in
       case mapr (init_value rv tname) (filter (\<lambda>(k, v). dict_has k init) inputs) of
         Inl e \<Rightarrow> (Inl e, rg1)
       | Inr values \<Rightarrow>
          (let (required, cache2) = get_required_initialize_inputs c (rg_required rg1); rg2 = rg1\<lparr>rg_required := cache2\<rparr>;
               missing = filter (\<lambda>k. \<not> dict_has k values) (dict_keys required) in
           if missing \<noteq> []
           then (Inl (pf_exn (Co MissingRequiredInputs) [PStr ''Required inputs '', PList (map PStr missing),
             PStr ('' are not provided for tool '' @ [CHR 0x27]), tname, PStr ([CHR 0x27] @ ''.'')] EXECUTOR), rg2)
           else (bindr (rv_instantiate rv c values) (\<lambda>_.
               case find (\<lambda>f. fn_name f = method_name) methods of
                 Some f \<Rightarrow> Inr (\<lparr>cb_function = f, cb_self = Some (c, values), cb_bound = []\<rparr>, init)
               | None \<Rightarrow> no_member method_name), rg2))))"

definition load_package_tool ::
  "resolver \<Rightarrow> tool_def \<Rightarrow> (string, input_assignment) dict \<Rightarrow> registry \<Rightarrow> (callable \<times> (string, param) dict) res \<times> registry" where
  "load_package_tool rv t inputs rg =
    (case bindr (import_named (rv_te rv) (tool_module t)) (\<lambda>m. bindr (name_of (tool_function t)) (\<lambda>f. Inr (m, f))) of
       Inl e \<Rightarrow> (Inl e, rg)
     | Inr (m, method_name) \<Rightarrow>
        if tool_class_name t = PNone then (bindr (module_function m method_name) (\<lambda>c. Inr (c, [])), rg)
        else (case name_of (tool_class_name t) of
            Inl e \<Rightarrow> (Inl e, rg)
          | Inr cls \<Rightarrow> (case map_of (md_members m) cls of
              Some (ClassMember c methods) \<Rightarrow> load_class_method rv (tool_name t) c methods method_name inputs rg
            | Some _ \<Rightarrow> (Inl outside_model, rg)
            | None \<Rightarrow> (no_member cls, rg))))"

section \<open>The tools manager\<close>

type_synonym callables = "(string, callable) dict"

definition load_tools :: "callables \<Rightarrow> callables \<Rightarrow> callables" where
  "load_tools new ts = dict_updates ts new"

definition loaded :: "string \<Rightarrow> callables \<Rightarrow> bool" where
  "loaded name ts = dict_has name ts"

definition manager_get_tool :: "string \<Rightarrow> callables \<Rightarrow> callable res" where
  "manager_get_tool name ts =
    (case map_of ts name of Some c \<Rightarrow> Inr c | None \<Rightarrow> Inl (py_exn ValueError [PStr (''Tool for '' @ name @ '' is not loaded'')]))"

definition wrap_tool :: "string \<Rightarrow> (callable \<Rightarrow> callable) \<Rightarrow> callables \<Rightarrow> callables res" where
  "wrap_tool name wrapper ts = bindr (manager_get_tool name ts) (\<lambda>c. Inr (AList.update name (wrapper c) ts))"

definition assert_loaded :: "string \<Rightarrow> callables \<Rightarrow> unit res" where
  "assert_loaded name ts = (if dict_has name ts then Inr () else Inl (py_exn ValueError [PStr (''Tool '' @ name @ '' is not loaded'')]))"

definition custom_tool_error :: "other_class \<Rightarrow> msg \<Rightarrow> exn" where
  "custom_tool_error c m = pf_exn (Ot c) m TOOL"

text \<open>Executing the text of a tool gives a module; its globals are the members.\<close>

definition load_code :: "tool_env \<Rightarrow> tool_def \<Rightarrow> string \<Rightarrow> string \<Rightarrow> callable res" where
  "load_code te t nd func =
    (case as_str (tool_code t) of
       None \<Rightarrow> if truthy (tool_code t) then Inl outside_model
         else Inl (custom_tool_error EmptyCodeInCustomTool [PStr (''Missing code in node '' @ nd @ ''.'')])
     | Some code \<Rightarrow>
        if code = [] then Inl (custom_tool_error EmptyCodeInCustomTool [PStr (''Missing code in node '' @ nd @ ''.'')])
        else (case te_exec te code of
           Inl e \<Rightarrow> bindr (message (te_env te) e) (\<lambda>s. Inl (raise_from (custom_tool_error CustomPythonToolLoadError
             [PStr (''Error when loading code of node '' @ nd @ '': '' @ s)]) e))
         | Inr m \<Rightarrow>
            if map_of (md_members m) func = None
            then Inl (custom_tool_error MissingTargetFunction [PStr (''Cannot find function '' @ func @ '' in the code of node '' @ nd @ ''.'')])
            else module_function m func))"

definition load_custom_tool :: "tool_env \<Rightarrow> tool_def \<Rightarrow> string \<Rightarrow> callable res" where
  "load_custom_tool te t nd =
    bindr (name_of (if truthy (tool_function t) then tool_function t else tool_name t)) (\<lambda>func.
      case as_str (tool_source t) of
        Some p \<Rightarrow>
          if p \<noteq> [] \<and> te_exists te p then bindr (load_python_module_from_file te p) (\<lambda>m. module_function m func)
          else load_code te t nd func
      | None \<Rightarrow> load_code te t nd func)"

section \<open>Literal inputs\<close>

definition node_input_error :: "msg \<Rightarrow> exn" where
  "node_input_error m = invalid_flow_request NodeInputValidationError m"

text \<open>
  The only positional argument of the constructor of \<open>ConnectionNotFound\<close> is its target: an error raised with just a
  message has that message as its target and no message.
\<close>

definition connection_not_found :: "pyenv \<Rightarrow> msg \<Rightarrow> exn" where
  "connection_not_found env m = pf_exn (Ex ConnectionNotFound) [] (OtherTarget (render env m))"

definition type_item_name :: "input_type \<Rightarrow> string" where
  "type_item_name t = (case t of Inl vt \<Rightarrow> value_type_value vt | Inr s \<Rightarrow> s)"

fun object_class :: "pyval \<Rightarrow> string" where
  "object_class (PObj c d) = c"
| "object_class v = pytype_name (type_of v)"

definition convert_to_connection_value ::
  "resolver \<Rightarrow> string \<Rightarrow> input_assignment \<Rightarrow> node \<Rightarrow> input_type list \<Rightarrow> pyval res" where
  "convert_to_connection_value rv k v n conn_types =
    (case manager_get (rv_conns rv) (rv_manager rv) (ia_value v) of
       None \<Rightarrow> Inl (connection_not_found (rv_env rv)
         [PStr ''Connection '', ia_value v, PStr ('' not found for node '' @ repr_str (node_name n) @ '' input '' @ repr_str k @ ''.'')])
     | Some c \<Rightarrow>
        if list_ex (\<lambda>t. type_item_name t = object_class c) conn_types then Inr c
        else Inl (node_input_error [PStr (''Input '' @ squote k @ '' for node '' @ squote (node_name n) @ '' of type '' @
          repr_str (object_class c) @ '' is not supported, valid types ''), PList (map input_type_pyval conn_types), PStr ''.'']))"

text \<open>Empty literals are dropped.\<close>

definition kept_input :: "input_assignment \<Rightarrow> bool" where
  "kept_input v = (ia_value v \<noteq> PNone \<and> \<not> py_eq (ia_value v) (PStr []) \<or> ia_value_type v \<noteq> LITERAL)"

definition convert_input :: "resolver \<Rightarrow> node \<Rightarrow> tool_def \<Rightarrow> string \<times> input_assignment \<Rightarrow> (string \<times> input_assignment) res" where
  "convert_input rv n t kv =
    (let k = fst kv; v = snd kv in
     if ia_value_type v \<noteq> LITERAL then Inr kv
     else case map_of (tool_def.tool_inputs t) k of
       None \<Rightarrow> Inr kv
     | Some d \<Rightarrow> (case in_type d of
         [] \<Rightarrow> Inl (py_exn IndexError [PStr ''list index out of range''])
       | ty # _ \<Rightarrow>
          if is_connection_class_name (rv_conns rv) (type_item_name ty)
          then bindr (convert_to_connection_value rv k v n (in_type d)) (\<lambda>c. Inr (k, literal c))
          else (case ty of
             Inl vt \<Rightarrow> (case parse (rv_env rv) vt (ia_value v) of
                 Inr w \<Rightarrow> Inr (k, literal w)
               | Inl e \<Rightarrow> Inl (raise_from (node_input_error [PStr (''Input '' @ squote k @ '' for node '' @ squote (node_name n) @ '' of value ''),
                   ia_value v, PStr ('' is not type '' @ value_type_value vt @ ''.'')]) e))
           | Inr s \<Rightarrow> Inl (pf_exn (Ex ValueTypeUnresolved) [PStr (''Unresolved input type '' @ repr_str s @
               '', please check if it is supported in current version.'')] EXECUTOR))))"

definition convert_node_literal_input_types :: "resolver \<Rightarrow> node \<Rightarrow> tool_def \<Rightarrow> node res" where
  "convert_node_literal_input_types rv n t =
     bindr (mapr (convert_input rv n t) (filter (\<lambda>kv. kept_input (snd kv)) (node_inputs n))) (\<lambda>ins. Inr (n\<lparr>node_inputs := ins\<rparr>))"

section \<open>Prompt templates\<close>

definition load_source_content :: "resolver \<Rightarrow> node \<Rightarrow> string res" where
  "load_source_content rv n =
    (let invalid = (\<lambda>path. Inl (pf_exception (Ex InvalidSource) []
           (''Node source path '' @ squote ''{source_path}'' @ '' is invalid on node '' @ squote ''{node_name}'' @ ''.'') EXECUTOR None
           [(''source_path'', path), (''node_name'', PStr (node_name n))] None)) in
     case node_source n of
       None \<Rightarrow> invalid PNone
     | Some s \<Rightarrow> (case ts_path s of
         None \<Rightarrow> invalid PNone
       | Some p \<Rightarrow> if te_exists (rv_te rv) (rv_join rv p) then te_read (rv_te rv) (rv_join rv p) else invalid (PStr p)))"

text \<open>A set of names; its order is not defined.\<close>

definition name_set :: "string list \<Rightarrow> pyval" where
  "name_set names = PObj ''set'' [(''items'', PList (map PStr names))]"

definition validate_duplicated_inputs :: "pyenv \<Rightarrow> string list \<Rightarrow> string list \<Rightarrow> string \<Rightarrow> unit res" where
  "validate_duplicated_inputs env tpl_inputs params msg =
    (let dup = filter (\<lambda>i. i \<in> set params) tpl_inputs in
     if dup = [] then Inr ()
     else bindr (py_format env msg [(''duplicated_inputs'', name_set dup)]) (\<lambda>s. Inl (node_input_error [PStr s])))"

definition duplicated_msg :: "node \<Rightarrow> string \<Rightarrow> string" where
  "duplicated_msg n what = ''Invalid inputs {duplicated_inputs} in prompt template of node '' @ node_name n @
     ''. These inputs are duplicated with the '' @ what @ ''.''"

text \<open>The tool that renders a template (\<^verbatim>\<open>promptflow/tools/template_rendering.py\<close>).\<close>

definition render_template_jinja2 :: py_function where
  "render_template_jinja2 = decorate \<lparr>fn_name = ''render_template_jinja2'', fn_qualname = ''render_template_jinja2'',
     fn_module = ''promptflow.tools.template_rendering'', fn_doc = None,
     fn_params = [(''template'', \<lparr>pa_default = NoDefault, pa_annotation = Annotated (Cls TyStr), pa_kind = POSITIONAL_OR_KEYWORD\<rparr>),
       (''kwargs'', \<lparr>pa_default = NoDefault, pa_annotation = NoAnnotation, pa_kind = VAR_KEYWORD\<rparr>)],
     fn_return = Annotated (Cls TyStr), fn_tool = NoToolAttr\<rparr>"

record resolved_tool =
  rst_node :: node
  rst_definition :: "tool_def option"
  rst_callable :: callable
  rst_init_args :: "(string, param) dict"

definition template_inputs :: "resolver \<Rightarrow> node \<Rightarrow> string list \<Rightarrow> string \<Rightarrow> string res" where
  "template_inputs rv n params what =
    bindr (load_source_content rv n) (\<lambda>tpl.
    bindr (get_inputs_for_prompt_template (rv_te rv) tpl) (\<lambda>ins.
    bindr (validate_duplicated_inputs (rv_env rv) ins params (duplicated_msg n what)) (\<lambda>_. Inr tpl)))"

definition resolve_prompt_node :: "resolver \<Rightarrow> node \<Rightarrow> resolved_tool res" where
  "resolve_prompt_node rv n =
    bindr (template_inputs rv n (dict_keys (filter (\<lambda>(k, p). pa_kind p \<noteq> VAR_KEYWORD) (fn_params render_template_jinja2)))
        ''reserved parameters of prompt tool'') (\<lambda>tpl.
      Inr \<lparr>rst_node = n, rst_definition = None,
        rst_callable = \<lparr>cb_function = render_template_jinja2, cb_self = None, cb_bound = [(''template'', PStr tpl)]\<rparr>, rst_init_args = []\<rparr>)"

section \<open>Resolving a node\<close>

definition remove_init_args :: "(string, param) dict \<Rightarrow> node \<Rightarrow> node" where
  "remove_init_args init n = n\<lparr>node_inputs := filter (\<lambda>(k, v). \<not> dict_has k init) (node_inputs n)\<rparr>"

definition get_node_connection :: "resolver \<Rightarrow> node \<Rightarrow> pyval res" where
  "get_node_connection rv n =
    (case manager_get (rv_conns rv) (rv_manager rv) (node_connection n) of
       Some c \<Rightarrow> Inr c
     | None \<Rightarrow> Inl (pf_exn (Ex ConnectionNotFound) [PStr ''Connection '', repr_part (node_connection n),
         PStr '' not found, available connection keys '', PList (map PStr (dict_keys (cm_connections (rv_manager rv)))), PStr ''.''] EXECUTOR))"

fun connection_input_of :: "resolver \<Rightarrow> node \<Rightarrow> tool_def \<Rightarrow> pyval \<Rightarrow> (string \<times> input_definition) list \<Rightarrow> (string \<times> pyval) res" where
  "connection_input_of rv n t c [] = Inl (pf_exception (Ex InvalidConnectionType) []
     ''Connection type can not be resolved for tool {tool_name}'' EXECUTOR None [(''tool_name'', tool_name t)] None)"
| "connection_input_of rv n t c ((k, d) # ds) =
    (case in_type d of
       [] \<Rightarrow> Inl (py_exn IndexError [PStr ''list index out of range''])
     | ty # _ \<Rightarrow>
        if \<not> is_connection_class_name (rv_conns rv) (type_item_name ty) then connection_input_of rv n t c ds
        else if list_ex (\<lambda>u. type_item_name u = object_class c) (in_type d) then Inr (k, c)
        else Inl (invalid_flow_request InvalidConnectionType [PStr (''Invalid connection '' @ [CHR 0x27]), node_connection n,
          PStr ([CHR 0x27] @ '' type '' @ repr_str (object_class c) @ '' for node '' @ squote (node_name n) @ '', valid types ''),
          PList (map input_type_pyval (in_type d)), PStr ''.'']))"

definition resolve_llm_connection_to_inputs :: "resolver \<Rightarrow> node \<Rightarrow> tool_def \<Rightarrow> (string \<times> pyval) res" where
  "resolve_llm_connection_to_inputs rv n t =
     bindr (get_node_connection rv n) (\<lambda>c. connection_input_of rv n t c (tool_def.tool_inputs t))"

definition bind_prompt :: "pyval \<Rightarrow> callable \<Rightarrow> callable" where
  "bind_prompt tpl c = (case get_prompt_param_name_from_func (cb_function c) of Some p \<Rightarrow> bind_argument p tpl c | None \<Rightarrow> c)"

definition optional_text :: "string option \<Rightarrow> string" where
  "optional_text s = (case s of Some x \<Rightarrow> x | None \<Rightarrow> ''None'')"

text \<open>The provider of a node that names none is the one registered for the class of its connection.\<close>

definition with_provider :: "registry \<Rightarrow> pyval \<Rightarrow> node \<Rightarrow> node" where
  "with_provider rg c n =
    (if node_provider n = None \<or> node_provider n = Some []
     then n\<lparr>node_provider := map_of (rg_type_to_api rg) (object_class c)\<rparr> else n)"

definition api_name :: "node \<Rightarrow> string" where
  "api_name n = optional_text (node_provider n) @ ''.'' @ optional_text (node_api n)"

text \<open>The node, its tool and the template of an LLM node before its function is loaded.\<close>

definition prepare_llm_node :: "resolver \<Rightarrow> registry \<Rightarrow> node \<Rightarrow> bool \<Rightarrow> (node \<times> tool_def \<times> string) res" where
  "prepare_llm_node rv rg n convert =
    bindr (get_node_connection rv n) (\<lambda>c.
    let n1 = with_provider rg c n in
    bindr (load_llm_api rg (api_name n1)) (\<lambda>t.
    bindr (resolve_llm_connection_to_inputs rv n1 t) (\<lambda>(key, conn).
    let n2 = n1\<lparr>node_inputs := AList.update key (literal conn) (node_inputs n1)\<rparr> in
    bindr (if convert then convert_node_literal_input_types rv n2 t else Inr n2) (\<lambda>n3.
    bindr (template_inputs rv n1 (dict_keys (tool_def.tool_inputs t)) (''parameters of '' @ api_name n1)) (\<lambda>tpl. Inr (n3, t, tpl))))))"

definition resolve_llm_node :: "resolver \<Rightarrow> node \<Rightarrow> bool \<Rightarrow> registry \<Rightarrow> resolved_tool res \<times> registry" where
  "resolve_llm_node rv n convert rg =
    (case prepare_llm_node rv rg n convert of
       Inl e \<Rightarrow> (Inl e, rg)
     | Inr (m, t, tpl) \<Rightarrow>
        (case load_package_tool rv t (node_inputs m) rg of (r, rg') \<Rightarrow>
          (bindr r (\<lambda>(c, init). Inr \<lparr>rst_node = remove_init_args init m, rst_definition = Some t,
             rst_callable = bind_prompt (PStr tpl) c, rst_init_args = init\<rparr>), rg')))"

definition resolve_script_node :: "resolver \<Rightarrow> node \<Rightarrow> bool \<Rightarrow> resolved_tool res" where
  "resolve_script_node rv n convert =
    (case node_source n of
       None \<Rightarrow> Inl outside_model
     | Some s \<Rightarrow> (case ts_path s of
         None \<Rightarrow> Inl (pf_exn (Pf UserErrorException) [PStr (''Node '' @ node_name n @ '' does not have source path defined.'')] UNKNOWN)
       | Some path \<Rightarrow>
          bindr (load_python_module_from_file (rv_te rv) (rv_join rv path)) (\<lambda>m.
          bindr (collect_tool_function_in_module m) (\<lambda>f.
          bindr (parse_tool_from_function (rv_env rv) (rv_conns rv) f) (\<lambda>t.
          bindr (if convert then convert_node_literal_input_types rv n t else Inr n) (\<lambda>n'.
            Inr \<lparr>rst_node = n', rst_definition = Some t, rst_callable = \<lparr>cb_function = f, cb_self = None, cb_bound = []\<rparr>,
                 rst_init_args = []\<rparr>))))))"

definition find_package_tool :: "resolver \<Rightarrow> node \<Rightarrow> tool_def res" where
  "find_package_tool rv n =
    (let name = Option.bind (node_source n) ts_tool in
     case Option.bind name (map_of (rv_package_tools rv)) of
       None \<Rightarrow> Inl (package_tool_not_found (rv_te rv) (rv_entry_points rv) name)
     | Some d \<Rightarrow> tool_deserialize d)"

definition resolve_package_node :: "resolver \<Rightarrow> node \<Rightarrow> bool \<Rightarrow> registry \<Rightarrow> resolved_tool res \<times> registry" where
  "resolve_package_node rv n convert rg =
    (case bindr (find_package_tool rv n) (\<lambda>t.
        bindr (if convert then convert_node_literal_input_types rv n t else Inr n) (\<lambda>m. Inr (t, m))) of
       Inl e \<Rightarrow> (Inl e, rg)
     | Inr (t, m) \<Rightarrow>
        (case load_package_tool rv t (node_inputs m) rg of (r, rg') \<Rightarrow>
          (bindr r (\<lambda>(c, init). Inr \<lparr>rst_node = remove_init_args init m, rst_definition = Some t,
             rst_callable = c, rst_init_args = init\<rparr>), rg')))"

definition integrate_prompt_in_package_node :: "resolver \<Rightarrow> node \<Rightarrow> resolved_tool \<Rightarrow> resolved_tool res" where
  "integrate_prompt_in_package_node rv n r =
    (case rst_definition r of
       None \<Rightarrow> Inl (py_exn AttributeError [PStr ''inputs''])
     | Some t \<Rightarrow>
        bindr (template_inputs rv n (dict_keys (tool_def.tool_inputs t)) ''inputs of custom llm tool'') (\<lambda>tpl.
          case get_prompt_param_name_from_func (cb_function (rst_callable r)) of
            None \<Rightarrow> Inl (pf_exn (Ex InvalidCustomLLMTool) [PStr ''Invalid Custom LLM tool '', tool_name t,
              PStr ('': function '' @ fn_name (cb_function (rst_callable r)) @ '' is missing a prompt template argument.'')] EXECUTOR)
          | Some p \<Rightarrow> Inr (r\<lparr>rst_callable := bind_argument p (PPrompt tpl) (rst_callable r)\<rparr>)))"

definition not_supported :: "msg \<Rightarrow> 'a res" where
  "not_supported m = Inl (py_exn NotImplementedError m)"

definition resolve_tool_by_node :: "resolver \<Rightarrow> bool \<Rightarrow> node \<Rightarrow> registry \<Rightarrow> resolved_tool res \<times> registry" where
  "resolve_tool_by_node rv convert n rg =
    (case node_source n of
       None \<Rightarrow> (Inl (pf_exn (Pf UserErrorException) [PStr (''Node '' @ node_name n @ '' does not have source defined.'')] UNKNOWN), rg)
     | Some s \<Rightarrow>
        (case node_type n of
           Some PYTHON \<Rightarrow>
             if ts_type s = tool_source_type_value Package then resolve_package_node rv n convert rg
             else if ts_type s = tool_source_type_value Code then (resolve_script_node rv n convert, rg)
             else (not_supported [PStr (''Tool source type '' @ ts_type s @ '' for python tool is not supported yet.'')], rg)
         | Some PROMPT \<Rightarrow> (resolve_prompt_node rv n, rg)
         | Some LLM \<Rightarrow> resolve_llm_node rv n convert rg
         | Some CUSTOM_LLM \<Rightarrow>
             if ts_type s = tool_source_type_value PackageWithPrompt
             then (case resolve_package_node rv n convert rg of (r, rg') \<Rightarrow> (bindr r (integrate_prompt_in_package_node rv n), rg'))
             else (not_supported [PStr (''Tool source type '' @ ts_type s @ '' for custom_llm tool is not supported yet.'')], rg)
         | Some t \<Rightarrow> (not_supported [PStr (''Tool type '' @ tool_type_value t @ '' is not supported yet.'')], rg)
         | None \<Rightarrow> (not_supported [PStr ''Tool type None is not supported yet.''], rg)))"

section \<open>What the conversion of the inputs gives\<close>

text \<open>How an input relates to what it becomes: a literal that the tool declares has the value of its first type.\<close>

definition converted :: "resolver \<Rightarrow> tool_def \<Rightarrow> string \<times> input_assignment \<Rightarrow> string \<times> input_assignment \<Rightarrow> bool" where
  "converted rv t kv kw \<longleftrightarrow> fst kw = fst kv \<and>
    (case (ia_value_type (snd kv), map_of (tool_def.tool_inputs t) (fst kv)) of
       (LITERAL, Some d) \<Rightarrow> snd kw = literal (ia_value (snd kw)) \<and>
         (\<exists>ty tys. in_type d = ty # tys \<and>
           (if is_connection_class_name (rv_conns rv) (type_item_name ty)
            then manager_get (rv_conns rv) (rv_manager rv) (ia_value (snd kv)) = Some (ia_value (snd kw)) \<and>
              object_class (ia_value (snd kw)) \<in> type_item_name ` set (ty # tys)
            else \<exists>vt. ty = Inl vt \<and> parse (rv_env rv) vt (ia_value (snd kv)) = Inr (ia_value (snd kw))))
     | _ \<Rightarrow> snd kw = snd kv)"

lemma literal_value [simp]: "ia_value (literal v) = v" "ia_value_type (literal v) = LITERAL"
  by (simp_all add: literal_def)

lemma convert_input_converted:
  assumes "convert_input rv n t kv = Inr kw"
  shows "converted rv t kv kw"
proof (cases "ia_value_type (snd kv) = LITERAL \<and> map_of (tool_def.tool_inputs t) (fst kv) \<noteq> None")
  case False
  with assms have "kw = kv" by (auto simp: convert_input_def Let_def split: option.splits if_splits)
  with False show ?thesis by (auto simp: converted_def split: option.splits input_value_type.splits)
next
  case True
  then obtain d where d: "ia_value_type (snd kv) = LITERAL" "map_of (tool_def.tool_inputs t) (fst kv) = Some d" by auto
  from assms d obtain ty tys where ty: "in_type d = ty # tys" by (cases "in_type d") (auto simp: convert_input_def Let_def)
  show ?thesis
  proof (cases "is_connection_class_name (rv_conns rv) (type_item_name ty)")
    case True
    with assms d ty obtain c where c: "convert_to_connection_value rv (fst kv) (snd kv) n (ty # tys) = Inr c" "kw = (fst kv, literal c)"
      by (auto simp: convert_input_def Let_def res_simps)
    from c(1) have "manager_get (rv_conns rv) (rv_manager rv) (ia_value (snd kv)) = Some c"
      by (simp add: convert_to_connection_value_def split: option.splits if_split_asm)
    moreover from c(1) this have "list_ex (\<lambda>t. type_item_name t = object_class c) (ty # tys)"
      by (simp add: convert_to_connection_value_def split: if_split_asm)
    then have "object_class c \<in> type_item_name ` set (ty # tys)" unfolding list_ex_iff by (metis imageI)
    ultimately show ?thesis using True d ty c(2) by (simp add: converted_def)
  next
    case False
    with assms d ty obtain vt w where "ty = Inl vt" "parse (rv_env rv) vt (ia_value (snd kv)) = Inr w" "kw = (fst kv, literal w)"
      by (auto simp: convert_input_def Let_def split: sum.splits)
    with False d ty show ?thesis by (simp add: converted_def)
  qed
qed

lemma convert_node_inputs:
  assumes "convert_node_literal_input_types rv n t = Inr n'"
  shows "n' = n\<lparr>node_inputs := node_inputs n'\<rparr> \<and>
    list_all2 (converted rv t) (filter (\<lambda>kv. kept_input (snd kv)) (node_inputs n)) (node_inputs n')"
  using assms convert_input_converted
  by (auto simp: convert_node_literal_input_types_def res_simps mapr_Inr_iff elim!: list_all2_mono)

text \<open>C15. Converting the literal inputs of a node keeps everything but its inputs. The empty literals are gone; each other input is
  in its place, and one that is no literal or that the tool does not declare is as it was. A declared literal is now of the
  first type the tool gives it: a value of that type made by parsing, or the connection of that name, whose class is one of
  the declared ones.\<close>

theorem converted_inputs_typed:
  assumes "convert_node_literal_input_types rv n t = Inr n'"
  shows "n' = n\<lparr>node_inputs := node_inputs n'\<rparr> \<and>
    list_all2 (converted rv t) (filter (\<lambda>kv. kept_input (snd kv)) (node_inputs n)) (node_inputs n') \<and>
    (\<forall>i < length (node_inputs n'). \<forall>d vt tys.
       ia_value_type (snd (filter (\<lambda>kv. kept_input (snd kv)) (node_inputs n) ! i)) = LITERAL \<and>
       map_of (tool_def.tool_inputs t) (fst (node_inputs n' ! i)) = Some d \<and> in_type d = Inl vt # tys \<and>
       \<not> is_connection_class_name (rv_conns rv) (value_type_value vt) \<and> vt \<in> {INT', DOUBLE, BOOL, STRING, LIST} \<longrightarrow>
       from_value (ia_value (snd (node_inputs n' ! i))) = vt)"
proof -
  note conv = convert_node_inputs [OF assms]
  have "from_value (ia_value (snd (node_inputs n' ! i))) = vt"
    if i: "i < length (node_inputs n')" and lit: "ia_value_type (snd (filter (\<lambda>kv. kept_input (snd kv)) (node_inputs n) ! i)) = LITERAL"
      and d: "map_of (tool_def.tool_inputs t) (fst (node_inputs n' ! i)) = Some d" "in_type d = Inl vt # tys"
      and vt: "\<not> is_connection_class_name (rv_conns rv) (value_type_value vt)" "vt \<in> {INT', DOUBLE, BOOL, STRING, LIST}"
    for i d vt tys
  proof -
    let ?kv = "filter (\<lambda>kv. kept_input (snd kv)) (node_inputs n) ! i"
    from conv i have "converted rv t ?kv (node_inputs n' ! i)" by (simp add: list_all2_conv_all_nth)
    with lit d vt(1) have "parse (rv_env rv) vt (ia_value (snd ?kv)) = Inr (ia_value (snd (node_inputs n' ! i)))"
      by (auto simp: converted_def type_item_name_def)
    with vt(2) show ?thesis by (rule parsed_value_type)
  qed
  with conv show ?thesis by blast
qed

section \<open>References of a resolved node\<close>

definition is_reference :: "string \<times> input_assignment \<Rightarrow> bool" where
  "is_reference kv \<longleftrightarrow> ia_value_type (snd kv) \<noteq> LITERAL"

lemma converted_reference: "converted rv t kv kw \<Longrightarrow> is_reference kw = is_reference kv \<and> (is_reference kv \<longrightarrow> kw = kv)"
  unfolding converted_def is_reference_def
  by (cases kv; cases kw; cases "map_of (tool_def.tool_inputs t) (fst kv)"; cases "ia_value_type (snd kv)")
    (auto, metis literal_value(2))

lemma converted_references:
  "list_all2 (converted rv t) kvs kws \<Longrightarrow> filter (\<lambda>kv. is_reference kv \<and> P (fst kv)) kws = filter (\<lambda>kv. is_reference kv \<and> P (fst kv)) kvs"
proof (induction rule: list_all2_induct)
  case (Cons kv kvs kw kws)
  have "fst kw = fst kv" using Cons.hyps(1) by (simp add: converted_def)
  with converted_reference [OF Cons.hyps(1)] Cons.IH show ?case by auto
qed simp

lemma convert_node_references:
  assumes "convert_node_literal_input_types rv n t = Inr n'"
  shows "filter (\<lambda>kv. is_reference kv \<and> P (fst kv)) (node_inputs n') = filter (\<lambda>kv. is_reference kv \<and> P (fst kv)) (node_inputs n)"
proof -
  have "filter (\<lambda>kv. is_reference kv \<and> P (fst kv)) (filter (\<lambda>kv. kept_input (snd kv)) (node_inputs n)) =
      filter (\<lambda>kv. is_reference kv \<and> P (fst kv)) (node_inputs n)"
    unfolding filter_filter by (rule filter_cong) (auto simp: is_reference_def kept_input_def)
  with converted_references [of rv t, OF convert_node_inputs [OF assms, THEN conjunct2]] show ?thesis by simp
qed

lemma loaded_init_literal:
  assumes "load_package_tool rv t ins rg = (Inr (c, init), rg')" "kv \<in> set ins" "dict_has (fst kv) init"
  shows "\<not> is_reference kv"
proof -
  from assms(1,3) obtain cls methods f where
    "load_class_method rv (tool_name t) cls methods f ins rg = (Inr (c, init), rg')"
    by (auto simp: load_package_tool_def res_simps dict_has_def no_member_def split: sum.splits prod.splits if_splits option.splits module_member.splits)
  then obtain vs where vals: "mapr (init_value rv (tool_name t)) (filter (\<lambda>(k, v). dict_has k init) ins) = Inr vs"
    by (auto simp: load_class_method_def no_member_def Let_def res_simps split: if_splits prod.splits sum.splits option.splits)
  from assms(2,3) have "kv \<in> set (filter (\<lambda>(k, v). dict_has k init) ins)" by auto
  from mapr_image [OF vals this] show ?thesis by (auto simp: init_value_def is_reference_def res_simps split: if_splits)
qed

lemma removed_init_references:
  assumes "load_package_tool rv t (node_inputs m) rg = (Inr (c, init), rg')"
  shows "filter (\<lambda>kv. is_reference kv \<and> P (fst kv)) (node_inputs (remove_init_args init m)) =
    filter (\<lambda>kv. is_reference kv \<and> P (fst kv)) (node_inputs m)"
proof -
  have "(\<lambda>(k, v). \<not> dict_has k init) kv" if "kv \<in> set (node_inputs m)" "is_reference kv" for kv
    using loaded_init_literal [OF assms that(1)] that(2) by auto
  then show ?thesis unfolding remove_init_args_def by (auto simp: filter_filter intro!: filter_cong)
qed

lemma filter_update_other: "filter (\<lambda>kv. P kv \<and> fst kv \<noteq> k) (AList.update k v d) = filter (\<lambda>kv. P kv \<and> fst kv \<noteq> k) d"
  by (induction d) auto

text \<open>The parameter of an API that takes the connection: the first one whose first type is a connection class.\<close>

definition connection_parameter :: "resolver \<Rightarrow> tool_def \<Rightarrow> string option" where
  "connection_parameter rv t = map_option fst
     (find (\<lambda>(k, d). in_type d \<noteq> [] \<and> is_connection_class_name (rv_conns rv) (type_item_name (hd (in_type d)))) (tool_def.tool_inputs t))"

lemma connection_input_parameter:
  "connection_input_of rv n t c ds = Inr (key, conn) \<Longrightarrow>
     map_option fst (find (\<lambda>(k, d). in_type d \<noteq> [] \<and> is_connection_class_name (rv_conns rv) (type_item_name (hd (in_type d)))) ds) = Some key"
  by (induction ds) (auto split: list.splits if_splits)

lemma prepared_llm_node:
  assumes "prepare_llm_node rv rg n convert = Inr (m, t, tpl)"
  shows "\<exists>key c. m = (with_provider rg c n)\<lparr>node_inputs := node_inputs m\<rparr> \<and> connection_parameter rv t = Some key \<and>
    filter (\<lambda>kv. is_reference kv \<and> fst kv \<noteq> key) (node_inputs m) = filter (\<lambda>kv. is_reference kv \<and> fst kv \<noteq> key) (node_inputs n) \<and>
    map_of (rg_apis rg) (api_name m) = Some t \<and>
    template_inputs rv (with_provider rg c n) (dict_keys (tool_def.tool_inputs t)) (''parameters of '' @ api_name m) = Inr tpl"
proof -
  from assms obtain c key conn where t: "load_llm_api rg (api_name (with_provider rg c n)) = Inr t" and
    key: "resolve_llm_connection_to_inputs rv (with_provider rg c n) t = Inr (key, conn)" and
    m: "(if convert then convert_node_literal_input_types rv ((with_provider rg c n)\<lparr>node_inputs := AList.update key (literal conn)
        (node_inputs (with_provider rg c n))\<rparr>) t
       else Inr ((with_provider rg c n)\<lparr>node_inputs := AList.update key (literal conn) (node_inputs (with_provider rg c n))\<rparr>)) = Inr m" and
    tpl: "template_inputs rv (with_provider rg c n) (dict_keys (tool_def.tool_inputs t)) (''parameters of '' @ api_name (with_provider rg c n)) = Inr tpl"
    by (auto simp: prepare_llm_node_def Let_def res_simps)
  let ?n2 = "(with_provider rg c n)\<lparr>node_inputs := AList.update key (literal conn) (node_inputs (with_provider rg c n))\<rparr>"
  have ins: "node_inputs (with_provider rg c n) = node_inputs n" by (simp add: with_provider_def)
  have frame: "m = ?n2\<lparr>node_inputs := node_inputs m\<rparr>"
    using m convert_node_inputs [of rv ?n2 t m] by (cases convert) auto
  have "filter (\<lambda>kv. is_reference kv \<and> fst kv \<noteq> key) (node_inputs m) = filter (\<lambda>kv. is_reference kv \<and> fst kv \<noteq> key) (node_inputs ?n2)"
    using m convert_node_references [of rv ?n2 t m "\<lambda>k. k \<noteq> key"] by (cases convert) auto
  also have "\<dots> = filter (\<lambda>kv. is_reference kv \<and> fst kv \<noteq> key) (node_inputs n)" by (simp add: filter_update_other ins)
  finally have refs: "filter (\<lambda>kv. is_reference kv \<and> fst kv \<noteq> key) (node_inputs m) = filter (\<lambda>kv. is_reference kv \<and> fst kv \<noteq> key) (node_inputs n)" .
  have fields: "node_provider m = node_provider (with_provider rg c n)" "node_api m = node_api (with_provider rg c n)"
    by (subst frame, simp)+
  then have name: "api_name m = api_name (with_provider rg c n)" by (simp add: api_name_def)
  have m': "m = (with_provider rg c n)\<lparr>node_inputs := node_inputs m\<rparr>" by (subst frame) simp
  from t have "map_of (rg_apis rg) (api_name (with_provider rg c n)) = Some t" by (auto simp: load_llm_api_def split: option.splits)
  moreover from key have "connection_parameter rv t = Some key"
    by (auto simp: resolve_llm_connection_to_inputs_def connection_parameter_def res_simps dest: connection_input_parameter)
  ultimately show ?thesis using refs tpl m' unfolding name by (intro exI [of _ key] exI [of _ c] conjI)
qed

text \<open>The input that gives way to the connection: the connection parameter of the API an LLM node calls.\<close>

definition connection_key :: "resolver \<Rightarrow> node \<Rightarrow> resolved_tool \<Rightarrow> string option" where
  "connection_key rv n r = (if node_type n = Some LLM then Option.bind (rst_definition r) (connection_parameter rv) else None)"

text \<open>What resolving keeps of a node: everything but its inputs and, for an LLM node that names none, its provider.\<close>

definition resolved_from :: "resolver \<Rightarrow> node \<Rightarrow> resolved_tool \<Rightarrow> bool" where
  "resolved_from rv n r \<longleftrightarrow>
    (\<exists>provider. rst_node r = n\<lparr>node_provider := provider, node_inputs := node_inputs (rst_node r)\<rparr> \<and>
       (node_type n = Some LLM \<and> node_provider n \<in> {None, Some []} \<or> provider = node_provider n)) \<and>
    (node_type n = Some LLM \<longrightarrow> connection_key rv n r \<noteq> None) \<and>
    filter (\<lambda>kv. is_reference kv \<and> Some (fst kv) \<noteq> connection_key rv n r) (node_inputs (rst_node r)) =
    filter (\<lambda>kv. is_reference kv \<and> Some (fst kv) \<noteq> connection_key rv n r) (node_inputs n) \<and>
    list_all (\<lambda>kv. \<not> dict_has (fst kv) (rst_init_args r)) (node_inputs (rst_node r))"

lemma removed_frame:
  "remove_init_args init m = m\<lparr>node_inputs := node_inputs (remove_init_args init m)\<rparr>"
  "list_all (\<lambda>kv. \<not> dict_has (fst kv) init) (node_inputs (remove_init_args init m))"
  by (auto simp: remove_init_args_def list_all_iff)

lemma resolved_package_node:
  assumes "resolve_package_node rv n convert rg = (Inr r, rg')" "node_type n \<noteq> Some LLM"
  shows "resolved_from rv n r"
proof -
  from assms(1) obtain t m c init where m: "(if convert then convert_node_literal_input_types rv n t else Inr n) = Inr m" and
    load: "load_package_tool rv t (node_inputs m) rg = (Inr (c, init), rg')" and
    r: "rst_node r = remove_init_args init m" "rst_init_args r = init"
    by (auto simp: resolve_package_node_def res_simps split: sum.splits prod.splits)
  have "m = n\<lparr>node_inputs := node_inputs m\<rparr>" "filter (\<lambda>kv. is_reference kv \<and> True) (node_inputs m) = filter (\<lambda>kv. is_reference kv \<and> True) (node_inputs n)"
    using m convert_node_inputs [of rv n t m] convert_node_references [of rv n t m "\<lambda>k. True"] by (cases convert; simp)+
  then have "rst_node r = n\<lparr>node_inputs := node_inputs (rst_node r)\<rparr>"
    "filter (\<lambda>kv. is_reference kv \<and> True) (node_inputs (rst_node r)) = filter (\<lambda>kv. is_reference kv \<and> True) (node_inputs n)"
    using removed_init_references [OF load, of "\<lambda>k. True"] unfolding r by (metis removed_frame(1) node.update_convs(3) node.surjective, simp)
  with assms(2) removed_frame(2) [of init m] show ?thesis
    unfolding resolved_from_def connection_key_def r by (intro conjI exI [of _ "node_provider n"]) auto
qed

lemma resolved_llm_node:
  assumes "resolve_llm_node rv n convert rg = (Inr r, rg')" "node_type n = Some LLM"
  shows "resolved_from rv n r"
proof -
  from assms(1) obtain m t tpl c init where prep: "prepare_llm_node rv rg n convert = Inr (m, t, tpl)" and
    load: "load_package_tool rv t (node_inputs m) rg = (Inr (c, init), rg')" and
    r: "rst_node r = remove_init_args init m" "rst_init_args r = init"
    by (auto simp: resolve_llm_node_def res_simps split: sum.splits prod.splits)
  from assms(1) prep load have t: "rst_definition r = Some t"
    by (auto simp: resolve_llm_node_def res_simps)
  from prepared_llm_node [OF prep] obtain key conn where
    m: "m = (with_provider rg conn n)\<lparr>node_inputs := node_inputs m\<rparr>" and key: "connection_parameter rv t = Some key" and
    refs: "filter (\<lambda>kv. is_reference kv \<and> fst kv \<noteq> key) (node_inputs m) = filter (\<lambda>kv. is_reference kv \<and> fst kv \<noteq> key) (node_inputs n)"
    by blast
  have "with_provider rg conn n = n\<lparr>node_provider := node_provider (with_provider rg conn n)\<rparr>" by (simp add: with_provider_def)
  with m have "m = n\<lparr>node_provider := node_provider (with_provider rg conn n), node_inputs := node_inputs m\<rparr>" by metis
  then have "rst_node r = n\<lparr>node_provider := node_provider (with_provider rg conn n), node_inputs := node_inputs (rst_node r)\<rparr>"
    unfolding r by (metis removed_frame(1) node.update_convs(3) node.surjective)
  moreover have "filter (\<lambda>kv. is_reference kv \<and> fst kv \<noteq> key) (node_inputs (rst_node r)) =
      filter (\<lambda>kv. is_reference kv \<and> fst kv \<noteq> key) (node_inputs n)"
    using removed_init_references [OF load, of "\<lambda>k. k \<noteq> key"] refs unfolding r by simp
  moreover have "connection_key rv n r = Some key" using assms(2) t key by (simp add: connection_key_def)
  moreover have "node_provider n \<in> {None, Some []} \<or> node_provider (with_provider rg conn n) = node_provider n"
    by (auto simp: with_provider_def)
  ultimately show ?thesis
    using assms(2) removed_frame(2) [of init m] unfolding resolved_from_def r(2)
    by (intro conjI exI [of _ "node_provider (with_provider rg conn n)"]) (auto simp: r)
qed

lemma resolved_script_node:
  assumes "resolve_script_node rv n convert = Inr r" "node_type n \<noteq> Some LLM"
  shows "resolved_from rv n r"
proof -
  from assms(1) obtain t m where m: "(if convert then convert_node_literal_input_types rv n t else Inr n) = Inr m" and
    r: "rst_node r = m" "rst_init_args r = []"
    by (auto simp: resolve_script_node_def res_simps split: option.splits)
  have "m = n\<lparr>node_inputs := node_inputs m\<rparr>" "filter (\<lambda>kv. is_reference kv \<and> True) (node_inputs m) = filter (\<lambda>kv. is_reference kv \<and> True) (node_inputs n)"
    using m convert_node_inputs [of rv n t m] convert_node_references [of rv n t m "\<lambda>k. True"] by (cases convert; simp)+
  with assms(2) show ?thesis unfolding resolved_from_def connection_key_def r
    by (intro conjI exI [of _ "node_provider n"]) (auto simp: list_all_iff dict_has_def)
qed

lemma resolved_node:
  assumes "resolve_tool_by_node rv convert n rg = (Inr r, rg')"
  shows "resolved_from rv n r"
proof -
  from assms obtain s ty where s: "node_source n = Some s" "node_type n = Some ty"
    by (auto simp: resolve_tool_by_node_def not_supported_def split: option.splits)
  show ?thesis
  proof (cases ty)
    case LLM
    with assms s resolved_llm_node show ?thesis by (auto simp: resolve_tool_by_node_def)
  next
    case PYTHON
    with assms s show ?thesis
      by (auto simp: resolve_tool_by_node_def not_supported_def intro: resolved_package_node resolved_script_node split: if_splits)
  next
    case PROMPT
    with assms s have "rst_node r = n" "rst_init_args r = []"
      by (auto simp: resolve_tool_by_node_def resolve_prompt_node_def res_simps)
    with s PROMPT show ?thesis unfolding resolved_from_def connection_key_def
      by (intro conjI exI [of _ "node_provider n"]) (auto simp: list_all_iff dict_has_def)
  next
    case CUSTOM_LLM
    with assms s obtain q where q: "resolve_package_node rv n convert rg = (Inr q, rg')" "integrate_prompt_in_package_node rv n q = Inr r"
      by (auto simp: resolve_tool_by_node_def not_supported_def res_simps split: if_splits prod.splits)
    from q(2) have "rst_node r = rst_node q" "rst_init_args r = rst_init_args q"
      by (auto simp: integrate_prompt_in_package_node_def res_simps split: option.splits)
    with resolved_package_node [OF q(1)] s CUSTOM_LLM show ?thesis by (simp add: resolved_from_def connection_key_def)
  qed (use assms s in \<open>auto simp: resolve_tool_by_node_def not_supported_def\<close>)
qed

text \<open>C16. Resolving the tool of a node keeps the node but for its inputs (and the provider of an LLM node that names none):
  no argument that initialises the class of its tool is left among them, and exactly its references to flow inputs and other
  nodes are there, in their order, as they were. For an LLM node this leaves out one input, the first parameter of the API it
  calls that takes a connection: what the node gave for it is replaced by the connection of the node.\<close>

theorem resolved_node_references:
  assumes "resolve_tool_by_node rv convert n rg = (Inr r, rg')"
  shows "(\<exists>provider. rst_node r = n\<lparr>node_provider := provider, node_inputs := node_inputs (rst_node r)\<rparr> \<and>
       (node_type n = Some LLM \<and> node_provider n \<in> {None, Some []} \<or> provider = node_provider n)) \<and>
    (if node_type n = Some LLM
     then \<exists>t key. rst_definition r = Some t \<and> connection_parameter rv t = Some key \<and>
       filter (\<lambda>kv. is_reference kv \<and> fst kv \<noteq> key) (node_inputs (rst_node r)) =
       filter (\<lambda>kv. is_reference kv \<and> fst kv \<noteq> key) (node_inputs n)
     else filter is_reference (node_inputs (rst_node r)) = filter is_reference (node_inputs n)) \<and>
    list_all (\<lambda>kv. \<not> dict_has (fst kv) (rst_init_args r)) (node_inputs (rst_node r))"
  using resolved_node [OF assms] unfolding resolved_from_def
  by (auto simp: connection_key_def bind_eq_Some_conv split: if_splits)

section \<open>The template of a resolved node\<close>

lemma template_inputs_apart:
  assumes "template_inputs rv n params what = Inr tpl"
  shows "\<exists>s path names. node_source n = Some s \<and> ts_path s = Some path \<and> te_read (rv_te rv) (rv_join rv path) = Inr tpl \<and>
    get_inputs_for_prompt_template (rv_te rv) tpl = Inr names \<and> set names \<inter> set params = {}"
proof -
  from assms obtain names where src: "load_source_content rv n = Inr tpl" and
    names: "get_inputs_for_prompt_template (rv_te rv) tpl = Inr names"
    "validate_duplicated_inputs (rv_env rv) names params (duplicated_msg n what) = Inr ()"
    by (auto simp: template_inputs_def res_simps)
  from src obtain s path where "node_source n = Some s" "ts_path s = Some path" "te_read (rv_te rv) (rv_join rv path) = Inr tpl"
    by (auto simp: load_source_content_def Let_def split: option.splits if_splits)
  moreover from names(2) have "set names \<inter> set params = {}"
    by (auto simp: validate_duplicated_inputs_def Let_def filter_empty_conv res_simps split: if_splits)
  ultimately show ?thesis using names(1) by blast
qed

lemma loaded_unbound:
  assumes "load_package_tool rv t ins rg = (Inr (c, init), rg')"
  shows "cb_bound c = []"
proof -
  have "cb_bound c = []" if "module_function m f = Inr c" for m f
    using that by (auto simp: module_function_def no_member_def split: option.splits module_member.splits)
  moreover have "cb_bound c = []" if "load_class_method rv (tool_name t) cls methods f ins rg = (Inr (c, init), rg')" for cls methods f
    using that by (auto simp: load_class_method_def no_member_def Let_def res_simps split: if_splits prod.splits sum.splits option.splits)
  ultimately show ?thesis using assms
    by (auto simp: load_package_tool_def res_simps no_member_def split: sum.splits prod.splits if_splits option.splits module_member.splits)
qed

text \<open>Where the template of a node comes from, and that none of its variables is a parameter of the tool.\<close>

definition template_of :: "resolver \<Rightarrow> node \<Rightarrow> string list \<Rightarrow> string \<Rightarrow> bool" where
  "template_of rv n params tpl \<longleftrightarrow> (\<exists>s path names. node_source n = Some s \<and> ts_path s = Some path \<and>
     te_read (rv_te rv) (rv_join rv path) = Inr tpl \<and> get_inputs_for_prompt_template (rv_te rv) tpl = Inr names \<and>
     set names \<inter> set params = {})"

lemma template_inputs_of: "template_inputs rv n params what = Inr tpl \<Longrightarrow> template_of rv n params tpl"
  unfolding template_of_def by (rule template_inputs_apart)

lemma llm_template:
  assumes "resolve_llm_node rv n convert rg = (Inr r, rg')"
  shows "\<exists>t tpl. rst_definition r = Some t \<and> map_of (rg_apis rg) (api_name (rst_node r)) = Some t \<and>
    template_of rv n (dict_keys (tool_def.tool_inputs t)) tpl \<and>
    cb_bound (rst_callable r) = (case get_prompt_param_name_from_func (cb_function (rst_callable r)) of Some p \<Rightarrow> [(p, PStr tpl)] | None \<Rightarrow> [])"
proof -
  from assms obtain m t tpl c init where prep: "prepare_llm_node rv rg n convert = Inr (m, t, tpl)" and
    load: "load_package_tool rv t (node_inputs m) rg = (Inr (c, init), rg')" and
    r: "rst_node r = remove_init_args init m" "rst_definition r = Some t" "rst_callable r = bind_prompt (PStr tpl) c"
    by (auto simp: resolve_llm_node_def res_simps split: sum.splits prod.splits)
  from prepared_llm_node [OF prep] obtain conn where t: "map_of (rg_apis rg) (api_name m) = Some t" and
    tpl: "template_inputs rv (with_provider rg conn n) (dict_keys (tool_def.tool_inputs t)) (''parameters of '' @ api_name m) = Inr tpl"
    by blast
  from template_inputs_of [OF tpl] have "template_of rv n (dict_keys (tool_def.tool_inputs t)) tpl"
    by (simp add: template_of_def with_provider_def split: if_splits)
  moreover have "api_name (rst_node r) = api_name m" by (simp add: r(1) api_name_def remove_init_args_def)
  moreover have "cb_bound (rst_callable r) = (case get_prompt_param_name_from_func (cb_function (rst_callable r)) of Some p \<Rightarrow> [(p, PStr tpl)] | None \<Rightarrow> [])"
    using loaded_unbound [OF load] by (simp add: r(3) bind_prompt_def bind_argument_def split: option.split)
  ultimately show ?thesis using t r(2) by auto
qed

lemma custom_template:
  assumes "resolve_package_node rv n convert rg = (Inr q, rg')" "integrate_prompt_in_package_node rv n q = Inr r"
  shows "\<exists>t tpl p. rst_definition r = Some t \<and> template_of rv n (dict_keys (tool_def.tool_inputs t)) tpl \<and>
    get_prompt_param_name_from_func (cb_function (rst_callable r)) = Some p \<and> cb_bound (rst_callable r) = [(p, PPrompt tpl)]"
proof -
  from assms(1) obtain t and m :: node and c init where load: "load_package_tool rv t (node_inputs m) rg = (Inr (c, init), rg')" and
    q: "rst_definition q = Some t" "rst_callable q = c"
    by (auto simp: resolve_package_node_def res_simps split: sum.splits prod.splits)
  from assms(2) q obtain tpl p where "template_inputs rv n (dict_keys (tool_def.tool_inputs t)) ''inputs of custom llm tool'' = Inr tpl"
    "get_prompt_param_name_from_func (cb_function c) = Some p" "r = q\<lparr>rst_callable := bind_argument p (PPrompt tpl) c\<rparr>"
    by (auto simp: integrate_prompt_in_package_node_def res_simps split: option.splits)
  with template_inputs_of loaded_unbound [OF load] q show ?thesis by (auto simp: bind_argument_def)
qed

text \<open>C17. The callable of a prompt, LLM or custom LLM node has the text of the file its source names as its template: bound to
  \<open>template\<close> of the renderer, to the prompt parameter of the API of the provider (if it has one), or as a prompt template
  to the prompt parameter of the package tool. No variable of the template is a parameter of that tool, so no argument is
  given twice.\<close>

theorem resolved_prompt_bound:
  assumes "resolve_tool_by_node rv convert n rg = (Inr r, rg')" "node_type n \<in> {Some PROMPT, Some LLM, Some CUSTOM_LLM}"
  shows "(node_type n = Some PROMPT \<longrightarrow> (\<exists>tpl. template_of rv n [''template''] tpl \<and>
        rst_callable r = \<lparr>cb_function = render_template_jinja2, cb_self = None, cb_bound = [(''template'', PStr tpl)]\<rparr>)) \<and>
    (node_type n \<noteq> Some PROMPT \<longrightarrow> (\<exists>t tpl. rst_definition r = Some t \<and> template_of rv n (dict_keys (tool_def.tool_inputs t)) tpl \<and>
        (node_type n = Some LLM \<longrightarrow> map_of (rg_apis rg) (api_name (rst_node r)) = Some t) \<and>
        (case get_prompt_param_name_from_func (cb_function (rst_callable r)) of
           None \<Rightarrow> node_type n = Some LLM \<and> cb_bound (rst_callable r) = []
         | Some p \<Rightarrow> cb_bound (rst_callable r) = [(p, if node_type n = Some LLM then PStr tpl else PPrompt tpl)])))"
proof -
  from assms obtain s where s: "node_source n = Some s" by (auto simp: resolve_tool_by_node_def split: option.splits)
  consider "node_type n = Some PROMPT" | "node_type n = Some LLM" | "node_type n = Some CUSTOM_LLM" using assms(2) by auto
  then show ?thesis
  proof cases
    case 1
    have params: "dict_keys (filter (\<lambda>(k, p). pa_kind p \<noteq> VAR_KEYWORD) (fn_params render_template_jinja2)) = [''template'']"
      by (simp add: render_template_jinja2_def decorate_def)
    from assms(1) s 1 show ?thesis
      by (auto simp: resolve_tool_by_node_def resolve_prompt_node_def params res_simps dest!: template_inputs_of)
  next
    case 2
    with assms(1) s have "resolve_llm_node rv n convert rg = (Inr r, rg')" by (simp add: resolve_tool_by_node_def)
    from llm_template [OF this] 2 show ?thesis by (auto split: option.splits)
  next
    case 3
    with assms(1) s obtain q where "resolve_package_node rv n convert rg = (Inr q, rg')" "integrate_prompt_in_package_node rv n q = Inr r"
      by (auto simp: resolve_tool_by_node_def not_supported_def res_simps split: if_splits prod.splits)
    from custom_template [OF this] 3 show ?thesis by auto
  qed
qed

section \<open>An LLM node\<close>

definition demo_api :: tool_def where
  "demo_api = \<lparr>tool_name = PStr ''OpenAI.chat'', tool_type_of = Inl ACTION,
     tool_inputs = [(''connection'', string_input\<lparr>in_type := [Inr ''CustomConnection'']\<rparr>), (''prompt'', string_input),
       (''limit'', string_input\<lparr>in_type := [Inl INT']\<rparr>)],
     tool_outputs = [], tool_description = PNone, tool_module = PStr ''m'', tool_class_name = PStr ''OpenAI'', tool_source = PNone,
     tool_code = PNone, tool_function = PStr ''chat'', tool_connection_type = PNone, tool_is_builtin = PNone, tool_stage = PNone\<rparr>"

definition demo_chat :: py_function where
  "demo_chat = demo_function\<lparr>fn_name := ''chat'', fn_params := [(''self'', demo_param NoAnnotation NoDefault),
     (''prompt'', demo_param (Annotated (Cls TyPromptTemplate)) NoDefault), (''limit'', demo_param NoAnnotation NoDefault)]\<rparr>"

definition demo_provider :: tool_class where
  "demo_provider = demo_class ''OpenAI'' [] [(''connection'', demo_param NoAnnotation NoDefault)]"

definition demo_resolver :: resolver where
  "demo_resolver = \<lparr>rv_te = \<lparr>te_env = demo_env, te_resolve = (\<lambda>p. p), te_exists = (\<lambda>p. True), te_is_file = (\<lambda>p. True),
       te_read = (\<lambda>p. Inr ''{{question}}''), te_stem = (\<lambda>p. p), te_spec = (\<lambda>p. None), te_exec = (\<lambda>c. Inl outside_model),
       te_import = (\<lambda>m. Inr \<lparr>md_name = m, md_members = [(''OpenAI'', ClassMember demo_provider [demo_chat])]\<rparr>),
       te_undeclared = (\<lambda>t. Inr [''question''])\<rparr>,
     rv_classes = demo_classes, rv_join = (\<lambda>p. p),
     rv_manager = \<lparr>cm_dict = demo_connections ''pw'', cm_connections = [(''c'', demo_managed ''pw'')]\<rparr>,
     rv_package_tools = [], rv_entry_points = [], rv_instantiate = (\<lambda>c args. Inr ())\<rparr>"

definition demo_llm_node :: node where
  "demo_llm_node = (demo_node ''chat'' [(''limit'', literal (PStr ''7'')), (''stop'', literal (PStr [])), (''question'', flow_input ''q'' ''inputs.'')])
     \<lparr>node_connection := PStr ''c'', node_api := Some ''chat'', node_type := Some LLM,
      node_source := Some \<lparr>ts_type = ''code'', ts_tool = None, ts_path = Some ''p.jinja2''\<rparr>\<rparr>"

definition demo_registry :: registry where
  "demo_registry = \<lparr>rg_builtins = [], rg_apis = [(''OpenAI.chat'', demo_api)], rg_connections = [''CustomConnection''],
     rg_type_to_api = [(''CustomConnection'', ''OpenAI'')], rg_reserved = [], rg_inputs = [], rg_required = []\<rparr>"

lemma demo_connection_get: "manager_get (rv_conns demo_resolver) (rv_manager demo_resolver) (PStr ''c'') = Some (managed_value (demo_managed ''pw''))"
  by (simp add: manager_get_def demo_resolver_def)

lemma demo_connection_self:
  "manager_get (rv_conns demo_resolver) (rv_manager demo_resolver) (managed_value (demo_managed ''pw'')) = Some (managed_value (demo_managed ''pw''))"
  by (simp add: manager_get_def demo_resolver_def managed_value_def is_connection_value_def managed_class_def demo_managed_def cn_class_name_def
      demo_classes_def)

lemma demo_converted:
  "convert_node_literal_input_types demo_resolver (demo_llm_node\<lparr>node_provider := Some ''OpenAI'',
     node_inputs := node_inputs demo_llm_node @ [(''connection'', literal (managed_value (demo_managed ''pw'')))]\<rparr>) demo_api =
   Inr (demo_llm_node\<lparr>node_provider := Some ''OpenAI'', node_inputs := [(''limit'', literal (PInt 7)), (''question'', flow_input ''q'' ''inputs.''),
     (''connection'', literal (managed_value (demo_managed ''pw'')))]\<rparr>)"
  by code_simp

theorem converted_inputs_typed_witness:
  "\<exists>n' v. convert_node_literal_input_types demo_resolver (demo_llm_node\<lparr>node_provider := Some ''OpenAI'',
      node_inputs := node_inputs demo_llm_node @ [(''connection'', literal (managed_value (demo_managed ''pw'')))]\<rparr>) demo_api = Inr n' \<and>
    node_inputs n' ! 0 = (''limit'', v) \<and> from_value (ia_value v) = INT'"
proof -
  have "from_value (ia_value (snd (''limit'', literal (PInt 7)))) = INT'"
    using converted_inputs_typed [OF demo_converted, THEN conjunct2, THEN conjunct2, rule_format, of 0 "string_input\<lparr>in_type := [Inl INT']\<rparr>" INT' "[]"]
    by (simp add: demo_llm_node_def demo_node_def kept_input_def demo_api_def is_connection_class_name_def demo_resolver_def demo_classes_def)
  with demo_converted show ?thesis by (intro exI) auto
qed

definition demo_resolved :: "resolved_tool res \<times> registry" where
  "demo_resolved = resolve_tool_by_node demo_resolver True demo_llm_node demo_registry"

lemma demo_resolves:
  "\<exists>r rg'. resolve_tool_by_node demo_resolver True demo_llm_node demo_registry = (Inr r, rg') \<and>
     dict_keys (node_inputs (rst_node r)) = [''limit'', ''question''] \<and> dict_keys (rst_init_args r) = [''connection''] \<and>
     cb_bound (rst_callable r) = [(''prompt'', PStr ''{{question}}'')]"
proof -
  have "(case fst demo_resolved of Inl e \<Rightarrow> False | Inr r \<Rightarrow> dict_keys (node_inputs (rst_node r)) = [''limit'', ''question''] \<and>
      dict_keys (rst_init_args r) = [''connection''] \<and> cb_bound (rst_callable r) = [(''prompt'', PStr ''{{question}}'')])" by code_simp
  then show ?thesis
    by (cases demo_resolved; cases "fst demo_resolved") (auto simp: demo_resolved_def)
qed

text \<open>The reference of the node stays, the connection that initialises its class goes.\<close>

theorem resolved_node_references_witness:
  "\<exists>r rg'. resolve_tool_by_node demo_resolver True demo_llm_node demo_registry = (Inr r, rg') \<and>
     node_name (rst_node r) = ''chat'' \<and> \<not> dict_has ''connection'' (node_inputs (rst_node r))"
proof -
  from demo_resolves obtain r rg' where run: "resolve_tool_by_node demo_resolver True demo_llm_node demo_registry = (Inr r, rg')" and
    init: "dict_keys (rst_init_args r) = [''connection'']" by (elim exE conjE)
  note kept = resolved_node_references [OF run]
  then obtain provider where
    n: "rst_node r = demo_llm_node\<lparr>node_provider := provider, node_inputs := node_inputs (rst_node r)\<rparr>" by blast
  from kept have gone: "list_all (\<lambda>kv. \<not> dict_has (fst kv) (rst_init_args r)) (node_inputs (rst_node r))" by blast
  from n have "node_name (rst_node r) = node_name demo_llm_node" by (metis node.select_convs(1) node.surjective node.update_convs(3,6))
  moreover have "\<not> dict_has ''connection'' (node_inputs (rst_node r))"
  proof
    assume "dict_has ''connection'' (node_inputs (rst_node r))"
    then obtain v where "(''connection'', v) \<in> set (node_inputs (rst_node r))" by (auto simp: dict_has_iff)
    with gone init show False by (auto simp: list_all_iff dict_has_iff)
  qed
  ultimately show ?thesis using run by (auto simp: demo_llm_node_def demo_node_def)
qed

theorem resolved_prompt_bound_witness:
  "\<exists>r rg' (t :: tool_def). resolve_tool_by_node demo_resolver True demo_llm_node demo_registry = (Inr r, rg') \<and>
     template_of demo_resolver demo_llm_node (dict_keys (tool_def.tool_inputs t)) ''{{question}}'' \<and>
     cb_bound (rst_callable r) = [(''prompt'', PStr ''{{question}}'')]"
proof -
  from demo_resolves obtain r rg' where run: "resolve_tool_by_node demo_resolver True demo_llm_node demo_registry = (Inr r, rg')" and
    bound: "cb_bound (rst_callable r) = [(''prompt'', PStr ''{{question}}'')]" by (elim exE conjE)
  have ty: "node_type demo_llm_node = Some LLM" by (simp add: demo_llm_node_def)
  from resolved_prompt_bound [OF run] ty obtain t :: tool_def and tpl where
    "template_of demo_resolver demo_llm_node (dict_keys (tool_def.tool_inputs t)) tpl" by auto
  moreover from this have "tpl = ''{{question}}''" by (auto simp: template_of_def demo_resolver_def)
  ultimately show ?thesis using run bound by blast
qed

section \<open>An unknown connection\<close>

text \<open>A literal input of connection type whose name is not among the connections makes the node fail with an error that has
  lost its message: it reads as the name of its class, and the text meant for it is its reference code.\<close>

theorem unknown_connection_message:
  assumes "manager_get (rv_conns rv) (rv_manager rv) (ia_value v) = None"
  shows "\<exists>e. convert_to_connection_value rv k v n conn_types = Inl e \<and> isinstance e (Ex ConnectionNotFound) \<and>
    message env e = Inr ''ConnectionNotFound'' \<and>
    reference_code e = render (rv_env rv) [PStr ''Connection '', ia_value v,
      PStr ('' not found for node '' @ repr_str (node_name n) @ '' input '' @ repr_str k @ ''.'')]"
proof -
  let ?m = "[PStr ''Connection '', ia_value v, PStr ('' not found for node '' @ repr_str (node_name n) @ '' input '' @ repr_str k @ ''.'')]"
  let ?e = "connection_not_found (rv_env rv) ?m"
  have "convert_to_connection_value rv k v n conn_types = Inl ?e"
    using assms by (simp add: convert_to_connection_value_def)
  moreover have "isinstance ?e (Ex ConnectionNotFound)"
    by (simp add: isinstance_def connection_not_found_def mro_def numeral_eq_Suc)
  moreover have "message env ?e = Inr ''ConnectionNotFound''"
    by (simp add: connection_not_found_def pf_exception_def message.simps isinstance_def mro_def numeral_eq_Suc base_simps
        render_def message_format_def)
  moreover have "reference_code ?e = render (rv_env rv) ?m"
    by (simp add: connection_not_found_def pf_exception_def reference_code_def)
  ultimately show ?thesis by blast
qed

theorem unknown_connection_message_witness:
  "\<exists>e. convert_to_connection_value demo_resolver ''connection'' (literal (PStr ''missing'')) demo_llm_node [] = Inl e \<and>
     message demo_env e = Inr ''ConnectionNotFound'' \<and> take 10 (reference_code e) = ''Connection''"
proof -
  have none: "manager_get (rv_conns demo_resolver) (rv_manager demo_resolver) (ia_value (literal (PStr ''missing''))) = None" by code_simp
  show ?thesis using unknown_connection_message [OF none, of "''connection''" demo_llm_node "[]" demo_env]
    by (auto simp: literal_def render_def)
qed

end
