(* ===== verification/FlowLoading.thy ===== *)
theory FlowLoading imports ToolResolver Executor begin

text \<open>
  Making an executor from a flow and running a single node of one (\<open>FlowExecutor.create\<close>, \<open>FlowExecutor.__init__\<close> and
  \<open>load_and_exec_node\<close> of \<^verbatim>\<open>executor/flow_executor.py\<close>): overrides and default variants, the tools of all nodes, the
  validation, and the tools manager. Reading the YAML file is not part of it: the flow is what \<open>Flow.deserialize\<close> gave.
\<close>

section \<open>The resolver of a flow\<close>

text \<open>What the process offers, for \<open>resolver\<close> and \<open>new_manager\<close>.\<close>

record process =
  pr_te :: tool_env
  pr_join :: "string \<Rightarrow> string"
  pr_entry_points :: "entry_point list"
  pr_instantiate :: "tool_class \<Rightarrow> (string, pyval) dict \<Rightarrow> unit res"
  pr_imports :: "string list \<Rightarrow> (string, conn_class) dict res"
  pr_test_file :: "built_connections res option"

definition new_resolver :: "process \<Rightarrow> built_connections option \<Rightarrow> string list \<Rightarrow> resolver res" where
  "new_resolver pr connections keys =
    bindr (new_manager (pr_imports pr) (pr_test_file pr) connections) (\<lambda>mgr.
    bindr (connection_modules (cm_dict mgr)) (\<lambda>ms.
    bindr (pr_imports pr ms) (\<lambda>classes.
      Inr \<lparr>rv_te = pr_te pr, rv_classes = classes, rv_join = pr_join pr, rv_manager = mgr,
        rv_package_tools = (if keys = [] then [] else collect_package_tools (pr_te pr) (pr_entry_points pr) (Some keys)),
        rv_entry_points = pr_entry_points pr, rv_instantiate = pr_instantiate pr\<rparr>)))"

definition package_tool_keys :: "node list \<Rightarrow> string list" where
  "package_tool_keys ns =
     concat (map (\<lambda>n. case Option.bind (node_source n) ts_tool of Some t \<Rightarrow> if t \<noteq> [] then [t] else [] | None \<Rightarrow> []) ns)"

text \<open>The nodes are resolved one after the other; the first error ends it, and the caches of the registry are kept.\<close>

fun resolve_each :: "(node \<Rightarrow> registry \<Rightarrow> resolved_tool res \<times> registry) \<Rightarrow> node list \<Rightarrow> registry \<Rightarrow> resolved_tool list res \<times> registry" where
  "resolve_each resolve [] rg = (Inr [], rg)"
| "resolve_each resolve (n # ns) rg =
    (case resolve n rg of
       (Inl e, rg1) \<Rightarrow> (Inl e, rg1)
     | (Inr r, rg1) \<Rightarrow> (case resolve_each resolve ns rg1 of (rs, rg2) \<Rightarrow> (bindr rs (\<lambda>rs. Inr (r # rs)), rg2)))"

definition resolve_nodes :: "resolver \<Rightarrow> node list \<Rightarrow> registry \<Rightarrow> resolved_tool list res \<times> registry" where
  "resolve_nodes rv = resolve_each (resolve_tool_by_node rv True)"

section \<open>The tools of an executor\<close>

definition flow_tool_of :: "flow \<Rightarrow> node \<Rightarrow> tool_def res" where
  "flow_tool_of f n =
    (case find (\<lambda>t. tool_name t = none_or_str (node_tool n)) (rev (flow_tools f)) of
       Some t \<Rightarrow> Inr t | None \<Rightarrow> Inl (py_exn KeyError [none_or_str (node_tool n)]))"

definition custom_tools :: "tool_env \<Rightarrow> flow \<Rightarrow> callables \<Rightarrow> callables res" where
  "custom_tools te f ts =
     bindr (mapr (\<lambda>n. bindr (flow_tool_of f n) (\<lambda>t. bindr (load_custom_tool te t (node_name n)) (\<lambda>c. Inr (node_name n, c))))
       (filter (\<lambda>n. \<not> loaded (node_name n) ts) (flow_nodes f))) (\<lambda>kvs. Inr (dict_of kvs))"

definition executor_tools :: "tool_env \<Rightarrow> flow \<Rightarrow> callables \<Rightarrow> callables res" where
  "executor_tools te f ts =
    (case custom_tools te f ts of
       Inl e \<Rightarrow> if is_promptflow e then Inl e
         else bindr (message (te_env te) e) (\<lambda>s. Inl (raise_from (py_exn ValueError
           [PStr (''Failed to load custom tools for flow due to exception:'' @ [CHR 0x0A] @ '' '' @ s @ ''.'')]) e))
     | Inr new \<Rightarrow> (let all_tools = load_tools new ts in
         bindr (foldr_res (\<lambda>n _. assert_loaded (node_name n) all_tools) (flow_nodes f) ()) (\<lambda>_. Inr all_tools)))"

section \<open>Creating an executor\<close>

record executor_options =
  eo_flow_id :: string
  eo_worker_count :: "string option"
  eo_raise_ex :: bool
  eo_line_timeout_sec :: int

definition prepared_flow :: "(string, pyval) dict \<Rightarrow> flow \<Rightarrow> flow res" where
  "prepared_flow overrides f =
     bindr (if overrides \<noteq> [] then apply_node_overrides overrides f else Inr f) (\<lambda>g. Inr (apply_default_node_variants g))"

definition validated_flow :: "flow \<Rightarrow> node list \<Rightarrow> flow res" where
  "validated_flow f ns =
     bindr (validate_nodes_topology (f\<lparr>flow_nodes := ns, flow_tools := [], flow_node_variants := []\<rparr>)) (\<lambda>g.
     bindr (ensure_outputs_valid g) (\<lambda>outs. Inr (g\<lparr>flow_outputs := outs\<rparr>)))"

definition create_executor ::
  "process \<Rightarrow> executor_options \<Rightarrow> built_connections option \<Rightarrow> (string, pyval) dict \<Rightarrow> flow \<Rightarrow> registry \<Rightarrow> (executor \<times> callables) res" where
  "create_executor pr eo connections overrides f rg =
    bindr (prepared_flow overrides f) (\<lambda>g.
    bindr (new_resolver pr connections (package_tool_keys (flow_nodes g))) (\<lambda>rv.
    bindr (fst (resolve_nodes rv (flow_nodes g) rg)) (\<lambda>rs.
    bindr (validated_flow g (map rst_node rs)) (\<lambda>h.
    bindr (executor_tools (pr_te pr) h (dict_of (map (\<lambda>r. (node_name (rst_node r), rst_callable r)) rs))) (\<lambda>ts.
      Inr (new_executor (te_env (pr_te pr)) (eo_flow_id eo) None (eo_worker_count eo) (eo_raise_ex eo) (eo_line_timeout_sec eo) h, ts))))))"

section \<open>A single node\<close>

definition single_node_value :: "flow \<Rightarrow> node \<Rightarrow> input_assignment \<Rightarrow> pyval \<Rightarrow> pyval" where
  "single_node_value f n v x =
    (if node_aggregation n \<and> (ia_value_type v = FLOW_INPUT \<or>
        ia_value_type v = NODE_REFERENCE \<and> (case as_str (ia_value v) of Some m \<Rightarrow> is_normal_node f m | None \<Rightarrow> False))
     then PList [x] else x)"

definition single_node_inputs ::
  "flow \<Rightarrow> resolved_tool \<Rightarrow> (string, pyval) dict \<Rightarrow> (string, pyval) dict \<Rightarrow> (string, pyval) dict res" where
  "single_node_inputs f r deps fins =
     bindr (mapr (\<lambda>(k, v). bindr (parse_value v deps fins) (\<lambda>x. Inr (k, single_node_value f (rst_node r) v x))) (node_inputs (rst_node r)))
       (\<lambda>kvs. Inr (filter (\<lambda>(k, x). \<not> dict_has k (rst_init_args r)) kvs))"

definition load_single_node ::
  "process \<Rightarrow> pyenv \<Rightarrow> built_connections option \<Rightarrow> string \<Rightarrow> flow \<Rightarrow> string \<Rightarrow> (string, pyval) dict \<Rightarrow> (string, pyval) dict \<Rightarrow> registry \<Rightarrow>
     (node \<times> resolved_tool \<times> (string, pyval) dict) res" where
  "load_single_node pr env connections flow_file f name flow_ins deps rg =
    (case get_node f name of
       None \<Rightarrow> Inl (py_exn ValueError [PStr (''Node '' @ name @ '' not found in flow '' @ flow_file @ ''.'')])
     | Some n \<Rightarrow>
        if node_source n = None \<or> node_type n = None
        then Inl (py_exn ValueError [PStr (''Node '' @ name @ '' is not a valid node in flow '' @ flow_file @ ''.'')])
        else bindr (convert_flow_inputs_for_node env f n flow_ins) (\<lambda>fins.
          bindr (new_resolver pr connections (package_tool_keys [n])) (\<lambda>rv.
          bindr (fst (resolve_tool_by_node rv True n rg)) (\<lambda>r.
          bindr (single_node_inputs f r deps fins) (\<lambda>kwargs. Inr (n, r, kwargs))))))"

text \<open>The run of the node in a tracker of its own; its record is the result unless the failure is to be raised.\<close>

definition run_single_node ::
  "outside \<Rightarrow> flow \<Rightarrow> string \<Rightarrow> bool \<Rightarrow> node \<Rightarrow> node_tool \<Rightarrow> (string, pyval) dict \<Rightarrow> world \<Rightarrow> run_info res" where
  "run_single_node os f run_id raise_ex n tool kwargs w =
    (case invoke_tool_with_cache os (set_current_node (Some n) (new_context (flow_name f) run_id None None [])) tool [] kwargs w of
       (r, w') \<Rightarrow>
        if isl r \<and> raise_ex then Inl (projl r)
        else (case collect_node_runs None (w_tracker w') of
            [x] \<Rightarrow> Inr x
          | xs \<Rightarrow> Inl (pf_exn (Fe NodeResultCountNotMatch) [PStr ''Expecting eactly one node run.''] UNKNOWN)))"

section \<open>What an executor is made of\<close>

lemma prepared_flow_frame:
  assumes "prepared_flow overrides f = Inr g"
  shows "map node_name (flow_nodes g) = map node_name (flow_nodes f)"
proof -
  from assms obtain h where h: "(if overrides \<noteq> [] then apply_node_overrides overrides f else Inr f) = Inr h"
    "g = apply_default_node_variants h" by (auto simp: prepared_flow_def res_simps)
  then have "map node_name (flow_nodes h) = map node_name (flow_nodes f)"
    using apply_node_overrides_names by (auto split: if_splits)
  then show ?thesis by (simp add: h(2) apply_default_node_variants_def split_beta apply_variants_names)
qed

lemma resolved_name:
  assumes "resolved_from rv n r"
  shows "node_name (rst_node r) = node_name n"
proof -
  from assms obtain provider where "rst_node r = n\<lparr>node_provider := provider, node_inputs := node_inputs (rst_node r)\<rparr>"
    by (auto simp: resolved_from_def)
  then have "node_name (rst_node r) = node_name (n\<lparr>node_provider := provider, node_inputs := node_inputs (rst_node r)\<rparr>)" by (rule arg_cong)
  then show ?thesis by simp
qed

text \<open>What the executor needs of the resolver: a resolved node is the given one but for its inputs and provider.\<close>

locale node_resolver =
  fixes rv :: resolver and resolve :: "node \<Rightarrow> registry \<Rightarrow> resolved_tool res \<times> registry"
  assumes keeps_node: "resolve n rg = (Inr r, rg') \<Longrightarrow> resolved_from rv n r"
begin

lemma each_resolved:
  "resolve_each resolve ns rg = (Inr rs, rg') \<Longrightarrow>
    list_all2 (\<lambda>n r. resolved_from rv n r \<and> (\<exists>rg1 rg2. resolve n rg1 = (Inr r, rg2))) ns rs"
proof (induction ns arbitrary: rg rs)
  case (Cons n ns)
  from Cons.prems obtain r rg1 rest where r: "resolve n rg = (Inr r, rg1)" and
    rest: "resolve_each resolve ns rg1 = (Inr rest, rg')" "rs = r # rest"
    by (auto simp: res_simps split: prod.splits sum.splits)
  from Cons.IH [OF rest(1)] keeps_node [OF r] r show ?case by (auto simp: rest(2))
qed simp

lemma names_kept:
  assumes "resolve_each resolve ns rg = (Inr rs, rg')"
  shows "map (node_name \<circ> rst_node) rs = map node_name ns"
  using each_resolved [OF assms] resolved_name by (auto simp: list_all2_conv_all_nth intro!: nth_equalityI)

end

interpretation by_node: node_resolver rv "resolve_tool_by_node rv convert" for rv convert
  by unfold_locales (rule resolved_node)

lemma all_loaded_tools:
  assumes "\<And>n. n \<in> set (flow_nodes f) \<Longrightarrow> loaded (node_name n) ts" "executor_tools te f ts = Inr ts'"
  shows "ts' = ts"
proof -
  have "filter (\<lambda>n. \<not> loaded (node_name n) ts) (flow_nodes f) = []" using assms(1) by (simp add: filter_empty_conv)
  then have "custom_tools te f ts = Inr []" by (simp add: custom_tools_def dict_of_def dict_updates_def)
  with assms(2) show ?thesis by (auto simp: executor_tools_def load_tools_def dict_updates_def res_simps Let_def)
qed

lemma validated_flow_parts:
  assumes "validated_flow f ns = Inr h"
  shows "set (flow_nodes h) = set ns \<and> distinct (map node_name ns) \<and> topo_ordered (flow_nodes h) \<and> refs_closed (flow_nodes h) \<and>
    flow_inputs h = flow_inputs f \<and> flow_outputs h = filter (\<lambda>(k, od). \<not> output_aggregated h od) (flow_outputs f) \<and>
    list_all (\<lambda>(k, od). output_resolvable h od) (flow_outputs h)"
proof -
  let ?f = "f\<lparr>flow_nodes := ns, flow_tools := [], flow_node_variants := []\<rparr>"
  from assms obtain g outs where g: "validate_nodes_topology ?f = Inr g" and outs: "ensure_outputs_valid g = Inr outs" and
    h: "h = g\<lparr>flow_outputs := outs\<rparr>" by (auto simp: validated_flow_def res_simps)
  from g have v: "distinct (map node_name (flow_nodes ?f))" "ensure_nodes_order ?f = Inr g" by (simp_all add: validate_nodes_topology_Inr)
  from ensure_nodes_order_sound [OF v] have s: "topo_ordered (flow_nodes g)" "set (flow_nodes g) = set ns" "refs_closed ns"
    "flow_inputs g = flow_inputs f" "flow_outputs g = flow_outputs f" by simp_all
  from outs obtain kvs where kvs: "mapr (check_output g) (flow_outputs g) = Inr kvs" "outs = concat (map option_list kvs)"
    by (auto simp: ensure_outputs_valid_def res_simps)
  note o = checked_outputs [OF kvs(1), folded kvs(2)]
  have nodes: "is_reduce_node h = is_reduce_node g" "is_normal_node h = is_normal_node g" "flow_inputs h = flow_inputs g"
    by (simp_all add: h fun_eq_iff is_reduce_node_def is_normal_node_def get_node_def)
  have same: "output_aggregated h = output_aggregated g" "output_resolvable h = output_resolvable g"
    unfolding fun_eq_iff output_aggregated_def output_resolvable_def nodes by blast+
  from o s refs_closed_cong [OF s(2)] v(1) show ?thesis unfolding same by (auto simp: h)
qed

text \<open>C13. An executor is only made of a flow whose every node could be resolved: its nodes are the resolved nodes of the flow
  after overrides and default variants, with distinct names and sorted so that each comes after those it refers to; its tools
  are exactly their callables, one for the name of each node; its outputs are those of the flow that do not refer to an
  aggregation node, and each of them can be resolved.\<close>

theorem create_executor_sound:
  assumes "create_executor pr eo connections overrides f rg = Inr (x, ts)"
  shows "\<exists>g rv rs. prepared_flow overrides f = Inr g \<and> new_resolver pr connections (package_tool_keys (flow_nodes g)) = Inr rv \<and>
    list_all2 (\<lambda>n r. resolved_from rv n r \<and> (\<exists>rg1 rg2. resolve_tool_by_node rv True n rg1 = (Inr r, rg2))) (flow_nodes g) rs \<and>
    map (node_name \<circ> rst_node) rs = map node_name (flow_nodes f) \<and>
    set (flow_nodes (fx_flow x)) = rst_node ` set rs \<and> distinct (map node_name (flow_nodes f)) \<and>
    topo_ordered (flow_nodes (fx_flow x)) \<and> refs_closed (flow_nodes (fx_flow x)) \<and>
    ts = map (\<lambda>r. (node_name (rst_node r), rst_callable r)) rs \<and>
    flow_outputs (fx_flow x) = filter (\<lambda>(k, od). \<not> output_aggregated (fx_flow x) od) (flow_outputs g) \<and>
    list_all (\<lambda>(k, od). output_resolvable (fx_flow x) od) (flow_outputs (fx_flow x)) \<and> 0 < fx_worker_count x"
proof -
  from assms obtain g rv rs h where g: "prepared_flow overrides f = Inr g" and
    rv: "new_resolver pr connections (package_tool_keys (flow_nodes g)) = Inr rv" and
    rs: "fst (resolve_nodes rv (flow_nodes g) rg) = Inr rs" and
    h: "validated_flow g (map rst_node rs) = Inr h" and
    ts: "executor_tools (pr_te pr) h (dict_of (map (\<lambda>r. (node_name (rst_node r), rst_callable r)) rs)) = Inr ts" and
    x: "x = new_executor (te_env (pr_te pr)) (eo_flow_id eo) None (eo_worker_count eo) (eo_raise_ex eo) (eo_line_timeout_sec eo) h"
    by (auto simp: create_executor_def res_simps)
  from rs obtain rg' where run: "resolve_each (resolve_tool_by_node rv True) (flow_nodes g) rg = (Inr rs, rg')"
    by (cases "resolve_nodes rv (flow_nodes g) rg") (auto simp: resolve_nodes_def)
  note each = by_node.each_resolved [OF run]
  have names: "map (node_name \<circ> rst_node) rs = map node_name (flow_nodes f)"
    using by_node.names_kept [OF run] by (simp add: prepared_flow_frame [OF g])
  note parts = validated_flow_parts [OF h]
  let ?ts = "map (\<lambda>r. (node_name (rst_node r), rst_callable r)) rs"
  have "distinct (map fst ?ts)" using parts by (simp add: comp_def)
  then have dict: "dict_of ?ts = ?ts" by (rule dict_of_distinct)
  have "loaded (node_name n) ?ts" if "n \<in> set (flow_nodes h)" for n
    using that parts by (force simp: loaded_def dict_has_iff)
  from all_loaded_tools [OF this ts [unfolded dict]] have "ts = ?ts" .
  moreover have "fx_flow x = h" "0 < fx_worker_count x"
    by (simp_all add: x new_executor_def worker_count_def default_worker_count_def Let_def split: option.splits)
  ultimately show ?thesis using g rv each names parts by (intro exI [of _ g] exI [of _ rv] exI [of _ rs]) (auto simp: comp_def)
qed

definition demo_process :: process where
  "demo_process = \<lparr>pr_te = rv_te demo_resolver, pr_join = (\<lambda>p. p), pr_entry_points = [], pr_instantiate = (\<lambda>c args. Inr ()),
     pr_imports = (\<lambda>ms. Inr demo_classes), pr_test_file = None\<rparr>"

definition demo_options :: executor_options where
  "demo_options = \<lparr>eo_flow_id = ''id'', eo_worker_count = Some ''-3'', eo_raise_ex = True, eo_line_timeout_sec = 600\<rparr>"

definition demo_llm_flow :: flow where
  "demo_llm_flow = (demo_flow [demo_llm_node])\<lparr>flow_inputs := [(''q'', \<lparr>fi_type = STRING, fi_default = PNone, fi_description = PStr [],
     fi_enum = PList [], fi_is_chat_input = False\<rparr>)]\<rparr>"

theorem create_executor_sound_witness:
  "\<exists>x ts. create_executor demo_process demo_options (Some (demo_connections ''pw'')) [] demo_llm_flow demo_registry = Inr (x, ts) \<and>
     dict_keys ts = [''chat''] \<and> distinct (map node_name (flow_nodes demo_llm_flow)) \<and> 0 < fx_worker_count x"
proof -
  let ?c = "create_executor demo_process demo_options (Some (demo_connections ''pw'')) [] demo_llm_flow demo_registry"
  have "case ?c of Inr r \<Rightarrow> True | Inl e \<Rightarrow> False" by code_simp
  then obtain x ts where run: "?c = Inr (x, ts)" by (cases ?c) auto
  from create_executor_sound [OF run] obtain rs :: "resolved_tool list" where
    names: "map (node_name \<circ> rst_node) rs = map node_name (flow_nodes demo_llm_flow)" and
    ts: "ts = map (\<lambda>r. (node_name (rst_node r), rst_callable r)) rs" and
    rest: "distinct (map node_name (flow_nodes demo_llm_flow))" "0 < fx_worker_count x" by blast
  have "dict_keys ts = map (node_name \<circ> rst_node) rs" by (simp add: ts)
  also have "\<dots> = [''chat'']" unfolding names by (simp add: demo_llm_flow_def demo_flow_def demo_llm_node_def demo_node_def)
  finally have "dict_keys ts = [''chat'']" .
  with run rest show ?thesis by (intro exI [of _ x] exI [of _ ts] conjI)
qed

section \<open>The run of a single node\<close>

text \<open>Running a single node ends with exactly one record, that of the node: the error for another number of records is never
  raised. It is the result, and says completed exactly when the tool returned; when a failure is to be raised, it is
  the exception of the tool.\<close>

theorem single_node_recorded:
  assumes "rt_node_runs (w_tracker w) = []" "rt_flow_runs (w_tracker w) = []"
  shows "\<exists>r res w'. invoke_tool_with_cache os (set_current_node (Some n) (new_context (flow_name f) run_id None None [])) tool [] kwargs w = (res, w') \<and>
    run_single_node os f run_id raise_ex n tool kwargs w = (if isl res \<and> raise_ex then Inl (projl res) else Inr r) \<and>
    node_run_list (w_tracker w') = [r] \<and> rt_persisted (w_tracker w') = rt_persisted (w_tracker w) @ [NodeRun r] \<and>
    ri_node r = node_name n \<and> (ri_status r = Completed \<longleftrightarrow> \<not> isl res)"
proof -
  let ?c = "set_current_node (Some n) (new_context (flow_name f) run_id None None [])"
  let ?rid = "generate_current_node_run_id (os_uuid os) n ?c"
  obtain res w' where run: "invoke_tool_with_cache os ?c tool [] kwargs w = (res, w')" by force
  have cur: "fc_current_node ?c = Some n" by (simp add: set_current_node_def)
  from invoke_tool_effect [OF run cur refl] assms obtain r where
    r: "rt_persisted (w_tracker w') = rt_persisted (w_tracker w) @ [NodeRun r]" "map_of (rt_node_runs (w_tracker w')) = [?rid \<mapsto> r]"
    "ri_node r = node_name n" "ri_status r = Completed \<longleftrightarrow> \<not> isl res" "distinct (dict_keys (rt_node_runs (w_tracker w')))"
    by auto
  have dom: "set (dict_keys (rt_node_runs (w_tracker w'))) = {?rid}"
    using r(2) by (metis dom_eq_singleton_conv dom_map_of_conv_image_fst list.set_map)
  then have "length (dict_keys (rt_node_runs (w_tracker w'))) = 1" using distinct_card [OF r(5)] by simp
  then obtain k x where one: "rt_node_runs (w_tracker w') = [(k, x)]" by (cases "rt_node_runs (w_tracker w')") auto
  with dom have "k = ?rid" by simp
  with fun_cong [OF r(2), of k] one have "x = r" by simp
  then have runs: "node_run_list (w_tracker w') = [r]" by (simp add: node_run_list_def one)
  have "run_single_node os f run_id raise_ex n tool kwargs w = (if isl res \<and> raise_ex then Inl (projl res) else Inr r)"
    by (simp add: run_single_node_def run collect_node_runs_def runs)
  with run runs r(1,3,4) show ?thesis by blast
qed

theorem single_node_recorded_witness:
  "\<exists>r. run_single_node (demo_outside (\<lambda>k. Inl outside_model)) (demo_flow [demo_node ''n'' []]) ''run'' False (demo_node ''n'' [])
      (demo_tool_of ([], Inl (py_exn ValueError [PStr ''bad'']))) [] (demo_world DummyCacheManager) = Inr r \<and> ri_node r = ''n''"
proof -
  have w: "rt_node_runs (w_tracker (demo_world DummyCacheManager)) = []" "rt_flow_runs (w_tracker (demo_world DummyCacheManager)) = []"
    by (simp_all add: demo_world_def new_run_tracker_def)
  from single_node_recorded [OF w, of "demo_outside (\<lambda>k. Inl outside_model)" "demo_node ''n'' []" "demo_flow [demo_node ''n'' []]" "''run''"
      "demo_tool_of ([], Inl (py_exn ValueError [PStr ''bad'']))" "[]" False]
  show ?thesis by (auto simp: demo_node_def)
qed

end
