(* ===== verification/SdkRuns.thy ===== *)
theory SdkRuns imports Connections Json "HOL-Library.List_Lexorder" "HOL-Library.Char_ord" begin

text \<open>
  The runs of the SDK: the table of runs (\<^verbatim>\<open>_sdk/_orm/run_info.py\<close>) whose operations are retried when the database is busy
  (\<^verbatim>\<open>_sdk/_orm/retry.py\<close>), the run entity (\<^verbatim>\<open>_sdk/entities/_run.py\<close>) and its operations
  (\<^verbatim>\<open>_sdk/operations/_run_operations.py\<close>). Times are their ISO texts; the resolution of paths is a parameter.
\<close>

section \<open>Retrying\<close>

text \<open>The decorator is a copy of the one the storage uses (\<open>retry\<close>); the error it waits for is SQLAlchemy's.\<close>

definition operational_error :: exn where
  "operational_error = pf_exn (sqlalchemy_class ''OperationalError'') [PStr ''database is locked''] UNKNOWN"

definition is_operational :: "exn \<Rightarrow> bool" where
  "is_operational e = isinstance e (sqlalchemy_class ''OperationalError'')"

definition sqlite_retry :: "('s \<Rightarrow> 'a res \<times> 's) \<Rightarrow> 's \<Rightarrow> 'a res \<times> 's" where
  "sqlite_retry = retry is_operational 3"

section \<open>The table of runs\<close>

record run_row =
  rr_name :: string
  rr_created_on :: string
  rr_status :: string
  rr_display_name :: "string option"
  rr_description :: "string option"
  rr_tags :: "string option"
  rr_properties :: string
  rr_archived :: bool
  rr_start_time :: "string option"
  rr_end_time :: "string option"
  rr_data :: "string option"

text \<open>The rows in the order of their insertion, and which of the next sessions find the database locked.\<close>

record run_db =
  db_busy :: "bool list"
  db_rows :: "run_row list"

definition is_locked :: "run_db \<Rightarrow> bool" where
  "is_locked db = (case db_busy db of [] \<Rightarrow> False | b # _ \<Rightarrow> b)"

definition session :: "(run_row list \<Rightarrow> 'a res \<times> run_row list) \<Rightarrow> run_db \<Rightarrow> 'a res \<times> run_db" where
  "session action db =
    (if is_locked db then (Inl operational_error, db\<lparr>db_busy := tl (db_busy db)\<rparr>)
     else (case action (db_rows db) of (r, rows) \<Rightarrow> (r, \<lparr>db_busy = tl (db_busy db), db_rows = rows\<rparr>)))"

definition dump_row :: "run_row \<Rightarrow> run_row list \<Rightarrow> unit res \<times> run_row list" where
  "dump_row row rows =
    (if list_ex (\<lambda>r. rr_name r = rr_name row) rows
     then (Inl (sdk_error ''RunExistsError'' [PStr (''Run name '' @ repr_str (rr_name row) @ '' already exists.'')]), rows)
     else (Inr (), rows @ [row]))"

definition run_dump :: "run_row \<Rightarrow> run_db \<Rightarrow> unit res \<times> run_db" where
  "run_dump row = sqlite_retry (session (dump_row row))"

text \<open>\<open>query.filter(name).update(columns)\<close>; an update of no column changes nothing.\<close>

definition update_rows :: "string \<Rightarrow> (run_row \<Rightarrow> run_row) \<Rightarrow> run_row list \<Rightarrow> unit res \<times> run_row list" where
  "update_rows name f rows = (Inr (), map (\<lambda>r. if rr_name r = name then f r else r) rows)"

text \<open>The object that was read is changed before the database is: the state of an attempt is both.\<close>

definition set_archived :: "bool \<Rightarrow> run_row \<times> run_db \<Rightarrow> unit res \<times> run_row \<times> run_db" where
  "set_archived v st =
    (let (row, db) = st in
     if rr_archived row = v then (Inr (), row, db)
     else (case session (update_rows (rr_name row) (\<lambda>r. r\<lparr>rr_archived := v\<rparr>)) db of (r, db') \<Rightarrow> (r, row\<lparr>rr_archived := v\<rparr>, db')))"

definition run_archive :: "run_row \<Rightarrow> run_db \<Rightarrow> unit res \<times> run_db" where
  "run_archive row db = (case sqlite_retry (set_archived True) (row, db) of (r, _, db') \<Rightarrow> (r, db'))"

definition run_restore :: "run_row \<Rightarrow> run_db \<Rightarrow> unit res \<times> run_db" where
  "run_restore row db = (case sqlite_retry (set_archived False) (row, db) of (r, _, db') \<Rightarrow> (r, db'))"

record run_changes =
  ch_status :: "string option"
  ch_display_name :: "string option"
  ch_description :: "string option"
  ch_tags :: "pyval option"
  ch_start_time :: "string option"
  ch_end_time :: "string option"

definition no_changes :: run_changes where
  "no_changes = \<lparr>ch_status = None, ch_display_name = None, ch_description = None, ch_tags = None, ch_start_time = None, ch_end_time = None\<rparr>"

definition given_or :: "'a option \<Rightarrow> 'a \<Rightarrow> 'a" where
  "given_or x old = (case x of Some v \<Rightarrow> v | None \<Rightarrow> old)"

definition given_column :: "'a option \<Rightarrow> 'a option \<Rightarrow> 'a option" where
  "given_column x old = (case x of Some v \<Rightarrow> Some v | None \<Rightarrow> old)"

definition changed_row :: "run_changes \<Rightarrow> string option \<Rightarrow> run_row \<Rightarrow> run_row" where
  "changed_row ch tags r = r\<lparr>rr_status := given_or (ch_status ch) (rr_status r),
     rr_display_name := given_column (ch_display_name ch) (rr_display_name r),
     rr_description := given_column (ch_description ch) (rr_description r),
     rr_tags := given_column tags (rr_tags r),
     rr_start_time := given_column (ch_start_time ch) (rr_start_time r),
     rr_end_time := given_column (ch_end_time ch) (rr_end_time r)\<rparr>"

definition tags_text :: "pyval option \<Rightarrow> string option res" where
  "tags_text tags = (case tags of None \<Rightarrow> Inr None | Some t \<Rightarrow> bindr (json_dumps t) (\<lambda>s. Inr (Some s)))"

definition run_update :: "run_changes \<Rightarrow> run_row \<Rightarrow> run_db \<Rightarrow> unit res \<times> run_db" where
  "run_update ch row = sqlite_retry (\<lambda>db.
     case tags_text (ch_tags ch) of
       Inl e \<Rightarrow> (Inl e, db)
     | Inr tags \<Rightarrow> session (update_rows (rr_name row) (changed_row ch tags)) db)"

definition find_row :: "string \<Rightarrow> run_row list \<Rightarrow> run_row res \<times> run_row list" where
  "find_row name rows =
    (case find (\<lambda>r. rr_name r = name) rows of
       Some r \<Rightarrow> (Inr r, rows)
     | None \<Rightarrow> (Inl (sdk_error ''RunNotFoundError'' [PStr (''Run name '' @ repr_str name @ '' cannot be found.'')]), rows))"

definition run_get :: "string \<Rightarrow> run_db \<Rightarrow> run_row res \<times> run_db" where
  "run_get name = sqlite_retry (session (find_row name))"

datatype list_view_type = ACTIVE_ONLY | ARCHIVED_ONLY | ALL'

definition get_list_view_type :: "bool \<Rightarrow> bool \<Rightarrow> list_view_type res" where
  "get_list_view_type archived_only include_archived =
    (if archived_only \<and> include_archived
     then Inl (py_exn Exception [PStr ''Cannot provide both archived-only and include-archived.''])
     else if include_archived then Inr ALL'
     else if archived_only then Inr ARCHIVED_ONLY
     else Inr ACTIVE_ONLY)"

definition in_view :: "list_view_type \<Rightarrow> run_row \<Rightarrow> bool" where
  "in_view view r = (case view of ACTIVE_ONLY \<Rightarrow> \<not> rr_archived r | ARCHIVED_ONLY \<Rightarrow> rr_archived r | ALL' \<Rightarrow> True)"

text \<open>Newest first; rows of the same time come in the reverse order of their insertion, which the code does not fix.\<close>

definition list_rows :: "nat option \<Rightarrow> list_view_type \<Rightarrow> run_row list \<Rightarrow> run_row list res \<times> run_row list" where
  "list_rows max_results view rows =
    (let newest = rev (sort_key rr_created_on (filter (in_view view) rows))
     in (Inr (case max_results of Some n \<Rightarrow> take n newest | None \<Rightarrow> newest), rows))"

definition run_list :: "nat option \<Rightarrow> list_view_type \<Rightarrow> run_db \<Rightarrow> run_row list res \<times> run_db" where
  "run_list max_results view = sqlite_retry (session (list_rows max_results view))"

section \<open>A busy database\<close>

definition locks :: "run_db \<Rightarrow> nat" where
  "locks db = length (takeWhile (\<lambda>b. b) (db_busy db))"

lemma operational: "is_operational operational_error"
  by (simp add: is_operational_def operational_error_def isinstance_def sqlalchemy_class_def)

text \<open>An attempt on the database: one that finds it locked changes nothing else, and no other error is an operational one.\<close>

locale database_attempt =
  fixes attempt :: "run_db \<Rightarrow> 'a res \<times> run_db"
  assumes locked: "is_locked db \<Longrightarrow> attempt db = (Inl operational_error, db\<lparr>db_busy := tl (db_busy db)\<rparr>)"
    and settled: "\<not> is_locked db \<Longrightarrow> attempt db = (Inl e, db') \<Longrightarrow> \<not> is_operational e"
begin

lemma settled_result: "\<not> is_locked db \<Longrightarrow> retry is_operational n attempt db = attempt db"
  using settled [of db] by (cases "(is_operational, n, attempt, db)" rule: retry.cases) (auto split: sum.splits prod.splits)

lemma locked_result:
  "is_locked db \<Longrightarrow> retry is_operational (Suc (Suc n)) attempt db = retry is_operational (Suc n) attempt (db\<lparr>db_busy := tl (db_busy db)\<rparr>)"
  by (simp add: locked operational)

lemma retried:
  "sqlite_retry attempt db =
    (if 3 \<le> locks db then (Inl operational_error, db\<lparr>db_busy := drop 3 (db_busy db)\<rparr>)
     else attempt (db\<lparr>db_busy := drop (locks db) (db_busy db)\<rparr>))"
proof -
  have free: "retry is_operational n attempt (db\<lparr>db_busy := ls\<rparr>) = attempt (db\<lparr>db_busy := ls\<rparr>)" if "ls = [] \<or> \<not> hd ls" for n ls
    using that by (intro settled_result) (auto simp: is_locked_def split: list.splits)
  have taken: "retry is_operational (Suc (Suc n)) attempt (db\<lparr>db_busy := True # ls\<rparr>) = retry is_operational (Suc n) attempt (db\<lparr>db_busy := ls\<rparr>)"
    for n ls using locked_result [of "db\<lparr>db_busy := True # ls\<rparr>" n] by (simp add: is_locked_def)
  have last: "retry is_operational (Suc 0) attempt (db\<lparr>db_busy := True # ls\<rparr>) = (Inl operational_error, db\<lparr>db_busy := ls\<rparr>)" for ls
    using locked [of "db\<lparr>db_busy := True # ls\<rparr>"] by (simp add: is_locked_def)
  have "sqlite_retry attempt (db\<lparr>db_busy := bs\<rparr>) =
    (if 3 \<le> length (takeWhile (\<lambda>b. b) bs) then (Inl operational_error, db\<lparr>db_busy := drop 3 bs\<rparr>)
     else attempt (db\<lparr>db_busy := drop (length (takeWhile (\<lambda>b. b) bs)) bs\<rparr>))" for bs
  proof -
    consider (a) "bs = [] \<or> \<not> hd bs" | (b) ls where "bs = True # ls" "ls = [] \<or> \<not> hd ls"
      | (c) ls where "bs = True # True # ls" "ls = [] \<or> \<not> hd ls" | (d) ls where "bs = True # True # True # ls"
      by (metis (full_types) list.exhaust list.sel(1))
    then show ?thesis
    proof cases
      case a
      then have none: "takeWhile (\<lambda>b. b) bs = []" by (cases bs) auto
      show ?thesis using free [OF a] by (simp add: sqlite_retry_def none)
    next
      case b
      then have none: "takeWhile (\<lambda>b. b) ls = []" by (cases ls) auto
      show ?thesis by (simp add: sqlite_retry_def numeral_eq_Suc none b(1) taken free [OF b(2)] del: retry.simps)
    next
      case c
      then have none: "takeWhile (\<lambda>b. b) ls = []" by (cases ls) auto
      show ?thesis by (simp add: sqlite_retry_def numeral_eq_Suc none c(1) taken free [OF c(2)] del: retry.simps)
    next
      case d
      show ?thesis by (simp add: sqlite_retry_def numeral_eq_Suc d taken last del: retry.simps)
    qed
  qed
  from this [of "db_busy db"] show ?thesis by (simp add: locks_def)
qed

end

lemma session_locked: "is_locked db \<Longrightarrow> session action db = (Inl operational_error, db\<lparr>db_busy := tl (db_busy db)\<rparr>)"
  by (simp add: session_def)

lemma sdk_error_operational: "\<not> is_operational (sdk_error name m)"
  by (simp add: is_operational_def sdk_error_def isinstance_def sqlalchemy_class_def mro_def numeral_eq_Suc)

interpretation dumping: database_attempt "session (dump_row row)" for row
  by unfold_locales (auto simp: session_locked session_def dump_row_def sdk_error_operational split: if_splits)

interpretation getting: database_attempt "session (find_row name)" for name
  by unfold_locales (auto simp: session_locked session_def find_row_def sdk_error_operational split: option.splits)

interpretation listing: database_attempt "session (list_rows max_results view)" for max_results view
  by unfold_locales (auto simp: session_locked session_def list_rows_def Let_def)

interpretation updating: database_attempt "session (update_rows name f)" for name f
  by unfold_locales (auto simp: session_locked session_def update_rows_def)

section \<open>The run entity\<close>

text \<open>A run of a local flow; \<open>sr_run\<close> is the name of the run it refers to.\<close>

record sdk_run =
  sr_name :: string
  sr_flow :: string
  sr_data :: "string option"
  sr_variant :: "string option"
  sr_run :: "string option"
  sr_column_mapping :: pyval
  sr_display_name :: string
  sr_description :: "string option"
  sr_tags :: pyval
  sr_created_on :: string
  sr_start_time :: "string option"
  sr_end_time :: "string option"
  sr_status :: string
  sr_environment_variables :: "(string, pyval) dict"
  sr_connections :: "(string, pyval) dict"
  sr_properties :: "(string, pyval) dict"

text \<open>The arguments of the constructor; a name of its own and the time when it runs come from outside.\<close>

record run_args =
  ra_flow :: string
  ra_name :: "string option"
  ra_data :: "string option"
  ra_variant :: "string option"
  ra_run :: "string option"
  ra_column_mapping :: pyval
  ra_display_name :: "string option"
  ra_description :: "string option"
  ra_tags :: pyval
  ra_created_on :: "string option"
  ra_start_time :: "string option"
  ra_end_time :: "string option"
  ra_status :: "string option"
  ra_environment_variables :: "(string, pyval) dict"
  ra_connections :: "(string, pyval) dict"
  ra_properties :: "(string, pyval) dict"

record run_paths =
  pt_resolve :: "string \<Rightarrow> string"
  pt_output :: "string \<Rightarrow> string"
  pt_now :: string
  pt_generated_name :: string

text \<open>\<open>x or y\<close> on texts that may be missing\<close>

definition text_or :: "string option \<Rightarrow> string \<Rightarrow> string" where
  "text_or x y = (case x of None \<Rightarrow> y | Some s \<Rightarrow> if s = [] then y else s)"

definition non_empty :: "string option \<Rightarrow> string option" where
  "non_empty x = (case x of None \<Rightarrow> None | Some s \<Rightarrow> if s = [] then None else Some s)"

definition new_run :: "run_paths \<Rightarrow> run_args \<Rightarrow> sdk_run" where
  "new_run pt a =
    (let name = text_or (ra_name a) (pt_generated_name pt) in
     \<lparr>sr_name = name, sr_flow = pt_resolve pt (ra_flow a), sr_data = ra_data a, sr_variant = ra_variant a, sr_run = ra_run a,
      sr_column_mapping = ra_column_mapping a, sr_display_name = text_or (ra_display_name a) name,
      sr_description = ra_description a, sr_tags = ra_tags a, sr_created_on = text_or (ra_created_on a) (pt_now pt),
      sr_start_time = ra_start_time a, sr_end_time = ra_end_time a, sr_status = text_or (ra_status a) ''NotStarted'',
      sr_environment_variables = ra_environment_variables a, sr_connections = ra_connections a, sr_properties = ra_properties a\<rparr>)"

definition optional_entry :: "string \<Rightarrow> string option \<Rightarrow> (string, pyval) dict" where
  "optional_entry k v = (case non_empty v of None \<Rightarrow> [] | Some s \<Rightarrow> [(k, PStr s)])"

definition run_properties :: "run_paths \<Rightarrow> sdk_run \<Rightarrow> (string, pyval) dict" where
  "run_properties pt r =
     dict_updates ([(''flow_path'', PStr (sr_flow r)), (''output_path'', PStr (pt_output pt (sr_name r)))] @
       optional_entry ''run'' (sr_run r) @ optional_entry ''node_variant'' (sr_variant r)) (sr_properties r)"

definition run_to_orm :: "run_paths \<Rightarrow> sdk_run \<Rightarrow> run_row res" where
  "run_to_orm pt r =
    bindr (if truthy (sr_tags r) then tags_text (Some (sr_tags r)) else Inr None) (\<lambda>tags.
    bindr (json_dumps (PDict (run_properties pt r))) (\<lambda>props.
      Inr \<lparr>rr_name = sr_name r, rr_created_on = sr_created_on r, rr_status = sr_status r, rr_display_name = Some (sr_display_name r),
        rr_description = sr_description r, rr_tags = tags, rr_properties = props, rr_archived = False,
        rr_start_time = non_empty (sr_start_time r), rr_end_time = non_empty (sr_end_time r),
        rr_data = map_option (pt_resolve pt) (non_empty (sr_data r))\<rparr>))"

text \<open>An entry of the properties that is a text or missing; the constructor would keep any other value.\<close>

definition text_entry :: "(string, pyval) dict \<Rightarrow> string \<Rightarrow> string option res" where
  "text_entry d k = (case map_of d k of
     None \<Rightarrow> Inr None
   | Some v \<Rightarrow> if v = PNone then Inr None else (case as_str v of Some s \<Rightarrow> Inr (Some s) | None \<Rightarrow> Inl outside_model))"

definition run_from_orm :: "run_paths \<Rightarrow> run_row \<Rightarrow> sdk_run res" where
  "run_from_orm pt row =
    bindr (json_loads (rr_properties row)) (\<lambda>v.
    bindr (expect_dict v) (\<lambda>props.
    bindr (get_item props ''flow_path'') (\<lambda>path.
    bindr (case as_str path of Some s \<Rightarrow> Inr s | None \<Rightarrow> Inl (py_exn TypeError [PStr ''expected str, bytes or os.PathLike object''])) (\<lambda>flow.
    bindr (text_entry props ''run'') (\<lambda>referenced.
    bindr (text_entry props ''node_variant'') (\<lambda>variant.
    bindr (case non_empty (rr_tags row) of None \<Rightarrow> Inr PNone | Some t \<Rightarrow> json_loads t) (\<lambda>tags.
      Inr (new_run pt \<lparr>ra_flow = flow, ra_name = Some (rr_name row), ra_data = map_option (pt_resolve pt) (non_empty (rr_data row)),
        ra_variant = variant, ra_run = referenced, ra_column_mapping = PNone, ra_display_name = rr_display_name row,
        ra_description = non_empty (rr_description row), ra_tags = tags, ra_created_on = Some (rr_created_on row),
        ra_start_time = non_empty (rr_start_time row), ra_end_time = non_empty (rr_end_time row), ra_status = Some (rr_status row),
        ra_environment_variables = [], ra_connections = [], ra_properties = []\<rparr>))))))))"

definition check_run_status_is_completed :: "sdk_run \<Rightarrow> unit res" where
  "check_run_status_is_completed r =
    (if sr_status r \<noteq> ''Completed''
     then Inl (sdk_error ''InvalidRunStatusError'' [PStr (''Run '' @ repr_str (sr_name r) @ '' is not completed, the status is '' @
       repr_str (sr_status r) @ ''.'' @ (if sr_status r \<noteq> ''Failed''
         then '' Please wait for its completion, or select other completed run(s).'' else []))])
     else Inr ())"

section \<open>Operations\<close>

definition get_run :: "run_paths \<Rightarrow> string \<Rightarrow> run_db \<Rightarrow> sdk_run res \<times> run_db" where
  "get_run pt name db = (case run_get name db of (r, db') \<Rightarrow> (bindr r (run_from_orm pt), db'))"

text \<open>What the archiving, restoring and updating of a run have in common: read it, change it, read it again.\<close>

definition with_run ::
  "run_paths \<Rightarrow> string \<Rightarrow> (run_row \<Rightarrow> run_db \<Rightarrow> unit res \<times> run_db) \<Rightarrow> run_db \<Rightarrow> sdk_run res \<times> run_db" where
  "with_run pt name change db =
    (case run_get name db of
       (Inl e, db1) \<Rightarrow> (Inl e, db1)
     | (Inr row, db1) \<Rightarrow> (case change row db1 of
         (Inl e, db2) \<Rightarrow> (Inl e, db2)
       | (Inr _, db2) \<Rightarrow> get_run pt name db2))"

definition archive_run :: "run_paths \<Rightarrow> string \<Rightarrow> run_db \<Rightarrow> sdk_run res \<times> run_db" where
  "archive_run pt name = with_run pt name run_archive"

definition restore_run :: "run_paths \<Rightarrow> string \<Rightarrow> run_db \<Rightarrow> sdk_run res \<times> run_db" where
  "restore_run pt name = with_run pt name run_restore"

definition update_run :: "run_paths \<Rightarrow> string \<Rightarrow> run_changes \<Rightarrow> run_db \<Rightarrow> sdk_run res \<times> run_db" where
  "update_run pt name ch = with_run pt name (run_update ch)"

text \<open>Rows that cannot be read are skipped with a message.\<close>

definition list_runs :: "run_paths \<Rightarrow> nat option \<Rightarrow> list_view_type \<Rightarrow> run_db \<Rightarrow> sdk_run list res \<times> run_db" where
  "list_runs pt max_results view db =
    (case run_list max_results view db of (r, db') \<Rightarrow>
       (bindr r (\<lambda>rows. Inr (concat (map (\<lambda>row. case run_from_orm pt row of Inr x \<Rightarrow> [x] | Inl e \<Rightarrow> []) rows))), db'))"


section \<open>Reading a stored run\<close>

lemma json_reads:
  assumes "json_plain v"
  obtains s where "json_dumps v = Inr s" "json_loads s = Inr v" "s \<noteq> []"
proof -
  from json_roundtrip [OF assms] obtain s where s: "json_dumps v = Inr s" "json_loads s = Inr v" by (auto simp: res_simps)
  moreover have "isl (json_loads [])" by code_simp
  ultimately have "s \<noteq> []" by (cases "json_loads []") auto
  with s show thesis using that by blast
qed

lemma optional_entry_keys: "set (dict_keys (optional_entry k v)) \<subseteq> {k}" "distinct (dict_keys (optional_entry k v))"
  by (auto simp: optional_entry_def split: option.splits)

lemma optional_entry_value: "map_of (optional_entry k v) k = map_option PStr (non_empty v)"
  by (simp add: optional_entry_def split: option.splits)

text \<open>The properties a run may have of its own: JSON data under other names than the SDK uses.\<close>

definition own_properties :: "(string, pyval) dict \<Rightarrow> bool" where
  "own_properties d \<longleftrightarrow> json_plain (PDict d) \<and> set (dict_keys d) \<inter> {''flow_path'', ''output_path'', ''run'', ''node_variant''} = {}"

lemma stored_properties:
  assumes "own_properties (sr_properties r)"
  shows "json_plain (PDict (run_properties pt r))" "map_of (run_properties pt r) ''flow_path'' = Some (PStr (sr_flow r))"
    "text_entry (run_properties pt r) ''run'' = Inr (non_empty (sr_run r))"
    "text_entry (run_properties pt r) ''node_variant'' = Inr (non_empty (sr_variant r))"
proof -
  let ?base = "[(''flow_path'', PStr (sr_flow r)), (''output_path'', PStr (pt_output pt (sr_name r)))] @
       optional_entry ''run'' (sr_run r) @ optional_entry ''node_variant'' (sr_variant r)"
  let ?own = "sr_properties r"
  have keys: "set (dict_keys ?base) \<subseteq> {''flow_path'', ''output_path'', ''run'', ''node_variant''}"
    using optional_entry_keys by fastforce
  have own: "distinct (dict_keys ?own)" "set (dict_keys ?base) \<inter> set (dict_keys ?own) = {}"
    using assms keys unfolding own_properties_def by (simp, blast)
  have all: "run_properties pt r = ?base @ ?own"
    unfolding run_properties_def using own by (intro dict_updates_append_new) (auto simp: disjoint_iff)
  have "distinct (dict_keys ?base)"
    by (auto simp: optional_entry_def split: option.splits)
  then have "distinct (map fst (?base @ ?own))" using own by auto
  moreover have "list_all (\<lambda>kv. json_plain (snd kv)) (?base @ ?own)"
    using assms by (auto simp: own_properties_def optional_entry_def split: option.splits)
  ultimately show "json_plain (PDict (run_properties pt r))" unfolding all by simp
  show "map_of (run_properties pt r) ''flow_path'' = Some (PStr (sr_flow r))" by (simp add: all)
  have off: "map_of ?own ''run'' = None" "map_of ?own ''node_variant'' = None"
    using assms by (auto simp: own_properties_def map_of_eq_None_iff)
  have apart: "map_of (optional_entry ''node_variant'' v) ''run'' = None" "map_of (optional_entry ''run'' v) ''node_variant'' = None" for v
    using optional_entry_keys(1) [of "''node_variant''" v] optional_entry_keys(1) [of "''run''" v] by (auto simp: map_of_eq_None_iff)
  have "map_of (run_properties pt r) ''run'' = map_option PStr (non_empty (sr_run r))"
    "map_of (run_properties pt r) ''node_variant'' = map_option PStr (non_empty (sr_variant r))"
    unfolding all by (simp_all add: map_add_def off apart optional_entry_value split: option.splits)
  then show "text_entry (run_properties pt r) ''run'' = Inr (non_empty (sr_run r))"
    "text_entry (run_properties pt r) ''node_variant'' = Inr (non_empty (sr_variant r))"
    by (auto simp: text_entry_def split: option.splits)
qed

text \<open>What is left of a run when it is read from its row.\<close>

definition stored_run :: "run_paths \<Rightarrow> sdk_run \<Rightarrow> sdk_run" where
  "stored_run pt r = r\<lparr>sr_data := map_option (pt_resolve pt) (non_empty (sr_data r)), sr_variant := non_empty (sr_variant r),
     sr_run := non_empty (sr_run r), sr_column_mapping := PNone, sr_description := non_empty (sr_description r),
     sr_tags := (if truthy (sr_tags r) then sr_tags r else PNone), sr_start_time := non_empty (sr_start_time r),
     sr_end_time := non_empty (sr_end_time r), sr_environment_variables := [], sr_connections := [], sr_properties := []\<rparr>"

lemma non_empty_idem [simp]: "non_empty (non_empty x) = non_empty x"
  by (simp add: non_empty_def split: option.splits)

text \<open>C30. A run that is stored and read back, whichever process reads it, is the run that was stored: its name, flow, status,
  texts, times, tags, variant and the run it refers to, with empty texts and tags read as missing and its data path resolved.
  What the row has no column for, its column mapping, environment variables, connections and own properties, is gone.\<close>

theorem run_row_roundtrip:
  assumes "r = new_run pt a" "own_properties (ra_properties a)" "json_plain (ra_tags a)"
    and "pt_generated_name pt \<noteq> []" "pt_now pt \<noteq> []"
    and "\<And>p. pt_resolve pt (pt_resolve pt p) = pt_resolve pt p" "\<And>p. p \<noteq> [] \<Longrightarrow> pt_resolve pt p \<noteq> []"
    and "pt_resolve pt' = pt_resolve pt"
  shows "bindr (run_to_orm pt r) (run_from_orm pt') = Inr (stored_run pt r)"
proof -
  have own: "own_properties (sr_properties r)" and tags: "json_plain (sr_tags r)" using assms(1-3) by (simp_all add: new_run_def Let_def)
  have filled: "sr_name r \<noteq> []" "sr_display_name r \<noteq> []" "sr_created_on r \<noteq> []" "sr_status r \<noteq> []" "pt_resolve pt (sr_flow r) = sr_flow r"
    using assms(1,4-6) by (auto simp: new_run_def Let_def text_or_def split: option.splits)
  have or: "text_or (Some x) y = x" if "x \<noteq> []" for x y using that by (simp add: text_or_def)
  obtain props where props: "json_dumps (PDict (run_properties pt r)) = Inr props" "json_loads props = Inr (PDict (run_properties pt r))"
    using json_reads [OF stored_properties(1) [OF own]] by metis
  obtain ts where ts: "(if truthy (sr_tags r) then tags_text (Some (sr_tags r)) else Inr None) = Inr ts"
    "(case non_empty ts of None \<Rightarrow> Inr PNone | Some t \<Rightarrow> json_loads t) = Inr (if truthy (sr_tags r) then sr_tags r else PNone)"
  proof (cases "truthy (sr_tags r)")
    case True
    from json_reads [OF tags] obtain s where "json_dumps (sr_tags r) = Inr s" "json_loads s = Inr (sr_tags r)" "s \<noteq> []" by metis
    with True that [of "Some s"] show thesis by (simp add: tags_text_def non_empty_def)
  qed (use that [of None] in \<open>simp add: non_empty_def\<close>)
  have data: "map_option (pt_resolve pt) (non_empty (map_option (pt_resolve pt) (non_empty d))) = map_option (pt_resolve pt) (non_empty d)" for d
    using assms(6,7) by (auto simp: non_empty_def split: option.splits)
  show ?thesis
    using ts props stored_properties(2-4) [OF own, of pt] filled assms(8)
    by (simp add: run_to_orm_def run_from_orm_def expect_dict_def get_item_def new_run_def Let_def or data stored_run_def)
qed

definition demo_paths :: run_paths where
  "demo_paths = \<lparr>pt_resolve = (\<lambda>p. if p \<noteq> [] \<and> hd p = CHR ''/'' then p else ''/w/'' @ p), pt_output = (\<lambda>n. ''/home/.promptflow/.runs/'' @ n),
     pt_now = ''2023-09-01T10:00:00'', pt_generated_name = ''flow_default_20230901''\<rparr>"

definition demo_args :: run_args where
  "demo_args = \<lparr>ra_flow = ''flow'', ra_name = Some ''r1'', ra_data = Some ''data.jsonl'', ra_variant = Some [], ra_run = Some ''r0'',
     ra_column_mapping = PDict [(''q'', PStr ''${data.q}'')], ra_display_name = None, ra_description = Some [], ra_tags = PDict [(''team'', PStr ''a'')],
     ra_created_on = None, ra_start_time = None, ra_end_time = None, ra_status = None, ra_environment_variables = [], ra_connections = [],
     ra_properties = [(''note'', PStr ''x'')]\<rparr>"

theorem run_row_roundtrip_witness:
  "\<exists>r. bindr (run_to_orm demo_paths (new_run demo_paths demo_args)) (run_from_orm (demo_paths\<lparr>pt_now := ''later''\<rparr>)) = Inr r \<and>
     sr_name r = ''r1'' \<and> sr_data r = Some ''/w/data.jsonl'' \<and> sr_run r = Some ''r0'' \<and> sr_variant r = None \<and> sr_display_name r = ''r1'' \<and>
     sr_tags r = PDict [(''team'', PStr ''a'')] \<and> sr_properties r = []"
proof -
  have own: "own_properties (ra_properties demo_args)" "json_plain (ra_tags demo_args)" "pt_generated_name demo_paths \<noteq> []" "pt_now demo_paths \<noteq> []"
    by (simp_all add: own_properties_def demo_args_def demo_paths_def)
  have resolve: "pt_resolve demo_paths (pt_resolve demo_paths p) = pt_resolve demo_paths p" "p \<noteq> [] \<Longrightarrow> pt_resolve demo_paths p \<noteq> []" for p
    by (simp_all add: demo_paths_def)
  let ?r = "stored_run demo_paths (new_run demo_paths demo_args)"
  have "bindr (run_to_orm demo_paths (new_run demo_paths demo_args)) (run_from_orm (demo_paths\<lparr>pt_now := ''later''\<rparr>)) = Inr ?r"
    by (rule run_row_roundtrip [OF refl own resolve]) (simp_all add: demo_paths_def)
  moreover have "sr_name ?r = ''r1'' \<and> sr_data ?r = Some ''/w/data.jsonl'' \<and> sr_run ?r = Some ''r0'' \<and> sr_variant ?r = None \<and>
     sr_display_name ?r = ''r1'' \<and> sr_tags ?r = PDict [(''team'', PStr ''a'')] \<and> sr_properties ?r = []" by code_simp
  ultimately show ?thesis by blast
qed

section \<open>What the operations do to the table\<close>

lemma unlocked: "\<not> is_locked (db\<lparr>db_busy := drop (locks db) (db_busy db)\<rparr>)"
proof (cases "dropWhile (\<lambda>b. b) (db_busy db)")
  case (Cons b bs)
  then have "\<not> b" using hd_dropWhile [of "\<lambda>b. b" "db_busy db"] by (metis list.distinct(1) list.sel(1))
  with Cons show ?thesis by (simp add: is_locked_def locks_def dropWhile_eq_drop)
qed (simp add: is_locked_def locks_def dropWhile_eq_drop)

lemma run_get_found:
  assumes "run_get name db = (Inr row, db')"
  shows "find (\<lambda>r. rr_name r = name) (db_rows db) = Some row \<and> rr_name row = name \<and> db_rows db' = db_rows db"
proof -
  have "find (\<lambda>r. rr_name r = name) (db_rows db) = Some row \<and> db_rows db' = db_rows db"
    using assms by (auto simp: run_get_def getting.retried session_def find_row_def split: if_splits option.splits)
  then show ?thesis by (auto simp: find_Some_iff)
qed

text \<open>C31. Archiving a run that is not archived never raises when its row was read, and archives its row, and no other, if the
  database is free. When the database is locked once, the second attempt finds its own object archived already and
  returns: no row is changed, and the run is still listed among the active ones.\<close>

theorem archive_when_locked:
  assumes "run_get name db = (Inr row, db1)" "\<not> rr_archived row" "run_archive row db1 = (r, db2)"
  shows "r = Inr () \<and> db_rows db1 = db_rows db \<and>
    (if is_locked db1 then db_rows db2 = db_rows db \<and> row \<in> set (filter (in_view ACTIVE_ONLY) (db_rows db2))
     else db_rows db2 = map (\<lambda>r. if rr_name r = name then r\<lparr>rr_archived := True\<rparr> else r) (db_rows db))"
proof -
  from run_get_found [OF assms(1)] have found: "find (\<lambda>r. rr_name r = name) (db_rows db) = Some row" "rr_name row = name" "db_rows db1 = db_rows db"
    by auto
  then have "row \<in> set (db_rows db)" by (auto simp: find_Some_iff)
  with assms(2,3) found show ?thesis
    by (auto simp: run_archive_def sqlite_retry_def numeral_3_eq_3 set_archived_def session_def update_rows_def operational in_view_def
        split: if_splits)
qed

text \<open>An update is not lost to a locked database: as long as fewer than three sessions in a row find it locked, the columns
  that were given are set in the row of the run, all its other columns and all other rows stay, and with three it raises and
  changes nothing. Tags that are no JSON data raise before the database is asked.\<close>

theorem update_when_locked:
  assumes "run_update ch row db = (r, db')"
  shows "case tags_text (ch_tags ch) of
      Inl e \<Rightarrow> r = Inl e \<and> (\<not> is_operational e \<longrightarrow> db' = db)
    | Inr tags \<Rightarrow>
        if locks db < 3
        then r = Inr () \<and> db_rows db' = map (\<lambda>q. if rr_name q = rr_name row then changed_row ch tags q else q) (db_rows db)
        else r = Inl operational_error \<and> db_rows db' = db_rows db"
proof (cases "tags_text (ch_tags ch)")
  case (Inl e)
  then show ?thesis using assms
    by (auto simp: run_update_def sqlite_retry_def numeral_3_eq_3 split: if_splits)
next
  case (Inr tags)
  then have "run_update ch row db = sqlite_retry (session (update_rows (rr_name row) (changed_row ch tags))) db" by (simp add: run_update_def)
  moreover have "\<not> is_locked (db\<lparr>db_busy := drop (locks db) (db_busy db)\<rparr>)"
    by (rule unlocked)
  ultimately show ?thesis using assms Inr by (auto simp: updating.retried session_def update_rows_def split: if_splits)
qed

text \<open>A list of runs shows only runs of the wanted view, newest first, as many as there are or as were asked for, and no run
  that it leaves out is newer than one it shows. Listing changes nothing.\<close>

theorem listed_runs:
  assumes "run_list max_results view db = (Inr rs, db')"
  shows "set rs \<subseteq> {r \<in> set (db_rows db). in_view view r} \<and> sorted_wrt (\<lambda>a b. rr_created_on b \<le> rr_created_on a) rs \<and>
    length rs = (let n = length (filter (in_view view) (db_rows db)) in case max_results of Some m \<Rightarrow> min m n | None \<Rightarrow> n) \<and>
    (\<forall>r\<in>set (db_rows db). in_view view r \<and> r \<notin> set rs \<longrightarrow> (\<forall>q\<in>set rs. rr_created_on r \<le> rr_created_on q)) \<and> db_rows db' = db_rows db"
proof -
  let ?newest = "rev (sort_key rr_created_on (filter (in_view view) (db_rows db)))"
  have rs: "rs = (case max_results of Some n \<Rightarrow> take n ?newest | None \<Rightarrow> ?newest)" "db_rows db' = db_rows db"
    using assms by (auto simp: run_list_def listing.retried session_def list_rows_def Let_def split: if_splits)
  have sorted: "sorted_wrt (\<lambda>a b. rr_created_on b \<le> rr_created_on a) ?newest"
    using sorted_sort_key [of rr_created_on "filter (in_view view) (db_rows db)"] by (simp add: sorted_wrt_rev sorted_map)
  define n where "n = (case max_results of Some n \<Rightarrow> n | None \<Rightarrow> length ?newest)"
  have take: "rs = take n ?newest" unfolding rs(1) n_def by (cases max_results) simp_all
  have "set rs \<subseteq> {r \<in> set (db_rows db). in_view view r}" unfolding take using set_take_subset [of n ?newest] by auto
  moreover have "rr_created_on r \<le> rr_created_on q" if "r \<in> set (db_rows db)" "in_view view r" "r \<notin> set rs" "q \<in> set rs" for r q
  proof -
    have "r \<in> set (take n ?newest @ drop n ?newest)" using that(1,2) by simp
    with that(3) have "r \<in> set (drop n ?newest)" unfolding take by (simp only: set_append) blast
    moreover have "sorted_wrt (\<lambda>a b. rr_created_on b \<le> rr_created_on a) (take n ?newest @ drop n ?newest)" using sorted by simp
    ultimately show ?thesis using that(4) unfolding take sorted_wrt_append by blast
  qed
  moreover have "sorted_wrt (\<lambda>a b. rr_created_on b \<le> rr_created_on a) rs" unfolding take using sorted by (rule sorted_wrt_take)
  moreover have "length rs = (let n = length (filter (in_view view) (db_rows db)) in case max_results of Some m \<Rightarrow> min m n | None \<Rightarrow> n)"
    unfolding take by (simp add: n_def Let_def min.commute split: option.splits)
  ultimately show ?thesis using rs(2) by blast
qed

definition demo_run_row :: "string \<Rightarrow> string \<Rightarrow> run_row" where
  "demo_run_row name created = \<lparr>rr_name = name, rr_created_on = created, rr_status = ''Completed'', rr_display_name = Some name,
     rr_description = None, rr_tags = None, rr_properties = ''{}'', rr_archived = False, rr_start_time = None, rr_end_time = None,
     rr_data = None\<rparr>"

definition demo_db :: "bool list \<Rightarrow> run_db" where
  "demo_db ls = \<lparr>db_busy = ls, db_rows = [demo_run_row ''a'' ''2023-09-02'', demo_run_row ''b'' ''2023-09-03'', demo_run_row ''c'' ''2023-09-01'']\<rparr>"

theorem archive_when_locked_witness:
  "\<exists>db2. run_archive (demo_run_row ''b'' ''2023-09-03'') (demo_db [True]) = (Inr (), db2) \<and> db_rows db2 = db_rows (demo_db [])"
proof -
  obtain r db2 where run: "run_archive (demo_run_row ''b'' ''2023-09-03'') (demo_db [True]) = (r, db2)" by force
  have got: "run_get ''b'' (demo_db [False, True]) = (Inr (demo_run_row ''b'' ''2023-09-03''), demo_db [True])" by code_simp
  have "\<not> rr_archived (demo_run_row ''b'' ''2023-09-03'')" "is_locked (demo_db [True])" "db_rows (demo_db [False, True]) = db_rows (demo_db [])"
    by (simp_all add: demo_run_row_def is_locked_def demo_db_def)
  with archive_when_locked [OF got _ run] run show ?thesis by auto
qed

theorem update_when_locked_witness:
  "let (r, db') = run_update (no_changes\<lparr>ch_status := Some ''Failed''\<rparr>) (demo_run_row ''c'' ''2023-09-01'') (demo_db [True, True])
   in r = Inr () \<and> rr_status (db_rows db' ! 2) = ''Failed'' \<and> db_rows db' ! 0 = demo_run_row ''a'' ''2023-09-02''"
proof -
  obtain r db' where run: "run_update (no_changes\<lparr>ch_status := Some ''Failed''\<rparr>) (demo_run_row ''c'' ''2023-09-01'') (demo_db [True, True]) = (r, db')"
    by force
  have "tags_text (ch_tags (no_changes\<lparr>ch_status := Some ''Failed''\<rparr>)) = Inr None" "locks (demo_db [True, True]) = 2"
    by (simp_all add: tags_text_def no_changes_def locks_def demo_db_def)
  with update_when_locked [OF run] have eff: "r = Inr ()" "db_rows db' = map (\<lambda>q. if rr_name q = ''c''
      then changed_row (no_changes\<lparr>ch_status := Some ''Failed''\<rparr>) None q else q) (db_rows (demo_db [True, True]))"
    by (simp_all add: demo_run_row_def)
  then have "rr_status (db_rows db' ! 2) = ''Failed''" "db_rows db' ! 0 = demo_run_row ''a'' ''2023-09-02''"
    by (simp_all add: demo_db_def demo_run_row_def changed_row_def no_changes_def given_or_def)
  with eff show ?thesis unfolding run Let_def prod.case by blast
qed

theorem listed_runs_witness:
  "\<exists>rs. fst (run_list (Some 2) ACTIVE_ONLY (demo_db [True])) = Inr rs \<and> length rs = 2 \<and> (\<forall>q\<in>set rs. ''2023-09-01'' \<le> rr_created_on q)"
proof -
  have "fst (run_list (Some 2) ACTIVE_ONLY (demo_db [True])) = Inr [demo_run_row ''b'' ''2023-09-03'', demo_run_row ''a'' ''2023-09-02'']" by code_simp
  then obtain rs db' where run: "run_list (Some 2) ACTIVE_ONLY (demo_db [True]) = (Inr rs, db')" and
    rs: "rs = [demo_run_row ''b'' ''2023-09-03'', demo_run_row ''a'' ''2023-09-02'']" by (cases "run_list (Some 2) ACTIVE_ONLY (demo_db [True])") auto
  have c: "demo_run_row ''c'' ''2023-09-01'' \<in> set (db_rows (demo_db [True]))" "in_view ACTIVE_ONLY (demo_run_row ''c'' ''2023-09-01'')"
    "rr_created_on (demo_run_row ''c'' ''2023-09-01'') = ''2023-09-01''" "demo_run_row ''c'' ''2023-09-01'' \<notin> set rs"
    by (simp_all add: demo_db_def demo_run_row_def in_view_def rs)
  have "\<forall>r\<in>set (db_rows (demo_db [True])). in_view ACTIVE_ONLY r \<and> r \<notin> set rs \<longrightarrow> (\<forall>q\<in>set rs. rr_created_on r \<le> rr_created_on q)"
    using listed_runs [OF run] by (elim conjE)
  from bspec [OF this c(1)] c(2-4) have "\<forall>q\<in>set rs. ''2023-09-01'' \<le> rr_created_on q" by (simp only: simp_thms)
  with run rs show ?thesis by auto
qed

end
