(* ===== verification/RunSubmission.thy ===== *)
theory RunSubmission imports SdkRuns ConnectionStore BulkRuns begin

text \<open>
  Submitting a run of the SDK to the engine (\<^verbatim>\<open>_sdk/operations/_run_submitter.py\<close>): the variant and the connections written
  into the dictionary of the flow, the data of the run, and the life of its row in the table. What is dumped into files
  (\<^verbatim>\<open>_sdk/operations/_local_storage_operations.py\<close>) is kept for the error of the run only; that the other files can be
  written, and what reading files gives, are parameters.
\<close>

section \<open>The variant of a run\<close>

text \<open>
  The regular expression of \<open>parse_variant\<close> without its opening: a longest part without a dot, any character but a line
  break (its dot is not escaped), a part without a closing brace, and that brace. \<open>variant_split s k\<close> tries the prefixes of at most
  \<open>k\<close> characters, longest first, as the matcher does.
\<close>

fun variant_split :: "string \<Rightarrow> nat \<Rightarrow> (string \<times> string) option" where
  "variant_split s 0 = None"
| "variant_split s (Suc k) =
    (case drop (Suc k) s of
       [] \<Rightarrow> variant_split s k
     | c # r \<Rightarrow>
        if c \<noteq> CHR 0x0A \<and> takeWhile (\<lambda>x. x \<noteq> CHR 0x7D) r \<noteq> [] \<and> dropWhile (\<lambda>x. x \<noteq> CHR 0x7D) r \<noteq> []
        then Some (take (Suc k) s, takeWhile (\<lambda>x. x \<noteq> CHR 0x7D) r)
        else variant_split s k)"

definition parse_variant :: "string \<Rightarrow> (string \<times> string) res" where
  "parse_variant v =
    (case (if startswith v [CHR 0x24, CHR 0x7B] then variant_split (drop 2 v) (length (takeWhile (\<lambda>x. x \<noteq> CHR ''.'') (drop 2 v))) else None) of
       Some p \<Rightarrow> Inr p
     | None \<Rightarrow> Inl (py_exn ValueError [PStr (''Invalid variant format: '' @ v @ '', variant should be in format of '' @
         [CHR 0x24, CHR 0x7B] @ ''TUNING_NODE.VARIANT'' @ [CHR 0x7D])]))"

section \<open>The dictionary of a flow\<close>

definition invalid_flow :: "msg \<Rightarrow> 'a res" where
  "invalid_flow m = Inl (sdk_error ''InvalidFlowError'' m)"

text \<open>\<open>v[k]\<close> with a text \<open>k\<close>, and \<open>k in v\<close>\<close>

definition subscript :: "pyval \<Rightarrow> string \<Rightarrow> pyval res" where
  "subscript v k = (case v of PDict d \<Rightarrow> get_item d k | _ \<Rightarrow> Inl (py_exn TypeError [PStr ''indices must be integers'']))"

definition has_entry :: "pyval \<Rightarrow> string \<Rightarrow> bool res" where
  "has_entry v k =
    (case v of
       PDict d \<Rightarrow> Inr (dict_has k d)
     | PList vs \<Rightarrow> Inr (PStr k \<in> set vs)
     | PTuple vs \<Rightarrow> Inr (PStr k \<in> set vs)
     | PStr s \<Rightarrow> Inr (sublist k s)
     | _ \<Rightarrow> Inl (py_exn TypeError [PStr ''argument is not iterable'']))"

definition dict_nodes :: "pyval \<Rightarrow> (string, pyval) dict list res" where
  "dict_nodes v = bindr (expect_list v) (mapr expect_dict)"

definition name_text :: "pyval \<Rightarrow> string res" where
  "name_text v = (case as_str v of Some s \<Rightarrow> Inr s | None \<Rightarrow> Inl outside_model)"

definition node_names :: "(string, pyval) dict \<Rightarrow> string list res" where
  "node_names dag =
    bindr (get_item dag ''nodes'') (\<lambda>v. bindr (dict_nodes v) (mapr (\<lambda>n. bindr (get_item n ''name'') name_text)))"

definition is_key_error :: "exn \<Rightarrow> bool" where
  "is_key_error e = isinstance e (Py KeyError)"

text \<open>The variant of one node: the one that was asked for when it is the tuning node, else the default one.\<close>

definition variant_of :: "pyval \<Rightarrow> string \<Rightarrow> string option \<Rightarrow> string option \<Rightarrow> string res" where
  "variant_of cfg name tuning_node variant =
    (let wanted = (if tuning_node = Some name then non_empty variant else None) in
     case wanted of
       Some v \<Rightarrow> Inr v
     | None \<Rightarrow> bindr (has_entry cfg ''default_variant_id'') (\<lambda>b.
         if \<not> b then invalid_flow [PStr (''Default variant id is not specified for '' @ name @ ''.'')]
         else bindr (subscript cfg ''default_variant_id'') name_text))"

definition overwrite_node ::
  "pyval \<Rightarrow> string option \<Rightarrow> string option \<Rightarrow> (string, pyval) dict \<Rightarrow> (string, pyval) dict res" where
  "overwrite_node node_variants tuning_node variant n =
    (if \<not> truthy (dict_get n ''use_variants'' (PBool False)) then Inr n
     else bindr (bindr (get_item n ''name'') name_text) (\<lambda>name.
       bindr (has_entry node_variants name) (\<lambda>b.
       if \<not> b then invalid_flow [PStr (''No variant for the node '' @ name @ ''.'')]
       else bindr (subscript node_variants name) (\<lambda>cfg.
       bindr (variant_of cfg name tuning_node variant) (\<lambda>v.
       bindr (bindr (expect_dict cfg) (\<lambda>d. has_entry (dict_get d ''variants'' (PDict [])) v)) (\<lambda>b.
       if \<not> b then invalid_flow [PStr (''Cannot find the variant '' @ v @ '' for '' @ name @ ''.'')]
       else bindr (subscript cfg ''variants'') (\<lambda>vs.
       bindr (subscript vs v) (\<lambda>c.
       bindr (subscript c ''node'') (\<lambda>body.
       bindr (expect_dict body) (\<lambda>d. Inr (dict_updates [(''name'', PStr name)] d)))))))))))"

definition check_tuning :: "(string, pyval) dict \<Rightarrow> string option \<Rightarrow> string option \<Rightarrow> unit res" where
  "check_tuning dag tuning_node variant =
    bindr (node_names dag) (\<lambda>names.
      case non_empty tuning_node of
        None \<Rightarrow> Inr ()
      | Some t \<Rightarrow>
         if t \<notin> set names then invalid_flow [PStr (''Node '' @ t @ '' not found in flow'')]
         else (case non_empty variant of
             None \<Rightarrow> Inr ()
           | Some v \<Rightarrow>
              (case bindr (get_item dag ''node_variants'') (\<lambda>nv. bindr (subscript nv t) (\<lambda>cfg.
                 bindr (subscript cfg ''variants'') (\<lambda>vs. subscript vs v))) of
                 Inr _ \<Rightarrow> Inr ()
               | Inl e \<Rightarrow> if is_key_error e
                   then Inl (raise_from (sdk_error ''InvalidFlowError'' [PStr (''Variant '' @ v @ '' not found for node '' @ t)]) e)
                   else Inl e)))"

definition overwrite_variant ::
  "string option \<Rightarrow> string option \<Rightarrow> (string, pyval) dict \<Rightarrow> (string, pyval) dict res" where
  "overwrite_variant tuning_node variant dag =
    bindr (check_tuning dag tuning_node variant) (\<lambda>_.
      case bindr (dict_nodes (dict_get dag ''nodes'' (PList [])))
        (mapr (overwrite_node (dict_get dag ''node_variants'' (PDict [])) tuning_node variant)) of
        Inr ns \<Rightarrow> Inr (AList.update ''nodes'' (PList (map PDict ns)) dag)
      | Inl e \<Rightarrow> if is_key_error e
          then Inl (raise_from (py_exn KeyError [PStr ''Failed to overwrite tuning node with variant'']) e) else Inl e)"

text \<open>The dictionary of a name is that of its last node.\<close>

definition update_last :: "('a \<Rightarrow> bool) \<Rightarrow> ('a \<Rightarrow> 'a) \<Rightarrow> 'a list \<Rightarrow> 'a list" where
  "update_last p g xs = rev (update_first p g (rev xs))"

definition set_input :: "string \<Rightarrow> pyval \<Rightarrow> (string, pyval) dict \<Rightarrow> (string, pyval) dict res" where
  "set_input k v n = bindr (get_item n ''inputs'') (\<lambda>ins. case ins of
     PDict d \<Rightarrow> Inr (AList.update ''inputs'' (PDict (AList.update k v d)) n)
   | _ \<Rightarrow> Inl (py_exn TypeError [PStr ''object does not support item assignment'']))"

definition supported_connection_fields :: "string list" where
  "supported_connection_fields = [''connection'', ''deployment_name'']"

text \<open>The connections of an LLM node: its connection and its deployment.\<close>

definition overwrite_llm_node :: "string \<Rightarrow> (string, pyval) dict \<Rightarrow> (string, pyval) dict \<Rightarrow> (string, pyval) dict res" where
  "overwrite_llm_node name conn n =
    (let unsupported = filter (\<lambda>k. k \<notin> set supported_connection_fields) (dict_keys conn) in
     if unsupported \<noteq> [] then invalid_flow [PStr ''Unsupported llm connection overwrite keys: '', PList (map PStr unsupported),
       PStr '', only '', PList (map PStr supported_connection_fields), PStr '' are supported.'']
     else (let c = dict_get conn ''connection'' PNone; dn = dict_get conn ''deployment_name'' PNone;
               n1 = (if truthy c then AList.update ''connection'' c n else n) in
       if \<not> truthy dn then Inr n1
       else (case set_input ''deployment_name'' dn n1 of
           Inr n2 \<Rightarrow> Inr n2
         | Inl e \<Rightarrow> if is_key_error e
             then Inl (raise_from (py_exn KeyError [PStr (''Failed to overwrite llm node '' @ name @ '' with connections'')]) e) else Inl e)))"

definition overwrite_tool_node ::
  "string list \<Rightarrow> string \<Rightarrow> (string, pyval) dict \<Rightarrow> (string, pyval) dict \<Rightarrow> (string, pyval) dict res" where
  "overwrite_tool_node connection_inputs name conn n =
     foldr_res (\<lambda>(c, v) n.
       if c \<notin> set connection_inputs
       then invalid_flow [PStr (''Connection with name '' @ c @ '' not found in node '' @ name @ [CHR 0x27] @ ''s inputs'')]
       else set_input c v n) conn n"

definition overwrite_node_connections ::
  "flow \<Rightarrow> string \<times> pyval \<Rightarrow> (string, pyval) dict list \<Rightarrow> (string, pyval) dict list res" where
  "overwrite_node_connections f nc ns =
    (let (name, c) = nc; is_it = (\<lambda>n. map_of n ''name'' = Some (PStr name)) in
     case find is_it (rev ns) of
       None \<Rightarrow> invalid_flow [PStr (''Node '' @ name @ '' not found in flow'')]
     | Some n \<Rightarrow> (case c of
         PDict conn \<Rightarrow>
           bindr (case get_node f name of
               None \<Rightarrow> Inl (py_exn AttributeError [PStr ''type''])
             | Some m \<Rightarrow>
                if is_llm_node m then overwrite_llm_node name conn n
                else bindr (get_connection_input_names_for_node f name) (\<lambda>ins. overwrite_tool_node ins name conn n))
             (\<lambda>n'. Inr (update_last is_it (\<lambda>_. n') ns))
       | _ \<Rightarrow> invalid_flow [PStr ''Invalid connection overwrite format: '', c, PStr '', only dict is supported.'']))"

text \<open>\<open>executable\<close> is what the engine reads from the dictionary of the flow.\<close>

definition overwrite_connections ::
  "((string, pyval) dict \<Rightarrow> flow res) \<Rightarrow> (string, pyval) dict \<Rightarrow> (string, pyval) dict \<Rightarrow> (string, pyval) dict res" where
  "overwrite_connections executable connections dag =
    (if connections = [] then Inr dag
     else bindr (executable dag) (\<lambda>f.
       bindr (node_names dag) (\<lambda>_.
       bindr (bindr (get_item dag ''nodes'') dict_nodes) (\<lambda>ns.
       bindr (foldr_res (overwrite_node_connections f) connections ns) (\<lambda>ns'.
         Inr (AList.update ''nodes'' (PList (map PDict ns')) dag))))))"

text \<open>The dictionary of the flow that is run; one with additional includes is copied together with them.\<close>

definition variant_overwrite_context ::
  "((string, pyval) dict \<Rightarrow> flow res) \<Rightarrow> string option \<Rightarrow> string option \<Rightarrow> (string, pyval) dict \<Rightarrow> (string, pyval) dict \<Rightarrow>
     (string, pyval) dict res" where
  "variant_overwrite_context executable tuning_node variant connections dag =
    bindr (overwrite_variant tuning_node variant dag) (\<lambda>d1.
    bindr (overwrite_connections executable connections d1) (\<lambda>d2.
      Inr (if truthy (dict_get dag ''additional_includes'' (PList [])) then AList.delete ''additional_includes'' d2 else d2)))"

section \<open>The data of a run\<close>

definition validate_column_mapping :: "pyval \<Rightarrow> unit res" where
  "validate_column_mapping m =
    (if \<not> truthy m then Inr ()
     else case m of
       PDict d \<Rightarrow>
         if list_ex (\<lambda>v. case as_str v of Some s \<Rightarrow> startswith s ''$'' | None \<Rightarrow> False) (dict_values d) then Inr ()
         else Inl (pf_exn (Pf UserErrorException) [PStr ''Column mapping must contain at least one mapping binding, '',
           PStr ''current column mapping contains all static values: '', m] UNKNOWN)
     | _ \<Rightarrow> Inl (pf_exn (Pf UserErrorException) [PStr ''Column mapping must be a dict, got '',
         PStr (''<class '' @ [CHR 0x27] @ pytype_name (type_of m) @ [CHR 0x27] @ ''>.'')] UNKNOWN))"

text \<open>What files give: the data of a run, and the columns of outputs and inputs of the run it refers to.\<close>

definition resolve_data ::
  "(string \<Rightarrow> row list res) \<Rightarrow> (string, pyval list) dict res \<Rightarrow> (string, pyval list) dict res \<Rightarrow> sdk_run \<Rightarrow> (string, row list) dict res" where
  "resolve_data load_data outputs inputs r =
    bindr (case non_empty (sr_data r) of None \<Rightarrow> Inr [] | Some path \<Rightarrow> bindr (load_data path) (\<lambda>rows. Inr [(''data'', rows)])) (\<lambda>d.
    case sr_run r of
      None \<Rightarrow> Inr d
    | Some _ \<Rightarrow> bindr (bindr outputs reverse_transpose) (\<lambda>outs. bindr (bindr inputs reverse_transpose) (\<lambda>ins.
        Inr (d @ [(''run.outputs'', outs), (''run.inputs'', ins)]))))"

definition mapping_dict :: "pyval \<Rightarrow> (string, pyval) dict option" where
  "mapping_dict m = (case m of PDict d \<Rightarrow> Some d | _ \<Rightarrow> None)"

section \<open>The error of a run\<close>

definition line_errors :: "bulk_result option \<Rightarrow> pyval list" where
  "line_errors result = (case result of
     None \<Rightarrow> []
   | Some b \<Rightarrow> map (\<lambda>r. PDict [(''line number'', index_value (fr_index (lr_run_info r))), (''error'', fr_error (lr_run_info r))])
       (filter (\<lambda>r. fr_error (lr_run_info r) \<noteq> PNone) (br_line_results b)))"

text \<open>The message of the first error, when it has one.\<close>

definition first_message :: "string \<Rightarrow> pyval list \<Rightarrow> pyval" where
  "first_message outputs_path errors =
    (case (case errors of [] \<Rightarrow> Inl outside_model | e # _ \<Rightarrow> bindr (subscript e ''error'') (\<lambda>d. subscript d ''message'')) of
       Inr m \<Rightarrow> m
     | Inl _ \<Rightarrow> PStr (''Failed to extract error message from line runs. Please check '' @ outputs_path @ '' for more info.''))"

definition bulk_run_exception :: "pyval \<Rightarrow> exn option \<Rightarrow> nat \<Rightarrow> nat \<Rightarrow> exn" where
  "bulk_run_exception m inner failed all =
     pf_exception (UserClass ''BulkRunException'' (Pf PromptflowException))
       [PStr (''Failed to run '' @ nat_str failed @ ''/'' @ nat_str all @ '' lines: First error message is: ''), m] [] RUNTIME None [] inner"

text \<open>
  What \<open>dump_exception\<close> writes, if anything. A result that is missing has no line results: reading them raises, the error is
  swallowed, and without an error of a line nothing is written, not even for an exception.
\<close>

definition dump_exception :: "pyenv \<Rightarrow> string \<Rightarrow> exn option \<Rightarrow> bulk_result option \<Rightarrow> pyval option res" where
  "dump_exception env outputs_path e result =
    (let errors = line_errors result; all = (case result of None \<Rightarrow> 0 | Some b \<Rightarrow> length (br_line_results b)) in
     if errors = [] then Inr None
     else bindr (case e of None \<Rightarrow> Inr (first_message outputs_path errors) | Some x \<Rightarrow> bindr (message env x) (\<lambda>s. Inr (PStr s))) (\<lambda>m.
       bindr (promptflow_dict env True (Inr (Some [(''BulkRunLineErrors'', PDict [(''errors'', PList errors)])]))
         (bulk_run_exception m e (length errors) all)) (\<lambda>v. Inr (Some v))))"

section \<open>Submitting\<close>

text \<open>
  What the submission takes from outside: paths and the clock, the engine (making an executor from the flow, and
  \<open>exec_bulk\<close> of a run id), reading data, and whether the files of the run can be written.
\<close>

record submitter =
  sb_env :: pyenv
  sb_paths :: run_paths
  sb_executable :: "(string, pyval) dict \<Rightarrow> flow res"
  sb_create :: "(string, pyval) dict \<Rightarrow> executor res"
  sb_exec_bulk :: "executor \<Rightarrow> row list \<Rightarrow> string \<Rightarrow> bulk_result res"
  sb_load_data :: "string \<Rightarrow> row list res"
  sb_outputs :: "string \<Rightarrow> (string, pyval list) dict res"
  sb_inputs :: "string \<Rightarrow> (string, pyval list) dict res"
  sb_dump_snapshot :: "unit res"
  sb_dump_inputs :: "row list \<Rightarrow> unit res"
  sb_persist_result :: "bulk_result \<Rightarrow> unit res"
  sb_end_time :: string

text \<open>The checks before the flow is written: the variant, and the run that is referred to.\<close>

definition check_referenced :: "submitter \<Rightarrow> sdk_run \<Rightarrow> run_db \<Rightarrow> (string, pyval list) dict res \<times> run_db" where
  "check_referenced sb r db =
    (case sr_run r of
       None \<Rightarrow> (Inr [], db)
     | Some name \<Rightarrow> (case get_run (sb_paths sb) name db of
         (Inl e, db1) \<Rightarrow> (Inl e, db1)
       | (Inr q, db1) \<Rightarrow>
          if sr_status q \<noteq> ''Completed''
          then (Inl (py_exn ValueError [PStr (''Referenced run '' @ name @ '' is not completed, got status '' @ sr_status q)]), db1)
          else (sb_outputs sb name, db1)))"

definition tuning_of :: "sdk_run \<Rightarrow> (string option \<times> string option) res" where
  "tuning_of r = (case non_empty (sr_variant r) of
     None \<Rightarrow> Inr (None, None)
   | Some v \<Rightarrow> bindr (parse_variant v) (\<lambda>(n, x). Inr (Some n, Some x)))"

text \<open>Everything that happens before the row of the run is made.\<close>

definition prepare_bulk :: "submitter \<Rightarrow> (string, pyval) dict \<Rightarrow> sdk_run \<Rightarrow> run_db \<Rightarrow> (executor \<times> row list) res \<times> run_db" where
  "prepare_bulk sb dag r db =
    (case tuning_of r of
       Inl e \<Rightarrow> (Inl e, db)
     | Inr (node, variant) \<Rightarrow> (case check_referenced sb r db of
         (Inl e, db1) \<Rightarrow> (Inl e, db1)
       | (Inr _, db1) \<Rightarrow>
          (if sr_run r = None \<and> non_empty (sr_data r) = None
           then Inl (py_exn ValueError [PStr ''Either run or data must be specified for flow run.''])
           else bindr (variant_overwrite_context (sb_executable sb) node variant (sr_connections r) dag) (\<lambda>d.
             bindr (sb_create sb d) (\<lambda>x.
             bindr (resolve_data (sb_load_data sb) (sb_outputs sb (given_or (sr_run r) [])) (sb_inputs sb (given_or (sr_run r) [])) r) (\<lambda>data.
             bindr (validate_column_mapping (sr_column_mapping r)) (\<lambda>_.
             bindr (validate_and_apply_inputs_mapping (fx_flow x) data (mapping_dict (sr_column_mapping r))) (\<lambda>rows. Inr (x, rows)))))),
           db1)))"

text \<open>
  The \<open>finally\<close> block: the files of the run, then its row. The first step that raises ends it, and its exception hides that
  of the engine. What is dumped as the error of the run is kept.
\<close>

definition dump_files :: "submitter \<Rightarrow> sdk_run \<Rightarrow> row list \<Rightarrow> bulk_result res \<Rightarrow> pyval option res" where
  "dump_files sb r rows result =
    (let e = (case result of Inl x \<Rightarrow> Some x | Inr _ \<Rightarrow> None); b = (case result of Inl _ \<Rightarrow> None | Inr x \<Rightarrow> Some x) in
     bindr (sb_dump_snapshot sb) (\<lambda>_. bindr (sb_dump_inputs sb rows) (\<lambda>_.
     bindr (case b of None \<Rightarrow> Inr () | Some x \<Rightarrow> sb_persist_result sb x) (\<lambda>_.
       dump_exception (sb_env sb) (pt_output (sb_paths sb) (sr_name r) @ ''/flow_outputs/output.jsonl'') e b))))"

definition final_changes :: "submitter \<Rightarrow> bulk_result res \<Rightarrow> run_changes" where
  "final_changes sb result =
     no_changes\<lparr>ch_status := Some (case result of Inl _ \<Rightarrow> ''Failed'' | Inr _ \<Rightarrow> ''Completed''), ch_end_time := Some (sb_end_time sb)\<rparr>"

definition finish_bulk ::
  "submitter \<Rightarrow> sdk_run \<Rightarrow> row list \<Rightarrow> bulk_result res \<Rightarrow> run_db \<Rightarrow> unit res \<times> pyval option \<times> run_db" where
  "finish_bulk sb r rows result db =
    (case dump_files sb r rows result of
       Inl x \<Rightarrow> (Inl x, None, db)
     | Inr stored \<Rightarrow>
        (case update_run (sb_paths sb) (sr_name r) (final_changes sb result) db of
           (Inl x, db') \<Rightarrow> (Inl x, stored, db')
         | (Inr _, db') \<Rightarrow> (Inr (), stored, db')))"

text \<open>A user error of the engine is not raised again.\<close>

definition run_bulk :: "submitter \<Rightarrow> (string, pyval) dict \<Rightarrow> sdk_run \<Rightarrow> run_db \<Rightarrow> unit res \<times> pyval option \<times> run_db" where
  "run_bulk sb dag r db =
    (case prepare_bulk sb dag r db of
       (Inl e, db1) \<Rightarrow> (Inl e, None, db1)
     | (Inr (x, rows), db1) \<Rightarrow>
        (case run_to_orm (sb_paths sb) r of
           Inl e \<Rightarrow> (Inl e, None, db1)
         | Inr row \<Rightarrow> (case run_dump row db1 of
             (Inl e, db2) \<Rightarrow> (Inl e, None, db2)
           | (Inr _, db2) \<Rightarrow>
              (let result = sb_exec_bulk sb x rows (sr_name r) in
               case finish_bulk sb r rows result db2 of
                 (Inl e, stored, db3) \<Rightarrow> (Inl e, stored, db3)
               | (Inr _, stored, db3) \<Rightarrow>
                  ((case result of
                      Inl e \<Rightarrow> if isinstance e (Pf UserErrorException) then Inr () else Inl e
                    | Inr _ \<Rightarrow> Inr ()), stored, db3)))))"

definition submit_run :: "submitter \<Rightarrow> (string, pyval) dict \<Rightarrow> sdk_run \<Rightarrow> run_db \<Rightarrow> sdk_run res \<times> pyval option \<times> run_db" where
  "submit_run sb dag r db =
    (case run_bulk sb dag r db of
       (Inl e, stored, db1) \<Rightarrow> (Inl e, stored, db1)
     | (Inr _, stored, db1) \<Rightarrow> (case get_run (sb_paths sb) (sr_name r) db1 of (q, db2) \<Rightarrow> (q, stored, db2)))"

text \<open>
  \<open>RunOperations.create_or_update\<close>: an existing name is reported as such wherever it is found.
\<close>

definition create_run :: "submitter \<Rightarrow> (string, pyval) dict \<Rightarrow> sdk_run \<Rightarrow> run_db \<Rightarrow> sdk_run res \<times> pyval option \<times> run_db" where
  "create_run sb dag r db =
    (case submit_run sb dag r db of
       (Inl e, stored, db1) \<Rightarrow>
         (Inl (if ex_class (ex e) = UserClass ''RunExistsError'' (Pf PromptflowException)
            then raise_from (sdk_error ''RunExistsError'' [PStr (''Run '' @ repr_str (sr_name r) @ '' already exists.'')]) e else e), stored, db1)
     | ok \<Rightarrow> ok)"

section \<open>Reading a variant\<close>

lemma variant_split_skip:
  assumes "\<And>j. k < j \<Longrightarrow> j \<le> n \<Longrightarrow> drop j s = [] \<or> takeWhile (\<lambda>x. x \<noteq> CHR 0x7D) (tl (drop j s)) = []"
  shows "k \<le> n \<Longrightarrow> variant_split s n = variant_split s k"
  using assms
proof (induction n)
  case (Suc n)
  show ?case
  proof (cases "k = Suc n")
    case False
    with Suc.prems have "variant_split s n = variant_split s k" by (intro Suc.IH) auto
    moreover have "variant_split s (Suc n) = variant_split s n"
      using Suc.prems(2) [of "Suc n"] False Suc.prems(1) by (auto split: list.splits)
    ultimately show ?thesis by simp
  qed simp
qed simp

lemma variant_split_at:
  assumes "n \<noteq> 0" "drop n s = c # r" "c \<noteq> CHR 0x0A" "takeWhile (\<lambda>x. x \<noteq> CHR 0x7D) r \<noteq> []" "dropWhile (\<lambda>x. x \<noteq> CHR 0x7D) r \<noteq> []"
  shows "variant_split s n = Some (take n s, takeWhile (\<lambda>x. x \<noteq> CHR 0x7D) r)"
  using assms by (cases n) simp_all

text \<open>A variant is read as its node and its name when the node has no dot and the name no closing brace, whatever follows. A text
  without a dot is not refused: it is read as if its last but one character were the dot.\<close>

theorem parse_variant_reads:
  assumes "node \<noteq> []" "CHR ''.'' \<notin> set node" "v \<noteq> []" "CHR 0x7D \<notin> set v"
    and "s \<noteq> []" "CHR ''.'' \<notin> set (s @ [c, d])" "CHR 0x7D \<notin> set (s @ [c, d])" "c \<noteq> CHR 0x0A"
  shows "parse_variant (''${'' @ node @ ''.'' @ v @ ''}'' @ rest) = Inr (node, v) \<and> parse_variant (''${'' @ s @ [c, d] @ ''}'') = Inr (s, [d])"
proof
  let ?t = "node @ CHR ''.'' # v @ CHR 0x7D # rest"
  have len: "takeWhile (\<lambda>x. x \<noteq> CHR ''.'') ?t = node" using assms(2) by (induction node) auto
  have var: "takeWhile (\<lambda>x. x \<noteq> CHR 0x7D) (v @ CHR 0x7D # rest) = v" "dropWhile (\<lambda>x. x \<noteq> CHR 0x7D) (v @ CHR 0x7D # rest) = CHR 0x7D # rest"
    using assms(4) by (induction v) auto
  have "variant_split ?t (length node) = Some (node, v)"
    using variant_split_at [of "length node" ?t "CHR ''.''" "v @ CHR 0x7D # rest"] assms(1,3) var by simp
  then show "parse_variant (''${'' @ node @ ''.'' @ v @ ''}'' @ rest) = Inr (node, v)"
    by (simp add: parse_variant_def len)
next
  let ?t = "s @ [c, d, CHR 0x7D]"
  have all: "takeWhile (\<lambda>x. x \<noteq> CHR ''.'') ?t = ?t" using assms(6) by (auto simp: takeWhile_eq_all_conv)
  have "drop j ?t = [] \<or> takeWhile (\<lambda>x. x \<noteq> CHR 0x7D) (tl (drop j ?t)) = []" if "length s < j" "j \<le> length s + 3" for j
  proof -
    from that consider "j = length s + 1" | "j = length s + 2" | "j = length s + 3" by linarith
    then show ?thesis by cases simp_all
  qed
  from variant_split_skip [of "length s" "length ?t", OF this] have skip: "variant_split ?t (length ?t) = variant_split ?t (length s)" by simp
  have "d \<noteq> CHR 0x7D" using assms(7) by auto
  then have at: "variant_split ?t (length s) = Some (s, [d])" using variant_split_at [of "length s" ?t c "[d, CHR 0x7D]"] assms(5,8) by simp
  have v: "drop 2 (''${'' @ s @ [c, d] @ ''}'') = ?t" "startswith (''${'' @ s @ [c, d] @ ''}'') [CHR 0x24, CHR 0x7B]" by simp_all
  show "parse_variant (''${'' @ s @ [c, d] @ ''}'') = Inr (s, [d])"
    unfolding parse_variant_def v(1) all skip at by simp
qed

theorem parse_variant_reads_witness:
  "parse_variant ''${summarize.variant_1}'' = Inr (''summarize'', ''variant_1'') \<and> parse_variant ''${node}'' = Inr (''no'', ''e'')"
  using parse_variant_reads [of "''summarize''" "''variant_1''" "''no''" "CHR ''d''" "CHR ''e''" "[]"] by simp

section \<open>What the variants leave\<close>

text \<open>What became of a node: the same, or its name with the body of the variant chosen for it.\<close>

definition variant_applied ::
  "pyval \<Rightarrow> string option \<Rightarrow> string option \<Rightarrow> (string, pyval) dict \<Rightarrow> (string, pyval) dict \<Rightarrow> bool" where
  "variant_applied node_variants tuning_node variant n n' \<longleftrightarrow>
    (if \<not> truthy (dict_get n ''use_variants'' (PBool False)) then n' = n
     else \<exists>name cfg vs c body chosen. Option.bind (map_of n ''name'') as_str = Some name \<and>
       subscript node_variants name = Inr (PDict cfg) \<and> map_of cfg ''variants'' = Some vs \<and> subscript vs chosen = Inr c \<and>
       subscript c ''node'' = Inr (PDict body) \<and> n' = dict_updates [(''name'', PStr name)] body \<and>
       (if tuning_node = Some name \<and> non_empty variant \<noteq> None then variant = Some chosen
        else Option.bind (map_of cfg ''default_variant_id'') as_str = Some chosen))"

lemma non_empty_Some: "non_empty x = Some s \<longleftrightarrow> x = Some s \<and> s \<noteq> []"
  by (auto simp: non_empty_def split: option.splits if_splits)

lemma name_text_Inr: "name_text v = Inr s \<longleftrightarrow> as_str v = Some s"
  by (simp add: name_text_def split: option.splits)

lemma get_item_Inr: "get_item d k = Inr v \<longleftrightarrow> map_of d k = Some v"
  by (simp add: get_item_def split: option.splits)

lemma expect_dict_Inr: "expect_dict v = Inr d \<longleftrightarrow> v = PDict d"
  by (cases v) (auto simp: expect_dict_def)

lemma overwrite_node_applied:
  assumes "overwrite_node nv tn v n = Inr n'"
  shows "variant_applied nv tn v n n'"
proof (cases "truthy (dict_get n ''use_variants'' (PBool False))")
  case True
  with assms obtain name cfg b chosen vs c body where
    name: "Option.bind (map_of n ''name'') as_str = Some name" and cfg: "subscript nv name = Inr (PDict cfg)" and
    chosen: "variant_of (PDict cfg) name tn v = Inr chosen" and
    rest: "map_of cfg ''variants'' = Some vs" "subscript vs chosen = Inr c" "subscript c ''node'' = Inr (PDict body)"
      "n' = dict_updates [(''name'', PStr name)] body"
    by (auto simp: overwrite_node_def invalid_flow_def res_simps get_item_Inr name_text_Inr expect_dict_Inr subscript_def [of "PDict _"] split: if_splits)
  have "if tn = Some name \<and> non_empty v \<noteq> None then v = Some chosen else Option.bind (map_of cfg ''default_variant_id'') as_str = Some chosen"
    using chosen by (auto simp: variant_of_def Let_def invalid_flow_def non_empty_def subscript_def res_simps get_item_Inr name_text_Inr
        split: if_splits option.splits)
  with name cfg rest have "\<exists>name cfg vs c body chosen. Option.bind (map_of n ''name'') as_str = Some name \<and>
       subscript nv name = Inr (PDict cfg) \<and> map_of cfg ''variants'' = Some vs \<and> subscript vs chosen = Inr c \<and>
       subscript c ''node'' = Inr (PDict body) \<and> n' = dict_updates [(''name'', PStr name)] body \<and>
       (if tn = Some name \<and> non_empty v \<noteq> None then v = Some chosen
        else Option.bind (map_of cfg ''default_variant_id'') as_str = Some chosen)" by blast
  with True show ?thesis by (simp only: variant_applied_def simp_thms if_False)
qed (use assms in \<open>simp add: overwrite_node_def variant_applied_def\<close>)

text \<open>C32. Writing the variants into the dictionary of a flow changes its nodes only: a node that uses no variants stays as it is, and
  every other one is replaced by its name with the body of the variant asked for, when it is the tuned node and one was
  asked for, and otherwise of its default variant.\<close>

theorem overwritten_variants:
  assumes "overwrite_variant tuning_node variant dag = Inr dag'"
  shows "\<exists>ns ns'. dict_nodes (dict_get dag ''nodes'' (PList [])) = Inr ns \<and> map_of dag' ''nodes'' = Some (PList (map PDict ns')) \<and>
    list_all2 (variant_applied (dict_get dag ''node_variants'' (PDict [])) tuning_node variant) ns ns' \<and>
    (\<forall>k. k \<noteq> ''nodes'' \<longrightarrow> map_of dag' k = map_of dag k)"
proof -
  let ?nv = "dict_get dag ''node_variants'' (PDict [])"
  from assms obtain ns ns' where ns: "dict_nodes (dict_get dag ''nodes'' (PList [])) = Inr ns" "mapr (overwrite_node ?nv tuning_node variant) ns = Inr ns'"
    and dag': "dag' = AList.update ''nodes'' (PList (map PDict ns')) dag"
    by (auto simp: overwrite_variant_def res_simps split: sum.splits if_splits)
  from ns(2) have "list_all2 (variant_applied ?nv tuning_node variant) ns ns'"
    by (auto simp: mapr_Inr_iff intro: list_all2_mono overwrite_node_applied)
  with ns(1) show ?thesis by (auto simp: dag' update_conv)
qed

definition variant_dag :: "(string, pyval) dict" where
  "variant_dag =
    [(''nodes'', PList [PDict [(''name'', PStr ''a'')], PDict [(''name'', PStr ''b''), (''use_variants'', PBool True)]]),
     (''node_variants'', PDict [(''b'', PDict [(''default_variant_id'', PStr ''v0''),
        (''variants'', PDict [(''v0'', PDict [(''node'', PDict [(''type'', PStr ''llm'')])]),
           (''v1'', PDict [(''node'', PDict [(''type'', PStr ''python'')])])])])])]"

theorem overwritten_variants_witness:
  "\<exists>dag'. overwrite_variant (Some ''b'') (Some ''v1'') variant_dag = Inr dag' \<and>
     map_of dag' ''node_variants'' = map_of variant_dag ''node_variants'' \<and>
     map_of dag' ''nodes'' = Some (PList [PDict [(''name'', PStr ''a'')], PDict [(''name'', PStr ''b''), (''type'', PStr ''python'')]])"
proof -
  let ?ns = "PList [PDict [(''name'', PStr ''a'')], PDict [(''name'', PStr ''b''), (''type'', PStr ''python'')]]"
  have run: "overwrite_variant (Some ''b'') (Some ''v1'') variant_dag = Inr (AList.update ''nodes'' ?ns variant_dag)" by code_simp
  have "map_of (AList.update ''nodes'' ?ns variant_dag) ''node_variants'' = map_of variant_dag ''node_variants''"
    using overwritten_variants [OF run] by auto
  with run show ?thesis by (auto simp: update_conv)
qed

section \<open>What a submission leaves in the table\<close>

lemma free_session:
  assumes "db_busy db = []"
  shows "session action db = (case action (db_rows db) of (r, rows) \<Rightarrow> (r, db\<lparr>db_rows := rows\<rparr>))"
  using assms by (cases db) (simp add: session_def is_locked_def)

lemma free_locks: "db_busy db = [] \<Longrightarrow> locks db = 0 \<and> db\<lparr>db_busy := []\<rparr> = db"
  by (cases db) (simp add: locks_def)

lemma free_get: "db_busy db = [] \<Longrightarrow> run_get name db = (fst (find_row name (db_rows db)), db)"
  by (simp add: run_get_def getting.retried free_locks free_session find_row_def split: option.splits)

lemma free_dump: "db_busy db = [] \<Longrightarrow> run_dump row db = (case dump_row row (db_rows db) of (r, rows) \<Rightarrow> (r, db\<lparr>db_rows := rows\<rparr>))"
  by (simp add: run_dump_def dumping.retried free_locks free_session)

lemma free_update:
  assumes "db_busy db = []" "ch_tags ch = None"
  shows "run_update ch row db =
    (Inr (), db\<lparr>db_rows := map (\<lambda>r. if rr_name r = rr_name row then changed_row ch None r else r) (db_rows db)\<rparr>)"
proof -
  have "run_update ch row db = sqlite_retry (session (update_rows (rr_name row) (changed_row ch None))) db"
    using assms(2) by (simp add: run_update_def tags_text_def)
  with assms(1) show ?thesis by (simp add: updating.retried free_locks free_session update_rows_def)
qed

lemma prepare_bulk_keeps: "db_busy db = [] \<Longrightarrow> snd (prepare_bulk sb dag r db) = db"
  by (auto simp: prepare_bulk_def check_referenced_def get_run_def free_get split: sum.splits prod.splits option.splits if_splits)

lemma no_result_nothing_dumped: "dump_files sb r rows (Inl e) = Inr s \<Longrightarrow> s = None"
  by (auto simp: dump_files_def dump_exception_def line_errors_def Let_def res_simps)

lemma dump_row_new: "sr_name r \<notin> rr_name ` set rows \<Longrightarrow> run_to_orm pt r = Inr row \<Longrightarrow> dump_row row rows = (Inr (), rows @ [row]) \<and> rr_name row = sr_name r"
  by (auto simp: dump_row_def run_to_orm_def res_simps list_ex_iff image_iff)

lemma dump_row_taken: "sr_name r \<in> rr_name ` set rows \<Longrightarrow> run_to_orm pt r = Inr row \<Longrightarrow> \<exists>e. dump_row row rows = (Inl e, rows)"
  by (auto simp: dump_row_def run_to_orm_def res_simps list_ex_iff)

lemma find_new: "name \<notin> rr_name ` set rows \<Longrightarrow> rr_name row = name \<Longrightarrow> find (\<lambda>r. rr_name r = name) (rows @ [row]) = Some row"
  by (induction rows) auto

definition final_row :: "submitter \<Rightarrow> bulk_result res \<Rightarrow> run_row \<Rightarrow> run_row" where
  "final_row sb result row =
     row\<lparr>rr_status := if isl result then ''Failed'' else ''Completed'', rr_end_time := Some (sb_end_time sb)\<rparr>"

lemma final_row_changes: "changed_row (final_changes sb result) None row = final_row sb result row"
  by (simp add: changed_row_def final_changes_def no_changes_def given_or_def given_column_def final_row_def split: sum.splits)

lemma final_row_read:
  assumes "run_from_orm pt row = Inr q"
  shows "\<exists>q'. run_from_orm pt (final_row sb result row) = Inr q'"
  using assms by (auto simp: run_from_orm_def final_row_def res_simps)

lemma finish_bulk_free:
  assumes "db_busy db = []" "db_rows db = rows0 @ [row]" "sr_name r \<notin> rr_name ` set rows0" "rr_name row = sr_name r"
    and "run_from_orm (sb_paths sb) row = Inr q"
  shows "finish_bulk sb r rows result db =
    (case dump_files sb r rows result of
       Inl e \<Rightarrow> (Inl e, None, db)
     | Inr s \<Rightarrow> (Inr (), s, db\<lparr>db_rows := rows0 @ [final_row sb result row]\<rparr>))"
proof -
  let ?db = "db\<lparr>db_rows := rows0 @ [final_row sb result row]\<rparr>"
  have kept: "map (\<lambda>p. if rr_name p = sr_name r then changed_row (final_changes sb result) None p else p) rows0 = rows0"
    using assms(3) by (intro map_idI) (force simp: image_iff)
  have name: "rr_name (final_row sb result row) = sr_name r" using assms(4) by (simp add: final_row_def)
  have tags: "ch_tags (final_changes sb result) = None" by (simp add: final_changes_def no_changes_def)
  obtain q' where q': "run_from_orm (sb_paths sb) (final_row sb result row) = Inr q'" using final_row_read [OF assms(5)] by blast
  have "update_run (sb_paths sb) (sr_name r) (final_changes sb result) db = (Inr q', ?db)"
    using assms(1,2,4) find_new [OF assms(3,4)] find_new [OF assms(3) name] tags kept q'
    by (simp add: update_run_def with_run_def free_get free_update find_row_def final_row_changes get_run_def)
  then show ?thesis by (simp add: finish_bulk_def split: sum.splits)
qed

text \<open>C29. While the database is free, submitting a run leaves the table in one of three ways. If anything before the engine
  raises, or the name is taken, the table is as it was. If the files of the run cannot be written, the run has a row that stays
  as it was made, whatever the engine gave. Otherwise its row is the last one and says \<open>Completed\<close> or \<open>Failed\<close> as the engine returned or
  raised, and only an exception that is no user error is raised again. Nothing is stored of an exception of the engine.\<close>

theorem submitted_run_recorded:
  assumes "db_busy db = []" "run_to_orm (sb_paths sb) r = Inr row" "run_from_orm (sb_paths sb) row = Inr q"
    and "run_bulk sb dag r db = (res, stored, db')"
  shows "case fst (prepare_bulk sb dag r db) of
      Inl e \<Rightarrow> res = Inl e \<and> stored = None \<and> db' = db
    | Inr (x, rows) \<Rightarrow>
        if sr_name r \<in> rr_name ` set (db_rows db) then isl res \<and> stored = None \<and> db' = db
        else (let result = sb_exec_bulk sb x rows (sr_name r) in
          case dump_files sb r rows result of
            Inl e \<Rightarrow> res = Inl e \<and> db_rows db' = db_rows db @ [row]
          | Inr s \<Rightarrow> stored = s \<and> (isl result \<longrightarrow> stored = None) \<and> db_rows db' = db_rows db @ [final_row sb result row] \<and>
              (isl res \<longleftrightarrow> (\<exists>e. result = Inl e \<and> \<not> isinstance e (Pf UserErrorException))))"
proof -
  obtain p where p: "prepare_bulk sb dag r db = (p, db)" using prepare_bulk_keeps [OF assms(1)] by (metis prod.collapse)
  show ?thesis
  proof (cases p)
    case (Inl e)
    with p assms(4) show ?thesis by (simp add: run_bulk_def)
  next
    case (Inr xr)
    obtain x rows where xr: "xr = (x, rows)" by force
    show ?thesis
    proof (cases "sr_name r \<in> rr_name ` set (db_rows db)")
      case True
      from dump_row_taken [OF this assms(2)] obtain e where "dump_row row (db_rows db) = (Inl e, db_rows db)" by blast
      with p Inr xr True assms(1,2,4) show ?thesis by (auto simp: run_bulk_def free_dump)
    next
      case False
      from dump_row_new [OF this assms(2)] have row: "dump_row row (db_rows db) = (Inr (), db_rows db @ [row])" "rr_name row = sr_name r" by auto
      let ?result = "sb_exec_bulk sb x rows (sr_name r)" and ?db = "db\<lparr>db_rows := db_rows db @ [row]\<rparr>"
      have fin: "finish_bulk sb r rows ?result ?db = (case dump_files sb r rows ?result of
         Inl e \<Rightarrow> (Inl e, None, ?db)
       | Inr s \<Rightarrow> (Inr (), s, ?db\<lparr>db_rows := db_rows db @ [final_row sb ?result row]\<rparr>))"
        by (rule finish_bulk_free) (use assms(1,3) False row(2) in simp_all)
      show ?thesis
        using p Inr xr False assms(1,2,4) row fin no_result_nothing_dumped
        by (auto simp: run_bulk_def free_dump Let_def split: sum.splits if_splits)
    qed
  qed
qed

definition demo_submitter :: "bulk_result res \<Rightarrow> submitter" where
  "demo_submitter result =
    \<lparr>sb_env = demo_env, sb_paths = demo_paths, sb_executable = (\<lambda>d. Inl outside_model), sb_create = (\<lambda>d. Inr demo_executor),
     sb_exec_bulk = (\<lambda>x rows run_id. result), sb_load_data = (\<lambda>path. Inr [[(''q'', PInt 7)]]), sb_outputs = (\<lambda>n. Inl outside_model),
     sb_inputs = (\<lambda>n. Inl outside_model), sb_dump_snapshot = Inr (), sb_dump_inputs = (\<lambda>rows. Inr ()), sb_persist_result = (\<lambda>b. Inr ()),
     sb_end_time = ''2023-09-01T11:00:00''\<rparr>"

definition demo_submitted :: sdk_run where
  "demo_submitted = (new_run demo_paths demo_args)\<lparr>sr_run := None\<rparr>"

theorem submitted_run_recorded_witness:
  "\<exists>res db'. run_bulk (demo_submitter (Inl (pf_exn (Pf UserErrorException) [PStr ''bad input''] UNKNOWN))) variant_dag demo_submitted (demo_db []) =
     (res, None, db') \<and> res = Inr () \<and> map rr_status (db_rows db') = [''Completed'', ''Completed'', ''Completed'', ''Failed'']"
proof -
  let ?result = "Inl (pf_exn (Pf UserErrorException) [PStr ''bad input''] UNKNOWN) :: bulk_result res"
  let ?sb = "demo_submitter ?result"
  obtain res stored db' where run: "run_bulk ?sb variant_dag demo_submitted (demo_db []) = (res, stored, db')" by (metis prod_cases3)
  have prep: "map_sum id snd (fst (prepare_bulk ?sb variant_dag demo_submitted (demo_db []))) = Inr [[(''q'', PInt 7), (line_number_key, PInt 0)]]" by code_simp
  then obtain x rows where x: "fst (prepare_bulk ?sb variant_dag demo_submitted (demo_db [])) = Inr (x, rows)"
    by (cases "fst (prepare_bulk ?sb variant_dag demo_submitted (demo_db []))") auto
  have "\<not> isl (bindr (run_to_orm demo_paths demo_submitted) (run_from_orm demo_paths))" by code_simp
  then obtain row q where row: "run_to_orm (sb_paths ?sb) demo_submitted = Inr row" "run_from_orm (sb_paths ?sb) row = Inr q"
    by (cases "run_to_orm demo_paths demo_submitted"; cases "bindr (run_to_orm demo_paths demo_submitted) (run_from_orm demo_paths)")
      (auto simp: demo_submitter_def)
  have name: "sr_name demo_submitted \<notin> rr_name ` set (db_rows (demo_db []))" by code_simp
  have exec: "sb_exec_bulk ?sb x rows (sr_name demo_submitted) = ?result" by (simp add: demo_submitter_def)
  have dump: "dump_files ?sb demo_submitted rows ?result = Inr None"
    by (simp add: dump_files_def demo_submitter_def dump_exception_def line_errors_def Let_def)
  have user: "isinstance (pf_exn (Pf UserErrorException) [PStr ''bad input''] UNKNOWN) (Pf UserErrorException)" by code_simp
  have free: "db_busy (demo_db []) = []" by (simp add: demo_db_def)
  have "stored = None \<and> db_rows db' = db_rows (demo_db []) @ [final_row ?sb ?result row] \<and> \<not> isl res"
    using submitted_run_recorded [OF free row run] x name exec dump user by (simp add: Let_def)
  moreover have "map rr_status (db_rows (demo_db []) @ [final_row ?sb ?result row]) = [''Completed'', ''Completed'', ''Completed'', ''Failed'']"
    by (simp add: final_row_def demo_db_def demo_run_row_def)
  ultimately show ?thesis using run by (cases res) auto
qed

end
