(* ===== verification/Serving.thy ===== *)
theory Serving imports RunSubmission begin

text \<open>
  Serving a flow over HTTP (\<^verbatim>\<open>_sdk/_serving/utils.py\<close>, \<^verbatim>\<open>_sdk/_serving/response_creator.py\<close>, \<open>score\<close> of
  \<^verbatim>\<open>_sdk/_serving/app.py\<close>, \<^verbatim>\<open>_sdk/_serving/swagger.py\<close>): a request body becomes the inputs of one line, its outputs a response in
  JSON or as a stream of events, and an exception a response with a status. The web framework is left out: a body is
  the text its bytes spell, an \<open>Accept\<close> header is its text, the list of its media types and whether they accept JSON, and \<open>jsonify\<close> is \<open>json.dumps\<close>, but for the
  order of the keys: the model keeps the dictionary that is given to it, the framework writes its keys sorted.
\<close>

section \<open>The request\<close>

definition bad_request :: "string \<Rightarrow> msg \<Rightarrow> exn" where
  "bad_request name m = pf_exn (UserClass name (UserClass ''BadRequest'' (Pf UserErrorException))) m SERVING_APP"

text \<open>A body that is no JSON is the only input of the flow. \<open>score\<close> does not call this for a flow without inputs.\<close>

definition load_request_data :: "flow \<Rightarrow> string \<Rightarrow> pyval res" where
  "load_request_data f raw =
    (case json_loads raw of
       Inr v \<Rightarrow> Inr v
     | Inl _ \<Rightarrow>
        (case flow_inputs f of
           [] \<Rightarrow> Inl (py_exn IndexError [PStr ''list index out of range''])
         | [(k, _)] \<Rightarrow> Inr (PDict [(k, PStr raw)])
         | _ \<Rightarrow> Inl (bad_request ''JsonPayloadRequiredForMultipleInputFields''
             [PStr (''Promptflow executor received non json data, but there'' @ [CHR 0x27] @ ''s more than 1 input fields, '' @
                ''please use json request data instead.'')])))"

definition required_inputs :: "flow \<Rightarrow> string list" where
  "required_inputs f = map fst (filter (\<lambda>(k, d). fi_default d = PNone) (flow_inputs f))"

text \<open>\<open>k not in data\<close> is asked of any JSON value: of a text it asks for a part of it.\<close>

definition missing_keys :: "string list \<Rightarrow> pyval \<Rightarrow> string list res" where
  "missing_keys ks data = bindr (mapr (\<lambda>k. bindr (has_entry data k) (\<lambda>b. Inr (k, b))) ks) (\<lambda>kbs.
     Inr (map fst (filter (\<lambda>(k, b). \<not> b) kbs)))"

definition validate_request_data :: "flow \<Rightarrow> pyval \<Rightarrow> unit res" where
  "validate_request_data f data =
    bindr (missing_keys (required_inputs f) data) (\<lambda>missing.
      if missing = [] then Inr ()
      else Inl (bad_request ''MissingRequiredFlowInput'' [PStr ''Required input fields '', PList (map PStr missing),
        PStr '' are missing in request data '', data]))"

text \<open>
  What the executor makes of a body that is no dictionary. The first thing \<open>_exec\<close> evaluates of it is the argument
  \<open>{k: inputs[k] for k in self._flow.inputs if k in inputs}\<close> of \<open>start_flow_run\<close>, so before any run is started: asking
  for an input in a value without entries raises, and so does reading an input that is in a text or a list. Where none is in
  it the run is started as if there were no inputs at all.
\<close>

definition line_inputs :: "flow \<Rightarrow> pyval \<Rightarrow> (string, pyval) dict res" where
  "line_inputs f data =
    (case data of
       PDict d \<Rightarrow> Inr d
     | _ \<Rightarrow> bindr (missing_keys (dict_keys (flow_inputs f)) data) (\<lambda>missing.
         if missing = dict_keys (flow_inputs f) then Inr []
         else Inl (py_exn TypeError [PStr ''indices must be integers''])))"

section \<open>The response\<close>

record accept =
  ac_text :: string
  ac_types :: "string list"
  ac_json :: bool

definition accepted :: "accept \<Rightarrow> accept" where
  "accepted a = (if ac_types a = [] then \<lparr>ac_text = ''*/*'', ac_types = [''*/*''], ac_json = True\<rparr> else a)"

definition stream_wanted :: "accept \<Rightarrow> bool" where
  "stream_wanted a \<longleftrightarrow> ''text/event-stream'' \<in> set (ac_types a)"

text \<open>
  A body in JSON, or events and the exception that ends them when one cannot be written: the response has
  started by then.
\<close>

datatype response = JsonBody "(string, pyval) dict" | EventStream "string list" "exn option"

record response_creator =
  rc_stream :: "(string \<times> pyval list) option"
  rc_fields :: "(string, pyval) dict"
  rc_accept :: accept

definition is_generator :: "pyval \<Rightarrow> bool" where
  "is_generator v = (case v of PGen _ \<Rightarrow> True | _ \<Rightarrow> False)"

definition new_response_creator :: "(string, pyval) dict \<Rightarrow> accept \<Rightarrow> response_creator res" where
  "new_response_creator outs a =
    (case concat (map (\<lambda>(k, v). case v of PGen vs \<Rightarrow> [(k, vs)] | _ \<Rightarrow> []) outs) of
       [] \<Rightarrow> Inr \<lparr>rc_stream = None, rc_fields = outs, rc_accept = accepted a\<rparr>
     | [(k, vs)] \<Rightarrow> Inr \<lparr>rc_stream = Some (k, vs), rc_fields = AList.delete k outs, rc_accept = accepted a\<rparr>
     | _ \<Rightarrow> Inl (pf_exn (UserClass ''MultipleStreamOutputFieldsNotSupported'' (Pf UserErrorException))
         [PStr ''Multiple stream output fields not supported.''] SERVING_APP))"

definition format_event :: "pyval \<Rightarrow> string res" where
  "format_event data = bindr (json_dumps data) (\<lambda>s. Inr (''data: '' @ s @ [CHR 0x0A, CHR 0x0A]))"

fun write_events :: "pyval list \<Rightarrow> string list \<times> exn option" where
  "write_events [] = ([], None)"
| "write_events (v # vs) =
    (case format_event v of
       Inl e \<Rightarrow> ([], Some e)
     | Inr s \<Rightarrow> (case write_events vs of (es, e) \<Rightarrow> (s # es, e)))"

definition create_text_stream_response :: "response_creator \<Rightarrow> response" where
  "create_text_stream_response rc =
    (case write_events ((if rc_fields rc = [] then [] else [PDict (rc_fields rc)]) @
        (case rc_stream rc of None \<Rightarrow> [] | Some (k, vs) \<Rightarrow> map (\<lambda>v. PDict [(k, v)]) vs)) of
       (es, e) \<Rightarrow> EventStream es e)"

text \<open>\<open>''''.join\<close> takes texts only.\<close>

definition join_chunks :: "pyval list \<Rightarrow> string res" where
  "join_chunks vs =
    bindr (mapr (\<lambda>v. case as_str v of Some s \<Rightarrow> Inr s
       | None \<Rightarrow> Inl (py_exn TypeError [PStr (''sequence item: expected str instance, '' @ pytype_name (type_of v) @ '' found'')])) vs)
      (\<lambda>ss. Inr (concat ss))"

definition create_json_response :: "response_creator \<Rightarrow> response res" where
  "create_json_response rc =
    bindr (case rc_stream rc of
        None \<Rightarrow> Inr (rc_fields rc)
      | Some (k, vs) \<Rightarrow> bindr (join_chunks vs) (\<lambda>s. Inr (AList.update k (PStr s) (rc_fields rc)))) (\<lambda>d.
    bindr (json_dumps (PDict d)) (\<lambda>_. Inr (JsonBody d)))"

definition not_acceptable :: "accept \<Rightarrow> string \<Rightarrow> exn" where
  "not_acceptable a supported =
     pf_exception (UserClass ''NotAcceptable'' (Pf UserErrorException)) []
       ''Media type {media_type} in Accept header is not acceptable. Supported media type(s) - {supported_media_types}'' SERVING_APP None
       [(''media_type'', PStr (ac_text a)), (''supported_media_types'', PStr supported)] None"

definition create_response :: "response_creator \<Rightarrow> response res" where
  "create_response rc =
    (let a = rc_accept rc in
     case rc_stream rc of
       Some _ \<Rightarrow>
         if stream_wanted a then Inr (create_text_stream_response rc)
         else if ac_json a then create_json_response rc
         else Inl (not_acceptable a ''text/event-stream, application/json'')
     | None \<Rightarrow> if ac_json a then create_json_response rc else Inl (not_acceptable a ''application/json''))"

definition respond :: "(string, pyval) dict \<Rightarrow> accept \<Rightarrow> response res" where
  "respond outs a = bindr (new_response_creator outs a) create_response"

section \<open>One request\<close>

text \<open>\<open>included\<close> is the environment variable \<open>PROMPTFLOW_RESPONSE_INCLUDED_FIELDS\<close>.\<close>

definition get_output_fields_to_remove :: "string option \<Rightarrow> flow \<Rightarrow> string list res" where
  "get_output_fields_to_remove included f =
    (case non_empty included of
       Some text \<Rightarrow> bindr (json_loads text) (missing_keys (dict_keys (flow_outputs f)))
     | None \<Rightarrow> Inr (map fst (filter (\<lambda>(k, d). fo_evaluation_only d) (flow_outputs f))))"

definition score_data :: "flow \<Rightarrow> string \<Rightarrow> pyval res" where
  "score_data f raw = (if flow_inputs f = [] then Inr (PDict []) else load_request_data f raw)"

definition score_call :: "line_call \<Rightarrow> accept \<Rightarrow> line_call" where
  "score_call c a = c\<lparr>lc_line_number := None, lc_variant_id := [], lc_validate_inputs := True, lc_allow_generator := stream_wanted a\<rparr>"

text \<open>\<open>c\<close> has the identifier and the times of the run; \<open>removed\<close> the fields to remove.\<close>

definition score ::
  "executor \<Rightarrow> run_nodes \<Rightarrow> line_call \<Rightarrow> string list \<Rightarrow> accept \<Rightarrow> string \<Rightarrow> run_tracker \<Rightarrow> response res \<times> run_tracker" where
  "score x run c removed a raw rt =
    (case bindr (score_data (fx_flow x) raw) (\<lambda>data. bindr (validate_request_data (fx_flow x) data) (\<lambda>_. line_inputs (fx_flow x) data)) of
       Inl e \<Rightarrow> (Inl e, rt)
     | Inr d \<Rightarrow>
        (case exec_line x run (PInt default_concurrency_flow) (score_call c a) d rt of
           (Inl e, rt') \<Rightarrow> (Inl e, rt')
         | (Inr r, rt') \<Rightarrow> (respond (filter (\<lambda>(k, v). k \<notin> set removed) (lr_output r)) a, rt')))"

definition is_not_acceptable :: "exn \<Rightarrow> bool" where
  "is_not_acceptable e = isinstance e (UserClass ''NotAcceptable'' (Pf UserErrorException))"

definition handle_error_to_response :: "pyenv \<Rightarrow> exn \<Rightarrow> (pyval \<times> string) res" where
  "handle_error_to_response env e =
    bindr (bindr (error_to_dict env False e) expect_dict) (\<lambda>d.
      Inr (to_simplified_dict d, if is_not_acceptable e then ''406'' else response_code_value (response_code d)))"

section \<open>The description of the service\<close>

fun swagger_type :: "value_type \<Rightarrow> string res" where
  "swagger_type INT' = Inr ''integer''"
| "swagger_type DOUBLE = Inr ''number''"
| "swagger_type BOOL = Inr ''boolean''"
| "swagger_type STRING = Inr ''string''"
| "swagger_type LIST = Inr ''array''"
| "swagger_type OBJECT = Inr ''object''"
| "swagger_type t = Inl (py_exn KeyError [PStr (value_type_value t)])"

definition structure_entries :: "value_type \<Rightarrow> (string, pyval) dict" where
  "structure_entries t =
    (if t = OBJECT then [(''additionalProperties'', PDict [])]
     else if t = LIST then [(''items'', PDict [(''type'', PStr ''object''), (''additionalProperties'', PDict [])])] else [])"

definition generate_input_field_schema :: "flow_input_definition \<Rightarrow> (string, pyval) dict res" where
  "generate_input_field_schema i = bindr (swagger_type (fi_type i)) (\<lambda>t.
     Inr ([(''type'', PStr t)] @ (if truthy (fi_description i) then [(''description'', fi_description i)] else []) @
       (if truthy (fi_default i) then [(''default'', fi_default i)] else []) @ structure_entries (fi_type i)))"

definition generate_output_field_schema :: "flow_output_definition \<Rightarrow> (string, pyval) dict res" where
  "generate_output_field_schema i = bindr (swagger_type (fo_type i)) (\<lambda>t.
     Inr ([(''type'', PStr t)] @ (if truthy (fo_description i) then [(''description'', fo_description i)] else []) @
       structure_entries (fo_type i)))"

definition schema_of :: "(string \<times> (string, pyval) dict) list \<Rightarrow> pyval" where
  "schema_of ps = PDict (map (\<lambda>(k, d). (k, PDict d)) ps)"

definition input_schema :: "flow \<Rightarrow> (string, pyval) dict res" where
  "input_schema f =
    bindr (mapr (\<lambda>(k, i). bindr (generate_input_field_schema i) (\<lambda>d. Inr (k, d))) (flow_inputs f)) (\<lambda>ps.
      Inr ([(''type'', PStr ''object'')] @
        (if flow_inputs f = [] then [] else [(''properties'', schema_of ps), (''required'', PList (map PStr (dict_keys (flow_inputs f))))])))"

definition described_outputs :: "flow \<Rightarrow> string list \<Rightarrow> (string, flow_output_definition) dict" where
  "described_outputs f removed = filter (\<lambda>(k, d). \<not> fo_evaluation_only d \<and> k \<notin> set removed) (flow_outputs f)"

definition output_schema :: "flow \<Rightarrow> string list \<Rightarrow> (string, pyval) dict res" where
  "output_schema f removed =
    bindr (mapr (\<lambda>(k, i). bindr (generate_output_field_schema i) (\<lambda>d. Inr (k, d))) (described_outputs f removed)) (\<lambda>ps.
      Inr ([(''type'', PStr ''object'')] @ (if flow_outputs f = [] then [] else [(''properties'', schema_of ps)])))"

definition swagger_example :: "pyval \<Rightarrow> pyval" where
  "swagger_example samples = (case samples of PList (v # _) \<Rightarrow> v | _ \<Rightarrow> PDict [])"

text \<open>\<open>name\<close> is the text of the name of the flow.\<close>

definition swagger_post :: "string \<Rightarrow> bool \<Rightarrow> (string, pyval) dict \<Rightarrow> (string, pyval) dict \<Rightarrow> pyval \<Rightarrow> pyval" where
  "swagger_post name body_required ins outs example =
     PDict [(''summary'', PStr (''run promptflow: '' @ name @ '' with an given input'')),
       (''requestBody'', PDict [(''description'', PStr ''promptflow input data''), (''required'', PBool body_required),
          (''content'', PDict [(''application/json'', PDict [(''schema'', PDict ins), (''example'', example)])])]),
       (''responses'', PDict [
          (''200'', PDict [(''description'', PStr ''successful operation''),
             (''content'', PDict [(''application/json'', PDict [(''schema'', PDict outs)])])]),
          (''400'', PDict [(''description'', PStr ''Invalid input'')]),
          (''default'', PDict [(''description'', PStr ''unexpected error'')])])]"

definition generate_swagger :: "pyenv \<Rightarrow> flow \<Rightarrow> pyval \<Rightarrow> string list \<Rightarrow> (string, pyval) dict res" where
  "generate_swagger env f samples removed =
    (let name = py_str (obj_repr env) (flow_name f) in
     bindr (input_schema f) (\<lambda>ins. bindr (output_schema f removed) (\<lambda>outs.
       Inr [(''openapi'', PStr ''3.0.0''),
         (''info'', PDict [(''title'', PStr (''Promptflow['' @ name @ ''] API'')), (''version'', PStr ''1.0.0''), (''x-flow-name'', PStr name)]),
         (''components'', PDict [(''securitySchemes'', PDict [(''bearerAuth'', PDict [(''type'', PStr ''http''), (''scheme'', PStr ''bearer'')])])]),
         (''security'', PList [PDict [(''bearerAuth'', PList [])]]),
         (''paths'', PDict [(''/score'', PDict [(''post'', swagger_post name (flow_inputs f \<noteq> []) ins outs (swagger_example samples))])])])))"

section \<open>Streams\<close>

text \<open>A client of the stream: the texts of a field are put together in the order of their events.\<close>

definition parse_event :: "string \<Rightarrow> (string, pyval) dict res" where
  "parse_event s = bindr (json_loads (take (length s - 8) (drop 6 s))) expect_dict"

fun merge_field :: "string \<times> pyval \<Rightarrow> (string, pyval) dict \<Rightarrow> (string, pyval) dict" where
  "merge_field (k, v) d =
    (case (map_of d k, v) of
       (Some (PStr a), PStr b) \<Rightarrow> AList.update k (PStr (a @ b)) d
     | _ \<Rightarrow> AList.update k v d)"

definition read_stream :: "string list \<Rightarrow> (string, pyval) dict res" where
  "read_stream es = bindr (mapr parse_event es) (\<lambda>ds. Inr (fold (fold merge_field) ds []))"

lemma format_event_parsed:
  assumes "json_plain (PDict d)"
  shows "\<exists>s. format_event (PDict d) = Inr s \<and> parse_event s = Inr d"
proof -
  from json_roundtrip [OF assms] obtain s where "json_dumps (PDict d) = Inr s" "json_loads s = Inr (PDict d)" by (auto simp: res_simps)
  then show ?thesis by (auto simp: format_event_def parse_event_def expect_dict_def)
qed

lemma write_events_parsed:
  assumes "list_all (\<lambda>d. json_plain (PDict d)) ds"
  shows "\<exists>es. write_events (map PDict ds) = (es, None) \<and> mapr parse_event es = Inr ds"
  using assms
proof (induction ds)
  case (Cons d ds)
  then obtain es s where "write_events (map PDict ds) = (es, None)" "mapr parse_event es = Inr ds"
    "format_event (PDict d) = Inr s" "parse_event s = Inr d"
    using format_event_parsed [of d] by auto
  then show ?case by (intro exI [of _ "s # es"]) simp
qed simp

lemma merge_chunks:
  assumes "map_of d k = None \<or> map_of d k = Some (PStr a)" "map_of d k = None \<longrightarrow> a = []" "ss \<noteq> [] \<or> map_of d k \<noteq> None"
  shows "fold (fold merge_field) (map (\<lambda>s. [(k, PStr s)]) ss) d = AList.update k (PStr (a @ concat ss)) d"
  using assms
proof (induction ss arbitrary: d a)
  case Nil
  then show ?case by (auto simp: update_triv)
next
  case (Cons s ss)
  let ?d = "AList.update k (PStr (a @ s)) d"
  have step: "merge_field (k, PStr s) d = ?d" using Cons.prems(1,2) by auto
  have "fold (fold merge_field) (map (\<lambda>s. [(k, PStr s)]) ss) ?d = AList.update k (PStr ((a @ s) @ concat ss)) ?d"
    by (rule Cons.IH) (simp_all add: update_conv')
  then show ?case by (simp add: step del: merge_field.simps)
qed

lemma merge_fields:
  assumes "distinct (map fst (acc @ d))"
  shows "fold merge_field d acc = acc @ d"
  using assms
proof (induction d arbitrary: acc)
  case (Cons kv d)
  obtain k v where kv: "kv = (k, v)" by force
  with Cons.prems have new: "map_of acc k = None" "k \<notin> fst ` set acc" by (auto simp: map_of_eq_None_iff)
  then have "merge_field kv acc = acc @ [kv]" by (simp add: kv update_new_key)
  with Cons show ?case by simp
qed simp

lemma one_generator:
  assumes "distinct (dict_keys outs)" "map_of outs k = Some (PGen vs)" "json_plain (PDict (AList.delete k outs))"
  shows "concat (map (\<lambda>(k, v). case v of PGen vs \<Rightarrow> [(k, vs)] | _ \<Rightarrow> []) outs) = [(k, vs)]"
  using assms
proof (induction outs)
  case (Cons kv outs)
  obtain q v where kv: "kv = (q, v)" by force
  have none: "concat (map (\<lambda>(k, v). case v of PGen vs \<Rightarrow> [(k, vs)] | _ \<Rightarrow> []) ds) = []" if "list_all (\<lambda>kv. json_plain (snd kv)) ds"
    for ds :: "(string, pyval) dict"
    using that by (induction ds) (auto split: pyval.splits)
  show ?case
  proof (cases "q = k")
    case True
    with Cons.prems kv have "AList.delete k (kv # outs) = outs" by (simp add: delete_id)
    with Cons.prems True kv none [of outs] show ?thesis by simp
  next
    case False
    with Cons kv have "concat (map (\<lambda>(k, v). case v of PGen vs \<Rightarrow> [(k, vs)] | _ \<Rightarrow> []) outs) = [(k, vs)]" by simp
    with False Cons.prems kv show ?thesis by (auto split: pyval.splits)
  qed
qed simp

text \<open>C34. A client that puts the texts of a stream together gets what the response in JSON says: when the outputs are plain data but
  for one stream of texts with at least one text, asking for events gives a stream that ends without an exception and reads
  as the dictionary that the JSON response is made of: the same fields, in its order, with the same values.\<close>

theorem stream_reads_as_json:
  assumes "distinct (dict_keys outs)" "map_of outs k = Some (PGen (map PStr ss))" "ss \<noteq> []"
    and "json_plain (PDict (AList.delete k outs))"
    and "stream_wanted (accepted a)" "\<not> stream_wanted (accepted b)" "ac_json (accepted b)"
  shows "\<exists>es d. respond outs a = Inr (EventStream es None) \<and> respond outs b = Inr (JsonBody d) \<and> read_stream es = Inr d \<and>
    d = AList.delete k outs @ [(k, PStr (concat ss))]"
proof -
  let ?rest = "AList.delete k outs" and ?chunks = "map (\<lambda>s. [(k, PStr s)]) ss"
  let ?d = "?rest @ [(k, PStr (concat ss))]"
  have new: "map_of ?rest k = None" "k \<notin> fst ` set ?rest" by (auto simp: map_of_eq_None_iff AList.delete_eq)
  have rest: "distinct (map fst ?rest)" using assms(4) by simp
  have rc: "new_response_creator outs c = Inr \<lparr>rc_stream = Some (k, map PStr ss), rc_fields = ?rest, rc_accept = accepted c\<rparr>" for c
    using one_generator [OF assms(1,2,4)] by (simp add: new_response_creator_def)
  have chunks: "mapr (\<lambda>v. case as_str v of Some s \<Rightarrow> Inr s | None \<Rightarrow> Inl (e v)) (map PStr ss) = Inr ss" for e :: "pyval \<Rightarrow> exn"
    by (induction ss) simp_all
  have plain: "json_plain (PDict ?d)" using assms(4) new(2) by auto
  have json: "respond outs b = Inr (JsonBody ?d)"
    using assms(6,7) json_plain_ok [OF plain] new(2)
    by (simp add: respond_def rc create_response_def create_json_response_def join_chunks_def chunks update_new_key json_dumps_def)
  let ?ds = "(if ?rest = [] then [] else [?rest]) @ ?chunks"
  have "list_all (\<lambda>d. json_plain (PDict d)) ?ds" using assms(4) by (auto simp: list_all_iff)
  from write_events_parsed [OF this] obtain es where es: "write_events (map PDict ?ds) = (es, None)" "mapr parse_event es = Inr ?ds" by blast
  have "(if ?rest = [] then [] else [PDict ?rest]) @ map (\<lambda>v. PDict [(k, v)]) (map PStr ss) = map PDict ?ds" by simp
  with es(1) have "write_events ((if ?rest = [] then [] else [PDict ?rest]) @ map (\<lambda>v. PDict [(k, v)]) (map PStr ss)) = (es, None)"
    by (simp only:)
  then have "create_text_stream_response \<lparr>rc_stream = Some (k, map PStr ss), rc_fields = ?rest, rc_accept = accepted a\<rparr> = EventStream es None"
    by (simp only: create_text_stream_response_def response_creator.simps option.case prod.case)
  then have "respond outs a = Inr (EventStream es None)"
    using assms(5) by (simp add: respond_def rc create_response_def)
  moreover have "fold (fold merge_field) ?ds [] = ?d"
    using merge_fields [of "[]" ?rest] rest merge_chunks [of ?rest k "[]" ss] new assms(3)
    by (cases "?rest = []") (simp_all add: update_new_key)
  then have "read_stream es = Inr ?d" by (simp add: read_stream_def es(2))
  ultimately show ?thesis using json by blast
qed

definition accept_events :: accept where
  "accept_events = \<lparr>ac_text = ''text/event-stream, application/json'', ac_types = [''text/event-stream'', ''application/json''], ac_json = True\<rparr>"

definition accept_any :: accept where
  "accept_any = \<lparr>ac_text = [], ac_types = [], ac_json = False\<rparr>"

theorem stream_reads_as_json_witness:
  "let outs = [(''answer'', PGen [PStr ''Hel'', PStr ''lo'']), (''n'', PInt 2)] in
   \<exists>es. respond outs accept_events = Inr (EventStream es None) \<and>
     respond outs accept_any = Inr (JsonBody [(''n'', PInt 2), (''answer'', PStr ''Hello'')]) \<and>
     read_stream es = Inr [(''n'', PInt 2), (''answer'', PStr ''Hello'')]"
proof -
  let ?outs = "[(''answer'', PGen (map PStr [''Hel'', ''lo''])), (''n'', PInt 2)]"
  have "stream_wanted (accepted accept_events)" "\<not> stream_wanted (accepted accept_any)" "ac_json (accepted accept_any)"
    by (simp_all add: stream_wanted_def accepted_def accept_events_def accept_any_def)
  with stream_reads_as_json [of ?outs "''answer''" "[''Hel'', ''lo'']" accept_events accept_any] show ?thesis
    unfolding Let_def by simp
qed

section \<open>A request that is answered\<close>

lemma exec_flow_body:
  assumes "exec_flow x run c inputs rt = (Inr r, rt')" "fx_raise_ex x"
  shows "\<exists>rt0 ains rt1. line_body x run c inputs rt0 = (None, lr_output r, ains, rt1)"
proof -
  obtain q rt0 where st: "start_flow_run (lc_start c) (PStr (fx_flow_id x)) (lc_run_id c) (line_run_id c) (lc_run_id c)
           (concat (map (\<lambda>(k, d). case map_of inputs k of Some v \<Rightarrow> [(k, v)] | None \<Rightarrow> []) (flow_inputs (fx_flow x))))
           (lc_line_number c) (lc_variant_id c) (line_tracker rt) = (q, rt0)" by force
  obtain failure outp ains rt1 where b: "line_body x run c inputs rt0 = (failure, outp, ains, rt1)" by (metis prod_cases4)
  have "failure = None \<and> lr_output r = outp"
    using assms unfolding exec_flow_def by (auto simp: st b Let_def split: option.splits sum.splits if_splits)
  with b show ?thesis by auto
qed

text \<open>What a line that ran returns: the values its flow outputs read, in their order.\<close>

definition line_reads ::
  "executor \<Rightarrow> run_nodes \<Rightarrow> line_call \<Rightarrow> (string, pyval) dict \<Rightarrow> (string, pyval) dict \<Rightarrow> bool" where
  "line_reads x run c inputs output \<longleftrightarrow> (\<exists>ins nodes_outputs vs t.
     ensure_flow_inputs_type (lc_env c) (fx_flow x) inputs (index_value (lc_line_number c)) = Inr ins \<and>
     fst (run (batch_nodes (fx_flow x)) ins t) = Inr nodes_outputs \<and>
     list_all2 (\<lambda>(k, od) v. read_output od nodes_outputs ins = Inr v)
       (filter (\<lambda>(k, od). kept_output (fx_flow x) od) (flow_outputs (fx_flow x))) vs \<and>
     output = (let named = zip (map fst (filter (\<lambda>(k, od). kept_output (fx_flow x) od) (flow_outputs (fx_flow x)))) vs
       in if lc_allow_generator c then named else stringify_generator_output (lc_env c) named))"

lemma line_body_outputs:
  assumes "line_body x run c inputs rt0 = (None, output, ains, rt1)" "lc_validate_inputs c" "distinct (dict_keys (flow_outputs (fx_flow x)))"
  shows "(\<forall>k\<in>set (dict_keys (flow_inputs (fx_flow x))). dict_has k inputs) \<and> line_reads x run c inputs output"
proof -
  from assms(1,2) obtain ins t no outs where ins: "ensure_flow_inputs_type (lc_env c) (fx_flow x) inputs (index_value (lc_line_number c)) = Inr ins"
    and outs: "traverse_nodes x run ins rt0 = (Inr (outs, no), t)"
    and out: "output = (if lc_allow_generator c then outs else stringify_generator_output (lc_env c) outs)"
    by (auto simp: line_body_def Let_def split: sum.splits prod.splits)
  have "\<forall>k\<in>set (dict_keys (flow_inputs (fx_flow x))). dict_has k inputs"
    using ins by (auto simp: ensure_flow_inputs_type_def flow_error_def find_None_iff split: option.splits)
  moreover have ran: "extract_outputs (fx_flow x) no ins = Inr outs" "fst (run (batch_nodes (fx_flow x)) ins rt0) = Inr no"
    using outs by (auto simp: traverse_nodes_def submit_to_scheduler_def res_simps split: prod.splits sum.splits pyval.splits)
  from extract_outputs_from [OF ran(1) [unfolded extract_outputs_def] assms(3)] obtain vs where
    "outs = zip (map fst (filter (\<lambda>(k, od). kept_output (fx_flow x) od) (flow_outputs (fx_flow x)))) vs"
    "list_all2 (\<lambda>(k, od) v. read_output od no ins = Inr v)
       (filter (\<lambda>(k, od). kept_output (fx_flow x) od) (flow_outputs (fx_flow x))) vs" by auto
  with ins ran(2) out have "line_reads x run c inputs output" unfolding line_reads_def Let_def by blast
  ultimately show ?thesis by blast
qed

text \<open>C33. A request that gets a response had every input of the flow in its body, those with a default too (so a request may leave
  out an input with a default only to be refused by the executor); a body that is no JSON is the value of the input of a flow
  that has just one, and is not looked at by a flow without inputs. The response is made of the outputs of running the nodes on
  the checked inputs: every flow output that is not of an aggregation node and not to be removed, in their order, with the value
  its reference reads.\<close>

theorem scored_request_complete:
  assumes "score x run c removed a raw rt = (Inr resp, rt')" "fx_raise_ex x" "distinct (dict_keys (flow_outputs (fx_flow x)))"
  shows "\<exists>d output. (case flow_inputs (fx_flow x) of
        [] \<Rightarrow> d = []
      | [(k, _)] \<Rightarrow> json_loads raw = Inr (PDict d) \<or> isl (json_loads raw) \<and> d = [(k, PStr raw)]
      | _ \<Rightarrow> json_loads raw = Inr (PDict d)) \<and>
    (\<forall>k\<in>set (dict_keys (flow_inputs (fx_flow x))). dict_has k d) \<and>
    line_reads x run (score_call c a) d output \<and> respond (filter (\<lambda>(k, v). k \<notin> set removed) output) a = Inr resp"
proof -
  from assms(1) obtain data d r where data: "score_data (fx_flow x) raw = Inr data" "line_inputs (fx_flow x) data = Inr d"
    and run: "exec_line x run (PInt default_concurrency_flow) (score_call c a) d rt = (Inr r, rt')"
    and resp: "respond (filter (\<lambda>(k, v). k \<notin> set removed) (lr_output r)) a = Inr resp"
    by (auto simp: score_def res_simps split: sum.splits prod.splits)
  let ?x = "x\<lparr>fx_node_concurrency := PInt default_concurrency_flow\<rparr>"
  from run have "exec_flow ?x run (score_call c a) d rt = (Inr r, rt')"
    by (auto simp: exec_line_def score_call_def split: sum.splits prod.splits option.splits)
  from exec_flow_body [OF this] assms(2) obtain rt0 ains rt1 where
    "line_body ?x run (score_call c a) d rt0 = (None, lr_output r, ains, rt1)" by auto
  from line_body_outputs [OF this] assms(3) have body: "\<forall>k\<in>set (dict_keys (flow_inputs (fx_flow x))). dict_has k d"
    "line_reads x run (score_call c a) d (lr_output r)"
    by (simp_all add: score_call_def line_reads_def kept_output_def)
  have whole: "data = PDict d"
  proof (cases "flow_inputs (fx_flow x) = []")
    case True
    with data show ?thesis by (auto simp: score_data_def line_inputs_def)
  next
    case False
    then obtain k i is' where "flow_inputs (fx_flow x) = (k, i) # is'" by (metis list.exhaust prod.exhaust)
    with body(1) have "d \<noteq> []" by (auto simp: dict_has_def)
    with data(2) show ?thesis by (cases data) (auto simp: line_inputs_def res_simps split: if_splits)
  qed
  then have "case flow_inputs (fx_flow x) of
        [] \<Rightarrow> d = []
      | [(k, _)] \<Rightarrow> json_loads raw = Inr (PDict d) \<or> isl (json_loads raw) \<and> d = [(k, PStr raw)]
      | _ \<Rightarrow> json_loads raw = Inr (PDict d)"
    using data(1) by (auto simp: score_data_def load_request_data_def split: list.splits sum.splits if_splits)
  with body resp show ?thesis by blast
qed

definition demo_served :: executor where
  "demo_served = demo_executor\<lparr>fx_raise_ex := True\<rparr>"

definition demo_served_nodes :: run_nodes where
  "demo_served_nodes = run_line_nodes (\<lambda>n. demo_outside (\<lambda>k. Inl outside_model)) (line_context demo_served (score_call (demo_line 3) accept_any))
     (\<lambda>name. Some (demo_tool_of ([], Inr (PList [PStr name])))) (demo_world DummyCacheManager)"

definition demo_body :: string where
  "demo_body = ''{'' @ [CHR 0x22] @ ''q'' @ [CHR 0x22] @ '': 7}''"

theorem scored_request_complete_witness:
  "\<exists>rt' d. score demo_served demo_served_nodes (demo_line 3) [] accept_any demo_body (new_run_tracker Test (new_log_manager False)) =
     (Inr (JsonBody [(''o'', PList [PStr ''b''])]), rt') \<and> json_loads demo_body = Inr (PDict d) \<and> dict_has ''q'' d"
proof -
  let ?rt = "new_run_tracker Test (new_log_manager False)" and ?x = demo_served
  let ?exec = "exec_line ?x demo_served_nodes (PInt default_concurrency_flow) (score_call (demo_line 3) accept_any) [(''q'', PInt 7)] ?rt"
  have "map_sum (\<lambda>_. ()) lr_output (fst ?exec) = Inr [(''o'', PList [PStr ''b''])]" by code_simp
  then obtain r rt' where run: "?exec = (Inr r, rt')" "lr_output r = [(''o'', PList [PStr ''b''])]" by (cases ?exec; cases "fst ?exec") auto
  have ins: "bindr (score_data (fx_flow ?x) demo_body) (\<lambda>data. bindr (validate_request_data (fx_flow ?x) data) (\<lambda>_. line_inputs (fx_flow ?x) data)) =
      Inr [(''q'', PInt 7)]" by code_simp
  have resp: "respond [(''o'', PList [PStr ''b''])] accept_any = Inr (JsonBody [(''o'', PList [PStr ''b''])])" by code_simp
  have served: "score ?x demo_served_nodes (demo_line 3) [] accept_any demo_body ?rt = (Inr (JsonBody [(''o'', PList [PStr ''b''])]), rt')"
    using run resp by (simp add: score_def ins)
  have f: "fx_raise_ex ?x" "distinct (dict_keys (flow_outputs (fx_flow ?x)))" "isl (json_loads demo_body) = False"
    by code_simp+
  obtain i where inputs: "flow_inputs (fx_flow ?x) = [(''q'', i)]" by (simp add: demo_served_def demo_executor_def new_executor_def demo_line_flow_def)
  from scored_request_complete [OF served f(1,2)] inputs f(3) obtain d where "json_loads demo_body = Inr (PDict d)" "dict_has ''q'' d" by auto
  with served show ?thesis by blast
qed

section \<open>A request that is refused\<close>

lemma bad_request_class: "isinstance (bad_request name m) (Pf UserErrorException) \<and> (name \<noteq> ''NotAcceptable'' \<longrightarrow> \<not> is_not_acceptable (bad_request name m))"
proof -
  have "Pf UserErrorException \<in> set (mro (Pf UserErrorException))" "UserClass ''NotAcceptable'' (Pf UserErrorException) \<notin> set (mro (Pf UserErrorException))"
    by code_simp+
  then show ?thesis by (auto simp: isinstance_def bad_request_def pf_exception_def is_not_acceptable_def)
qed

lemma type_error_class: "\<not> is_promptflow (py_exn TypeError m) \<and> \<not> isinstance (py_exn TypeError m) (Ot JsonSerializedPromptflowException) \<and>
   \<not> is_not_acceptable (py_exn TypeError m)"
proof -
  have "Pf PromptflowException \<notin> set (mro (Py TypeError))" "Ot JsonSerializedPromptflowException \<notin> set (mro (Py TypeError))"
    "UserClass ''NotAcceptable'' (Pf UserErrorException) \<notin> set (mro (Py TypeError))" by code_simp+
  then show ?thesis by (simp add: isinstance_def py_exn_def is_not_acceptable_def)
qed

lemma text_for_many:
  "isl (json_loads raw) \<Longrightarrow> 1 < length (flow_inputs f) \<Longrightarrow> \<exists>m. load_request_data f raw = Inl (bad_request ''JsonPayloadRequiredForMultipleInputFields'' m)"
  by (auto simp: load_request_data_def isl_def split: list.splits)

lemma handled_status:
  assumes "handle_error_to_response env e = Inr (body, status)" "\<not> is_not_acceptable e"
  shows "(isinstance e (Pf UserErrorException) \<longrightarrow> status = ''400'') \<and>
    (\<not> is_promptflow e \<and> \<not> isinstance e (Ot JsonSerializedPromptflowException) \<longrightarrow> status = ''500'')"
proof -
  from assms obtain d where d: "error_to_dict env False e = Inr (PDict d)" "status = response_code_value (response_code d)"
    by (auto simp: handle_error_to_response_def res_simps expect_dict_Inr)
  with error_response_http_code [OF d(1)] show ?thesis by simp
qed

lemma missing_keys_dict: "missing_keys ks (PDict d) = Inr (filter (\<lambda>k. \<not> dict_has k d) ks)"
proof -
  have "mapr (\<lambda>k. bindr (has_entry (PDict d) k) (\<lambda>b. Inr (k, b))) ks = Inr (map (\<lambda>k. (k, dict_has k d)) ks)"
    by (induction ks) (simp_all add: has_entry_def)
  then show ?thesis by (simp add: missing_keys_def filter_map comp_def)
qed

text \<open>The values of JSON that have no entries, so that asking for a key in them raises.\<close>

definition no_entries :: "pyval \<Rightarrow> bool" where
  "no_entries v \<longleftrightarrow> (case v of PNone \<Rightarrow> True | PBool _ \<Rightarrow> True | PInt _ \<Rightarrow> True | PFloat _ \<Rightarrow> True | _ \<Rightarrow> False)"

definition has_all :: "string list \<Rightarrow> pyval \<Rightarrow> bool" where
  "has_all ks v \<longleftrightarrow> list_all (\<lambda>k. has_entry v k = Inr True) ks"

definition has_some :: "string list \<Rightarrow> pyval \<Rightarrow> bool" where
  "has_some ks v \<longleftrightarrow> list_ex (\<lambda>k. has_entry v k = Inr True) ks"

lemma has_entry_cases:
  "no_entries v \<Longrightarrow> has_entry v k = Inl (py_exn TypeError [PStr ''argument is not iterable''])"
  by (cases v) (simp_all add: no_entries_def has_entry_def)

lemma missing_keys_number: "no_entries v \<Longrightarrow> ks \<noteq> [] \<Longrightarrow> missing_keys ks v = Inl (py_exn TypeError [PStr ''argument is not iterable''])"
  by (cases ks) (simp_all add: missing_keys_def has_entry_cases)

text \<open>Values with entries: texts, lists and dictionaries.\<close>

definition entries_value :: "pyval \<Rightarrow> bool" where
  "entries_value v \<longleftrightarrow> (case v of PDict _ \<Rightarrow> True | PList _ \<Rightarrow> True | PStr _ \<Rightarrow> True | _ \<Rightarrow> False)"

lemma missing_keys_entries:
  assumes "entries_value v"
  shows "missing_keys ks v = Inr (filter (\<lambda>k. has_entry v k \<noteq> Inr True) ks)"
proof -
  have "\<exists>b. has_entry v k = Inr b" for k using assms by (cases v) (simp_all add: entries_value_def has_entry_def)
  then obtain b where b: "\<And>k. has_entry v k = Inr (b k)" by metis
  have "mapr (\<lambda>k. bindr (has_entry v k) (\<lambda>b. Inr (k, b))) ks = Inr (map (\<lambda>k. (k, b k)) ks)"
    by (induction ks) (simp_all add: b)
  then show ?thesis by (simp add: missing_keys_def b filter_map comp_def)
qed

lemma checked_request:
  assumes "flow_inputs f \<noteq> []" "json_loads raw = Inr v"
    and "bindr (score_data f raw) (\<lambda>data. bindr (validate_request_data f data) (\<lambda>_. line_inputs f data)) = r"
  shows "no_entries v \<Longrightarrow> \<exists>m. r = Inl (py_exn TypeError m)"
    "entries_value v \<Longrightarrow> \<not> has_all (required_inputs f) v \<Longrightarrow> \<exists>m. r = Inl (bad_request ''MissingRequiredFlowInput'' m)"
    "entries_value v \<Longrightarrow> has_all (required_inputs f) v \<Longrightarrow> has_some (dict_keys (flow_inputs f)) v \<Longrightarrow> \<nexists>d. v = PDict d \<Longrightarrow>
      \<exists>m. r = Inl (py_exn TypeError m)"
proof -
  have data: "score_data f raw = Inr v" using assms(1,2) by (simp add: score_data_def load_request_data_def)
  show "\<exists>m. r = Inl (py_exn TypeError m)" if "no_entries v"
    using assms(1,3) data missing_keys_number [OF that] that
    by (cases "required_inputs f = []"; cases v)
      (auto simp: validate_request_data_def line_inputs_def missing_keys_def no_entries_def)
  show "\<exists>m. r = Inl (bad_request ''MissingRequiredFlowInput'' m)" if "entries_value v" "\<not> has_all (required_inputs f) v"
    using assms(3) data missing_keys_entries [OF that(1)] that(2)
    by (auto simp: validate_request_data_def has_all_def list_all_iff filter_empty_conv)
  show "\<exists>m. r = Inl (py_exn TypeError m)" if "entries_value v" "has_all (required_inputs f) v"
    "has_some (dict_keys (flow_inputs f)) v" "\<nexists>d. v = PDict d"
  proof -
    have "filter (\<lambda>k. has_entry v k \<noteq> Inr True) (dict_keys (flow_inputs f)) \<noteq> dict_keys (flow_inputs f)"
      using that(3) by (auto simp: has_some_def list_ex_iff filter_id_conv)
    moreover have "filter (\<lambda>k. has_entry v k \<noteq> Inr True) (required_inputs f) = []"
      using that(2) by (auto simp: has_all_def list_all_iff filter_empty_conv)
    ultimately show ?thesis
      using assms(3) data missing_keys_entries [OF that(1)] that(4)
      by (cases v) (auto simp: validate_request_data_def line_inputs_def entries_value_def)
  qed
qed

text \<open>C35. Requests to a flow with inputs that are refused before a run is started. The status is 400 when the body is no JSON and
  the flow has several inputs, or when it is a dictionary, a list or a text in which a required input is missing. The status
  is 500, because the search for inputs raises, when the body is the number, truth value or null of JSON, or a text or list in
  which all required inputs and some input of the flow are found. (A body that is no JSON is the value of a single input, and
  a flow without inputs does not look at its body.)\<close>

theorem refused_requests:
  assumes "flow_inputs f \<noteq> []" "f = fx_flow x"
    and "if user_fault
      then isl (json_loads raw) \<and> 1 < length (flow_inputs f) \<or>
        (\<exists>v. json_loads raw = Inr v \<and> entries_value v \<and> \<not> has_all (required_inputs f) v)
      else \<exists>v. json_loads raw = Inr v \<and> (no_entries v \<or>
        entries_value v \<and> (\<nexists>d. v = PDict d) \<and> has_all (required_inputs f) v \<and> has_some (dict_keys (flow_inputs f)) v)"
  shows "\<exists>e. score x run c removed a raw rt = (Inl e, rt) \<and>
    (\<forall>body status. handle_error_to_response env e = Inr (body, status) \<longrightarrow> status = (if user_fault then ''400'' else ''500''))"
proof -
  let ?checked = "bindr (score_data f raw) (\<lambda>data. bindr (validate_request_data f data) (\<lambda>_. line_inputs f data))"
  have "\<exists>e. ?checked = Inl e \<and> (if user_fault then \<exists>name m. e = bad_request name m \<and> name \<noteq> ''NotAcceptable''
      else \<exists>m. e = py_exn TypeError m)"
  proof (cases "isl (json_loads raw)")
    case True
    with assms(3) have many: "user_fault" "1 < length (flow_inputs f)" by (auto split: if_splits)
    from text_for_many [OF True many(2)] obtain m where
      "load_request_data f raw = Inl (bad_request ''JsonPayloadRequiredForMultipleInputFields'' m)" by blast
    with assms(1) have "?checked = Inl (bad_request ''JsonPayloadRequiredForMultipleInputFields'' m)" by (simp add: score_data_def)
    with many(1) show ?thesis by auto
  next
    case False
    then obtain v where v: "json_loads raw = Inr v" by (cases "json_loads raw") auto
    note c = checked_request [OF assms(1) v refl]
    show ?thesis
    proof (cases user_fault)
      case True
      with assms(3) v have "entries_value v" "\<not> has_all (required_inputs f) v" by auto
      from c(2) [OF this] obtain m where "?checked = Inl (bad_request ''MissingRequiredFlowInput'' m)" by blast
      with True show ?thesis by auto
    next
      case False
      with assms(3) v have "no_entries v \<or> entries_value v \<and> (\<nexists>d. v = PDict d) \<and> has_all (required_inputs f) v \<and>
        has_some (dict_keys (flow_inputs f)) v" by auto
      then obtain m where "?checked = Inl (py_exn TypeError m)" using c(1,3) by blast
      with False show ?thesis by (simp, blast)
    qed
  qed
  then obtain e where e: "?checked = Inl e" "if user_fault then \<exists>name m. e = bad_request name m \<and> name \<noteq> ''NotAcceptable''
      else \<exists>m. e = py_exn TypeError m" by blast
  then have "score x run c removed a raw rt = (Inl e, rt)" by (simp add: score_def assms(2))
  moreover have "status = (if user_fault then ''400'' else ''500'')" if "handle_error_to_response env e = Inr (body, status)" for body status
    using e(2) handled_status [OF that] bad_request_class type_error_class by (cases user_fault) auto
  ultimately show ?thesis by blast
qed

theorem refused_requests_witness:
  "\<exists>e. score demo_served demo_served_nodes (demo_line 3) [] accept_any ''7.5'' (new_run_tracker Test (new_log_manager False)) =
      (Inl e, new_run_tracker Test (new_log_manager False)) \<and>
    map_sum id snd (handle_error_to_response demo_env e) = Inr ''500''"
proof -
  have f: "flow_inputs (fx_flow demo_served) \<noteq> []" by code_simp
  have "(case json_loads ''7.5'' of Inr v \<Rightarrow> no_entries v | Inl e \<Rightarrow> False)" by code_simp
  then have "if False then isl (json_loads ''7.5'') \<and> 1 < length (flow_inputs (fx_flow demo_served)) \<or>
        (\<exists>v. json_loads ''7.5'' = Inr v \<and> entries_value v \<and> \<not> has_all (required_inputs (fx_flow demo_served)) v)
      else \<exists>v. json_loads ''7.5'' = Inr v \<and> (no_entries v \<or>
        entries_value v \<and> (\<nexists>d. v = PDict d) \<and> has_all (required_inputs (fx_flow demo_served)) v \<and>
        has_some (dict_keys (flow_inputs (fx_flow demo_served))) v)"
    by (auto split: sum.splits)
  from refused_requests [OF f refl this, of demo_served_nodes "demo_line 3" "[]" accept_any "new_run_tracker Test (new_log_manager False)" demo_env]
  obtain e where
    e: "score demo_served demo_served_nodes (demo_line 3) [] accept_any ''7.5'' (new_run_tracker Test (new_log_manager False)) =
      (Inl e, new_run_tracker Test (new_log_manager False))"
    "\<forall>body status. handle_error_to_response demo_env e = Inr (body, status) \<longrightarrow> status = ''500''" by auto
  have "map_sum (\<lambda>e. map_sum id snd (handle_error_to_response demo_env e)) id (fst (score demo_served demo_served_nodes (demo_line 3) [] accept_any ''7.5''
      (new_run_tracker Test (new_log_manager False)))) = Inl (Inr ''500'')" by code_simp
  with e show ?thesis by auto
qed

end
