(* ===== verification/ChatPrompt.thy ===== *)
theory ChatPrompt imports Complex_Main Json ToolInterface begin

text \<open>
  What the built-in LLM tools share (\<^verbatim>\<open>promptflow-tools/promptflow/tools/common.py\<close>, its exceptions, and the parameters of
  \<open>chat\<close> in \<^verbatim>\<open>aoai.py\<close> and \<^verbatim>\<open>openai.py\<close>): a rendered prompt read as chat messages, the checks of functions and function
  calls, and the retries of a call. Rendering the template and the call of the service are parameters.
\<close>

section \<open>Roles\<close>

definition tool_error :: "string \<Rightarrow> msg \<Rightarrow> exn" where
  "tool_error name m = pf_exn (UserClass name (UserClass ''ToolValidationError'' (Pf UserErrorException))) m TOOL"

definition valid_roles :: "string list" where
  "valid_roles = [''system'', ''user'', ''assistant'', ''function'']"

text \<open>The order of the roles in the message is that of a set, which Python does not fix.\<close>

definition validate_role :: "string \<Rightarrow> unit res" where
  "validate_role role =
    (if role \<in> set valid_roles then Inr ()
     else Inl (tool_error ''ChatAPIInvalidRole''
       [PStr (''The Chat API requires a specific format for prompt definition, and the prompt should include separate '' @
          ''lines as role delimiters: '' @ join '','' (map (\<lambda>r. [CHR 0x27] @ r @ '':'' @ [CHR 0x5C] @ ''n'' @ [CHR 0x27]) valid_roles) @
          ''. Current parsed role '' @ [CHR 0x27] @ role @ [CHR 0x27] @ '' does not meet the requirement. If you intend to use the Completion '' @
          ''API, please select the appropriate API type and deployment name. If you do intend to use the Chat API, please refer to the '' @
          ''guideline at https://aka.ms/pfdoc/chat-prompt or view the samples in our gallery that contain '' @ [CHR 0x27] @ ''Chat'' @
          [CHR 0x27] @ '' in the name.'')]))"

text \<open>
  The separator: line breaks, a role in any case, spaces, a colon, and spaces up to the last line break among them.
  It gives the role as it is written and what follows.
\<close>

definition match_word :: "string \<Rightarrow> string \<Rightarrow> (string \<times> string) option" where
  "match_word w s = (if lower (take (length w) s) = w then Some (take (length w) s, drop (length w) s) else None)"

fun match_role :: "string list \<Rightarrow> string \<Rightarrow> (string \<times> string) option" where
  "match_role [] s = None"
| "match_role (w # ws) s = (case match_word w s of Some p \<Rightarrow> Some p | None \<Rightarrow> match_role ws s)"

definition newline :: char where
  "newline = CHR 0x0A"

text \<open>What follows the last line break of the spaces at the beginning.\<close>

fun after_newlines :: "string \<Rightarrow> string option" where
  "after_newlines [] = None"
| "after_newlines (c # s) =
    (if \<not> is_space c then None
     else (case after_newlines s of Some r \<Rightarrow> Some r | None \<Rightarrow> if c = newline then Some s else None))"

definition match_separator :: "string \<Rightarrow> (string \<times> string) option" where
  "match_separator s =
    (case match_role valid_roles (dropWhile (\<lambda>c. c = newline) s) of
       None \<Rightarrow> None
     | Some (role, r) \<Rightarrow>
        (case dropWhile is_space r of
           [] \<Rightarrow> None
         | c # r' \<Rightarrow> if c = CHR '':'' then map_option (\<lambda>r''. (role, r'')) (after_newlines r') else None))"

lemma after_newlines_shorter: "after_newlines s = Some r \<Longrightarrow> length r < length s"
  by (induction s arbitrary: r) (auto split: if_splits option.splits simp: less_SucI)

lemma match_role_shorter: "match_role ws s = Some (w, r) \<Longrightarrow> length r \<le> length s"
  by (induction ws) (auto simp: match_word_def split: option.splits if_splits)

lemma match_separator_shorter:
  assumes "match_separator s = Some (role, r)"
  shows "length r < length s"
proof -
  from assms obtain t c u where m: "match_role valid_roles (dropWhile (\<lambda>c. c = newline) s) = Some (role, t)"
    "dropWhile is_space t = c # u" "after_newlines u = Some r"
    by (auto simp: match_separator_def split: option.splits list.splits if_splits)
  have "length r < length u" using after_newlines_shorter [OF m(3)] .
  also have "\<dots> < length (c # u)" by simp
  also have "\<dots> \<le> length t" unfolding m(2) [symmetric] by (rule length_dropWhile_le)
  also have "\<dots> \<le> length (dropWhile (\<lambda>c. c = newline) s)" using match_role_shorter [OF m(1)] .
  also have "\<dots> \<le> length s" by (rule length_dropWhile_le)
  finally show ?thesis .
qed

text \<open>\<open>re.split\<close>: the text before the first separator, its role, the text up to the next one, and so on.\<close>

function split_chat :: "string \<Rightarrow> string \<Rightarrow> string list" where
  "split_chat before s =
    (case match_separator s of
       Some (role, r) \<Rightarrow> rev before # role # split_chat [] r
     | None \<Rightarrow> (case s of [] \<Rightarrow> [rev before] | c # s' \<Rightarrow> split_chat (c # before) s'))"
  by pat_completeness auto
termination by (relation "measure (\<lambda>(before, s). length s)") (auto dest: match_separator_shorter)

declare split_chat.simps [simp del]

section \<open>Messages\<close>

record chat_message =
  cm_role :: string
  cm_name :: "string option"
  cm_content :: "string option"

text \<open>
  The name is the longest part of the word after \<open>name:\<close> that leaves \<open>content:\<close> to follow: after spaces when it is the whole word, at
  once when it is shorter.
\<close>

fun function_name_at :: "nat \<Rightarrow> string \<Rightarrow> (string \<times> string) option" where
  "function_name_at 0 s = None"
| "function_name_at (Suc k) s =
    (let r = dropWhile is_space (drop (Suc k) s); head = ''content:'' @ [newline] in
     if startswith r head then Some (take (Suc k) s, drop (length head) r) else function_name_at k s)"

fun find_function :: "string \<Rightarrow> (string \<times> string) option" where
  "find_function [] = None"
| "find_function (c # s) =
    (let head = ''name:'' @ [newline]; t = dropWhile is_space (drop (length head) (c # s)) in
     case (if startswith (c # s) head then function_name_at (length (takeWhile (\<lambda>c. \<not> is_space c) t)) t else None) of
       Some p \<Rightarrow> Some p
     | None \<Rightarrow> find_function s)"

definition parse_function_role_prompt :: "string \<Rightarrow> (string \<times> string) res" where
  "parse_function_role_prompt s =
    (case find_function s of
       Some p \<Rightarrow> Inr p
     | None \<Rightarrow> Inl (tool_error ''ChatAPIFunctionRoleInvalidFormat''
         [PStr (''Failed to parse function role prompt. Please make sure the prompt follows the format: '' @
            [CHR 0x27] @ ''name:'' @ [CHR 0x5C] @ ''nfunction_name'' @ [CHR 0x5C] @ ''ncontent:'' @ [CHR 0x5C] @ ''nfunction_content'' @ [CHR 0x27] @
            ''. '' @ [CHR 0x27] @ ''name'' @ [CHR 0x27] @ '' is required if role is function, and it should be the name of the function whose response is in '' @
            ''the content. May contain a-z, A-Z, 0-9, and underscores, with a maximum length of 64 characters. See more details in '' @
            ''https://platform.openai.com/docs/api-reference/chat/create#chat/create-name or view sample '' @ [CHR 0x27] @
            ''How to use functions with chat models'' @ [CHR 0x27] @ '' in our gallery.'')]))"

definition chat_step :: "string \<Rightarrow> chat_message list \<Rightarrow> chat_message list res" where
  "chat_step chunk ms =
    (if ms \<noteq> [] \<and> cm_content (last ms) = None
     then (if cm_role (last ms) = ''function''
       then bindr (parse_function_role_prompt chunk) (\<lambda>(n, c). Inr (butlast ms @ [(last ms)\<lparr>cm_name := Some n, cm_content := Some c\<rparr>]))
       else Inr (butlast ms @ [(last ms)\<lparr>cm_content := Some chunk\<rparr>]))
     else if strip chunk = [] then Inr ms
     else bindr (validate_role (lower (strip chunk))) (\<lambda>_.
       Inr (ms @ [\<lparr>cm_role = lower (strip chunk), cm_name = None, cm_content = None\<rparr>])))"

definition parse_chat :: "string \<Rightarrow> chat_message list res" where
  "parse_chat s = foldr_res chat_step (split_chat [] s) []"

section \<open>Functions\<close>

definition invalid_functions :: "msg \<Rightarrow> 'a res" where
  "invalid_functions m = Inl (tool_error ''ChatAPIInvalidFunctions'' m)"

definition quoted :: "string \<Rightarrow> string" where
  "quoted s = [CHR 0x27] @ s @ [CHR 0x27]"

definition quoted_value :: "pyval \<Rightarrow> msg" where
  "quoted_value v = [PStr [CHR 0x27], v, PStr [CHR 0x27]]"

definition function_tsg :: msg where
  "function_tsg = [PStr '' Here is a valid function example: '',
     PStr (json_write (PDict [(''name'', PStr ''function_name''),
       (''parameters'', PDict [(''type'', PStr ''object''),
          (''properties'', PDict [(''parameter_name'', PDict [(''type'', PStr ''integer''), (''description'', PStr ''parameter_description'')])])]),
       (''description'', PStr ''function_description'')])),
     PStr ''. See more details at https://platform.openai.com/docs/api-reference/chat/create#chat/create-functions '',
     PStr (''or view sample '' @ quoted ''How to use functions with chat models'' @ '' in our gallery.'')]"

definition check_keys :: "string list \<Rightarrow> (string, pyval) dict \<Rightarrow> (string \<Rightarrow> msg) \<Rightarrow> unit res" where
  "check_keys ks d m = (case find (\<lambda>k. \<not> dict_has k d) ks of None \<Rightarrow> Inr () | Some k \<Rightarrow> invalid_functions (m k))"

definition validate_function :: "nat \<Rightarrow> pyval \<Rightarrow> unit res" where
  "validate_function i fn =
    (let who = [PStr (''function '' @ nat_str i @ '' '')]; missing = (\<lambda>k. [PStr ('' does not have '' @ quoted k @ '' property. '')] @ function_tsg);
         json_schema = [PStr '' should be described as a JSON Schema object. ''] @ function_tsg in
     case fn of
       PDict d \<Rightarrow>
         bindr (check_keys [''name'', ''parameters''] d (\<lambda>k. who @ quoted_value fn @ missing k)) (\<lambda>_.
           let name = dict_get d ''name'' PNone; ps = dict_get d ''parameters'' PNone;
               about = who @ quoted_value name @ [PStr '' parameters ''] in
           case ps of
             PDict p \<Rightarrow>
               bindr (check_keys [''type'', ''properties''] p (\<lambda>k. about @ quoted_value ps @ missing k)) (\<lambda>_.
               if as_str (dict_get p ''type'' PNone) \<noteq> Some ''object''
               then invalid_functions (about @ [PStr (quoted ''type'' @ '' should be '' @ quoted ''object'' @ ''. '')] @ function_tsg)
               else (case dict_get p ''properties'' PNone of
                   PDict _ \<Rightarrow> Inr ()
                 | _ \<Rightarrow> invalid_functions (about @ [PStr (quoted ''properties'')] @ json_schema)))
           | _ \<Rightarrow> invalid_functions (about @ quoted_value ps @ json_schema))
     | _ \<Rightarrow> invalid_functions (who @ quoted_value fn @ [PStr '' is not a dict. ''] @ function_tsg))"

definition validate_functions :: "pyval list \<Rightarrow> unit res" where
  "validate_functions fns =
    (if fns = [] then invalid_functions ([PStr ''functions cannot be an empty list. ''] @ function_tsg)
     else bindr (mapr (\<lambda>(i, fn). validate_function i fn) (enumerate 0 fns)) (\<lambda>_. Inr ()))"

definition function_call_tsg :: msg where
  "function_call_tsg = [PStr ''Here is a valid example: '', PStr (json_write (PDict [(''name'', PStr ''function_name'')])),
     PStr (''. See the guide at https://platform.openai.com/docs/api-reference/chat/create#chat/create-function_call '' @
       ''or view sample '' @ quoted ''How to call functions with chat models'' @ '' in our gallery.'')]"

definition type_text :: "pyval \<Rightarrow> string" where
  "type_text v = ''<class '' @ quoted (pytype_name (type_of v)) @ ''>''"

definition process_function_call :: "pyval \<Rightarrow> pyval res" where
  "process_function_call fc =
    (let bad = (\<lambda>m. invalid_functions ([PStr ''function_call parameter ''] @ quoted_value fc @ m @ function_call_tsg)) in
     if fc = PNone then Inr (PStr ''auto'')
     else if as_str fc \<in> {Some ''auto'', Some ''none''} then Inr fc
     else (case as_str fc of
         None \<Rightarrow> bad [PStr ('' must be str, bytes or bytearray, but not '' @ type_text fc @ ''. '')]
       | Some s \<Rightarrow> (case json_loads s of
           Inl _ \<Rightarrow> bad [PStr '' is an invalid json. '']
         | Inr (PDict d) \<Rightarrow>
             if dict_has ''name'' d then Inr (PDict d)
             else invalid_functions ([PStr ''function_call parameter '', fc, PStr (CHR '' '' # ''must contain '' @ [CHR 0x22] @ ''name'' @ [CHR 0x22] @ '' field. '')] @
               function_call_tsg)
         | Inr v \<Rightarrow> bad [PStr ('' must be a dict, but not '' @ type_text v @ ''. '')])))"

section \<open>The parameters of a chat\<close>

definition to_bool :: "pyenv \<Rightarrow> pyval \<Rightarrow> bool" where
  "to_bool env v = (lower (py_str (obj_repr env) v) = ''true'')"

definition message_dict :: "chat_message \<Rightarrow> (string, pyval) dict" where
  "message_dict m = [(''role'', PStr (cm_role m))] @ (case cm_name m of None \<Rightarrow> [] | Some n \<Rightarrow> [(''name'', PStr n)]) @
     (case cm_content m of None \<Rightarrow> [] | Some c \<Rightarrow> [(''content'', PStr c)])"

record chat_args =
  ca_model :: "string \<times> pyval"
  ca_temperature :: pyval
  ca_top_p :: pyval
  ca_n :: pyval
  ca_stream :: pyval
  ca_stop :: pyval
  ca_max_tokens :: pyval
  ca_presence_penalty :: pyval
  ca_frequency_penalty :: pyval
  ca_logit_bias :: pyval
  ca_user :: pyval
  ca_function_call :: pyval
  ca_functions :: "pyval list option"
  ca_headers :: "(string, pyval) dict"

definition max_tokens_param :: "pyenv \<Rightarrow> pyval \<Rightarrow> pyval res" where
  "max_tokens_param env v =
    (if truthy v \<and> lower (py_str (obj_repr env) v) \<noteq> ''inf'' then bindr (to_int v) (\<lambda>i. Inr (PInt i)) else Inr PNone)"

definition float_param :: "pyval \<Rightarrow> pyval res" where
  "float_param v = bindr (to_float v) (\<lambda>x. Inr (PFloat x))"

text \<open>\<open>chat_str\<close> is the rendered prompt. The two classes differ in the name of the model and in a header.\<close>

definition chat_params :: "pyenv \<Rightarrow> chat_args \<Rightarrow> string \<Rightarrow> (string, pyval) dict res" where
  "chat_params env a chat_str =
    bindr (parse_chat chat_str) (\<lambda>ms.
    bindr (float_param (ca_temperature a)) (\<lambda>temperature.
    bindr (float_param (ca_top_p a)) (\<lambda>top_p.
    bindr (to_int (ca_n a)) (\<lambda>n.
    bindr (max_tokens_param env (ca_max_tokens a)) (\<lambda>max_tokens.
    bindr (float_param (ca_presence_penalty a)) (\<lambda>presence.
    bindr (float_param (ca_frequency_penalty a)) (\<lambda>frequency.
    bindr (case ca_functions a of
        None \<Rightarrow> Inr []
      | Some fns \<Rightarrow> bindr (validate_functions fns) (\<lambda>_. bindr (process_function_call (ca_function_call a)) (\<lambda>fc.
          Inr [(''functions'', PList fns), (''function_call'', fc)]))) (\<lambda>functions.
      Inr ([ca_model a, (''messages'', PList (map (\<lambda>m. PDict (message_dict m)) ms)), (''temperature'', temperature), (''top_p'', top_p),
        (''n'', PInt n), (''stream'', PBool (to_bool env (ca_stream a))), (''stop'', if truthy (ca_stop a) then ca_stop a else PNone),
        (''max_tokens'', max_tokens), (''presence_penalty'', presence), (''frequency_penalty'', frequency),
        (''logit_bias'', ca_logit_bias a), (''user'', ca_user a)] @ ca_headers a @ functions)))))))))"

section \<open>Retrying a call\<close>

text \<open>
  What the loop asks of an error of the service: its class and its text, whether its quota is used up, and the text of its
  \<open>Retry-After\<close> header, if it has one. The exceptions the engine makes of it, and those raised while handling it, do not keep
  it as their context in the model.
\<close>

datatype openai_class = RateLimit | ServiceUnavailable | API | Timeout | APIConnection | OtherOpenAI string

fun openai_class_name :: "openai_class \<Rightarrow> string" where
  "openai_class_name RateLimit = ''RateLimitError''"
| "openai_class_name ServiceUnavailable = ''ServiceUnavailableError''"
| "openai_class_name API = ''APIError''"
| "openai_class_name Timeout = ''Timeout''"
| "openai_class_name APIConnection = ''APIConnectionError''"
| "openai_class_name (OtherOpenAI n) = n"

record service_error =
  se_class :: openai_class
  se_text :: string
  se_quota :: bool
  se_retry_after :: "string option"

datatype 'a call_result = Answer 'a | ServiceError service_error | OtherError exn

definition to_openai_error_message :: "service_error \<Rightarrow> string" where
  "to_openai_error_message e =
    ''OpenAI API hits '' @ openai_class_name (se_class e) @ '': '' @
    (if se_text e = ''<empty message>'' then ''The api key is invalid or revoked. You can correct or regenerate the api key of your connection.''
     else if sublist ''Unrecognized request argument supplied: functions'' (se_text e) then ''Current model does not support the `functions` parameter. If you are using openai connection, then please use gpt-3.5-turbo, '' @
       ''gpt-4, gpt-4-32k, gpt-3.5-turbo-0613 or gpt-4-0613. You can refer to https://platform.openai.com/docs/guides/gpt/function-calling. '' @
       ''If you are using azure openai connection, then please first go to your Azure OpenAI resource, deploy model '' @ quoted ''gpt-35-turbo'' @
       '' or '' @ quoted ''gpt-4'' @ '' with version 0613, then go to prompt flow connection page, upgrade connection api version to '' @
       quoted ''2023-07-01-preview'' @ ''. You can refer to '' @
       ''https://learn.microsoft.com/en-us/azure/ai-services/openai/how-to/function-calling.''
     else if sublist ''The completion operation does not work with the specified model'' (se_text e) \<or>
       sublist ''logprobs, best_of and echo parameters are not available'' (se_text e)
     then ''The completion operation does not work with the current model. Completion API is a legacy api and is going to be deprecated soon. '' @
       ''Please change to use Chat API for current model. You could refer to guideline at https://aka.ms/pfdoc/chat-prompt '' @
       ''or view the samples in our gallery that contain '' @ quoted ''Chat'' @ '' in the name.''
     else se_text e @ '' [Error reference: https://platform.openai.com/docs/guides/error-codes/api-errors]'')"

definition wrapped_openai_error :: "service_error \<Rightarrow> exn" where
  "wrapped_openai_error e = pf_exn (UserClass ''WrappedOpenAIError'' (Pf UserErrorException)) [PStr (to_openai_error_message e)] TOOL"

definition exceed_max_retry_times :: "service_error \<Rightarrow> exn" where
  "exceed_max_retry_times e = pf_exn (UserClass ''ExceedMaxRetryTimes'' (UserClass ''WrappedOpenAIError'' (Pf UserErrorException)))
     [PStr (''Exceed max retry times. '' @ to_openai_error_message e)] TOOL"

definition llm_error :: "exn \<Rightarrow> exn" where
  "llm_error e = pf_exn (UserClass ''LLMError'' (Pf UserErrorException))
     ([PStr (''OpenAI API hits exception: '' @ class_name (ex_class (ex e)) @ '': '')] @ ex_message (ex e)) TOOL"

definition retriable :: "service_error \<Rightarrow> bool" where
  "retriable e = (case se_class e of
     OtherOpenAI _ \<Rightarrow> False
   | RateLimit \<Rightarrow> \<not> se_quota e
   | APIConnection \<Rightarrow> sublist ''connection aborted'' (lower (se_text e))
   | _ \<Rightarrow> True)"

text \<open>An empty header counts as none.\<close>

definition header_text :: "service_error \<Rightarrow> string option" where
  "header_text e = (if se_retry_after e = Some [] then None else se_retry_after e)"

fun float_value :: "pyfloat \<Rightarrow> rat option" where
  "float_value (Fin m e) = Some (if 0 \<le> e then of_int m * 10 ^ nat e else of_int m / 10 ^ nat (- e))"
| "float_value _ = None"

text \<open>\<open>time.sleep\<close> takes a number of seconds that is not negative and whose nanoseconds fit into 64 bits.\<close>

definition sleep_error :: "rat \<Rightarrow> exn option" where
  "sleep_error t =
    (if t * 10 ^ 9 \<ge> 2 ^ 63 \<or> t * 10 ^ 9 < - (2 ^ 63)
     then Some (py_exn OverflowError [PStr ''timestamp too large to convert to C _PyTime_t''])
     else if t < 0 then Some (py_exn ValueError [PStr ''sleep length must be non-negative'']) else None)"

definition sleep_for :: "rat \<Rightarrow> rat res" where
  "sleep_for t = (case sleep_error t of Some e \<Rightarrow> Inl e | None \<Rightarrow> Inr t)"

text \<open>The seconds slept after the \<open>i\<close>-th call. A header that is the text of no number raises in \<open>float\<close>, and a time that
  cannot be slept in \<open>time.sleep\<close>; infinity and NaN are texts of numbers.\<close>

definition back_off :: "rat \<Rightarrow> nat \<Rightarrow> service_error \<Rightarrow> rat res" where
  "back_off delay i e =
    (case header_text e of
       None \<Rightarrow> sleep_for (delay * 2 ^ i)
     | Some h \<Rightarrow> bindr (to_float (PStr h)) (\<lambda>f.
         case f of
           NaN \<Rightarrow> Inl (py_exn ValueError [PStr ''Invalid value NaN (not a number)''])
         | Inf n \<Rightarrow> Inl (py_exn OverflowError [PStr ''timestamp too large to convert to C _PyTime_t''])
         | Fin m x \<Rightarrow> sleep_for (the (float_value (Fin m x)) * 2 ^ i)))"

text \<open>The attempts from the \<open>i\<close>-th on, \<open>n\<close> more after it: the result and the delays before the later ones. What is raised while
  the delay is worked out leaves the loop as it is: no clause of the same \<open>try\<close> catches it.\<close>

fun attempts :: "rat \<Rightarrow> nat \<Rightarrow> nat \<Rightarrow> (nat \<Rightarrow> 'a call_result) \<Rightarrow> 'a res \<times> rat list" where
  "attempts delay i n call =
    (case call i of
       Answer v \<Rightarrow> (Inr v, [])
     | OtherError e \<Rightarrow> (Inl (if isinstance e (Pf SystemErrorException) \<or> isinstance e (Pf UserErrorException) then e else llm_error e), [])
     | ServiceError e \<Rightarrow>
         if \<not> retriable e then (Inl (wrapped_openai_error e), [])
         else (case n of
             0 \<Rightarrow> (Inl (exceed_max_retry_times e), [])
           | Suc m \<Rightarrow>
              (case back_off delay i e of
                 Inl x \<Rightarrow> (Inl x, [])
               | Inr d \<Rightarrow> (case attempts delay (Suc i) m call of (r, ds) \<Rightarrow> (r, d # ds)))))"

declare attempts.simps [simp del]

definition handle_openai_error :: "nat \<Rightarrow> rat \<Rightarrow> (nat \<Rightarrow> 'a call_result) \<Rightarrow> 'a res \<times> rat list" where
  "handle_openai_error tries delay call = attempts delay 0 tries call"

section \<open>Reading a written chat\<close>

fun write_chat :: "(string \<times> string) list \<Rightarrow> string" where
  "write_chat [] = []"
| "write_chat ((r, c) # ms) = r @ '':'' @ [newline] @ c @ (if ms = [] then [] else newline # write_chat ms)"

text \<open>A content that stays as it is: its first line is not blank, it does not end in a line break, and no separator begins in it.\<close>

definition clean_content :: "string \<Rightarrow> bool" where
  "clean_content c \<longleftrightarrow> dropWhile is_space c \<noteq> [] \<and> newline \<notin> set (takeWhile is_space c) \<and> last c \<noteq> newline \<and>
     list_all (\<lambda>b. b = [] \<or> match_separator (b @ [newline]) = None) (suffixes c)"

definition clean_message :: "string \<times> string \<Rightarrow> bool" where
  "clean_message rc \<longleftrightarrow> fst rc \<in> set valid_roles - {''function''} \<and> clean_content (snd rc)"

lemma newline_space: "is_space newline"
  by (simp add: is_space_def newline_def)

lemma after_newlines_append: "after_newlines s = Some r \<Longrightarrow> \<exists>r'. after_newlines (s @ u) = Some r'"
  by (induction s arbitrary: r) (auto split: if_splits option.splits)

lemma after_newlines_end: "after_newlines (s @ newline # t) = Some r \<Longrightarrow> \<exists>r'. after_newlines (s @ [newline]) = Some r'"
  by (induction s arbitrary: r) (auto simp: newline_space split: if_splits option.splits)

lemma after_newlines_text: "dropWhile is_space c \<noteq> [] \<Longrightarrow> newline \<notin> set (takeWhile is_space c) \<Longrightarrow> after_newlines (c @ u) = None"
  by (induction c) (auto split: if_splits)

lemma lower_newline: "lower_char c = newline \<longleftrightarrow> c = newline"
proof (cases "65 \<le> (of_char c :: nat) \<and> (of_char c :: nat) \<le> 90")
  case True
  then have "(of_char (lower_char c) :: nat) = of_char c + 32" by (simp add: lower_char_def Let_def)
  moreover have "(of_char newline :: nat) = 10" by (simp add: newline_def)
  ultimately show ?thesis using True by auto
next
  case False
  then have "lower_char c = c" by (auto simp: lower_char_def Let_def)
  then show ?thesis by simp
qed

lemma roles_letters: "w \<in> set valid_roles \<Longrightarrow> w \<noteq> [] \<and> list_all (\<lambda>c. \<not> is_space c \<and> c \<noteq> CHR '':'' \<and> lower_char c = c) w"
  by (auto simp: valid_roles_def is_space_def lower_char_def)

text \<open>A word that is matched ends before a line break.\<close>

lemma match_word_before:
  assumes "match_word w (b @ newline # t) = Some (x, r)" "newline \<notin> set w"
  obtains r0 where "b = x @ r0" "r = r0 @ newline # t" "match_word w (b @ u) = Some (x, r0 @ u)"
proof -
  from assms(1) have m: "lower (take (length w) (b @ newline # t)) = w" "x = take (length w) (b @ newline # t)" "r = drop (length w) (b @ newline # t)"
    by (auto simp: match_word_def split: if_splits)
  have "length w \<le> length b"
  proof (rule ccontr)
    assume "\<not> length w \<le> length b"
    then have "newline \<in> set (take (length w) (b @ newline # t))" by (simp add: take_Cons')
    then have "newline \<in> set (lower (take (length w) (b @ newline # t)))" using lower_newline by (force simp: lower_def)
    with m(1) assms(2) show False by simp
  qed
  with m show thesis by (intro that [of "drop (length w) b"]) (simp_all add: match_word_def)
qed

lemma match_word_extends: "match_word w b = Some (x, r) \<Longrightarrow> match_word w (b @ u) = Some (x, r @ u)"
proof -
  assume m: "match_word w b = Some (x, r)"
  then have l: "lower (take (length w) b) = w" by (simp add: match_word_def split: if_splits)
  have "length w = length (lower (take (length w) b))" using l by simp
  then have "length w \<le> length b" by (simp add: lower_def)
  with m show ?thesis by (auto simp: match_word_def split: if_splits)
qed

lemma match_word_None:
  assumes "match_word w (b @ u) = None" "newline \<notin> set w"
  shows "match_word w (b @ newline # t) = None"
proof (cases "match_word w (b @ newline # t)")
  case (Some p)
  then obtain x r where "match_word w (b @ newline # t) = Some (x, r)" by (cases p) auto
  then obtain r0 where "match_word w (b @ u) = Some (x, r0 @ u)" by (rule match_word_before [OF _ assms(2), of b t x r u])
  with assms(1) show ?thesis by simp
qed simp

lemma match_role_before:
  assumes "match_role ws (b @ newline # t) = Some (x, r)" "\<forall>w\<in>set ws. newline \<notin> set w"
  shows "\<exists>r0. b = x @ r0 \<and> r = r0 @ newline # t \<and> match_role ws (b @ [newline]) = Some (x, r0 @ [newline])"
  using assms
proof (induction ws)
  case (Cons w ws)
  show ?case
  proof (cases "match_word w (b @ newline # t)")
    case None
    then have "match_word w (b @ [newline]) = None" using match_word_None [of w b "newline # t" "[]"] Cons.prems(2) by simp
    with None Cons show ?thesis by simp
  next
    case (Some p)
    then obtain y q where p: "match_word w (b @ newline # t) = Some (y, q)" by (cases p) auto
    from match_word_before [OF p, of "[newline]"] Cons.prems(2) obtain r0 where
      "b = y @ r0" "q = r0 @ newline # t" "match_word w (b @ [newline]) = Some (y, r0 @ [newline])" by auto
    with p Cons.prems(1) show ?thesis by auto
  qed
qed simp

lemma match_role_extends:
  assumes "match_role ws b = Some (x, r)" "\<forall>w\<in>set ws. newline \<notin> set w"
  shows "match_role ws (b @ [newline]) = Some (x, r @ [newline])"
  using assms
proof (induction ws)
  case (Cons w ws)
  show ?case
  proof (cases "match_word w b")
    case None
    then have "match_word w (b @ [newline]) = None" using match_word_None [of w b "[]" "[]"] Cons.prems(2) by simp
    with None Cons show ?thesis by simp
  next
    case (Some p)
    with Cons.prems(1) match_word_extends [of w b "fst p" "snd p" "[newline]"] show ?thesis by auto
  qed
qed simp

lemma roles_no_newline: "\<forall>w\<in>set valid_roles. newline \<notin> set w"
  by (simp add: valid_roles_def newline_def)

lemma separator_inside:
  assumes "match_separator (b @ newline # t) = Some p" "b \<noteq> []" "last b \<noteq> newline" "t = [] \<or> \<not> is_space (hd t) \<and> hd t \<noteq> CHR '':''"
  shows "match_separator (b @ [newline]) \<noteq> None"
proof -
  let ?b = "dropWhile (\<lambda>c. c = newline) b"
  have lead: "dropWhile (\<lambda>c. c = newline) (b @ u) = ?b @ u" for u
    using assms(2,3) by (intro dropWhile_append1 [of "last b"]) auto
  from assms(1) obtain x r c r' q where m: "match_role valid_roles (?b @ newline # t) = Some (x, r)"
    "dropWhile is_space r = c # r'" "c = CHR '':''" "after_newlines r' = Some q"
    by (auto simp: match_separator_def lead split: option.splits list.splits if_splits)
  from match_role_before [OF m(1) roles_no_newline] obtain r0 where r0: "r = r0 @ newline # t"
    "match_role valid_roles (?b @ [newline]) = Some (x, r0 @ [newline])" by blast
  have "\<exists>y\<in>set r0. \<not> is_space y"
  proof (rule ccontr)
    assume "\<not> (\<exists>y\<in>set r0. \<not> is_space y)"
    then have "dropWhile is_space r = dropWhile is_space t" unfolding r0(1) by (simp add: dropWhile_append2 newline_space)
    with m(2,3) assms(4) show False by (cases t) (auto split: if_splits)
  qed
  then have d: "dropWhile is_space (r0 @ u) = dropWhile is_space r0 @ u" for u by (auto intro: dropWhile_append1)
  with m(2) \<open>\<exists>y\<in>set r0. \<not> is_space y\<close> obtain r1 where r1: "dropWhile is_space r0 = c # r1" "r' = r1 @ newline # t"
    unfolding r0(1) by (cases "dropWhile is_space r0") auto
  from after_newlines_end [of r1 t q] m(4) r1(2) obtain q' where "after_newlines (r1 @ [newline]) = Some q'" by auto
  then show ?thesis by (simp add: match_separator_def lead r0(2) d r1(1) m(3))
qed

lemma separator_at_end:
  assumes "match_separator b = Some p"
  shows "match_separator (b @ [newline]) \<noteq> None"
proof -
  let ?b = "dropWhile (\<lambda>c. c = newline) b"
  from assms obtain x r c r' q where m: "match_role valid_roles ?b = Some (x, r)" "dropWhile is_space r = c # r'" "c = CHR '':''" "after_newlines r' = Some q"
    by (auto simp: match_separator_def split: option.splits list.splits if_splits)
  have "match_role valid_roles [] = None" by code_simp
  with m(1) have "?b \<noteq> []" by (metis option.distinct(1))
  then have lead: "dropWhile (\<lambda>c. c = newline) (b @ [newline]) = ?b @ [newline]" by (simp add: dropWhile_append)
  have "\<exists>y\<in>set r. \<not> is_space y" using m(2) by (metis dropWhile_eq_Nil_conv list.distinct(1))
  then have "dropWhile is_space (r @ [newline]) = c # r' @ [newline]" using m(2) by (auto simp: dropWhile_append)
  moreover from after_newlines_append [OF m(4), of "[newline]"] obtain q' where "after_newlines (r' @ [newline]) = Some q'" by blast
  ultimately show ?thesis by (simp add: match_separator_def lead match_role_extends [OF m(1) roles_no_newline] m(3))
qed

lemma match_valid_role: "r \<in> set valid_roles \<Longrightarrow> match_role valid_roles (r @ t) = Some (r, t)"
  by (auto simp: valid_roles_def match_word_def lower_def lower_char_def)

lemma written_separator:
  assumes "r \<in> set valid_roles" "dropWhile is_space c \<noteq> []" "newline \<notin> set (takeWhile is_space c)" "pre = [] \<or> pre = [newline]"
  shows "match_separator (pre @ r @ CHR '':'' # newline # c @ u) = Some (r, c @ u)"
proof -
  have "hd r \<noteq> newline" "r \<noteq> []" using assms(1) by (auto simp: valid_roles_def newline_def)
  then have "dropWhile (\<lambda>c. c = newline) (pre @ r @ CHR '':'' # newline # c @ u) = r @ CHR '':'' # newline # c @ u"
    using assms(4) by (cases r) auto
  moreover have "\<not> is_space (CHR '':'')" by (simp add: is_space_def)
  ultimately show ?thesis
    by (simp add: match_separator_def match_valid_role [OF assms(1)] newline_space after_newlines_text [OF assms(2,3)])
qed

lemma split_chat_passes:
  assumes "\<forall>b\<in>set (suffixes c). b \<noteq> [] \<longrightarrow> match_separator (b @ u) = None"
  shows "split_chat acc (c @ u) = split_chat (rev c @ acc) u"
  using assms
proof (induction c arbitrary: acc)
  case (Cons x c)
  then have "match_separator ((x # c) @ u) = None" by simp
  then have "split_chat acc ((x # c) @ u) = split_chat (x # acc) (c @ u)" by (simp add: split_chat.simps [of acc])
  with Cons show ?case by simp
qed simp

lemma clean_passes:
  assumes "clean_content c" "u = [] \<or> (\<exists>t. u = newline # t \<and> t \<noteq> [] \<and> \<not> is_space (hd t) \<and> hd t \<noteq> CHR '':'')"
  shows "split_chat acc (c @ u) = split_chat (rev c @ acc) u"
proof (rule split_chat_passes, intro ballI impI)
  fix b assume b: "b \<in> set (suffixes c)" "b \<noteq> []"
  then have none: "match_separator (b @ [newline]) = None" using assms(1) by (auto simp: clean_content_def list_all_iff)
  have "last b = last c" using b by (auto simp: suffix_def)
  then have "last b \<noteq> newline" using assms(1) by (simp add: clean_content_def)
  with separator_inside [of b _ _] separator_at_end [of b] none b(2) assms(2) show "match_separator (b @ u) = None"
    by (cases "match_separator (b @ u)") auto
qed

definition alternating :: "(string \<times> string) list \<Rightarrow> string list" where
  "alternating ms = concat (map (\<lambda>(r, c). [r, c]) ms)"

lemma split_written:
  assumes "list_all clean_message ms" "ms \<noteq> []" "pre = [] \<or> pre = [newline]"
  shows "split_chat acc (pre @ write_chat ms) = rev acc # alternating ms"
  using assms
proof (induction ms arbitrary: acc pre)
  case (Cons m ms)
  obtain r c where m: "m = (r, c)" by force
  with Cons.prems(1) have r: "r \<in> set valid_roles" and c: "clean_content c" by (auto simp: clean_message_def)
  let ?u = "if ms = [] then [] else newline # write_chat ms"
  have "match_separator (pre @ write_chat (m # ms)) = Some (r, c @ ?u)"
    using written_separator [OF r _ _ Cons.prems(3), of c ?u] c by (simp add: m clean_content_def)
  then have step: "split_chat acc (pre @ write_chat (m # ms)) = rev acc # r # split_chat [] (c @ ?u)"
    by (subst split_chat.simps) simp
  have "?u = [] \<or> (\<exists>t. ?u = newline # t \<and> t \<noteq> [] \<and> \<not> is_space (hd t) \<and> hd t \<noteq> CHR '':'')"
  proof (cases ms)
    case (Cons m' ms')
    with Cons.prems(1) have "fst m' \<in> set valid_roles" by (auto simp: clean_message_def)
    with roles_letters [OF this] Cons show ?thesis by (cases m'; cases "fst m'") auto
  qed simp
  from clean_passes [OF c this, of "[]"] have "split_chat [] (c @ ?u) = split_chat (rev c) ?u" by simp
  also have "\<dots> = c # alternating ms"
  proof (cases "ms = []")
    case True
    have "match_separator [] = None" by code_simp
    with True show ?thesis by (simp add: split_chat.simps alternating_def)
  next
    case False
    with Cons.IH [of "[newline]" "rev c"] Cons.prems(1) show ?thesis by simp
  qed
  finally show ?case using step by (simp add: m alternating_def)
qed simp

definition as_message :: "string \<times> string \<Rightarrow> chat_message" where
  "as_message rc = \<lparr>cm_role = fst rc, cm_name = None, cm_content = Some (snd rc)\<rparr>"

lemma role_read: "r \<in> set valid_roles \<Longrightarrow> strip r = r \<and> r \<noteq> [] \<and> lower r = r"
  by (auto simp: valid_roles_def strip_def is_space_def lower_def lower_char_def)

lemma chat_steps:
  assumes "list_all clean_message ms" "acc = [] \<or> cm_content (last acc) \<noteq> None"
  shows "foldr_res chat_step (alternating ms) acc = Inr (acc @ map as_message ms)"
  using assms
proof (induction ms arbitrary: acc)
  case (Cons m ms)
  obtain r c where m: "m = (r, c)" by force
  with Cons.prems(1) have r: "r \<in> set valid_roles" "r \<noteq> ''function''" by (auto simp: clean_message_def)
  note rr = role_read [OF r(1)]
  have "chat_step r acc = Inr (acc @ [\<lparr>cm_role = r, cm_name = None, cm_content = None\<rparr>])"
    using Cons.prems(2) rr r(1) by (auto simp: chat_step_def validate_role_def)
  moreover have "chat_step c (acc @ [\<lparr>cm_role = r, cm_name = None, cm_content = None\<rparr>]) = Inr (acc @ [as_message m])"
    using r(2) by (simp add: chat_step_def as_message_def m)
  moreover have "foldr_res chat_step (alternating ms) (acc @ [as_message m]) = Inr ((acc @ [as_message m]) @ map as_message ms)"
    using Cons by (intro Cons.IH) (simp_all add: as_message_def)
  ultimately show ?case by (simp add: m alternating_def)
qed (simp add: alternating_def)

text \<open>C37. Reading a chat written with one role line before each content gives the messages back: any number of messages of the
  roles other than functions, whose contents have a first line that is not blank, do not end in a line break, and have no
  separator in them.\<close>

theorem written_chat_read:
  assumes "list_all clean_message ms"
  shows "parse_chat (write_chat ms) = Inr (map as_message ms)"
proof (cases "ms = []")
  case True
  have "parse_chat [] = Inr []" by code_simp
  with True show ?thesis by simp
next
  case False
  from split_written [OF assms this, of "[]" "[]"] have "split_chat [] (write_chat ms) = [] # alternating ms" by simp
  moreover have "chat_step [] [] = Inr []" by (simp add: chat_step_def strip_def)
  ultimately show ?thesis using chat_steps [OF assms, of "[]"] by (simp add: parse_chat_def)
qed

theorem written_chat_read_witness:
  "parse_chat (''system:'' @ [newline] @ ''Be brief.'' @ [newline] @ ''user:'' @ [newline] @ ''a: b'' @ [newline, newline] @ ''c'') =
     Inr (map as_message [(''system'', ''Be brief.''), (''user'', ''a: b'' @ [newline, newline] @ ''c'')])"
proof -
  have "list_all clean_message [(''system'', ''Be brief.''), (''user'', ''a: b'' @ [newline, newline] @ ''c'')]" by code_simp
  from written_chat_read [OF this] show ?thesis by simp
qed

section \<open>Reading any chat\<close>

lemma lower_space: "is_space (lower_char c) \<longleftrightarrow> is_space c"
proof (cases "65 \<le> (of_char c :: nat) \<and> (of_char c :: nat) \<le> 90")
  case True
  then have "(of_char (lower_char c) :: nat) = of_char c + 32" by (simp add: lower_char_def Let_def)
  with True show ?thesis by (simp add: is_space_def Let_def)
next
  case False
  then have "lower_char c = c" by (auto simp: lower_char_def Let_def)
  then show ?thesis by simp
qed

lemma match_role_word: "match_role ws s = Some (x, r) \<Longrightarrow> lower x \<in> set ws"
  by (induction ws) (auto simp: match_word_def split: option.splits if_splits)

lemma match_separator_role: "match_separator s = Some (x, r) \<Longrightarrow> lower x \<in> set valid_roles"
  using match_role_word by (auto simp: match_separator_def split: option.splits list.splits if_splits)

lemma split_chat_pairs: "\<exists>b ps. split_chat before s = b # alternating ps \<and> list_all (\<lambda>(r, c). lower r \<in> set valid_roles) ps"
proof (induction before s rule: split_chat.induct)
  case (1 before s)
  show ?case
  proof (cases "match_separator s")
    case None
    show ?thesis
    proof (cases s)
      case Nil
      with None show ?thesis by (intro exI [of _ "rev before"] exI [of _ "[]"]) (simp add: split_chat.simps alternating_def)
    next
      case (Cons c s')
      with 1(1) [OF None Cons] None show ?thesis by (subst split_chat.simps) simp
    qed
  next
    case (Some p)
    obtain role r where p: "p = (role, r)" by force
    with 1(2) [OF Some p [symmetric]] obtain b ps where ps: "split_chat [] r = b # alternating ps" "list_all (\<lambda>(r, c). lower r \<in> set valid_roles) ps" by blast
    with Some p have "split_chat before s = rev before # alternating ((role, b) # ps)"
      by (subst split_chat.simps) (simp add: alternating_def)
    with ps(2) match_separator_role [OF Some [unfolded p]] show ?thesis
      by (intro exI [of _ "rev before"] exI [of _ "(role, b) # ps"]) simp
  qed
qed

lemma role_word_kept:
  assumes "lower r \<in> set valid_roles"
  shows "strip r = r \<and> r \<noteq> []"
proof -
  from roles_letters [OF assms] have "lower r \<noteq> []" "list_all (\<lambda>c. \<not> is_space c) (lower r)" by (auto simp: list_all_iff)
  then have "r \<noteq> []" "\<forall>c\<in>set r. \<not> is_space c" by (auto simp: lower_def list_all_iff lower_space)
  moreover from this have "dropWhile is_space r = r" "dropWhile is_space (rev r) = rev r"
    by (auto simp: dropWhile_eq_self_iff hd_rev)
  ultimately show ?thesis by (simp add: strip_def)
qed

text \<open>A message made of a separator and the text after it.\<close>

definition message_of :: "string \<times> string \<Rightarrow> chat_message res" where
  "message_of rc = (case rc of (r, c) \<Rightarrow>
     if lower r = ''function''
     then bindr (parse_function_role_prompt c) (\<lambda>(n, x). Inr \<lparr>cm_role = ''function'', cm_name = Some n, cm_content = Some x\<rparr>)
     else Inr \<lparr>cm_role = lower r, cm_name = None, cm_content = Some c\<rparr>)"

lemma message_of_content: "message_of rc = Inr m \<Longrightarrow> cm_content m \<noteq> None"
  by (auto simp: message_of_def res_simps split: prod.splits if_splits)

lemma chat_steps_pairs:
  assumes "list_all (\<lambda>(r, c). lower r \<in> set valid_roles) ps" "acc = [] \<or> cm_content (last acc) \<noteq> None"
  shows "foldr_res chat_step (alternating ps) acc = bindr (mapr message_of ps) (\<lambda>ms. Inr (acc @ ms))"
  using assms
proof (induction ps arbitrary: acc)
  case (Cons p ps)
  obtain r c where p: "p = (r, c)" by force
  with Cons.prems(1) have r: "lower r \<in> set valid_roles" by simp
  let ?open = "acc @ [\<lparr>cm_role = lower r, cm_name = None, cm_content = None\<rparr>]"
  have role: "chat_step r acc = Inr ?open"
    using Cons.prems(2) role_word_kept [OF r] r by (auto simp: chat_step_def validate_role_def)
  have content: "chat_step c ?open = bindr (message_of p) (\<lambda>m. Inr (acc @ [m]))"
    by (simp add: chat_step_def message_of_def p split: prod.splits) (cases "parse_function_role_prompt c"; auto)
  show ?case
  proof (cases "message_of p")
    case (Inl e)
    with role content show ?thesis by (simp add: p alternating_def)
  next
    case (Inr m)
    have "foldr_res chat_step (alternating ps) (acc @ [m]) = bindr (mapr message_of ps) (\<lambda>ms. Inr ((acc @ [m]) @ ms))"
      using Cons.prems(1) message_of_content [OF Inr] by (intro Cons.IH) simp_all
    then show ?thesis using role content Inr by (simp add: p alternating_def) (cases "mapr message_of ps"; simp)
  qed
qed (simp add: alternating_def)

text \<open>C36. The loop over the pieces of a prompt, which fills the last message or opens a new one, does what reading the pieces in pairs
  does: when only spaces come before the first separator, there is one message for every separator, with its role in lower case
  and the text up to the next separator, from which a function takes its name. Any other text in front is refused unless it
  is itself the name of a role.\<close>

theorem chat_read_in_pairs:
  "\<exists>before ps. split_chat [] s = before # alternating ps \<and>
     (strip before = [] \<longrightarrow> parse_chat s = mapr message_of ps) \<and>
     (strip before \<noteq> [] \<and> lower (strip before) \<notin> set valid_roles \<longrightarrow>
        (\<exists>m. parse_chat s = Inl (tool_error ''ChatAPIInvalidRole'' m)))"
proof -
  from split_chat_pairs [of "[]" s] obtain b ps where split: "split_chat [] s = b # alternating ps"
    and roles: "list_all (\<lambda>(r, c). lower r \<in> set valid_roles) ps" by blast
  have "parse_chat s = mapr message_of ps" if "strip b = []"
    using chat_steps_pairs [OF roles, of "[]"] that
    by (simp add: parse_chat_def split chat_step_def) (cases "mapr message_of ps"; simp)
  moreover have "\<exists>m. parse_chat s = Inl (tool_error ''ChatAPIInvalidRole'' m)" if "strip b \<noteq> []" "lower (strip b) \<notin> set valid_roles"
    using that by (auto simp: parse_chat_def split chat_step_def validate_role_def)
  ultimately show ?thesis using split by blast
qed

theorem chat_read_in_pairs_witness:
  "\<exists>m. parse_chat (''Answer politely. user:'' @ [newline] @ ''hi'') = Inl (tool_error ''ChatAPIInvalidRole'' m)"
proof -
  let ?s = "''Answer politely. user:'' @ [newline] @ ''hi''"
  have split: "split_chat [] ?s = [''Answer politely. '', ''user'', ''hi'']" by code_simp
  from chat_read_in_pairs [of ?s] obtain b ps where b: "split_chat [] ?s = b # alternating ps"
    "strip b \<noteq> [] \<and> lower (strip b) \<notin> set valid_roles \<longrightarrow> (\<exists>m. parse_chat ?s = Inl (tool_error ''ChatAPIInvalidRole'' m))" by blast
  have "b = ''Answer politely. ''" using b(1) split by simp
  moreover have "strip ''Answer politely. '' \<noteq> [] \<and> lower (strip ''Answer politely. '') \<notin> set valid_roles" by code_simp
  ultimately show ?thesis using b(2) by blast
qed

section \<open>The retries of a call\<close>

lemma attempts_outcome:
  assumes "attempts delay i n call = (r, ds)"
  shows "length ds \<le> n \<and> (\<forall>j<length ds. \<exists>e. call (i + j) = ServiceError e \<and> retriable e \<and> back_off delay (i + j) e = Inr (ds ! j)) \<and>
    (case call (i + length ds) of
       Answer v \<Rightarrow> r = Inr v
     | ServiceError e \<Rightarrow>
         (if \<not> retriable e then r = Inl (wrapped_openai_error e)
          else if length ds = n then r = Inl (exceed_max_retry_times e)
          else \<exists>x. back_off delay (i + length ds) e = Inl x \<and> r = Inl x)
     | OtherError e \<Rightarrow> r = Inl (if isinstance e (Pf SystemErrorException) \<or> isinstance e (Pf UserErrorException) then e else llm_error e))"
  using assms
proof (induction n arbitrary: i r ds)
  case 0
  then show ?case by (subst (asm) attempts.simps) (auto split: call_result.splits if_splits)
next
  case (Suc n)
  show ?case
  proof (cases "\<exists>e d. call i = ServiceError e \<and> retriable e \<and> back_off delay i e = Inr d")
    case False
    with Suc.prems show ?thesis by (subst (asm) attempts.simps) (auto split: call_result.splits if_splits sum.splits)
  next
    case True
    then obtain e d where e: "call i = ServiceError e" "retriable e" "back_off delay i e = Inr d" by blast
    obtain r' ds' where rec: "attempts delay (Suc i) n call = (r', ds')" by force
    with Suc.prems e have d: "r = r'" "ds = d # ds'" by (subst (asm) attempts.simps; simp)+
    have "\<exists>x. call (i + j) = ServiceError x \<and> retriable x \<and> back_off delay (i + j) x = Inr (ds ! j)" if "j < length ds" for j
      using that Suc.IH [OF rec] e by (cases j) (auto simp: d(2))
    with Suc.IH [OF rec] show ?thesis unfolding d by (cases "call (Suc (i + length ds'))") auto
  qed
qed

text \<open>The seconds a header asks for, if it is the text of a finite number.\<close>

definition header_seconds :: "string \<Rightarrow> rat option" where
  "header_seconds h = (case float_of_str h of Some f \<Rightarrow> float_value f | None \<Rightarrow> None)"

definition asked_delay :: "rat \<Rightarrow> nat \<Rightarrow> service_error \<Rightarrow> rat option" where
  "asked_delay delay i e = (case header_text e of
     None \<Rightarrow> Some (delay * 2 ^ i) | Some h \<Rightarrow> map_option (\<lambda>t. t * 2 ^ i) (header_seconds h))"

lemma back_off_asked: "back_off delay i e = Inr d \<longleftrightarrow> asked_delay delay i e = Some d \<and> sleep_error d = None"
  by (auto simp: back_off_def asked_delay_def header_seconds_def sleep_for_def to_float_def
      split: option.splits pyfloat.splits)

lemma back_off_error:
  assumes "back_off delay i e = Inl x"
  shows "isinstance x (Py ValueError) \<or> isinstance x (Py OverflowError)"
proof -
  have "isinstance (py_exn ValueError m) (Py ValueError)" "isinstance (py_exn OverflowError m) (Py OverflowError)" for m
    by (simp_all add: isinstance_def py_exn_def mro_def numeral_eq_Suc)
  with assms show ?thesis
    by (auto simp: back_off_def sleep_for_def sleep_error_def to_float_def split: option.splits pyfloat.splits if_splits)
qed


definition demo_error_of :: "openai_class \<Rightarrow> service_error" where
  "demo_error_of c = \<lparr>se_class = c, se_text = ''busy'', se_quota = False, se_retry_after = None\<rparr>"

text \<open>Two calls that may be retried, then one with a date in its header.\<close>

definition demo_retries :: "nat \<Rightarrow> string call_result" where
  "demo_retries i = (if i < 2 then ServiceError (demo_error_of RateLimit)
     else ServiceError ((demo_error_of RateLimit)\<lparr>se_retry_after := Some ''Wed, 21 Oct 2015 07:28:00 GMT''\<rparr>))"


end
