(* ===== verification/FlowTests.thy ===== *)
theory FlowTests imports RunSubmission begin

text \<open>
  Testing a flow from the command line (\<^verbatim>\<open>_sdk/operations/_test_submitter.py\<close>): the inputs of a flow or of one node
  resolved from what the user gives, a test of a flow with its aggregation, and chatting with a flow. The executor a chat makes
  for every round, and what it prints and writes into files, are left out.
\<close>

section \<open>The inputs of a test\<close>

text \<open>The inputs that are left, the flow inputs and the outputs of other nodes found so far, and the inputs that are missing.\<close>

record test_data =
  td_left :: "(string, pyval) dict"
  td_flow_inputs :: "(string, pyval) dict"
  td_nodes_outputs :: "(string, pyval) dict"
  td_missing :: "string list"

text \<open>An input given under the text of its reference or under its own name is taken out.\<close>

definition take_input :: "string \<Rightarrow> string \<Rightarrow> (string, pyval) dict \<Rightarrow> (pyval \<times> (string, pyval) dict) option" where
  "take_input reference name d =
    (case map_of d reference of
       Some v \<Rightarrow> Some (v, AList.delete reference d)
     | None \<Rightarrow> (case map_of d name of Some v \<Rightarrow> Some (v, AList.delete name d) | None \<Rightarrow> None))"

definition resolve_node_reference :: "string \<Rightarrow> string \<Rightarrow> string \<Rightarrow> test_data \<Rightarrow> test_data" where
  "resolve_node_reference name n section t =
    (case take_input (n @ ''.'' @ section) name (td_left t) of
       Some (v, left) \<Rightarrow> t\<lparr>td_left := left, td_nodes_outputs := AList.update n v (td_nodes_outputs t)\<rparr>
     | None \<Rightarrow> t\<lparr>td_missing := td_missing t @ [name]\<rparr>)"

definition resolve_flow_reference :: "flow \<Rightarrow> string \<Rightarrow> string \<Rightarrow> string \<Rightarrow> test_data \<Rightarrow> test_data res" where
  "resolve_flow_reference f name pre k t =
    (case take_input (pre @ k) name (td_left t) of
       Some (v, left) \<Rightarrow> Inr (t\<lparr>td_left := left, td_flow_inputs := AList.update k v (td_flow_inputs t)\<rparr>)
     | None \<Rightarrow> (case map_of (flow_inputs f) k of
           None \<Rightarrow> Inl (py_exn KeyError [PStr k])
         | Some i \<Rightarrow>
            if fi_default i = PNone then Inr (t\<lparr>td_missing := td_missing t @ [name]\<rparr>)
            else Inr (t\<lparr>td_flow_inputs := AList.update k (fi_default i) (td_flow_inputs t)\<rparr>)))"

definition resolve_literal :: "string \<Rightarrow> pyval \<Rightarrow> test_data \<Rightarrow> test_data" where
  "resolve_literal name v t =
    (case map_of (td_left t) name of
       Some w \<Rightarrow> t\<lparr>td_left := AList.delete name (td_left t), td_flow_inputs := AList.update name w (td_flow_inputs t)\<rparr>
     | None \<Rightarrow> t\<lparr>td_flow_inputs := AList.update name v (td_flow_inputs t)\<rparr>)"

definition resolve_node_input :: "flow \<Rightarrow> string \<times> input_assignment \<Rightarrow> test_data \<Rightarrow> test_data res" where
  "resolve_node_input f kv t =
    (case kv of (name, a) \<Rightarrow>
      (case ia_value_type a of
         LITERAL \<Rightarrow> Inr (resolve_literal name (ia_value a) t)
       | NODE_REFERENCE \<Rightarrow> bindr (name_text (ia_value a)) (\<lambda>n. Inr (resolve_node_reference name n (ia_section a) t))
       | FLOW_INPUT \<Rightarrow> bindr (name_text (ia_value a)) (\<lambda>k. resolve_flow_reference f name (given_or (ia_prefix a) []) k t)))"

definition resolve_flow_input :: "string \<times> flow_input_definition \<Rightarrow> test_data \<Rightarrow> test_data" where
  "resolve_flow_input kv t =
    (case kv of (name, i) \<Rightarrow>
      (case map_of (td_left t) name of
         Some v \<Rightarrow> t\<lparr>td_left := AList.delete name (td_left t), td_flow_inputs := AList.update name v (td_flow_inputs t)\<rparr>
       | None \<Rightarrow>
          if fi_default i = PNone then t\<lparr>td_missing := td_missing t @ [name]\<rparr>
          else t\<lparr>td_flow_inputs := AList.update name (fi_default i) (td_flow_inputs t)\<rparr>))"

text \<open>Inputs that are left over are unknown, and passed on.\<close>

definition finish_inputs :: "string \<Rightarrow> test_data \<Rightarrow> ((string, pyval) dict \<times> (string, pyval) dict) res" where
  "finish_inputs pre t =
    (if td_missing t \<noteq> [] then Inl (pf_exn (Pf UserErrorException) [PStr ''Required input(s) '', PList (map PStr (td_missing t)),
       PStr ('' are missing for '' @ [CHR 0x22] @ pre @ [CHR 0x22] @ ''.'')] UNKNOWN)
     else Inr (dict_updates (td_flow_inputs t) (td_left t), td_nodes_outputs t))"

definition start_inputs :: "(string, pyval) dict \<Rightarrow> test_data" where
  "start_inputs inputs = \<lparr>td_left = inputs, td_flow_inputs = [], td_nodes_outputs = [], td_missing = []\<rparr>"

definition resolve_test_data ::
  "flow \<Rightarrow> string option \<Rightarrow> (string, pyval) dict \<Rightarrow> ((string, pyval) dict \<times> (string, pyval) dict) res" where
  "resolve_test_data f node inputs =
    (case non_empty node of
       Some name \<Rightarrow>
        (case find (\<lambda>n. node_name n = name) (flow_nodes f) of
           None \<Rightarrow> Inl (pf_exn (Pf UserErrorException) [PStr (''Cannot find '' @ name @ '' in the flow.'')] UNKNOWN)
         | Some n \<Rightarrow> bindr (foldr_res (resolve_node_input f) (node_inputs n) (start_inputs inputs)) (finish_inputs name))
     | None \<Rightarrow> finish_inputs ''flow'' (fold resolve_flow_input (flow_inputs f) (start_inputs inputs)))"

section \<open>A test of a flow\<close>

text \<open>One line with the number 0, and the aggregation over it when it left inputs for it, whose metrics become those of the run.\<close>

definition flow_test ::
  "executor \<Rightarrow> run_nodes \<Rightarrow> (string \<times> pyval \<times> pyval) list \<Rightarrow> line_call \<Rightarrow> bool \<Rightarrow> string \<Rightarrow> (string, pyval) dict \<Rightarrow>
     run_tracker \<times> metric_loggers \<Rightarrow> (line_result \<times> (string, pyval) dict option) res \<times> run_tracker \<times> metric_loggers" where
  "flow_test x run logged c allow_generator run_id inputs st =
    (let (rt, mm) = st; final = (\<lambda>r. r\<lparr>lr_output := AList.delete line_number_key (lr_output r)\<rparr>) in
     case exec_line x run (PInt default_concurrency_flow) (c\<lparr>lc_line_number := Some 0, lc_variant_id := [], lc_validate_inputs := True,
         lc_allow_generator := allow_generator\<rparr>) inputs rt of
       (Inl e, rt1) \<Rightarrow> (Inl e, rt1, mm)
     | (Inr r, rt1) \<Rightarrow>
        if lr_aggregation_inputs r = [] then (Inr (final r, None), rt1, mm)
        else (case exec_aggregation (lc_env c) x run logged (map (\<lambda>(k, v). (k, PList [v])) inputs)
            (map (\<lambda>(k, v). (k, PList [v])) (lr_aggregation_inputs r)) run_id (rt1, mm) of
              (Inl e, st') \<Rightarrow> (Inl e, st')
            | (Inr a, st') \<Rightarrow>
               (Inr (final (r\<lparr>lr_node_run_infos := dict_updates (lr_node_run_infos r) (ar_node_run_infos a)\<rparr>), Some (ar_metrics a)), st')))"

section \<open>A chat with a flow\<close>

definition stop_iteration :: exn where
  "stop_iteration = pf_exn (UserClass ''StopIteration'' (Py Exception)) [] UNKNOWN"

definition first_key :: "('a \<Rightarrow> bool) \<Rightarrow> (string, 'a) dict \<Rightarrow> string res" where
  "first_key p d = (case find (\<lambda>(k, v). p v) d of Some (k, _) \<Rightarrow> Inr k | None \<Rightarrow> Inl stop_iteration)"

text \<open>What can be iterated is put together from its texts; a dictionary from its keys.\<close>

definition join_texts :: "pyval list \<Rightarrow> pyval res" where
  "join_texts vs = bindr (mapr (\<lambda>v. case as_str v of Some s \<Rightarrow> Inr s | None \<Rightarrow> Inl (py_exn TypeError [PStr ''can only concatenate str''])) vs)
     (\<lambda>ss. Inr (PStr (concat ss)))"

definition chat_output :: "pyval \<Rightarrow> pyval res" where
  "chat_output v =
    (case v of
       PStr s \<Rightarrow> Inr (PStr s) | PSecret s \<Rightarrow> Inr (PStr s) | PPrompt s \<Rightarrow> Inr (PStr s)
     | PGen vs \<Rightarrow> join_texts vs | PList vs \<Rightarrow> join_texts vs | PTuple vs \<Rightarrow> join_texts vs
     | PDict d \<Rightarrow> Inr (PStr (concat (dict_keys d)))
     | PObj _ _ \<Rightarrow> Inl outside_model
     | _ \<Rightarrow> Inr v)"

definition raise_error_when_test_failed :: "flow_run_info \<Rightarrow> unit res" where
  "raise_error_when_test_failed r =
    (if fr_status r \<noteq> Failed then Inr ()
     else bindr (expect_dict (fr_error r)) (\<lambda>d.
       Inl (pf_exn (Pf UserErrorException) [dict_get (get_user_execution_error_info d) ''type'' (PStr ''Exception''), PStr '': '', response_message d] UNKNOWN)))"

definition chat_history_key :: string where
  "chat_history_key = ''chat_history''"

text \<open>One round: the inputs of the flow, and the entry it adds to the history.\<close>

definition chat_round ::
  "flow \<Rightarrow> ((string, pyval) dict \<Rightarrow> line_result res) \<Rightarrow> string \<Rightarrow> string \<Rightarrow> (string, pyval) dict \<Rightarrow> string \<Rightarrow> pyval list \<Rightarrow>
     ((string, pyval) dict \<times> pyval) res" where
  "chat_round f run input_name output_name inputs line history =
    bindr (resolve_test_data f None (dict_updates inputs [(input_name, PStr line), (chat_history_key, PList history)])) (\<lambda>(chat_inputs, _).
    bindr (run chat_inputs) (\<lambda>r.
    bindr (raise_error_when_test_failed (lr_run_info r)) (\<lambda>_.
    bindr (get_item (lr_output r) output_name) (\<lambda>v.
    bindr (chat_output v) (\<lambda>out.
      Inr (chat_inputs, PDict [(''inputs'', PDict [(input_name, PStr line)]),
        (''outputs'', PDict (AList.update output_name out (lr_output r)))]))))))"

text \<open>The rounds over the lines the user types, blank ones apart; the input ends with them. The flow inputs of every round
  are kept as they were; the code passes one list as the history, which grows after the round has ended.\<close>

fun chat_rounds ::
  "flow \<Rightarrow> (nat \<Rightarrow> (string, pyval) dict \<Rightarrow> line_result res) \<Rightarrow> string \<Rightarrow> string \<Rightarrow> (string, pyval) dict \<Rightarrow> string list \<Rightarrow>
     pyval list \<Rightarrow> (string, pyval) dict list \<Rightarrow> (pyval list \<times> (string, pyval) dict list) res" where
  "chat_rounds f run i out inputs [] history seen = Inr (history, seen)"
| "chat_rounds f run i out inputs (line # lines) history seen =
    (if strip line = [] then chat_rounds f run i out inputs lines history seen
     else bindr (chat_round f (run (length seen)) i out inputs line history) (\<lambda>(chat_inputs, entry).
       chat_rounds f run i out inputs lines (history @ [entry]) (seen @ [chat_inputs])))"

definition chat_flow ::
  "flow \<Rightarrow> (nat \<Rightarrow> (string, pyval) dict \<Rightarrow> line_result res) \<Rightarrow> (string, pyval) dict \<Rightarrow> string list \<Rightarrow>
     (pyval list \<times> (string, pyval) dict list) res" where
  "chat_flow f run inputs lines =
    bindr (first_key fi_is_chat_input (flow_inputs f)) (\<lambda>i.
    bindr (first_key fo_is_chat_output (flow_outputs f)) (\<lambda>out. chat_rounds f run i out inputs lines [] []))"

section \<open>The inputs of a flow\<close>

lemma resolved_flow_inputs:
  assumes "distinct (map fst is')"
  shows "(\<forall>k. map_of (td_left (fold resolve_flow_input is' t)) k = (if k \<in> fst ` set is' then None else map_of (td_left t) k)) \<and>
    td_missing (fold resolve_flow_input is' t) =
      td_missing t @ map fst (filter (\<lambda>(k, i). map_of (td_left t) k = None \<and> fi_default i = PNone) is') \<and>
    td_nodes_outputs (fold resolve_flow_input is' t) = td_nodes_outputs t \<and>
    (\<forall>k. map_of (td_flow_inputs (fold resolve_flow_input is' t)) k = (case map_of is' k of None \<Rightarrow> map_of (td_flow_inputs t) k
       | Some i \<Rightarrow> (case map_of (td_left t) k of Some v \<Rightarrow> Some v
           | None \<Rightarrow> if fi_default i = PNone then map_of (td_flow_inputs t) k else Some (fi_default i))))"
  using assms
proof (induction is' arbitrary: t)
  case (Cons p is')
  obtain k i where p: "p = (k, i)" by force
  let ?t = "resolve_flow_input p t"
  have fresh: "map_of is' k = None" "k \<notin> fst ` set is'" using Cons.prems by (auto simp: p map_of_eq_None_iff)
  have left: "map_of (td_left ?t) q = (if q = k then None else map_of (td_left t) q)" for q
    by (simp add: resolve_flow_input_def p delete_conv' split: option.splits)
  have other: "(\<lambda>(q, j). map_of (td_left ?t) q = None \<and> fi_default j = PNone) x = (\<lambda>(q, j). map_of (td_left t) q = None \<and> fi_default j = PNone) x"
    if "x \<in> set is'" for x
  proof -
    from that fresh(2) have "fst x \<noteq> k" by force
    then show ?thesis by (simp add: left case_prod_unfold)
  qed
  have filt: "filter (\<lambda>(q, j). map_of (td_left ?t) q = None \<and> fi_default j = PNone) is' =
     filter (\<lambda>(q, j). map_of (td_left t) q = None \<and> fi_default j = PNone) is'" by (rule filter_cong [OF refl other])
  have head: "td_missing ?t = td_missing t @ (if map_of (td_left t) k = None \<and> fi_default i = PNone then [k] else [])"
    "td_nodes_outputs ?t = td_nodes_outputs t"
    "map_of (td_flow_inputs ?t) q = (if q = k then (case map_of (td_left t) k of Some v \<Rightarrow> Some v
           | None \<Rightarrow> if fi_default i = PNone then map_of (td_flow_inputs t) k else Some (fi_default i)) else map_of (td_flow_inputs t) q)" for q
    by (auto simp: resolve_flow_input_def p split: option.splits)
  have "distinct (map fst is')" using Cons.prems by simp
  note ih = Cons.IH [OF this, of ?t]
  have step: "fold resolve_flow_input (p # is') t = fold resolve_flow_input is' ?t" by simp
  have keys: "fst ` set (p # is') = insert k (fst ` set is')" "map_of (p # is') q = (if q = k then Some i else map_of is' q)" for q
    by (simp_all add: p)
  show ?case unfolding step
  proof (intro conjI allI)
    fix q
    show "map_of (td_left (fold resolve_flow_input is' ?t)) q = (if q \<in> fst ` set (p # is') then None else map_of (td_left t) q)"
      unfolding keys using ih left by auto
    show "map_of (td_flow_inputs (fold resolve_flow_input is' ?t)) q = (case map_of (p # is') q of None \<Rightarrow> map_of (td_flow_inputs t) q
       | Some i \<Rightarrow> (case map_of (td_left t) q of Some v \<Rightarrow> Some v
           | None \<Rightarrow> if fi_default i = PNone then map_of (td_flow_inputs t) q else Some (fi_default i)))"
    proof (cases "q = k")
      case True
      have "map_of (td_flow_inputs (fold resolve_flow_input is' ?t)) q = map_of (td_flow_inputs ?t) q" using ih fresh(1) True by simp
      then show ?thesis unfolding head(3) keys using True by (simp split: option.splits)
    next
      case False
      then have "map_of (td_left ?t) q = map_of (td_left t) q" "map_of (td_flow_inputs ?t) q = map_of (td_flow_inputs t) q"
        by (simp_all add: left head(3))
      moreover have "map_of (p # is') q = map_of is' q" unfolding keys using False by simp
      ultimately show ?thesis using ih by (simp only: if_True)
    qed
  next
    have "td_missing (fold resolve_flow_input is' ?t) =
      td_missing ?t @ map fst (filter (\<lambda>(q, j). map_of (td_left ?t) q = None \<and> fi_default j = PNone) is')" using ih by blast
    then show "td_missing (fold resolve_flow_input is' ?t) =
      td_missing t @ map fst (filter (\<lambda>(k, i). map_of (td_left t) k = None \<and> fi_default i = PNone) (p # is'))"
      unfolding filt head(1) by (simp add: p)
    show "td_nodes_outputs (fold resolve_flow_input is' ?t) = td_nodes_outputs t" using ih head(2) by simp
  qed
qed simp

lemma left_distinct:
  "distinct (map fst (td_left t)) \<Longrightarrow> distinct (map fst (td_left (fold resolve_flow_input is' t)))"
proof (induction is' arbitrary: t)
  case (Cons p is')
  then have "distinct (map fst (td_left (resolve_flow_input p t)))"
    by (auto simp: resolve_flow_input_def distinct_delete split: prod.splits option.splits)
  with Cons.IH show ?case by simp
qed simp

text \<open>The inputs of a test of a flow: every input that is given or has a default gets its value, the given one first, and inputs
  the flow does not declare are passed on. When inputs are missing that have no default, the error names exactly those,
  in the order of the flow.\<close>

theorem test_inputs_of_flow:
  assumes "distinct (dict_keys (flow_inputs f))" "distinct (dict_keys inputs)"
    and "missing = map fst (filter (\<lambda>(k, i). map_of inputs k = None \<and> fi_default i = PNone) (flow_inputs f))"
  shows "if missing = []
    then \<exists>d. resolve_test_data f None inputs = Inr (d, []) \<and>
      (\<forall>k. map_of d k = (case map_of inputs k of Some v \<Rightarrow> Some v | None \<Rightarrow> map_option fi_default (map_of (flow_inputs f) k)))
    else \<exists>m. resolve_test_data f None inputs = Inl (pf_exn (Pf UserErrorException) m UNKNOWN) \<and> PList (map PStr missing) \<in> set m"
proof -
  let ?t = "fold resolve_flow_input (flow_inputs f) (start_inputs inputs)"
  note t = resolved_flow_inputs [OF assms(1), of "start_inputs inputs"]
  have res: "resolve_test_data f None inputs = finish_inputs ''flow'' ?t" by (simp add: resolve_test_data_def non_empty_def)
  have missing: "td_missing ?t = missing" using t by (simp add: start_inputs_def assms(3))
  show ?thesis
  proof (cases "missing = []")
    case False
    then show ?thesis unfolding res finish_inputs_def missing by auto
  next
    case True
    let ?d = "dict_updates (td_flow_inputs ?t) (td_left ?t)"
    have outs: "td_nodes_outputs ?t = []" using t by (simp add: start_inputs_def)
    have dist: "distinct (map fst (td_left ?t))" by (rule left_distinct) (simp add: start_inputs_def assms(2))
    have "map_of ?d k = (case map_of (td_left ?t) k of Some v \<Rightarrow> Some v | None \<Rightarrow> map_of (td_flow_inputs ?t) k)" for k
      by (simp add: map_of_dict_updates map_of_rev_distinct [OF dist] map_add_def)
    moreover have "fi_default i \<noteq> PNone \<or> map_of inputs k \<noteq> None" if "map_of (flow_inputs f) k = Some i" for k i
      using True map_of_SomeD [OF that] by (auto simp: assms(3) filter_empty_conv)
    ultimately have "map_of ?d k = (case map_of inputs k of Some v \<Rightarrow> Some v | None \<Rightarrow> map_option fi_default (map_of (flow_inputs f) k))" for k
      using t by (auto simp: start_inputs_def image_iff map_of_eq_None_iff split: option.splits) (metis map_of_SomeD fst_conv)+
    moreover have "resolve_test_data f None inputs = Inr (?d, [])"
      unfolding res finish_inputs_def missing outs using True by simp
    ultimately show ?thesis using True by auto
  qed
qed

section \<open>The history of a chat\<close>

definition chat_entry :: "string \<Rightarrow> string \<Rightarrow> line_result \<Rightarrow> string \<Rightarrow> pyval \<Rightarrow> pyval" where
  "chat_entry i line r out v = PDict [(''inputs'', PDict [(i, PStr line)]), (''outputs'', PDict (AList.update out v (lr_output r)))]"

lemma chat_round_inputs:
  assumes "chat_round f run i out inputs line history = Inr (chat_inputs, entry)"
    and "distinct (dict_keys (flow_inputs f))" "distinct (dict_keys inputs)" "i \<noteq> chat_history_key"
  shows "map_of chat_inputs chat_history_key = Some (PList history) \<and> map_of chat_inputs i = Some (PStr line) \<and>
    (\<exists>r w v. run chat_inputs = Inr r \<and> fr_status (lr_run_info r) \<noteq> Failed \<and> map_of (lr_output r) out = Some w \<and> chat_output w = Inr v \<and>
       entry = chat_entry i line r out v)"
proof -
  let ?given = "dict_updates inputs [(i, PStr line), (chat_history_key, PList history)]"
  from assms(1) obtain deps r w v where got: "resolve_test_data f None ?given = Inr (chat_inputs, deps)" "run chat_inputs = Inr r"
    "raise_error_when_test_failed (lr_run_info r) = Inr ()" "get_item (lr_output r) out = Inr w" "chat_output w = Inr v" "entry = chat_entry i line r out v"
    by (auto simp: chat_round_def chat_entry_def res_simps)
  have "fr_status (lr_run_info r) \<noteq> Failed" using got(3) by (auto simp: raise_error_when_test_failed_def res_simps)
  moreover have "distinct (dict_keys ?given)" using assms(3) by (rule distinct_dict_updates)
  from test_inputs_of_flow [OF assms(2) this refl] got(1) have
    "map_of chat_inputs k = (case map_of ?given k of Some x \<Rightarrow> Some x | None \<Rightarrow> map_option fi_default (map_of (flow_inputs f) k))" for k
    by (auto split: if_splits)
  moreover have "map_of ?given chat_history_key = Some (PList history)" "map_of ?given i = Some (PStr line)"
    using assms(4) by (simp_all add: map_of_dict_updates)
  ultimately show ?thesis using got(2,4,5,6) by (auto simp: get_item_Inr)
qed

definition chat_recorded ::
  "(nat \<Rightarrow> (string, pyval) dict \<Rightarrow> line_result res) \<Rightarrow> string \<Rightarrow> string \<Rightarrow> string list \<Rightarrow> pyval list \<Rightarrow> (string, pyval) dict list \<Rightarrow> bool" where
  "chat_recorded run i out lines history seen \<longleftrightarrow> length history = length lines \<and> length seen = length lines \<and>
    (\<forall>j<length lines. map_of (seen ! j) chat_history_key = Some (PList (take j history)) \<and> map_of (seen ! j) i = Some (PStr (lines ! j)) \<and>
      (\<exists>r w v. run j (seen ! j) = Inr r \<and> fr_status (lr_run_info r) \<noteq> Failed \<and> map_of (lr_output r) out = Some w \<and> chat_output w = Inr v \<and>
         history ! j = chat_entry i (lines ! j) r out v))"

lemma chat_recorded_round:
  assumes "chat_recorded run i out lines history seen" "chat_round f (run (length seen)) i out inputs line history = Inr (chat_inputs, entry)"
    and "distinct (dict_keys (flow_inputs f))" "distinct (dict_keys inputs)" "i \<noteq> chat_history_key"
  shows "chat_recorded run i out (lines @ [line]) (history @ [entry]) (seen @ [chat_inputs])"
proof -
  have len: "length history = length lines" "length seen = length lines" using assms(1) by (simp_all add: chat_recorded_def)
  note round = chat_round_inputs [OF assms(2-5)]
  show ?thesis unfolding chat_recorded_def
  proof (intro conjI allI impI)
    fix j assume "j < length (lines @ [line])"
    then consider "j < length lines" | "j = length lines" by fastforce
    then have "map_of ((seen @ [chat_inputs]) ! j) chat_history_key = Some (PList (take j (history @ [entry]))) \<and>
      map_of ((seen @ [chat_inputs]) ! j) i = Some (PStr ((lines @ [line]) ! j)) \<and>
      (\<exists>r w v. run j ((seen @ [chat_inputs]) ! j) = Inr r \<and> fr_status (lr_run_info r) \<noteq> Failed \<and> map_of (lr_output r) out = Some w \<and>
         chat_output w = Inr v \<and> (history @ [entry]) ! j = chat_entry i ((lines @ [line]) ! j) r out v)"
    proof cases
      case 1
      then show ?thesis using assms(1) by (simp add: chat_recorded_def nth_append)
    next
      case 2
      then show ?thesis using round len by (simp add: nth_append)
    qed
    then show "map_of ((seen @ [chat_inputs]) ! j) chat_history_key = Some (PList (take j (history @ [entry])))"
      "map_of ((seen @ [chat_inputs]) ! j) i = Some (PStr ((lines @ [line]) ! j))"
      "\<exists>r w v. run j ((seen @ [chat_inputs]) ! j) = Inr r \<and> fr_status (lr_run_info r) \<noteq> Failed \<and> map_of (lr_output r) out = Some w \<and>
         chat_output w = Inr v \<and> (history @ [entry]) ! j = chat_entry i ((lines @ [line]) ! j) r out v" by blast+
  qed (simp_all add: len)
qed

lemma chat_rounds_recorded:
  assumes "chat_rounds f run i out inputs lines history seen = Inr (history', seen')" "chat_recorded run i out before history seen"
    and "distinct (dict_keys (flow_inputs f))" "distinct (dict_keys inputs)" "i \<noteq> chat_history_key"
  shows "chat_recorded run i out (before @ filter (\<lambda>l. strip l \<noteq> []) lines) history' seen'"
  using assms(1,2)
proof (induction lines arbitrary: before history seen)
  case (Cons line lines)
  show ?case
  proof (cases "strip line = []")
    case True
    with Cons show ?thesis by simp
  next
    case False
    with Cons.prems(1) obtain ci e where round: "chat_round f (run (length seen)) i out inputs line history = Inr (ci, e)"
      "chat_rounds f run i out inputs lines (history @ [e]) (seen @ [ci]) = Inr (history', seen')" by (auto simp: res_simps)
    from Cons.IH [OF round(2) chat_recorded_round [OF Cons.prems(2) round(1) assms(3-5)]] False show ?thesis by simp
  qed
qed simp

text \<open>C39. In a chat that ends with its input, every line that is not blank is one round: its flow gets the line as its chat input and exactly the
  entries of the earlier rounds as its history, and the round adds one entry, with the line and the outputs of the run, whose chat
  output is put together as a text.\<close>

theorem chat_history_grows:
  assumes "chat_flow f run inputs lines = Inr (history, seen)" "distinct (dict_keys (flow_inputs f))" "distinct (dict_keys inputs)"
    and "first_key fi_is_chat_input (flow_inputs f) = Inr i" "i \<noteq> chat_history_key"
  shows "\<exists>out. first_key fo_is_chat_output (flow_outputs f) = Inr out \<and>
    chat_recorded run i out (filter (\<lambda>l. strip l \<noteq> []) lines) history seen"
proof -
  from assms(1,4) obtain out where out: "first_key fo_is_chat_output (flow_outputs f) = Inr out"
    "chat_rounds f run i out inputs lines [] [] = Inr (history, seen)" by (auto simp: chat_flow_def res_simps)
  have "chat_recorded run i out [] [] []" by (simp add: chat_recorded_def)
  from chat_rounds_recorded [OF out(2) this assms(2,3,5)] out(1) show ?thesis by simp
qed

definition demo_chat_flow :: flow where
  "demo_chat_flow = demo_out_flow\<lparr>flow_inputs :=
      [(''question'', \<lparr>fi_type = STRING, fi_default = PNone, fi_description = PStr [], fi_enum = PList [], fi_is_chat_input = True\<rparr>),
       (''chat_history'', \<lparr>fi_type = LIST, fi_default = PList [], fi_description = PStr [], fi_enum = PList [], fi_is_chat_input = False\<rparr>)],
     flow_outputs := [(''answer'', \<lparr>fo_type = STRING, fo_reference = literal (PStr []), fo_description = PStr [], fo_evaluation_only = False,
       fo_is_chat_output = True\<rparr>)]\<rparr>"

definition demo_answer :: "nat \<Rightarrow> (string, pyval) dict \<Rightarrow> line_result res" where
  "demo_answer j ins = Inr ((demo_result 0 Completed)\<lparr>lr_output := [(''answer'', PGen [PStr ''re'', PStr ''ply''])]\<rparr>)"

theorem chat_history_grows_witness:
  "\<exists>history seen. chat_flow demo_chat_flow demo_answer [] [''hi'', '' '', ''bye''] = Inr (history, seen) \<and> length history = 2 \<and>
     map_of (seen ! 1) chat_history_key = Some (PList (take 1 history)) \<and> map_of (seen ! 1) ''question'' = Some (PStr ''bye'')"
proof -
  have "map_sum id (\<lambda>_. ()) (chat_flow demo_chat_flow demo_answer [] [''hi'', '' '', ''bye'']) = Inr ()" by code_simp
  then obtain history seen where run: "chat_flow demo_chat_flow demo_answer [] [''hi'', '' '', ''bye''] = Inr (history, seen)"
    by (cases "chat_flow demo_chat_flow demo_answer [] [''hi'', '' '', ''bye'']") auto
  have f: "distinct (dict_keys (flow_inputs demo_chat_flow))" "first_key fi_is_chat_input (flow_inputs demo_chat_flow) = Inr ''question''"
    "filter (\<lambda>l. strip l \<noteq> []) [''hi'', '' '', ''bye''] = [''hi'', ''bye'']" "''question'' \<noteq> chat_history_key" by code_simp+
  from chat_history_grows [OF run f(1) _ f(2,4)] obtain out where "chat_recorded demo_answer ''question'' out [''hi'', ''bye''] history seen"
    unfolding f(3) by auto
  with run show ?thesis by (auto simp: chat_recorded_def dest: spec [of _ 1])
qed

section \<open>The inputs of a node\<close>

text \<open>A node that reads the same flow input twice cannot be tested with a value for that input: the first use takes the value out,
  the second falls back to the default of the flow input, and overwrites the value of both.\<close>

theorem repeated_reference_overwritten:
  assumes "find (\<lambda>n. node_name n = name) (flow_nodes f) = Some n" "name \<noteq> []"
    and "node_inputs n = [(a, flow_input k pre), (b, flow_input k pre)]" "a \<noteq> b" "b \<noteq> pre @ k"
    and "map_of (flow_inputs f) k = Some i" "fi_default i \<noteq> PNone"
  shows "resolve_test_data f (Some name) [(pre @ k, v)] = Inr ([(k, fi_default i)], [])"
  using assms
  by (simp add: resolve_test_data_def non_empty_def resolve_node_input_def flow_input_def name_text_def resolve_flow_reference_def
      take_input_def start_inputs_def finish_inputs_def given_or_def dict_updates_def)

end
