(* ===== verification/Spec2Isabelle.thy ===== *)
theory Spec2Isabelle
  imports Prelude PyValue Exceptions PyConv ErrorPresenter ToolContract FlowContract InputParser DagManager
    Scheduler SchedulerRuns FlowValidator InputMapping LogManager Runs Tracer SqliteClient Cache Context Executor Bulk LinePool
    BulkRuns ToolInterface Json Connections ConnectionStore ConnectionManager ToolResolver FlowLoading
    SdkRuns RunSubmission Serving ChatPrompt FlowTests
begin

text \<open>
  This library models the execution engine of promptflow and the parts of its SDK that drive it, the Python package under
  \<^verbatim>\<open>src/src/promptflow/promptflow/\<close>; the paths below are relative to it. A flow is a list of nodes, each a
  call of a tool whose inputs are literals, inputs of the flow or outputs of other nodes. The executor validates a flow, maps a
  batch of rows to its inputs, runs the nodes of every line in processes and threads, records what happened, and runs
  the aggregation nodes over all lines at the end.

  \<^bold>\<open>Conventions.\<close> Python values are the datatype \<open>pyval\<close> (unbounded integers, decimal floats, strings,
  lists, dictionaries, objects with attributes, generators). A dictionary is an association list with distinct keys in
  insertion order. A function that can raise returns \<open>exn + 'a\<close>: every raise of the source is a branch \<open>Inl\<close>
  with the class, message and target of the exception. Objects that the code mutates are records passed in and returned; where the code shares
  one object (a run between the tracker and its callers, a trace between its parent and the stack) the model keeps it
  under an identifier in the owner's record. What comes from outside (clock, uuids, tools, json of objects, hashes, the
  storage of runs) is a parameter. \<open>OutsideModel\<close> marks the few branches no theorem speaks of.

  \<^bold>\<open>Theories, in the order they build on each other.\<close>

  \<^item> \<open>Prelude\<close>: results and loops that may raise, dictionaries, texts, numbers as texts, and the collections of rewrite
    rules the other theories use. \<open>PyValue\<close>: values, \<open>==\<close>, \<open>str\<close>, \<open>repr\<close>, truth. \<open>PyConv\<close>: \<open>int()\<close>, \<open>float()\<close>, \<open>json.loads\<close>.
  \<^item> \<open>Exceptions\<close> (\<^verbatim>\<open>exceptions.py\<close>, \<^verbatim>\<open>executor/_errors.py\<close>, \<^verbatim>\<open>_core/_errors.py\<close>): the class hierarchy, messages and
    their formats. \<open>ErrorPresenter\<close> (\<^verbatim>\<open>_utils/exception_utils.py\<close>): the dictionary of an error and reading it back; the
    lemmas give the round trip of error codes and the HTTP class.
  \<^item> \<open>ToolContract\<close>, \<open>FlowContract\<close> (\<^verbatim>\<open>contracts/tool.py\<close>, \<^verbatim>\<open>contracts/flow.py\<close>): tools, value types, assignments, nodes,
    variants, flows; parsing of user data by type, and the round trips between contracts and dictionaries.
  \<^item> \<open>InputParser\<close> (\<^verbatim>\<open>executor/_input_assignment_parser.py\<close>): reading an assignment; the tokens of the regular expression of
    a property are a recogniser whose recursion ends because every token is shorter than the text.
  \<^item> \<open>DagManager\<close>, \<open>Scheduler\<close>, \<open>SchedulerRuns\<close> (\<^verbatim>\<open>executor/_dag_manager.py\<close>, \<^verbatim>\<open>executor/_flow_nodes_scheduler.py\<close>): worker threads
    and the main thread as the step relation \<open>sched_step\<close>; \<open>sched_inv\<close> is its invariant. The lemmas show that every
    interleaving gives the outputs of the sequential evaluation, within \<open>4 n + 1\<close> steps for \<open>n\<close> nodes.
  \<^item> \<open>FlowValidator\<close> (\<^verbatim>\<open>executor/flow_validator.py\<close>): the order of the nodes, the outputs, the types of the inputs. Flow inputs are
    looked up for the inputs of nodes, not for skip conditions, as in the code.
    \<open>InputMapping\<close> (the mapping part of \<^verbatim>\<open>executor/flow_executor.py\<close>): rows of several sources merged by line number.
  \<^item> \<open>LogManager\<close> (\<^verbatim>\<open>_core/log_manager.py\<close>, \<^verbatim>\<open>_utils/credential_scrubber.py\<close>), \<open>Runs\<close> (\<^verbatim>\<open>contracts/run_info.py\<close>,
    \<^verbatim>\<open>_core/run_tracker.py\<close>): logs, the records of runs, their life cycle, metrics and status summaries.
  \<^item> \<open>SqliteClient\<close> (\<^verbatim>\<open>_utils/retry_utils.py\<close>, \<^verbatim>\<open>storage/_sqlite_client.py\<close>): calls that are retried (at most as often as there
    are tries), and the client of a table over the library's transactions, which are parameters; the locale \<open>dataset_table\<close> is what
    is documented of them, and the lemmas show what the client adds: its errors, its retries and which error it retries.
  \<^item> \<open>Tracer\<close> (\<^verbatim>\<open>_core/tracer.py\<close>, \<^verbatim>\<open>_core/openai_injector.py\<close>), \<open>Cache\<close> (\<^verbatim>\<open>_core/cache_manager.py\<close>, \<^verbatim>\<open>storage/_cache_storage.py\<close>),
    \<open>Context\<close> (\<^verbatim>\<open>_core/flow_execution_context.py\<close>, \<^verbatim>\<open>_core/operation_context.py\<close>): the call of one tool with its trace, its cache entry and
    its run. Traces live in a store; \<open>trace_json\<close> follows it with the number of traces as its depth, which is enough
    because children come after their parent in the store.
  \<^item> \<open>Executor\<close> (\<open>_exec\<close> of \<^verbatim>\<open>executor/flow_executor.py\<close>, \<^verbatim>\<open>executor/_result.py\<close>): one line. The locale \<open>line_runner\<close> says what
    the executor needs of the nodes: that they leave the run of the line alone; it is interpreted on nodes
    run in their contexts (\<open>run_line_nodes\<close>).
  \<^item> \<open>Bulk\<close>, \<open>LinePool\<close>, \<open>BulkRuns\<close> (the entry points of \<^verbatim>\<open>executor/flow_executor.py\<close>, \<^verbatim>\<open>_core/metric_logger.py\<close>,
    \<^verbatim>\<open>executor/_line_execution_process_pool.py\<close>): aggregation, a batch, and the pool of processes as the step relation
    \<open>pool_step\<close>. Time is the number of seconds a thread has waited for an answer; the pool ends because a line either
    answers or times out, by the lexicographic measure of the lines left and the messages and seconds left.

  \<^item> \<open>ToolInterface\<close> (\<^verbatim>\<open>_core/tool.py\<close>, \<^verbatim>\<open>_core/tool_meta_generator.py\<close>, \<^verbatim>\<open>_utils/tool_utils.py\<close>, the registries of
    \<^verbatim>\<open>_core/tools_manager.py\<close>): what a function or a class of tools declares, and the tools made of Python files and templates.
    What Python reflects of a module is the record \<open>py_module\<close>; running its text is a parameter.
  \<^item> \<open>Json\<close>: \<open>json.dumps\<close> on plain values and its round trip with the \<open>json.loads\<close> of \<open>PyConv\<close>. \<open>Connections\<close>,
    \<open>ConnectionStore\<close> (\<^verbatim>\<open>_sdk/entities/_connection.py\<close>, \<^verbatim>\<open>_sdk/_utils.py\<close>, \<^verbatim>\<open>_sdk/_orm/connection.py\<close>,
    \<^verbatim>\<open>_sdk/operations/_connection_operations.py\<close>): connections of the SDK, the encryption of their secrets, the table that keeps
    them and the references to them in settings. The cipher and the keyring are parameters; the round trip through the
    table rests on decryption undoing encryption under the same key, and loses the module a connection named.
  \<^item> \<open>ConnectionManager\<close> (\<^verbatim>\<open>_core/connection_manager.py\<close>): the connections of an execution and the list of secrets for scrubbing.
    \<open>ToolResolver\<close> (\<^verbatim>\<open>executor/_tool_resolver.py\<close>, the loading part of \<^verbatim>\<open>_core/tools_manager.py\<close>): the callable, the definition
    and the converted inputs of a node. \<open>FlowLoading\<close> (\<open>create\<close>, \<open>__init__\<close> and \<open>load_and_exec_node\<close> of
    \<^verbatim>\<open>executor/flow_executor.py\<close>): an executor made of a flow, and a single node; its lemmas put the resolver, the validator
    and the tools manager together.
  \<^item> \<open>SdkRuns\<close> (\<^verbatim>\<open>_sdk/_orm/run_info.py\<close>, \<^verbatim>\<open>_sdk/_orm/retry.py\<close>, \<^verbatim>\<open>_sdk/entities/_run.py\<close>,
    \<^verbatim>\<open>_sdk/operations/_run_operations.py\<close>): the table of runs, whose state has the list of the next sessions that find the
    database locked, its retried operations, and the run entity. \<open>RunSubmission\<close> (\<^verbatim>\<open>_sdk/operations/_run_submitter.py\<close>,
    \<open>dump_exception\<close> of \<^verbatim>\<open>_sdk/operations/_local_storage_operations.py\<close>): variants and connections written into a flow, and a bulk
    run from its checks to its row; the engine and the files are parameters of the record \<open>submitter\<close>.
  \<^item> \<open>Serving\<close> (\<^verbatim>\<open>_sdk/_serving/\<close>): a request from its body to a response in JSON or as events, with the
    statuses of errors and the swagger description; it calls the executor of \<open>Bulk\<close>. \<open>ChatPrompt\<close>
    (\<^verbatim>\<open>src/src/promptflow-tools/promptflow/tools/common.py\<close>): the chat messages of a prompt, where \<open>split_chat\<close> is the regular
    expression as a recogniser whose recursion ends because a separator is not empty, and the retries of a call, whose loop
    runs at most once more than there are tries and ends with an error of the engine, or a bare one where the delay asked for is
    no finite time. \<open>FlowTests\<close> (\<^verbatim>\<open>_sdk/operations/_test_submitter.py\<close>): the inputs of a
    test of a flow or a node, and chats, whose loop ends with the lines the user types.

  This theory holds what spans components: a validated flow handed to the scheduler.

  \<^bold>\<open>Locales.\<close> \<open>node_runner\<close> (a node depends on the outputs it refers to, interpreted on \<open>exec_single_node\<close>),
  \<open>line_runner\<close> (on the nodes of a line), \<open>cache_storage\<close> (what the cache manager needs of a storage; on the local storage over
  any library that is a \<open>dataset_table\<close>, which rows in memory are), \<open>keyed_table\<close> (a row that is put is found under
  its key and no other key is touched; on the table of the connections), \<open>node_resolver\<close> (on
  \<open>resolve_tool_by_node\<close>) and \<open>database_attempt\<close> (an attempt that a locked database leaves without effect is retried as if it had
  not been made; on the sessions that add, read, list and update rows of runs).

  \<^bold>\<open>Not modelled.\<close> Reading YAML, schemas and Python from files (a flow, a connection or a module is given as what reading it
  gives), the SQL engine and the operating system processes below the modelled storage and pool, a queue of lines that gives
  none for a second although it has some, log messages about progress,
  the rest of the SDK and the command line (\<^verbatim>\<open>_sdk/\<close>, \<^verbatim>\<open>_cli/\<close>: schemas, visualisation, building), the clients of the cloud service
  (\<^verbatim>\<open>azure/\<close>, whose \<^verbatim>\<open>_restclient\<close> is generated), and the other built-in tools, which call external services. Floats are decimals
  without rounding; sums of floats are outside the model.
\<close>

section \<open>Validation and scheduling together\<close>

lemma topo_ordered_filter: "topo_ordered ns \<Longrightarrow> topo_ordered (filter P ns)"
  by (induction ns) (auto simp: list_all_iff)

text \<open>C1. For a validated flow, scheduling its normal nodes ends within a bounded number of steps, whatever the
  interleaving, with outputs or an exception, and the outputs are those of evaluating them in the order of the validated flow,
  unless one of them refers to an aggregation node: the validation accepts such a flow, and the scheduler never returns.\<close>

theorem validated_flow_scheduled:
  assumes "validate_nodes_topology f = Inr g" "0 < c" "ns = batch_nodes g"
  shows "if \<forall>n\<in>set ns. \<forall>k\<in>set (dep_names n). k \<in> node_name ` set ns
    then (\<forall>k e. (sched_step (exec_single_node tools fins) c ^^ k) (execute_start c ns) e \<longrightarrow> k \<le> 4 * length ns + 1 \<and>
        ((\<exists>e'. sched_step (exec_single_node tools fins) c e e') \<or> (\<exists>outs. e = Returned outs) \<or> (\<exists>x. e = Raised x))) \<and>
      (\<forall>outs. sched_reach (exec_single_node tools fins) c ns (Returned outs) \<longrightarrow>
        (\<exists>os. run_in_order (exec_single_node tools fins) ns [] = Inr os \<and> map_of os = map_of outs))
    else (\<forall>outs. \<not> sched_reach (exec_single_node tools fins) c ns (Returned outs))"
proof -
  from assms(1) have v: "distinct (map node_name (flow_nodes f))" "ensure_nodes_order f = Inr g"
    by (simp_all add: validate_nodes_topology_Inr)
  from ensure_nodes_order_sound [OF v] have g: "topo_ordered (flow_nodes g)" "set (flow_nodes g) = set (flow_nodes f)" "refs_closed (flow_nodes f)"
    by simp_all
  have topo: "topo_ordered ns" using g(1) by (simp add: assms(3) batch_nodes_def topo_ordered_filter)
  have named: "refs_named n" if "n \<in> set ns" for n
    using that g(2,3) by (auto simp: assms(3) batch_nodes_def refs_closed_def list_all_iff)
  show ?thesis
  proof (cases "\<forall>n\<in>set ns. \<forall>k\<in>set (dep_names n). k \<in> node_name ` set ns")
    case True
    then have closed: "refs_closed ns" using named by (auto simp: refs_closed_def list_all_iff)
    note ok = topo refl topo_ordered_distinct [OF topo] closed
    from True show ?thesis
      using tasks.run_ends [OF _ assms(2) ok] tasks.returned_outputs [OF _ assms(2) ok] by simp
  next
    case False
    then obtain n k where "n \<in> set ns" "k \<in> set (dep_names n)" "k \<notin> node_name ` set ns" by blast
    from tasks.never_returns [OF _ assms(2) topo refl topo_ordered_distinct [OF topo] this] False show ?thesis by auto
  qed
qed

definition demo_stuck_flow :: flow where
  "demo_stuck_flow = demo_flow [(demo_node ''g'' [])\<lparr>node_aggregation := True\<rparr>,
     demo_node ''n'' [(''x'', node_reference ''g'' ''output'' [])]]"

theorem validated_flow_scheduled_witness:
  "validate_nodes_topology demo_stuck_flow = Inr demo_stuck_flow \<and>
   (\<forall>outs. \<not> sched_reach (exec_single_node demo_tools []) 2 (batch_nodes demo_stuck_flow) (Returned outs)) \<and>
   (\<exists>g os. validate_nodes_topology demo_flow_pair = Inr g \<and> run_in_order (exec_single_node demo_tools demo_inputs) (batch_nodes g) [] = Inr os)"
proof -
  have v: "validate_nodes_topology demo_stuck_flow = Inr demo_stuck_flow" by code_simp
  have "dep_names (hd (batch_nodes demo_stuck_flow)) = [''g'']" "map node_name (batch_nodes demo_stuck_flow) = [''n'']" by code_simp+
  then have "\<not> (\<forall>n\<in>set (batch_nodes demo_stuck_flow). \<forall>k\<in>set (dep_names n). k \<in> node_name ` set (batch_nodes demo_stuck_flow))"
    by (cases "batch_nodes demo_stuck_flow") auto
  with validated_flow_scheduled [OF v, of 2] have stuck:
    "\<forall>outs. \<not> sched_reach (exec_single_node demo_tools []) 2 (batch_nodes demo_stuck_flow) (Returned outs)" by simp
  let ?g = "demo_flow_pair\<lparr>flow_nodes := rev demo_pair, flow_node_variants := []\<rparr>"
  have g: "validate_nodes_topology demo_flow_pair = Inr ?g" by code_simp
  have ns: "batch_nodes ?g = rev demo_pair" by code_simp
  have closed: "\<forall>n\<in>set (rev demo_pair). \<forall>k\<in>set (dep_names n). k \<in> node_name ` set (rev demo_pair)" by code_simp
  have "schedule (exec_single_node demo_tools demo_inputs) 2
     [Begin, End ''a'', Turn [''a''], Begin, End ''b'', Turn [''b''], Exit] (execute_start 2 (rev demo_pair)) = Some (Returned demo_outputs)"
    by code_simp
  note reach = schedule_reach [OF this]
  from validated_flow_scheduled [OF g, of 2 "rev demo_pair" demo_tools demo_inputs] ns closed reach
  have "\<exists>os. run_in_order (exec_single_node demo_tools demo_inputs) (rev demo_pair) [] = Inr os" by auto
  with v stuck g ns show ?thesis by auto
qed

end
